(* ===== verification/Prelude.thy ===== *)
theory Prelude
  imports Complex_Main
begin

text \<open>
  What every theory of the development shares: the collections the component theories put
  their facts in, the rendering of numbers in the code's template strings, and the runs of
  a machine over a list of inputs, with the two interfaces (\<open>preserved_machine\<close>,
  \<open>budgeted_machine\<close>) from which every statement about a whole run is derived.

  Instants and durations are JavaScript numbers holding whole milliseconds; the model keeps
  them as \<^typ>\<open>int\<close>. The redelivery growth factor may be a decimal fraction, so the delays
  computed from it are \<^typ>\<open>rat\<close>. Both are exact where the doubles of the code are exact.
\<close>

named_theorems machine_defs \<open>definitions unfolded to compute one transition of the order machine\<close>

section \<open>Numbers in template strings\<close>

definition digitChar :: "nat \<Rightarrow> char" where
  "digitChar n = ''0123456789abcdef'' ! n"

fun show_nat :: "nat \<Rightarrow> string" where
  "show_nat n =
     (if n < 10 then [digitChar n] else show_nat (n div 10) @ [digitChar (n mod 10)])"

declare show_nat.simps [simp del]

lemma show_nat_eval:
  "n < 10 \<Longrightarrow> show_nat n = [digitChar n]"
  "10 \<le> n \<Longrightarrow> show_nat n = show_nat (n div 10) @ [digitChar (n mod 10)]"
  by (simp_all add: show_nat.simps [of n])

definition show_int :: "int \<Rightarrow> string" where
  "show_int i = (if i < 0 then ''-'' @ show_nat (nat (- i)) else show_nat (nat i))"

text \<open>The decimal digits of a number give the number back.\<close>

definition digitValue :: "char \<Rightarrow> nat" where
  "digitValue c = length (takeWhile (\<lambda>d. d \<noteq> c) ''0123456789'')"

definition read_nat :: "string \<Rightarrow> nat" where
  "read_nat s = foldl (\<lambda>acc c. 10 * acc + digitValue c) 0 s"

lemma digitValue_digitChar:
  assumes "n < 10"
  shows "digitValue (digitChar n) = n"
proof -
  have "n \<in> {0, 1, 2, 3, 4, 5, 6, 7, 8, 9}" using assms by auto
  then show ?thesis by (auto simp: digitValue_def digitChar_def)
qed

lemma read_show_nat: "read_nat (show_nat n) = n"
proof (induction n rule: less_induct)
  case (less n)
  show ?case
  proof (cases "n < 10")
    case True
    then show ?thesis by (simp add: show_nat_eval(1) read_nat_def digitValue_digitChar)
  next
    case False
    then have "read_nat (show_nat (n div 10)) = n div 10" by (intro less.IH) simp
    with False show ?thesis
      by (simp add: show_nat_eval(2) read_nat_def digitValue_digitChar)
  qed
qed

lemma show_nat_inject [simp]: "show_nat m = show_nat n \<longleftrightarrow> m = n"
  by (metis read_show_nat)

section \<open>Options and lists\<close>

lemma find_singleton [simp]: "find P [x] = (if P x then Some x else None)"
  by simp

section \<open>Runs of a machine\<close>

text \<open>
  A machine answers an input with a next state and its outputs, or refuses it. A run feeds
  it a list of inputs; a refused input leaves the state as it was. The log holds the
  accepted inputs, each with the outputs it produced.
\<close>

type_synonym ('s, 'e, 'o) machine = "'s \<Rightarrow> 'e \<Rightarrow> ('s \<times> 'o list) option"
type_synonym ('e, 'o) log = "('e \<times> 'o list) list"

primrec run_machine :: "('s, 'e, 'o) machine \<Rightarrow> 's \<Rightarrow> 'e list \<Rightarrow> 's \<times> ('e, 'o) log" where
  "run_machine step s [] = (s, [])"
| "run_machine step s (e # es) =
     (case step s e of
        None \<Rightarrow> run_machine step s es
      | Some (s', outs) \<Rightarrow>
          (let (t, entries) = run_machine step s' es in (t, (e, outs) # entries)))"

definition logged :: "('e \<times> 'o list \<Rightarrow> nat) \<Rightarrow> ('e, 'o) log \<Rightarrow> nat" where
  "logged weight entries = sum_list (map weight entries)"

lemma logged_simps [simp]:
  "logged weight [] = 0"
  "logged weight (x # entries) = weight x + logged weight entries"
  by (simp_all add: logged_def)

text \<open>An invariant that every accepted step keeps holds after every run.\<close>

locale preserved_machine =
  fixes step :: "('s, 'e, 'o) machine"
    and inv :: "'s \<Rightarrow> bool"
  assumes keeps: "inv s \<Longrightarrow> step s e = Some (s', outs) \<Longrightarrow> inv s'"
begin

lemma run_keeps: "inv s \<Longrightarrow> inv (fst (run_machine step s es))"
proof (induction es arbitrary: s)
  case Nil
  then show ?case by simp
next
  case (Cons e es)
  show ?case
  proof (cases "step s e")
    case None
    with Cons show ?thesis by simp
  next
    case (Some r)
    then obtain s' outs where step: "step s e = Some (s', outs)"
      by (cases r) simp
    have "inv s'" using Cons.prems step by (rule keeps)
    then have "inv (fst (run_machine step s' es))" by (rule Cons.IH)
    with step show ?thesis by (simp add: case_prod_beta)
  qed
qed

end

text \<open>
  A quantity that each accepted step pays for: what a log entry costs, plus what is left
  afterwards, never exceeds what was there before plus what the entry brings in.
\<close>

locale budgeted_machine = preserved_machine step inv
  for step :: "('s, 'e, 'o) machine" and inv :: "'s \<Rightarrow> bool" +
  fixes cost :: "'e \<times> 'o list \<Rightarrow> nat"
    and grant :: "'e \<times> 'o list \<Rightarrow> nat"
    and budget :: "'s \<Rightarrow> nat"
  assumes pays: "inv s \<Longrightarrow> step s e = Some (s', outs) \<Longrightarrow>
    cost (e, outs) + budget s' \<le> budget s + grant (e, outs)"
begin

lemma run_pays:
  "inv s \<Longrightarrow> run_machine step s es = (t, entries) \<Longrightarrow>
   logged cost entries + budget t \<le> budget s + logged grant entries"
proof (induction es arbitrary: s entries)
  case Nil
  then show ?case by simp
next
  case (Cons e es)
  show ?case
  proof (cases "step s e")
    case None
    with Cons show ?thesis by simp
  next
    case (Some r)
    then obtain s' outs where step: "step s e = Some (s', outs)"
      by (cases r) simp
    obtain rest where rest: "run_machine step s' es = (t, rest)"
      and entries: "entries = (e, outs) # rest"
      using Cons.prems(2) step by (auto split: prod.splits)
    have "inv s'" using Cons.prems(1) step by (rule keeps)
    then have "logged cost rest + budget t \<le> budget s' + logged grant rest"
      using rest by (rule Cons.IH)
    with pays [OF Cons.prems(1) step] entries show ?thesis by simp
  qed
qed

end

end
