(* ===== verification/Order_Model.thy ===== *)
theory Order_Model
  imports Prelude
begin

text \<open>
  The vocabulary of the order machine, \<^verbatim>\<open>packages/core/src/orders/model.ts\<close>: what an order
  can be, what can happen to it, and what the gateway is asked to do about it. A union of
  string literals is a datatype with one constructor per literal, an object type is a
  record, \<open>null\<close> is \<^const>\<open>None\<close>. Every constant list of the code is the list of the
  constructors in the code's order.
\<close>

section \<open>States\<close>

datatype OrderState =
    Created | Quoted | AwaitingConfirmation | Confirmed | Paid | Dispatched | Fulfilled
  | Delivered | DeliveredUnpaid | RefundDue | Refunded | Failed | Rejected | Declined
  | Expired | Cancelled

definition ORDER_STATES :: "OrderState list" where
  "ORDER_STATES =
     [Created, Quoted, AwaitingConfirmation, Confirmed, Paid, Dispatched, Fulfilled,
      Delivered, DeliveredUnpaid, RefundDue, Refunded, Failed, Rejected, Declined,
      Expired, Cancelled]"

definition OPEN_ORDER_STATES :: "OrderState list" where
  "OPEN_ORDER_STATES =
     [Created, Quoted, AwaitingConfirmation, Confirmed, Paid, Dispatched, Fulfilled,
      RefundDue, DeliveredUnpaid]"

definition CLOSED_ORDER_STATES :: "OrderState list" where
  "CLOSED_ORDER_STATES =
     [Delivered, Refunded, Failed, Rejected, Declined, Expired, Cancelled]"

definition isOpen :: "OrderState \<Rightarrow> bool" where
  "isOpen s = List.member OPEN_ORDER_STATES s"

text \<open>The literal a state is written as, for the template strings.\<close>

fun stateName :: "OrderState \<Rightarrow> string" where
  "stateName Created = ''created''"
| "stateName Quoted = ''quoted''"
| "stateName AwaitingConfirmation = ''awaiting_confirmation''"
| "stateName Confirmed = ''confirmed''"
| "stateName Paid = ''paid''"
| "stateName Dispatched = ''dispatched''"
| "stateName Fulfilled = ''fulfilled''"
| "stateName Delivered = ''delivered''"
| "stateName DeliveredUnpaid = ''delivered_unpaid''"
| "stateName RefundDue = ''refund_due''"
| "stateName Refunded = ''refunded''"
| "stateName Failed = ''failed''"
| "stateName Rejected = ''rejected''"
| "stateName Declined = ''declined''"
| "stateName Expired = ''expired''"
| "stateName Cancelled = ''cancelled''"

section \<open>Modes and money\<close>

datatype SettleTiming = OnPurchase | AfterFulfillment

record OrderMode =
  needsConfirmation :: bool
  settle :: SettleTiming

datatype FulfillmentMode = Sync | Async | Confirm

fun modeOf :: "FulfillmentMode \<Rightarrow> OrderMode" where
  "modeOf Sync = \<lparr>needsConfirmation = False, settle = AfterFulfillment\<rparr>"
| "modeOf Async = \<lparr>needsConfirmation = False, settle = OnPurchase\<rparr>"
| "modeOf Confirm = \<lparr>needsConfirmation = True, settle = OnPurchase\<rparr>"

datatype PaymentStage =
    PayNone | PayVerified | PaySettling | PayOutcomeUnknown | PaySettled | PaySettleFailed

record Price =
  amount :: string
  currency :: string
  asOf :: int

datatype QuoteSource = CardSnapshot | MerchantAnswered

datatype PaymentVerificationFailure = BadSignature | InsufficientFunds | PriceStale

section \<open>Deadlines and policies\<close>

datatype DeadlineKind =
    QuoteResponse | QuoteExpiry | SettleResponse | ConfirmationResponse
  | PaymentAfterConfirmation | SyncResponse | AsyncFulfillment

definition DEADLINE_KINDS :: "DeadlineKind list" where
  "DEADLINE_KINDS =
     [QuoteResponse, QuoteExpiry, SettleResponse, ConfirmationResponse,
      PaymentAfterConfirmation, SyncResponse, AsyncFulfillment]"

fun deadlineName :: "DeadlineKind \<Rightarrow> string" where
  "deadlineName QuoteResponse = ''quote_response''"
| "deadlineName QuoteExpiry = ''quote_expiry''"
| "deadlineName SettleResponse = ''settle_response''"
| "deadlineName ConfirmationResponse = ''confirmation_response''"
| "deadlineName PaymentAfterConfirmation = ''payment_after_confirmation''"
| "deadlineName SyncResponse = ''sync_response''"
| "deadlineName AsyncFulfillment = ''async_fulfillment''"

record DeadlinePolicy =
  quoteResponseMs :: int
  quoteTtlMs :: int
  settleResponseMs :: int
  syncResponseMs :: int
  paymentAfterConfirmationMs :: int
  confirmationResponseMs :: int
  asyncFulfillmentMs :: int

record RedeliveryPolicy =
  baseDelayMs :: int
  factor :: rat
  maxDelayMs :: int
  maxAttempts :: nat

record OrderPolicy =
  deadlinePolicy :: DeadlinePolicy
  redelivery :: RedeliveryPolicy

record Deadline =
  deadlineKind :: DeadlineKind
  dueAt :: int

section \<open>Closures, answers and effects\<close>

datatype Closure =
    UnavailableClosure
  | QuoteSilentClosure
  | PaymentNotVerifiedClosure PaymentVerificationFailure
  | PaymentNotSettledClosure
  | PaymentOutcomeUnknownClosure
  | MerchantRefusedClosure string string
  | DeadlineExpiredClosure DeadlineKind
  | MerchantDepartedClosure

datatype MerchantEvent =
    RefundDueEvent | UnpaidAfterConfirmationEvent | PaymentFailedAfterDeliveryEvent

datatype MerchantAnswerResult =
    AnswerAccepted | AnswerDelivered | AnswerAlreadyDelivered | AnswerDebtClosedByDelivery
  | AnswerRefused | AnswerPurchaseAlreadyClosed

datatype MerchantAnswerError =
    RefundAlreadySettled | OrderAlreadyClosed | NotApplicableInMode

datatype MerchantAnswer =
    AnswerOk MerchantAnswerResult
  | AnswerError MerchantAnswerError bool \<comment> \<open>the flag is \<open>retryable\<close>\<close>

datatype Effect =
    RequestQuote
  | VerifyPayment
  | ExecutePayment
  | InvitePayment
  | DispatchConfirmationRequest
  | DispatchOrder
  | RedeliverOrder nat rat \<comment> \<open>attempt and delay in milliseconds\<close>
  | ReleaseGoodsToAgent
  | IssueReceipt
  | HoldFulfillment
  | MarkRefundDue Closure
  | EmitMerchantEvent MerchantEvent
  | AnswerMerchant MerchantAnswer

definition effectsOnQuoted :: "OrderMode \<Rightarrow> Effect list" where
  "effectsOnQuoted mode =
     (if needsConfirmation mode then [DispatchConfirmationRequest] else [VerifyPayment])"

section \<open>Events\<close>

text \<open>
  \<open>StateEvent\<close> is the code's \<open>Exclude<OrderEvent, deadline_expired>\<close>, so that the functions
  of one state are total without a default branch, as the code's \<open>assertNever\<close> demands.
  The first argument of every event is the instant \<open>at\<close>. The event \<open>quote_answered\<close> is a
  union of its own, split on \<open>available\<close>.
\<close>

datatype StateEvent =
    QuoteAnswered int Price
  | QuoteAnsweredUnavailable int
  | QuoteSilent int
  | PaymentVerified int
  | PaymentVerificationFailed int PaymentVerificationFailure
  | PaymentSettled int
  | PaymentSettleFailed int
  | PurchaseRepeated int
  | ConfirmationDispatched int
  | OrderDispatched int
  | HandlerAccepted int
  | HandlerDelivered int
  | HandlerRefused int string string
  | HandlerUndelivered int
  | DeliverCalled int
  | RefuseCalled int string string
  | RefundSettled int
  | MerchantDeparted int

datatype OrderEvent =
    Happened StateEvent
  | DeadlineExpired int DeadlineKind

datatype OrderEventKind =
    KQuoteAnswered | KQuoteSilent | KPaymentVerified | KPaymentVerificationFailed
  | KPaymentSettled | KPaymentSettleFailed | KPurchaseRepeated | KConfirmationDispatched
  | KOrderDispatched | KHandlerAccepted | KHandlerDelivered | KHandlerRefused
  | KHandlerUndelivered | KDeliverCalled | KRefuseCalled | KRefundSettled
  | KMerchantDeparted | KDeadlineExpired

definition ORDER_EVENT_KINDS :: "OrderEventKind list" where
  "ORDER_EVENT_KINDS =
     [KQuoteAnswered, KQuoteSilent, KPaymentVerified, KPaymentVerificationFailed,
      KPaymentSettled, KPaymentSettleFailed, KPurchaseRepeated, KConfirmationDispatched,
      KOrderDispatched, KHandlerAccepted, KHandlerDelivered, KHandlerRefused,
      KHandlerUndelivered, KDeliverCalled, KRefuseCalled, KRefundSettled,
      KMerchantDeparted, KDeadlineExpired]"

fun stateEventKind :: "StateEvent \<Rightarrow> OrderEventKind" where
  "stateEventKind (QuoteAnswered t p) = KQuoteAnswered"
| "stateEventKind (QuoteAnsweredUnavailable t) = KQuoteAnswered"
| "stateEventKind (QuoteSilent t) = KQuoteSilent"
| "stateEventKind (PaymentVerified t) = KPaymentVerified"
| "stateEventKind (PaymentVerificationFailed t r) = KPaymentVerificationFailed"
| "stateEventKind (PaymentSettled t) = KPaymentSettled"
| "stateEventKind (PaymentSettleFailed t) = KPaymentSettleFailed"
| "stateEventKind (PurchaseRepeated t) = KPurchaseRepeated"
| "stateEventKind (ConfirmationDispatched t) = KConfirmationDispatched"
| "stateEventKind (OrderDispatched t) = KOrderDispatched"
| "stateEventKind (HandlerAccepted t) = KHandlerAccepted"
| "stateEventKind (HandlerDelivered t) = KHandlerDelivered"
| "stateEventKind (HandlerRefused t c m) = KHandlerRefused"
| "stateEventKind (HandlerUndelivered t) = KHandlerUndelivered"
| "stateEventKind (DeliverCalled t) = KDeliverCalled"
| "stateEventKind (RefuseCalled t c m) = KRefuseCalled"
| "stateEventKind (RefundSettled t) = KRefundSettled"
| "stateEventKind (MerchantDeparted t) = KMerchantDeparted"

fun eventKind :: "OrderEvent \<Rightarrow> OrderEventKind" where
  "eventKind (Happened e) = stateEventKind e"
| "eventKind (DeadlineExpired t d) = KDeadlineExpired"

fun eventKindName :: "OrderEventKind \<Rightarrow> string" where
  "eventKindName KQuoteAnswered = ''quote_answered''"
| "eventKindName KQuoteSilent = ''quote_silent''"
| "eventKindName KPaymentVerified = ''payment_verified''"
| "eventKindName KPaymentVerificationFailed = ''payment_verification_failed''"
| "eventKindName KPaymentSettled = ''payment_settled''"
| "eventKindName KPaymentSettleFailed = ''payment_settle_failed''"
| "eventKindName KPurchaseRepeated = ''purchase_repeated''"
| "eventKindName KConfirmationDispatched = ''confirmation_dispatched''"
| "eventKindName KOrderDispatched = ''order_dispatched''"
| "eventKindName KHandlerAccepted = ''handler_accepted''"
| "eventKindName KHandlerDelivered = ''handler_delivered''"
| "eventKindName KHandlerRefused = ''handler_refused''"
| "eventKindName KHandlerUndelivered = ''handler_undelivered''"
| "eventKindName KDeliverCalled = ''deliver_called''"
| "eventKindName KRefuseCalled = ''refuse_called''"
| "eventKindName KRefundSettled = ''refund_settled''"
| "eventKindName KMerchantDeparted = ''merchant_departed''"
| "eventKindName KDeadlineExpired = ''deadline_expired''"

section \<open>The order\<close>

record OrderTimestamps =
  createdAt :: int
  quotedAt :: "int option"
  confirmationRequestedAt :: "int option"
  confirmedAt :: "int option"
  settleStartedAt :: "int option"
  paidAt :: "int option"
  dispatchedAt :: "int option"

record DispatchRecord =
  attempts :: nat
  accepted :: bool

record Order =
  orderId :: string
  state :: OrderState
  mode :: OrderMode
  policy :: OrderPolicy
  payment :: PaymentStage
  cardPrice :: Price
  price :: "Price option"
  quoteSource :: "QuoteSource option"
  dispatch :: DispatchRecord
  heldFulfillment :: bool
  closure :: "Closure option"
  test :: bool
  timestamps :: OrderTimestamps

section \<open>What a transition comes to\<close>

datatype TransitionRejectionCode =
    EventNotApplicable | DeadlineNotArmed | DeadlineNotYetDue | DeliveryBeforePayment
  | SettleInFlight | CurrencyChanged

record TransitionRejection =
  rejectionCode :: TransitionRejectionCode
  retryable :: bool
  rejectedState :: OrderState
  rejectedEvent :: OrderEventKind
  rejectionMessage :: string

datatype TransitionResult =
    Moved Order "Effect list"
  | Refused TransitionRejection

section \<open>The lists are the types\<close>

lemma isOpen_simps [simp]:
  "isOpen Created" "isOpen Quoted" "isOpen AwaitingConfirmation" "isOpen Confirmed"
  "isOpen Paid" "isOpen Dispatched" "isOpen Fulfilled" "isOpen RefundDue"
  "isOpen DeliveredUnpaid" "\<not> isOpen Delivered" "\<not> isOpen Refunded" "\<not> isOpen Failed"
  "\<not> isOpen Rejected" "\<not> isOpen Declined" "\<not> isOpen Expired" "\<not> isOpen Cancelled"
  by (simp_all add: isOpen_def OPEN_ORDER_STATES_def)

lemma order_states_complete: "set ORDER_STATES = UNIV \<and> distinct ORDER_STATES"
  by (auto simp: ORDER_STATES_def) (metis OrderState.exhaust)

lemma event_kinds_complete: "set ORDER_EVENT_KINDS = UNIV \<and> distinct ORDER_EVENT_KINDS"
  by (auto simp: ORDER_EVENT_KINDS_def) (metis OrderEventKind.exhaust)

lemma deadline_kinds_complete: "set DEADLINE_KINDS = UNIV \<and> distinct DEADLINE_KINDS"
  by (auto simp: DEADLINE_KINDS_def) (metis DeadlineKind.exhaust)

lemma isOpen_iff: "isOpen s \<longleftrightarrow> s \<in> set OPEN_ORDER_STATES"
  by (simp add: isOpen_def)

lemma closed_states_are_not_open: "s \<in> set CLOSED_ORDER_STATES \<longleftrightarrow> \<not> isOpen s"
  by (cases s) (simp_all add: CLOSED_ORDER_STATES_def)

lemma open_closed_partition:
  "set OPEN_ORDER_STATES \<union> set CLOSED_ORDER_STATES = set ORDER_STATES
   \<and> set OPEN_ORDER_STATES \<inter> set CLOSED_ORDER_STATES = {}"
  using closed_states_are_not_open isOpen_iff order_states_complete by blast

lemma eventKindName_inject [simp]: "eventKindName k = eventKindName l \<longleftrightarrow> k = l"
  by (cases k; cases l) simp_all

lemma stateName_inject [simp]: "stateName s = stateName t \<longleftrightarrow> s = t"
  by (cases s; cases t) simp_all

lemma stateEventKind_not_deadline [simp]: "stateEventKind e \<noteq> KDeadlineExpired"
  by (cases e) simp_all

end
