(* ===== verification/Order_Deadlines.thy ===== *)
theory Order_Deadlines
  imports Order_Model
begin

text \<open>
  \<^verbatim>\<open>packages/core/src/orders/deadlines.ts\<close> and \<^verbatim>\<open>redelivery.ts\<close>: which clocks are running
  on an order, and whether an undelivered order gets another delivery. The lemmas say that
  at most one clock runs, when one runs, and what a redelivery decision promises.
\<close>

section \<open>Clocks\<close>

definition fulfillmentDeadline :: "Order \<Rightarrow> Deadline list" where
  "fulfillmentDeadline order =
     (case paidAt (timestamps order) of
        None \<Rightarrow> []
      | Some paid \<Rightarrow>
          (let p = deadlinePolicy (policy order) in
           if settle (mode order) = AfterFulfillment
           then [\<lparr>deadlineKind = SyncResponse, dueAt = paid + syncResponseMs p\<rparr>]
           else [\<lparr>deadlineKind = AsyncFulfillment, dueAt = paid + asyncFulfillmentMs p\<rparr>]))"

definition deadlines :: "Order \<Rightarrow> Deadline list" where
  "deadlines order =
     (let p = deadlinePolicy (policy order); ts = timestamps order in
      if payment order = PaySettling then
        [\<lparr>deadlineKind = SettleResponse,
          dueAt = (case settleStartedAt ts of
                     None \<Rightarrow> createdAt ts
                   | Some started \<Rightarrow> started + settleResponseMs p)\<rparr>]
      else
        (case state order of
           Created \<Rightarrow>
             [\<lparr>deadlineKind = QuoteResponse, dueAt = createdAt ts + quoteResponseMs p\<rparr>]
         | Quoted \<Rightarrow>
             (if payment order = PayNone then
                (case quotedAt ts of
                   None \<Rightarrow> []
                 | Some q \<Rightarrow> [\<lparr>deadlineKind = QuoteExpiry, dueAt = q + quoteTtlMs p\<rparr>])
              else [])
         | AwaitingConfirmation \<Rightarrow>
             (case confirmationRequestedAt ts of
                None \<Rightarrow> []
              | Some c \<Rightarrow>
                  [\<lparr>deadlineKind = ConfirmationResponse,
                    dueAt = c + confirmationResponseMs p\<rparr>])
         | Confirmed \<Rightarrow>
             (if payment order = PayNone then
                (case confirmedAt ts of
                   None \<Rightarrow> []
                 | Some c \<Rightarrow>
                     [\<lparr>deadlineKind = PaymentAfterConfirmation,
                       dueAt = c + paymentAfterConfirmationMs p\<rparr>])
              else [])
         | Paid \<Rightarrow> fulfillmentDeadline order
         | Dispatched \<Rightarrow> fulfillmentDeadline order
         | Fulfilled \<Rightarrow> []
         | DeliveredUnpaid \<Rightarrow> []
         | Delivered \<Rightarrow> []
         | RefundDue \<Rightarrow> []
         | Refunded \<Rightarrow> []
         | Failed \<Rightarrow> []
         | Rejected \<Rightarrow> []
         | Declined \<Rightarrow> []
         | Expired \<Rightarrow> []
         | Cancelled \<Rightarrow> []))"

lemma fulfillmentDeadline_length: "length (fulfillmentDeadline order) \<le> 1"
  by (simp add: fulfillmentDeadline_def Let_def split: option.split)

lemma deadlines_at_most_one: "length (deadlines order) \<le> 1"
  using fulfillmentDeadline_length [of order]
  by (cases "state order") (simp_all add: deadlines_def Let_def split: option.split)

text \<open>The handler's \<open>fulfillmentDeadline(order)[0]\<close>: the first element, if there is one.\<close>

definition headDeadline :: "Deadline list \<Rightarrow> Deadline option" where
  "headDeadline ds = (case ds of [] \<Rightarrow> None | d # _ \<Rightarrow> Some d)"

section \<open>Redelivery\<close>

datatype RedeliveryRefusal = AttemptsExhausted | PastDeadline

datatype RedeliveryDecision =
    Retry nat rat \<comment> \<open>attempt and delay in milliseconds\<close>
  | NoRetry RedeliveryRefusal

record RedeliveryQuestion =
  questionAttempts :: nat
  questionNow :: int
  questionDeadlineAt :: "int option"
  questionPolicy :: RedeliveryPolicy

text \<open>
  \<open>Math.max(attempts - 1, 0)\<close> is the subtraction of \<^typ>\<open>nat\<close>, which stops at zero.
\<close>

definition redeliveryDelay :: "RedeliveryPolicy \<Rightarrow> nat \<Rightarrow> rat" where
  "redeliveryDelay p n =
     min (of_int (baseDelayMs p) * factor p ^ (n - 1)) (of_int (maxDelayMs p))"

definition nextRedelivery :: "RedeliveryQuestion \<Rightarrow> RedeliveryDecision" where
  "nextRedelivery q =
     (let p = questionPolicy q; n = questionAttempts q in
      if maxAttempts p \<le> n then NoRetry AttemptsExhausted
      else
        (let delayMs = redeliveryDelay p n in
         if (case questionDeadlineAt q of
               None \<Rightarrow> False
             | Some d \<Rightarrow> of_int d \<le> of_int (questionNow q) + delayMs)
         then NoRetry PastDeadline
         else Retry (n + 1) delayMs))"

text \<open>The delays never shrink from one attempt to the next while the factor is at least 1.\<close>

lemma redeliveryDelay_mono:
  assumes "1 \<le> factor p" and "0 \<le> baseDelayMs p" and "m \<le> n"
  shows "redeliveryDelay p m \<le> redeliveryDelay p n"
proof -
  have "factor p ^ (m - 1) \<le> factor p ^ (n - 1)"
    using assms by (intro power_increasing) auto
  then have "of_int (baseDelayMs p) * factor p ^ (m - 1)
      \<le> of_int (baseDelayMs p) * factor p ^ (n - 1)"
    using assms(2) by (intro mult_left_mono) auto
  then show ?thesis by (auto simp: redeliveryDelay_def min_def)
qed

lemma redeliveryDelay_le_max: "redeliveryDelay p n \<le> of_int (maxDelayMs p)"
  by (simp add: redeliveryDelay_def)

lemma redeliveryDelay_ge_base:
  assumes "1 \<le> factor p" and "0 \<le> baseDelayMs p" and "baseDelayMs p \<le> maxDelayMs p"
  shows "of_int (baseDelayMs p) \<le> redeliveryDelay p n"
proof -
  have "redeliveryDelay p 0 \<le> redeliveryDelay p n"
    using assms by (intro redeliveryDelay_mono) auto
  moreover have "redeliveryDelay p 0 = of_int (baseDelayMs p)"
    using assms(3) by (simp add: redeliveryDelay_def min_def)
  ultimately show ?thesis by simp
qed

lemma nextRedelivery_retry_iff:
  "nextRedelivery q = Retry a d \<longleftrightarrow>
     questionAttempts q < maxAttempts (questionPolicy q) \<and> a = questionAttempts q + 1
     \<and> d = redeliveryDelay (questionPolicy q) (questionAttempts q)
     \<and> (\<forall>due. questionDeadlineAt q = Some due \<longrightarrow> of_int (questionNow q) + d < of_int due)"
  by (auto simp: nextRedelivery_def Let_def split: option.split)

lemma nextRedelivery_exhausted_iff:
  "nextRedelivery q = NoRetry AttemptsExhausted \<longleftrightarrow>
     maxAttempts (questionPolicy q) \<le> questionAttempts q"
  by (auto simp: nextRedelivery_def Let_def split: option.split)

end
