(* ===== verification/Order_Create.thy ===== *)
theory Order_Create
  imports Order_Deadlines
begin

text \<open>
  \<^verbatim>\<open>packages/core/src/orders/create.ts\<close>: the birth of an order and the one guard in front
  of it, whether the merchant is selling.
\<close>

datatype MerchantSelling = SellingOpen | SellingPaused | SellingDeparted

datatype PriceCheck = PriceCheckNone | PriceCheckMerchant

datatype CreateRejection = RejectSellingPaused | RejectMerchantDeparted

record CreateOrderInput =
  inputId :: string
  inputAt :: int
  inputMode :: OrderMode
  inputPolicy :: OrderPolicy
  inputPriceCheck :: PriceCheck
  inputCardPrice :: Price
  inputTest :: bool
  inputSelling :: MerchantSelling

datatype CreateOrderResult =
    Born Order "Effect list"
  | NotBorn CreateRejection string

definition baseOrder :: "CreateOrderInput \<Rightarrow> Order" where
  "baseOrder i =
     \<lparr>orderId = inputId i, state = Created, mode = inputMode i, policy = inputPolicy i,
      payment = PayNone, cardPrice = inputCardPrice i, price = None, quoteSource = None,
      dispatch = \<lparr>attempts = 0, accepted = False\<rparr>, heldFulfillment = False,
      closure = None, test = inputTest i,
      timestamps =
        \<lparr>createdAt = inputAt i, quotedAt = None, confirmationRequestedAt = None,
         confirmedAt = None, settleStartedAt = None, paidAt = None, dispatchedAt = None\<rparr>\<rparr>"

definition createOrder :: "CreateOrderInput \<Rightarrow> CreateOrderResult" where
  "createOrder i =
     (case inputSelling i of
        SellingPaused \<Rightarrow>
          NotBorn RejectSellingPaused
            ''this product is not on sale at the moment, so no new order is taken''
      | SellingDeparted \<Rightarrow>
          NotBorn RejectMerchantDeparted ''the merchant has left, so no new order is taken''
      | SellingOpen \<Rightarrow>
          (let base = baseOrder i in
           if inputPriceCheck i = PriceCheckMerchant then Born base [RequestQuote]
           else
             Born (base\<lparr>state := Quoted, price := Some (inputCardPrice i),
                        quoteSource := Some CardSnapshot,
                        timestamps := (timestamps base)\<lparr>quotedAt := Some (inputAt i)\<rparr>\<rparr>)
               (effectsOnQuoted (inputMode i))))"

lemma createOrder_born_iff: "(\<exists>order fx. createOrder i = Born order fx) \<longleftrightarrow> inputSelling i = SellingOpen"
  by (simp add: createOrder_def Let_def split: MerchantSelling.split)

lemma createOrder_bornE:
  assumes "createOrder i = Born order fx"
  obtains (asked) "inputPriceCheck i = PriceCheckMerchant" "order = baseOrder i"
      "fx = [RequestQuote]"
    | (snapshot) "inputPriceCheck i = PriceCheckNone"
      "order = (baseOrder i)\<lparr>state := Quoted, price := Some (inputCardPrice i),
         quoteSource := Some CardSnapshot,
         timestamps := (timestamps (baseOrder i))\<lparr>quotedAt := Some (inputAt i)\<rparr>\<rparr>"
      "fx = effectsOnQuoted (inputMode i)"
  using assms
  by (cases "inputPriceCheck i")
    (auto simp: createOrder_def Let_def split: MerchantSelling.splits)

end
