(* ===== verification/Order_Machine.thy ===== *)
theory Order_Machine
  imports Order_Create
begin

text \<open>
  \<^verbatim>\<open>packages/core/src/orders/machine.ts\<close>: the transition function, one definition per
  function of the file. Every \<open>fromState\<close> is total over the events other than an expiry,
  with the code's cases in the code's order. The instant of an event is the argument \<open>t\<close>.
\<close>

section \<open>The answers this file gives\<close>

definition ok :: "Order \<Rightarrow> Effect list \<Rightarrow> TransitionResult" where
  [machine_defs]: "ok order effects = Moved order effects"

definition isRetryable :: "TransitionRejectionCode \<Rightarrow> bool" where
  "isRetryable code = (code = SettleInFlight)"

definition reject ::
  "Order \<Rightarrow> OrderEvent \<Rightarrow> TransitionRejectionCode \<Rightarrow> string \<Rightarrow> TransitionResult" where
  [machine_defs]: "reject order event code message =
     Refused \<lparr>rejectionCode = code, retryable = isRetryable code, rejectedState = state order,
              rejectedEvent = eventKind event, rejectionMessage = message\<rparr>"

definition notApplicable :: "Order \<Rightarrow> OrderEvent \<Rightarrow> TransitionResult" where
  [machine_defs]: "notApplicable order event =
     reject order event EventNotApplicable
       (eventKindName (eventKind event) @ '' has no meaning for an order in ''
        @ stateName (state order))"

definition answer :: "Order \<Rightarrow> MerchantAnswer \<Rightarrow> TransitionResult" where
  [machine_defs]: "answer order merchantAnswer = ok order [AnswerMerchant merchantAnswer]"

definition ACCEPTANCE_LANDED :: Effect where
  [machine_defs]: "ACCEPTANCE_LANDED = AnswerMerchant (AnswerOk AnswerAccepted)"

definition closedToMerchant :: "Order \<Rightarrow> TransitionResult" where
  [machine_defs]: "closedToMerchant order = answer order (AnswerError OrderAlreadyClosed False)"

section \<open>The moves several states share\<close>

definition sellsOnSilentQuote :: "OrderMode \<Rightarrow> bool" where
  "sellsOnSilentQuote m = (needsConfirmation m \<or> settle m = AfterFulfillment)"

definition enterQuoted :: "Order \<Rightarrow> int \<Rightarrow> Price \<Rightarrow> QuoteSource \<Rightarrow> TransitionResult" where
  [machine_defs]: "enterQuoted order t p source =
     ok (order\<lparr>state := Quoted, price := Some p, quoteSource := Some source,
               timestamps := (timestamps order)\<lparr>quotedAt := Some t\<rparr>\<rparr>)
       (effectsOnQuoted (mode order))"

definition closeWithoutMoney :: "Order \<Rightarrow> OrderState \<Rightarrow> Closure \<Rightarrow> Order" where
  [machine_defs]: "closeWithoutMoney order s c = order\<lparr>state := s, closure := Some c\<rparr>"

definition onQuoteSilence :: "Order \<Rightarrow> int \<Rightarrow> TransitionResult" where
  [machine_defs]: "onQuoteSilence order t =
     (if sellsOnSilentQuote (mode order) then enterQuoted order t (cardPrice order) CardSnapshot
      else ok (closeWithoutMoney order Rejected QuoteSilentClosure) [])"

definition startSettle :: "Order \<Rightarrow> int \<Rightarrow> OrderState option \<Rightarrow> TransitionResult" where
  [machine_defs]: "startSettle order t s =
     ok (order\<lparr>state := (case s of None \<Rightarrow> state order | Some s' \<Rightarrow> s'),
               payment := PaySettling,
               timestamps := (timestamps order)\<lparr>settleStartedAt := Some t\<rparr>\<rparr>)
       [ExecutePayment]"

definition enterPaid :: "Order \<Rightarrow> int \<Rightarrow> PaymentStage \<Rightarrow> TransitionResult" where
  [machine_defs]: "enterPaid order t stage =
     ok (order\<lparr>state := Paid, payment := stage,
               dispatch := \<lparr>attempts = 0, accepted = False\<rparr>,
               timestamps := (timestamps order)\<lparr>paidAt := Some t\<rparr>\<rparr>)
       [DispatchOrder]"

fun merchantRefused :: "Closure \<Rightarrow> bool" where
  "merchantRefused (MerchantRefusedClosure code message) = True"
| "merchantRefused _ = False"

definition resolveFulfillmentFailure :: "Order \<Rightarrow> Closure \<Rightarrow> TransitionResult" where
  [machine_defs]: "resolveFulfillmentFailure order c =
     (if payment order = PaySettled then
        ok (order\<lparr>state := RefundDue, closure := Some c\<rparr>)
          [MarkRefundDue c, EmitMerchantEvent RefundDueEvent]
      else ok (closeWithoutMoney order (if merchantRefused c then Failed else Expired) c) [])"

definition deliverGoods :: "Order \<Rightarrow> int \<Rightarrow> Effect list \<Rightarrow> TransitionResult" where
  [machine_defs]: "deliverGoods order t extra =
     (if settle (mode order) = AfterFulfillment then
        (case startSettle order t (Some Fulfilled) of
           Refused r \<Rightarrow> Refused r
         | Moved order' effects \<Rightarrow> ok order' (effects @ extra))
      else
        ok (order\<lparr>state := Delivered, closure := None\<rparr>)
          ([ReleaseGoodsToAgent, IssueReceipt] @ extra))"

definition onDeparture :: "Order \<Rightarrow> TransitionResult" where
  [machine_defs]: "onDeparture order =
     (if payment order = PaySettled then
        ok (order\<lparr>state := RefundDue, closure := Some MerchantDepartedClosure\<rparr>)
          [MarkRefundDue MerchantDepartedClosure, EmitMerchantEvent RefundDueEvent]
      else ok (closeWithoutMoney order Cancelled MerchantDepartedClosure) [])"

definition redeliver :: "Order \<Rightarrow> int \<Rightarrow> int option \<Rightarrow> DeadlineKind \<Rightarrow> TransitionResult" where
  [machine_defs]: "redeliver order t deadlineAt giveUp =
     (case nextRedelivery
             \<lparr>questionAttempts = attempts (dispatch order), questionNow = t,
              questionDeadlineAt = deadlineAt, questionPolicy = redelivery (policy order)\<rparr> of
        Retry attempt delayMs \<Rightarrow> ok order [RedeliverOrder attempt delayMs]
      | NoRetry reason \<Rightarrow> resolveFulfillmentFailure order (DeadlineExpiredClosure giveUp))"

section \<open>Deadlines\<close>

definition onSilentSettle :: "Order \<Rightarrow> TransitionResult" where
  [machine_defs]: "onSilentSettle order =
     (let silent = order\<lparr>payment := PayOutcomeUnknown\<rparr> in
      if state order = Fulfilled then
        ok (silent\<lparr>state := DeliveredUnpaid, closure := None\<rparr>)
          [EmitMerchantEvent PaymentFailedAfterDeliveryEvent]
      else if state order = DeliveredUnpaid then ok silent []
      else
        (let closed = closeWithoutMoney silent Rejected PaymentOutcomeUnknownClosure in
         if state order = Confirmed
         then ok closed [EmitMerchantEvent UnpaidAfterConfirmationEvent]
         else ok closed []))"

definition onDeadline :: "Order \<Rightarrow> int \<Rightarrow> DeadlineKind \<Rightarrow> TransitionResult" where
  [machine_defs]: "onDeadline order t kind =
     (case find (\<lambda>d. deadlineKind d = kind) (deadlines order) of
        None \<Rightarrow>
          reject order (DeadlineExpired t kind) DeadlineNotArmed
            (''the '' @ deadlineName kind @ '' deadline is not running on an order in ''
             @ stateName (state order))
      | Some armed \<Rightarrow>
          if t < dueAt armed then
            reject order (DeadlineExpired t kind) DeadlineNotYetDue
              (''the '' @ deadlineName kind @ '' deadline runs until '' @ show_int (dueAt armed)
               @ '' and the expiry claims '' @ show_int t)
          else
            (let c = DeadlineExpiredClosure kind in
             case kind of
               QuoteResponse \<Rightarrow> onQuoteSilence order t
             | QuoteExpiry \<Rightarrow> ok (closeWithoutMoney order Expired c) []
             | ConfirmationResponse \<Rightarrow> ok (closeWithoutMoney order Expired c) []
             | SettleResponse \<Rightarrow> onSilentSettle order
             | PaymentAfterConfirmation \<Rightarrow>
                 ok (closeWithoutMoney order Expired c)
                   [EmitMerchantEvent UnpaidAfterConfirmationEvent]
             | SyncResponse \<Rightarrow> resolveFulfillmentFailure order c
             | AsyncFulfillment \<Rightarrow> resolveFulfillmentFailure order c))"

section \<open>The states before the payment\<close>

fun fromCreated :: "Order \<Rightarrow> StateEvent \<Rightarrow> TransitionResult" where
  "fromCreated order (QuoteAnsweredUnavailable t) =
     ok (closeWithoutMoney order Rejected UnavailableClosure) []"
| "fromCreated order (QuoteAnswered t p) =
     (if currency p \<noteq> currency (cardPrice order) then
        reject order (Happened (QuoteAnswered t p)) CurrencyChanged
          (''the card is priced in '' @ currency (cardPrice order)
           @ '' and the quote answered in '' @ currency p
           @ '', and a quote may move the number but not the currency'')
      else enterQuoted order t p MerchantAnswered)"
| "fromCreated order (QuoteSilent t) = onQuoteSilence order t"
| "fromCreated order (MerchantDeparted t) = onDeparture order"
| "fromCreated order (PurchaseRepeated t) = ok order []"
| "fromCreated order event = notApplicable order (Happened event)"

fun fromQuoted :: "Order \<Rightarrow> StateEvent \<Rightarrow> TransitionResult" where
  "fromQuoted order (PaymentVerified t) =
     (if needsConfirmation (mode order) then notApplicable order (Happened (PaymentVerified t))
      else if settle (mode order) = AfterFulfillment then enterPaid order t PayVerified
      else startSettle order t None)"
| "fromQuoted order (PaymentVerificationFailed t reason) =
     ok (closeWithoutMoney order Rejected (PaymentNotVerifiedClosure reason)) []"
| "fromQuoted order (PaymentSettled t) =
     (if payment order = PaySettling then enterPaid order t PaySettled
      else notApplicable order (Happened (PaymentSettled t)))"
| "fromQuoted order (PaymentSettleFailed t) =
     (if payment order = PaySettling then
        ok ((closeWithoutMoney order Rejected PaymentNotSettledClosure)
              \<lparr>payment := PaySettleFailed\<rparr>) []
      else notApplicable order (Happened (PaymentSettleFailed t)))"
| "fromQuoted order (ConfirmationDispatched t) =
     (if needsConfirmation (mode order) then
        ok (order\<lparr>state := AwaitingConfirmation,
                  dispatch := \<lparr>attempts = 1, accepted = False\<rparr>,
                  timestamps := (timestamps order)\<lparr>confirmationRequestedAt := Some t\<rparr>\<rparr>) []
      else notApplicable order (Happened (ConfirmationDispatched t)))"
| "fromQuoted order (MerchantDeparted t) = onDeparture order"
| "fromQuoted order (PurchaseRepeated t) = ok order []"
| "fromQuoted order event = notApplicable order (Happened event)"

fun fromAwaitingConfirmation :: "Order \<Rightarrow> StateEvent \<Rightarrow> TransitionResult" where
  "fromAwaitingConfirmation order (HandlerAccepted t) =
     ok (order\<lparr>state := Confirmed,
               timestamps := (timestamps order)\<lparr>confirmedAt := Some t\<rparr>\<rparr>)
       [InvitePayment, ACCEPTANCE_LANDED]"
| "fromAwaitingConfirmation order (HandlerRefused t code message) =
     ok (closeWithoutMoney order Declined (MerchantRefusedClosure code message)) []"
| "fromAwaitingConfirmation order (RefuseCalled t code message) =
     ok (closeWithoutMoney order Declined (MerchantRefusedClosure code message))
       [AnswerMerchant (AnswerOk AnswerRefused)]"
| "fromAwaitingConfirmation order (HandlerDelivered t) =
     reject order (Happened (HandlerDelivered t)) DeliveryBeforePayment
       ''goods cannot be handed over against a confirmation request: nothing has been charged''"
| "fromAwaitingConfirmation order (DeliverCalled t) =
     reject order (Happened (DeliverCalled t)) DeliveryBeforePayment
       ''goods cannot be handed over against a confirmation request: nothing has been charged''"
| "fromAwaitingConfirmation order (HandlerUndelivered t) =
     redeliver order t
       (case confirmationRequestedAt (timestamps order) of
          None \<Rightarrow> None
        | Some c \<Rightarrow> Some (c + confirmationResponseMs (deadlinePolicy (policy order))))
       ConfirmationResponse"
| "fromAwaitingConfirmation order (ConfirmationDispatched t) =
     ok (order\<lparr>dispatch := (dispatch order)\<lparr>attempts := attempts (dispatch order) + 1\<rparr>\<rparr>) []"
| "fromAwaitingConfirmation order (MerchantDeparted t) = onDeparture order"
| "fromAwaitingConfirmation order (PurchaseRepeated t) = ok order []"
| "fromAwaitingConfirmation order event = notApplicable order (Happened event)"

fun fromConfirmed :: "Order \<Rightarrow> StateEvent \<Rightarrow> TransitionResult" where
  "fromConfirmed order (PaymentVerified t) =
     (if settle (mode order) = AfterFulfillment then enterPaid order t PayVerified
      else startSettle order t None)"
| "fromConfirmed order (PaymentSettled t) =
     (if payment order = PaySettling then enterPaid order t PaySettled
      else notApplicable order (Happened (PaymentSettled t)))"
| "fromConfirmed order (PaymentVerificationFailed t reason) =
     ok (closeWithoutMoney order Rejected (PaymentNotVerifiedClosure reason))
       [EmitMerchantEvent UnpaidAfterConfirmationEvent]"
| "fromConfirmed order (PaymentSettleFailed t) =
     (if payment order = PaySettling then
        ok ((closeWithoutMoney order Rejected PaymentNotSettledClosure)
              \<lparr>payment := PaySettleFailed\<rparr>)
          [EmitMerchantEvent UnpaidAfterConfirmationEvent]
      else notApplicable order (Happened (PaymentSettleFailed t)))"
| "fromConfirmed order (RefuseCalled t code message) =
     ok (closeWithoutMoney order Declined (MerchantRefusedClosure code message))
       [AnswerMerchant (AnswerOk AnswerRefused)]"
| "fromConfirmed order (HandlerRefused t code message) =
     ok (closeWithoutMoney order Declined (MerchantRefusedClosure code message)) []"
| "fromConfirmed order (MerchantDeparted t) = onDeparture order"
| "fromConfirmed order (PurchaseRepeated t) = ok order []"
| "fromConfirmed order event = notApplicable order (Happened event)"

section \<open>The states on the way to the merchant\<close>

definition dispatchedOrder :: "Order \<Rightarrow> int \<Rightarrow> Order" where
  [machine_defs]: "dispatchedOrder order t =
     order\<lparr>state := Dispatched,
           dispatch := \<lparr>attempts = attempts (dispatch order) + 1, accepted = False\<rparr>,
           timestamps := (timestamps order)\<lparr>dispatchedAt := Some t\<rparr>\<rparr>"

definition handedOver :: "Order \<Rightarrow> Order" where
  [machine_defs]: "handedOver order =
     order\<lparr>state := Dispatched,
           dispatch := (dispatch order)\<lparr>attempts := max (attempts (dispatch order)) 1\<rparr>\<rparr>"

fun fromDispatched :: "Order \<Rightarrow> StateEvent \<Rightarrow> TransitionResult" where
  "fromDispatched order (HandlerAccepted t) =
     ok (order\<lparr>dispatch := (dispatch order)\<lparr>accepted := True\<rparr>\<rparr>) [ACCEPTANCE_LANDED]"
| "fromDispatched order (HandlerDelivered t) = deliverGoods order t []"
| "fromDispatched order (HandlerRefused t code message) =
     resolveFulfillmentFailure order (MerchantRefusedClosure code message)"
| "fromDispatched order (HandlerUndelivered t) =
     (let deadline = headDeadline (fulfillmentDeadline order) in
      redeliver order t (map_option dueAt deadline)
        (case deadline of
           Some d \<Rightarrow> deadlineKind d
         | None \<Rightarrow>
             (if settle (mode order) = AfterFulfillment then SyncResponse
              else AsyncFulfillment)))"
| "fromDispatched order (DeliverCalled t) =
     (if settle (mode order) = AfterFulfillment
      then answer order (AnswerError NotApplicableInMode False)
      else deliverGoods order t [AnswerMerchant (AnswerOk AnswerDelivered)])"
| "fromDispatched order (RefuseCalled t code message) =
     (if settle (mode order) = AfterFulfillment
      then answer order (AnswerError NotApplicableInMode False)
      else
        (case resolveFulfillmentFailure order (MerchantRefusedClosure code message) of
           Refused r \<Rightarrow> Refused r
         | Moved order' effects \<Rightarrow>
             ok order' (effects @ [AnswerMerchant (AnswerOk AnswerRefused)])))"
| "fromDispatched order (OrderDispatched t) =
     (let alreadyRecorded = (dispatchedAt (timestamps order) \<noteq> None) in
      ok (order\<lparr>dispatch := (dispatch order)
                  \<lparr>attempts := (if alreadyRecorded then attempts (dispatch order) + 1
                                 else attempts (dispatch order))\<rparr>,
                timestamps := (timestamps order)\<lparr>dispatchedAt := Some t\<rparr>\<rparr>) [])"
| "fromDispatched order (MerchantDeparted t) = onDeparture order"
| "fromDispatched order (PurchaseRepeated t) = ok order []"
| "fromDispatched order event = notApplicable order (Happened event)"

fun fromPaid :: "Order \<Rightarrow> StateEvent \<Rightarrow> TransitionResult" where
  "fromPaid order (OrderDispatched t) = ok (dispatchedOrder order t) []"
| "fromPaid order (DeliverCalled t) =
     (if settle (mode order) = AfterFulfillment
      then answer order (AnswerError NotApplicableInMode False)
      else fromDispatched (order\<lparr>state := Dispatched\<rparr>) (DeliverCalled t))"
| "fromPaid order (RefuseCalled t code message) =
     (if settle (mode order) = AfterFulfillment
      then answer order (AnswerError NotApplicableInMode False)
      else fromDispatched (order\<lparr>state := Dispatched\<rparr>) (RefuseCalled t code message))"
| "fromPaid order (HandlerAccepted t) = fromDispatched (handedOver order) (HandlerAccepted t)"
| "fromPaid order (HandlerDelivered t) = fromDispatched (handedOver order) (HandlerDelivered t)"
| "fromPaid order (HandlerRefused t code message) =
     fromDispatched (handedOver order) (HandlerRefused t code message)"
| "fromPaid order (HandlerUndelivered t) =
     fromDispatched (handedOver order) (HandlerUndelivered t)"
| "fromPaid order (MerchantDeparted t) = onDeparture order"
| "fromPaid order (PurchaseRepeated t) = ok order []"
| "fromPaid order event = notApplicable order (Happened event)"

fun fromFulfilled :: "Order \<Rightarrow> StateEvent \<Rightarrow> TransitionResult" where
  "fromFulfilled order (PaymentSettled t) =
     (if payment order = PaySettling then
        ok (order\<lparr>state := Delivered, payment := PaySettled, closure := None\<rparr>)
          [ReleaseGoodsToAgent, IssueReceipt]
      else notApplicable order (Happened (PaymentSettled t)))"
| "fromFulfilled order (PaymentSettleFailed t) =
     (if payment order = PaySettling then
        ok (order\<lparr>state := DeliveredUnpaid, payment := PaySettleFailed, closure := None\<rparr>)
          [EmitMerchantEvent PaymentFailedAfterDeliveryEvent]
      else notApplicable order (Happened (PaymentSettleFailed t)))"
| "fromFulfilled order (DeliverCalled t) = answer order (AnswerOk AnswerAlreadyDelivered)"
| "fromFulfilled order (HandlerDelivered t) = answer order (AnswerOk AnswerAlreadyDelivered)"
| "fromFulfilled order (RefuseCalled t code message) =
     answer order (AnswerError NotApplicableInMode False)"
| "fromFulfilled order (PurchaseRepeated t) = ok order []"
| "fromFulfilled order event = notApplicable order (Happened event)"

section \<open>The states after the goods\<close>

fun fromDelivered :: "Order \<Rightarrow> StateEvent \<Rightarrow> TransitionResult" where
  "fromDelivered order (DeliverCalled t) = answer order (AnswerOk AnswerAlreadyDelivered)"
| "fromDelivered order (HandlerDelivered t) = answer order (AnswerOk AnswerAlreadyDelivered)"
| "fromDelivered order (HandlerAccepted t) = answer order (AnswerOk AnswerAlreadyDelivered)"
| "fromDelivered order (OrderDispatched t) =
     notApplicable order (Happened (OrderDispatched t))"
| "fromDelivered order (RefuseCalled t code message) = closedToMerchant order"
| "fromDelivered order (MerchantDeparted t) = ok order []"
| "fromDelivered order (PurchaseRepeated t) = ok order []"
| "fromDelivered order event = notApplicable order (Happened event)"

fun fromDeliveredUnpaid :: "Order \<Rightarrow> StateEvent \<Rightarrow> TransitionResult" where
  "fromDeliveredUnpaid order (PurchaseRepeated t) =
     (if payment order = PayOutcomeUnknown then
        reject order (Happened (PurchaseRepeated t)) SettleInFlight
          ''a charge on this order has not reported back, so no second one is sent''
      else ok (order\<lparr>payment := PayNone\<rparr>) [VerifyPayment])"
| "fromDeliveredUnpaid order (PaymentVerified t) =
     (if payment order = PayNone then startSettle order t None
      else notApplicable order (Happened (PaymentVerified t)))"
| "fromDeliveredUnpaid order (PaymentSettled t) =
     (if payment order = PaySettling \<or> payment order = PayOutcomeUnknown then
        ok (order\<lparr>state := Delivered, payment := PaySettled\<rparr>)
          [ReleaseGoodsToAgent, IssueReceipt]
      else notApplicable order (Happened (PaymentSettled t)))"
| "fromDeliveredUnpaid order (PaymentSettleFailed t) =
     (if payment order = PaySettling \<or> payment order = PayOutcomeUnknown then
        ok (order\<lparr>payment := PaySettleFailed\<rparr>) []
      else notApplicable order (Happened (PaymentSettleFailed t)))"
| "fromDeliveredUnpaid order (PaymentVerificationFailed t reason) = ok order []"
| "fromDeliveredUnpaid order (DeliverCalled t) =
     answer order (AnswerOk AnswerAlreadyDelivered)"
| "fromDeliveredUnpaid order (HandlerDelivered t) =
     answer order (AnswerOk AnswerAlreadyDelivered)"
| "fromDeliveredUnpaid order (RefuseCalled t code message) =
     answer order (AnswerError NotApplicableInMode False)"
| "fromDeliveredUnpaid order (MerchantDeparted t) = ok order []"
| "fromDeliveredUnpaid order event = notApplicable order (Happened event)"

fun fromRefundDue :: "Order \<Rightarrow> StateEvent \<Rightarrow> TransitionResult" where
  "fromRefundDue order (DeliverCalled t) =
     ok (order\<lparr>state := Delivered, closure := None\<rparr>)
       [ReleaseGoodsToAgent, IssueReceipt,
        AnswerMerchant (AnswerOk AnswerDebtClosedByDelivery)]"
| "fromRefundDue order (HandlerDelivered t) =
     ok (order\<lparr>state := Delivered, closure := None\<rparr>) [ReleaseGoodsToAgent, IssueReceipt]"
| "fromRefundDue order (RefundSettled t) = ok (order\<lparr>state := Refunded\<rparr>) []"
| "fromRefundDue order (RefuseCalled t code message) = answer order (AnswerOk AnswerRefused)"
| "fromRefundDue order (HandlerRefused t code message) = ok order []"
| "fromRefundDue order (HandlerAccepted t) = ok order []"
| "fromRefundDue order (HandlerUndelivered t) = ok order []"
| "fromRefundDue order (OrderDispatched t) = ok order []"
| "fromRefundDue order (PurchaseRepeated t) = ok order []"
| "fromRefundDue order (MerchantDeparted t) = ok order []"
| "fromRefundDue order event = notApplicable order (Happened event)"

fun fromRefunded :: "Order \<Rightarrow> StateEvent \<Rightarrow> TransitionResult" where
  "fromRefunded order (DeliverCalled t) =
     answer order (AnswerError RefundAlreadySettled False)"
| "fromRefunded order (HandlerDelivered t) =
     answer order (AnswerError RefundAlreadySettled False)"
| "fromRefunded order (RefuseCalled t code message) = closedToMerchant order"
| "fromRefunded order (MerchantDeparted t) = ok order []"
| "fromRefunded order (PurchaseRepeated t) = ok order []"
| "fromRefunded order event = notApplicable order (Happened event)"

fun fromFailed :: "Order \<Rightarrow> StateEvent \<Rightarrow> TransitionResult" where
  "fromFailed order (DeliverCalled t) = closedToMerchant order"
| "fromFailed order (RefuseCalled t code message) = closedToMerchant order"
| "fromFailed order (HandlerDelivered t) =
     notApplicable order (Happened (HandlerDelivered t))"
| "fromFailed order (MerchantDeparted t) = ok order []"
| "fromFailed order (PurchaseRepeated t) = ok order []"
| "fromFailed order event = notApplicable order (Happened event)"

definition awaitedLateGoods :: "Order \<Rightarrow> bool" where
  "awaitedLateGoods order =
     (settle (mode order) = AfterFulfillment
      \<and> closure order = Some (DeadlineExpiredClosure SyncResponse))"

fun fromExpired :: "Order \<Rightarrow> StateEvent \<Rightarrow> TransitionResult" where
  "fromExpired order (HandlerDelivered t) =
     (if \<not> awaitedLateGoods order
      then notApplicable order (Happened (HandlerDelivered t))
      else
        ok (if heldFulfillment order then order else order\<lparr>heldFulfillment := True\<rparr>)
          (if heldFulfillment order
           then [AnswerMerchant (AnswerOk AnswerPurchaseAlreadyClosed)]
           else [HoldFulfillment, AnswerMerchant (AnswerOk AnswerPurchaseAlreadyClosed)]))"
| "fromExpired order (PurchaseRepeated t) =
     (if heldFulfillment order then ok (order\<lparr>payment := PayNone\<rparr>) [VerifyPayment]
      else ok order [])"
| "fromExpired order (PaymentVerified t) =
     (if heldFulfillment order \<and> payment order = PayNone
      then startSettle order t (Some Fulfilled)
      else notApplicable order (Happened (PaymentVerified t)))"
| "fromExpired order (PaymentVerificationFailed t reason) =
     (if heldFulfillment order then ok order []
      else notApplicable order (Happened (PaymentVerificationFailed t reason)))"
| "fromExpired order (DeliverCalled t) = closedToMerchant order"
| "fromExpired order (RefuseCalled t code message) = closedToMerchant order"
| "fromExpired order (MerchantDeparted t) = ok order []"
| "fromExpired order event = notApplicable order (Happened event)"

fun fromClosedWithoutMoney :: "Order \<Rightarrow> StateEvent \<Rightarrow> TransitionResult" where
  "fromClosedWithoutMoney order (DeliverCalled t) = closedToMerchant order"
| "fromClosedWithoutMoney order (RefuseCalled t code message) = closedToMerchant order"
| "fromClosedWithoutMoney order (PaymentSettled t) =
     (if closure order \<noteq> Some PaymentOutcomeUnknownClosure
      then notApplicable order (Happened (PaymentSettled t))
      else
        ok (order\<lparr>state := RefundDue, payment := PaySettled\<rparr>)
          [MarkRefundDue PaymentOutcomeUnknownClosure, EmitMerchantEvent RefundDueEvent])"
| "fromClosedWithoutMoney order (PaymentSettleFailed t) =
     (if closure order = Some PaymentOutcomeUnknownClosure
      then ok (order\<lparr>payment := PaySettleFailed, closure := Some PaymentNotSettledClosure\<rparr>) []
      else notApplicable order (Happened (PaymentSettleFailed t)))"
| "fromClosedWithoutMoney order (MerchantDeparted t) = ok order []"
| "fromClosedWithoutMoney order (PurchaseRepeated t) = ok order []"
| "fromClosedWithoutMoney order event = notApplicable order (Happened event)"

section \<open>The transition\<close>

fun allowedEventWhileSettling :: "StateEvent \<Rightarrow> bool" where
  "allowedEventWhileSettling (PaymentSettled t) = True"
| "allowedEventWhileSettling (PaymentSettleFailed t) = True"
| "allowedEventWhileSettling _ = False"

fun merchantCall :: "StateEvent \<Rightarrow> bool" where
  "merchantCall (DeliverCalled t) = True"
| "merchantCall (RefuseCalled t code message) = True"
| "merchantCall _ = False"

definition allowedWhileSettling :: "Order \<Rightarrow> StateEvent \<Rightarrow> bool" where
  "allowedWhileSettling order event =
     (if allowedEventWhileSettling event then True
      else
        (let merchantIsHoldingIt = (state order = Fulfilled \<or> state order = DeliveredUnpaid)
         in merchantIsHoldingIt \<and> merchantCall event))"

definition stateTransition :: "Order \<Rightarrow> StateEvent \<Rightarrow> TransitionResult" where
  "stateTransition order event =
     (case state order of
        Created \<Rightarrow> fromCreated order event
      | Quoted \<Rightarrow> fromQuoted order event
      | AwaitingConfirmation \<Rightarrow> fromAwaitingConfirmation order event
      | Confirmed \<Rightarrow> fromConfirmed order event
      | Paid \<Rightarrow> fromPaid order event
      | Dispatched \<Rightarrow> fromDispatched order event
      | Fulfilled \<Rightarrow> fromFulfilled order event
      | Delivered \<Rightarrow> fromDelivered order event
      | DeliveredUnpaid \<Rightarrow> fromDeliveredUnpaid order event
      | RefundDue \<Rightarrow> fromRefundDue order event
      | Refunded \<Rightarrow> fromRefunded order event
      | Failed \<Rightarrow> fromFailed order event
      | Expired \<Rightarrow> fromExpired order event
      | Rejected \<Rightarrow> fromClosedWithoutMoney order event
      | Declined \<Rightarrow> fromClosedWithoutMoney order event
      | Cancelled \<Rightarrow> fromClosedWithoutMoney order event)"

fun transition :: "Order \<Rightarrow> OrderEvent \<Rightarrow> TransitionResult" where
  "transition order (DeadlineExpired t kind) = onDeadline order t kind"
| "transition order (Happened event) =
     (if payment order = PaySettling \<and> \<not> allowedWhileSettling order event then
        reject order (Happened event) SettleInFlight
          (''the payment is being executed, so '' @ eventKindName (stateEventKind event)
           @ '' is not answered until it reports'')
      else stateTransition order event)"

end
