(* ===== verification/Order_Invariant.thy ===== *)
theory Order_Invariant
  imports Order_Machine
begin

text \<open>
  What every order that the machine has produced satisfies: for each state, the payment
  stages it can hold, the closures it can carry, the instants and the price it must have.
  The invariant is inductive: creation establishes it and every transition keeps it, one
  lemma per function of \<^verbatim>\<open>machine.ts\<close>. \<open>reachable\<close> is the set of orders that creation and
  transitions produce.
\<close>

section \<open>The invariant\<close>

definition paymentFits :: "Order \<Rightarrow> bool" where
  "paymentFits order =
     (let m = mode order; p = payment order in
      case state order of
        Created \<Rightarrow> p = PayNone
      | Quoted \<Rightarrow>
          p = PayNone \<or> p = PaySettling \<and> settle m = OnPurchase \<and> \<not> needsConfirmation m
      | AwaitingConfirmation \<Rightarrow> p = PayNone \<and> needsConfirmation m
      | Confirmed \<Rightarrow> needsConfirmation m \<and> (p = PayNone \<or> p = PaySettling \<and> settle m = OnPurchase)
      | Paid \<Rightarrow> p = (if settle m = AfterFulfillment then PayVerified else PaySettled)
      | Dispatched \<Rightarrow> p = (if settle m = AfterFulfillment then PayVerified else PaySettled)
      | Fulfilled \<Rightarrow> p = PaySettling \<and> settle m = AfterFulfillment
      | Delivered \<Rightarrow> p = PaySettled
      | DeliveredUnpaid \<Rightarrow>
          settle m = AfterFulfillment
          \<and> (p = PayNone \<or> p = PaySettling \<or> p = PayOutcomeUnknown \<or> p = PaySettleFailed)
      | RefundDue \<Rightarrow> p = PaySettled
      | Refunded \<Rightarrow> p = PaySettled
      | Failed \<Rightarrow> p = PayVerified
      | Rejected \<Rightarrow> p = PayNone \<or> p = PaySettleFailed \<or> p = PayOutcomeUnknown
      | Declined \<Rightarrow> p = PayNone
      | Expired \<Rightarrow> p = PayNone \<or> p = PayVerified
      | Cancelled \<Rightarrow> p = PayNone \<or> p = PayVerified)"

fun debtClosure :: "Closure \<Rightarrow> bool" where
  "debtClosure (MerchantRefusedClosure code message) = True"
| "debtClosure MerchantDepartedClosure = True"
| "debtClosure (DeadlineExpiredClosure kind) = True"
| "debtClosure PaymentOutcomeUnknownClosure = True"
| "debtClosure _ = False"

fun rejectionClosure :: "Closure \<Rightarrow> bool" where
  "rejectionClosure UnavailableClosure = True"
| "rejectionClosure QuoteSilentClosure = True"
| "rejectionClosure (PaymentNotVerifiedClosure reason) = True"
| "rejectionClosure PaymentNotSettledClosure = True"
| "rejectionClosure PaymentOutcomeUnknownClosure = True"
| "rejectionClosure _ = False"

fun deadlineClosure :: "Closure \<Rightarrow> bool" where
  "deadlineClosure (DeadlineExpiredClosure kind) = True"
| "deadlineClosure _ = False"

definition closureFits :: "Order \<Rightarrow> bool" where
  "closureFits order =
     (case state order of
        Failed \<Rightarrow> (\<exists>c. closure order = Some c \<and> merchantRefused c)
      | Declined \<Rightarrow> (\<exists>c. closure order = Some c \<and> merchantRefused c)
      | Rejected \<Rightarrow>
          (\<exists>c. closure order = Some c \<and> rejectionClosure c
             \<and> (payment order = PayOutcomeUnknown \<longleftrightarrow> c = PaymentOutcomeUnknownClosure))
      | Expired \<Rightarrow> (\<exists>c. closure order = Some c \<and> deadlineClosure c)
      | Cancelled \<Rightarrow> closure order = Some MerchantDepartedClosure
      | RefundDue \<Rightarrow> (\<exists>c. closure order = Some c \<and> debtClosure c)
      | Refunded \<Rightarrow> (\<exists>c. closure order = Some c \<and> debtClosure c)
      | Fulfilled \<Rightarrow>
          closure order = None \<or> closure order = Some (DeadlineExpiredClosure SyncResponse)
      | _ \<Rightarrow> closure order = None)"

definition clockFits :: "Order \<Rightarrow> bool" where
  "clockFits order =
     (let ts = timestamps order in
      (payment order = PaySettling \<longrightarrow> settleStartedAt ts \<noteq> None)
      \<and> (state order = Quoted \<longrightarrow> quotedAt ts \<noteq> None)
      \<and> (state order = AwaitingConfirmation \<longrightarrow> confirmationRequestedAt ts \<noteq> None)
      \<and> (state order = Confirmed \<longrightarrow> confirmedAt ts \<noteq> None)
      \<and> (state order \<in> {Paid, Dispatched} \<longrightarrow> paidAt ts \<noteq> None))"

definition priceFits :: "Order \<Rightarrow> bool" where
  "priceFits order =
     (case price order of
        None \<Rightarrow> state order \<in> {Created, Rejected, Cancelled} \<and> payment order = PayNone
      | Some p \<Rightarrow> state order \<noteq> Created \<and> currency p = currency (cardPrice order))"

definition heldFits :: "Order \<Rightarrow> bool" where
  "heldFits order =
     (heldFulfillment order \<longrightarrow>
        settle (mode order) = AfterFulfillment
        \<and> (state order \<in> {Fulfilled, Delivered, DeliveredUnpaid}
           \<or> state order = Expired \<and> awaitedLateGoods order))"

definition orderInv :: "Order \<Rightarrow> bool" where
  "orderInv order =
     (paymentFits order \<and> closureFits order \<and> clockFits order \<and> priceFits order
      \<and> heldFits order)"

lemmas orderInv_defs =
  orderInv_def paymentFits_def closureFits_def clockFits_def priceFits_def heldFits_def
  awaitedLateGoods_def Let_def

lemma paymentStage_settle: "p \<noteq> AfterFulfillment \<longleftrightarrow> p = OnPurchase"
  by (cases p) simp_all


text \<open>The invariant, state by state: what the proofs of preservation rewrite with.\<close>

definition pricedInCard :: "Order \<Rightarrow> bool" where
  "pricedInCard order =
     (\<exists>p. price order = Some p \<and> currency p = currency (cardPrice order))"

lemma orderInv_before_payment:
  "state x = Created \<Longrightarrow> orderInv x \<longleftrightarrow>
     payment x = PayNone \<and> closure x = None \<and> price x = None \<and> \<not> heldFulfillment x"
  "state x = Quoted \<Longrightarrow> orderInv x \<longleftrightarrow>
     (payment x = PayNone \<or> payment x = PaySettling \<and> settle (mode x) = OnPurchase
        \<and> \<not> needsConfirmation (mode x) \<and> settleStartedAt (timestamps x) \<noteq> None)
     \<and> closure x = None \<and> quotedAt (timestamps x) \<noteq> None \<and> pricedInCard x
     \<and> \<not> heldFulfillment x"
  "state x = AwaitingConfirmation \<Longrightarrow> orderInv x \<longleftrightarrow>
     payment x = PayNone \<and> needsConfirmation (mode x) \<and> closure x = None
     \<and> confirmationRequestedAt (timestamps x) \<noteq> None \<and> pricedInCard x
     \<and> \<not> heldFulfillment x"
  "state x = Confirmed \<Longrightarrow> orderInv x \<longleftrightarrow>
     needsConfirmation (mode x)
     \<and> (payment x = PayNone \<or> payment x = PaySettling \<and> settle (mode x) = OnPurchase
        \<and> settleStartedAt (timestamps x) \<noteq> None)
     \<and> closure x = None \<and> confirmedAt (timestamps x) \<noteq> None \<and> pricedInCard x
     \<and> \<not> heldFulfillment x"
  by (auto simp: orderInv_defs pricedInCard_def split: option.splits)

lemma orderInv_at_merchant:
  "state x = Paid \<Longrightarrow> orderInv x \<longleftrightarrow>
     payment x = (if settle (mode x) = AfterFulfillment then PayVerified else PaySettled)
     \<and> closure x = None \<and> paidAt (timestamps x) \<noteq> None \<and> pricedInCard x
     \<and> \<not> heldFulfillment x"
  "state x = Dispatched \<Longrightarrow> orderInv x \<longleftrightarrow>
     payment x = (if settle (mode x) = AfterFulfillment then PayVerified else PaySettled)
     \<and> closure x = None \<and> paidAt (timestamps x) \<noteq> None \<and> pricedInCard x
     \<and> \<not> heldFulfillment x"
  "state x = Fulfilled \<Longrightarrow> orderInv x \<longleftrightarrow>
     payment x = PaySettling \<and> settle (mode x) = AfterFulfillment
     \<and> (closure x = None \<or> closure x = Some (DeadlineExpiredClosure SyncResponse))
     \<and> settleStartedAt (timestamps x) \<noteq> None \<and> pricedInCard x"
  by (auto simp: orderInv_defs pricedInCard_def split: option.splits if_splits)

lemma orderInv_after_goods:
  "state x = Delivered \<Longrightarrow> orderInv x \<longleftrightarrow>
     payment x = PaySettled \<and> closure x = None \<and> pricedInCard x
     \<and> (heldFulfillment x \<longrightarrow> settle (mode x) = AfterFulfillment)"
  "state x = DeliveredUnpaid \<Longrightarrow> orderInv x \<longleftrightarrow>
     settle (mode x) = AfterFulfillment
     \<and> (payment x = PayNone \<or> payment x = PayOutcomeUnknown \<or> payment x = PaySettleFailed
        \<or> payment x = PaySettling \<and> settleStartedAt (timestamps x) \<noteq> None)
     \<and> closure x = None \<and> pricedInCard x"
  "state x = RefundDue \<Longrightarrow> orderInv x \<longleftrightarrow>
     payment x = PaySettled \<and> (\<exists>c. closure x = Some c \<and> debtClosure c) \<and> pricedInCard x
     \<and> \<not> heldFulfillment x"
  "state x = Refunded \<Longrightarrow> orderInv x \<longleftrightarrow>
     payment x = PaySettled \<and> (\<exists>c. closure x = Some c \<and> debtClosure c) \<and> pricedInCard x
     \<and> \<not> heldFulfillment x"
  by (auto simp: orderInv_defs pricedInCard_def split: option.splits)

lemma orderInv_closed:
  "state x = Failed \<Longrightarrow> orderInv x \<longleftrightarrow>
     payment x = PayVerified \<and> (\<exists>c. closure x = Some c \<and> merchantRefused c)
     \<and> pricedInCard x \<and> \<not> heldFulfillment x"
  "state x = Rejected \<Longrightarrow> orderInv x \<longleftrightarrow>
     (payment x = PayNone \<or> payment x = PaySettleFailed \<or> payment x = PayOutcomeUnknown)
     \<and> (\<exists>c. closure x = Some c \<and> rejectionClosure c
          \<and> (payment x = PayOutcomeUnknown \<longleftrightarrow> c = PaymentOutcomeUnknownClosure))
     \<and> (price x = None \<and> payment x = PayNone \<or> pricedInCard x) \<and> \<not> heldFulfillment x"
  "state x = Declined \<Longrightarrow> orderInv x \<longleftrightarrow>
     payment x = PayNone \<and> (\<exists>c. closure x = Some c \<and> merchantRefused c)
     \<and> pricedInCard x \<and> \<not> heldFulfillment x"
  "state x = Expired \<Longrightarrow> orderInv x \<longleftrightarrow>
     (payment x = PayNone \<or> payment x = PayVerified)
     \<and> (\<exists>c. closure x = Some c \<and> deadlineClosure c) \<and> pricedInCard x
     \<and> (heldFulfillment x \<longrightarrow> awaitedLateGoods x)"
  "state x = Cancelled \<Longrightarrow> orderInv x \<longleftrightarrow>
     (payment x = PayNone \<or> payment x = PayVerified)
     \<and> closure x = Some MerchantDepartedClosure
     \<and> (price x = None \<and> payment x = PayNone \<or> pricedInCard x) \<and> \<not> heldFulfillment x"
  by (auto simp: orderInv_defs pricedInCard_def split: option.splits)

lemmas orderInv_at =
  orderInv_before_payment orderInv_at_merchant orderInv_after_goods orderInv_closed

lemma pricedInCard_frame [simp]:
  "pricedInCard (x\<lparr>state := s\<rparr>) = pricedInCard x"
  "pricedInCard (x\<lparr>payment := p\<rparr>) = pricedInCard x"
  "pricedInCard (x\<lparr>dispatch := d\<rparr>) = pricedInCard x"
  "pricedInCard (x\<lparr>closure := c\<rparr>) = pricedInCard x"
  "pricedInCard (x\<lparr>heldFulfillment := h\<rparr>) = pricedInCard x"
  "pricedInCard (x\<lparr>timestamps := ts\<rparr>) = pricedInCard x"
  "pricedInCard (x\<lparr>quoteSource := q\<rparr>) = pricedInCard x"
  "pricedInCard (x\<lparr>price := Some q'\<rparr>) \<longleftrightarrow> currency q' = currency (cardPrice x)"
  by (simp_all add: pricedInCard_def)

section \<open>Creation establishes it\<close>

lemma createOrder_orderInv: "createOrder i = Born order fx \<Longrightarrow> orderInv order"
  by (erule createOrder_bornE) (simp_all add: orderInv_at baseOrder_def pricedInCard_def)

section \<open>Every function of the machine keeps it\<close>

lemma fromCreated_keeps:
  "state x = Created \<Longrightarrow> orderInv x \<Longrightarrow> fromCreated x e = Moved y fx \<Longrightarrow> orderInv y"
  by (cases e) (auto simp: machine_defs orderInv_at split: if_splits)

lemma fromQuoted_keeps:
  "state x = Quoted \<Longrightarrow> orderInv x \<Longrightarrow> payment x = PaySettling \<longrightarrow> allowedWhileSettling x e
   \<Longrightarrow> fromQuoted x e = Moved y fx \<Longrightarrow> orderInv y"
  by (cases e)
    (auto simp: machine_defs orderInv_at allowedWhileSettling_def paymentStage_settle
      split: if_splits)

lemma fromAwaitingConfirmation_keeps:
  "state x = AwaitingConfirmation \<Longrightarrow> orderInv x
   \<Longrightarrow> fromAwaitingConfirmation x e = Moved y fx \<Longrightarrow> orderInv y"
  by (cases e)
    (auto simp: machine_defs orderInv_at split: if_splits RedeliveryDecision.splits)

lemma fromConfirmed_keeps:
  "state x = Confirmed \<Longrightarrow> orderInv x \<Longrightarrow> payment x = PaySettling \<longrightarrow> allowedWhileSettling x e
   \<Longrightarrow> fromConfirmed x e = Moved y fx \<Longrightarrow> orderInv y"
  by (cases e)
    (auto simp: machine_defs orderInv_at allowedWhileSettling_def paymentStage_settle
      split: if_splits)

lemma resolveFulfillmentFailure_keeps:
  "state x \<in> {Paid, Dispatched} \<Longrightarrow> orderInv x \<Longrightarrow> debtClosure c
   \<Longrightarrow> merchantRefused c \<or> deadlineClosure c
   \<Longrightarrow> resolveFulfillmentFailure x c = Moved y fx \<Longrightarrow> orderInv y"
  by (auto simp: machine_defs orderInv_at split: if_splits)

lemma fromDispatched_keeps:
  "state x = Dispatched \<Longrightarrow> orderInv x \<Longrightarrow> fromDispatched x e = Moved y fx \<Longrightarrow> orderInv y"
  by (cases e)
    (auto simp: machine_defs orderInv_at paymentStage_settle Let_def
      split: if_splits RedeliveryDecision.splits)

lemma orderInv_handedOver:
  "state x = Paid \<Longrightarrow> orderInv x \<Longrightarrow> orderInv (handedOver x)"
  "state x = Paid \<Longrightarrow> orderInv x \<Longrightarrow> orderInv (x\<lparr>state := Dispatched\<rparr>)"
  "state x = Paid \<Longrightarrow> orderInv x \<Longrightarrow> orderInv (dispatchedOrder x t)"
  by (simp_all add: orderInv_at handedOver_def dispatchedOrder_def)

lemma state_handedOver [simp]: "state (handedOver x) = Dispatched"
  by (simp add: handedOver_def)

lemma onDeparture_keeps:
  "state x \<in> {Paid, Dispatched} \<Longrightarrow> orderInv x \<Longrightarrow> onDeparture x = Moved y fx \<Longrightarrow> orderInv y"
  by (auto simp: machine_defs orderInv_at split: if_splits)

lemma fromPaid_keeps:
  assumes "state x = Paid" and "orderInv x" and "fromPaid x e = Moved y fx"
  shows "orderInv y"
proof -
  note dispatched = fromDispatched_keeps [OF _ orderInv_handedOver(1) [OF assms(1,2)]]
    fromDispatched_keeps [OF _ orderInv_handedOver(2) [OF assms(1,2)]]
  show ?thesis
    using assms
    by (cases e)
      (auto split: if_splits simp: answer_def ok_def notApplicable_def reject_def
        intro: dispatched onDeparture_keeps orderInv_handedOver(3)
        simp del: fromDispatched.simps)
qed

lemma fromFulfilled_keeps:
  "state x = Fulfilled \<Longrightarrow> orderInv x \<Longrightarrow> payment x = PaySettling \<longrightarrow> allowedWhileSettling x e
   \<Longrightarrow> fromFulfilled x e = Moved y fx \<Longrightarrow> orderInv y"
  by (cases e) (auto simp: machine_defs orderInv_at split: if_splits)

lemma fromDelivered_keeps:
  "state x = Delivered \<Longrightarrow> orderInv x \<Longrightarrow> fromDelivered x e = Moved y fx \<Longrightarrow> orderInv y"
  by (cases e) (auto simp: machine_defs)

lemma fromDeliveredUnpaid_keeps:
  "state x = DeliveredUnpaid \<Longrightarrow> orderInv x \<Longrightarrow> fromDeliveredUnpaid x e = Moved y fx
   \<Longrightarrow> orderInv y"
  by (cases e) (auto simp: machine_defs orderInv_at split: if_splits)

lemma fromRefundDue_keeps:
  "state x = RefundDue \<Longrightarrow> orderInv x \<Longrightarrow> fromRefundDue x e = Moved y fx \<Longrightarrow> orderInv y"
  by (cases e) (auto simp: machine_defs orderInv_at)

lemma fromRefunded_keeps:
  "state x = Refunded \<Longrightarrow> orderInv x \<Longrightarrow> fromRefunded x e = Moved y fx \<Longrightarrow> orderInv y"
  by (cases e) (auto simp: machine_defs)

lemma fromFailed_keeps:
  "state x = Failed \<Longrightarrow> orderInv x \<Longrightarrow> fromFailed x e = Moved y fx \<Longrightarrow> orderInv y"
  by (cases e) (auto simp: machine_defs)

lemma fromExpired_keeps:
  "state x = Expired \<Longrightarrow> orderInv x \<Longrightarrow> fromExpired x e = Moved y fx \<Longrightarrow> orderInv y"
  by (cases e) (auto simp: machine_defs orderInv_at awaitedLateGoods_def split: if_splits)

lemma fromClosedWithoutMoney_keeps:
  "state x \<in> {Rejected, Declined, Cancelled} \<Longrightarrow> orderInv x
   \<Longrightarrow> fromClosedWithoutMoney x e = Moved y fx \<Longrightarrow> orderInv y"
  by (cases e) (auto simp: machine_defs orderInv_at split: if_splits)

lemmas fromState_keeps =
  fromCreated_keeps fromQuoted_keeps fromAwaitingConfirmation_keeps fromConfirmed_keeps
  fromPaid_keeps fromDispatched_keeps fromFulfilled_keeps fromDelivered_keeps
  fromDeliveredUnpaid_keeps fromRefundDue_keeps fromRefunded_keeps fromFailed_keeps
  fromExpired_keeps fromClosedWithoutMoney_keeps

lemma stateTransition_keeps:
  assumes "orderInv x" and "payment x = PaySettling \<longrightarrow> allowedWhileSettling x e"
    and "stateTransition x e = Moved y fx"
  shows "orderInv y"
  using assms
  by (cases "state x") (auto simp: stateTransition_def elim: fromState_keeps [rotated -1])

section \<open>Expiries\<close>

text \<open>The deadline an expiry finds running, by what the order is waiting on.\<close>

definition armedDeadline :: "Order \<Rightarrow> DeadlineKind \<Rightarrow> Deadline option" where
  "armedDeadline order kind = find (\<lambda>d. deadlineKind d = kind) (deadlines order)"

lemma armedDeadline_iff:
  "armedDeadline x k = Some d \<longleftrightarrow> deadlines x = [d] \<and> deadlineKind d = k"
  using deadlines_at_most_one [of x]
  by (cases "deadlines x") (auto simp: armedDeadline_def)

lemma armedDeadline_cases:
  assumes "armedDeadline x k = Some d"
  obtains
    (settling) "payment x = PaySettling" "k = SettleResponse"
  | (created) "payment x \<noteq> PaySettling" "state x = Created" "k = QuoteResponse"
  | (quoted) "payment x = PayNone" "state x = Quoted" "k = QuoteExpiry"
  | (awaiting) "payment x \<noteq> PaySettling" "state x = AwaitingConfirmation"
      "k = ConfirmationResponse"
  | (confirmed) "payment x = PayNone" "state x = Confirmed" "k = PaymentAfterConfirmation"
  | (sync) "payment x \<noteq> PaySettling" "state x \<in> {Paid, Dispatched}"
      "settle (mode x) = AfterFulfillment" "k = SyncResponse"
  | (async) "payment x \<noteq> PaySettling" "state x \<in> {Paid, Dispatched}"
      "settle (mode x) = OnPurchase" "k = AsyncFulfillment"
proof (cases "payment x = PaySettling")
  case True
  with assms settling show ?thesis
    by (auto simp: armedDeadline_def deadlines_def Let_def split: if_splits)
next
  case False
  with assms show ?thesis
    by (cases "state x")
      (auto simp: armedDeadline_def deadlines_def fulfillmentDeadline_def Let_def
        paymentStage_settle split: if_splits option.splits intro: that)
qed

text \<open>What is done about a deadline that is running and has come due.\<close>

definition expireArmed :: "Order \<Rightarrow> int \<Rightarrow> DeadlineKind \<Rightarrow> TransitionResult" where
  "expireArmed order t kind =
     (let c = DeadlineExpiredClosure kind in
      case kind of
        QuoteResponse \<Rightarrow> onQuoteSilence order t
      | QuoteExpiry \<Rightarrow> ok (closeWithoutMoney order Expired c) []
      | ConfirmationResponse \<Rightarrow> ok (closeWithoutMoney order Expired c) []
      | SettleResponse \<Rightarrow> onSilentSettle order
      | PaymentAfterConfirmation \<Rightarrow>
          ok (closeWithoutMoney order Expired c)
            [EmitMerchantEvent UnpaidAfterConfirmationEvent]
      | SyncResponse \<Rightarrow> resolveFulfillmentFailure order c
      | AsyncFulfillment \<Rightarrow> resolveFulfillmentFailure order c)"

lemma onDeadline_Moved_iff:
  "onDeadline x t k = Moved y fx \<longleftrightarrow>
     (\<exists>d. armedDeadline x k = Some d \<and> dueAt d \<le> t \<and> expireArmed x t k = Moved y fx)"
  by (auto simp: onDeadline_def armedDeadline_def [symmetric] expireArmed_def reject_def
      split: option.split)

lemma onSilentSettle_keeps:
  "payment x = PaySettling \<Longrightarrow> orderInv x \<Longrightarrow> onSilentSettle x = Moved y fx \<Longrightarrow> orderInv y"
  by (cases "state x") (auto simp: machine_defs orderInv_at Let_def split: if_splits)

lemma onQuoteSilence_keeps:
  "state x = Created \<Longrightarrow> orderInv x \<Longrightarrow> onQuoteSilence x t = Moved y fx \<Longrightarrow> orderInv y"
  by (auto simp: machine_defs orderInv_at split: if_splits)

lemma closeExpired_orderInv:
  "state x \<in> {Quoted, AwaitingConfirmation, Confirmed} \<Longrightarrow> payment x \<noteq> PaySettling \<Longrightarrow> orderInv x
   \<Longrightarrow> orderInv (closeWithoutMoney x Expired (DeadlineExpiredClosure k))"
  by (auto simp: closeWithoutMoney_def orderInv_at)

lemma onDeadline_keeps:
  assumes inv: "orderInv x" and moved: "onDeadline x t k = Moved y fx"
  shows "orderInv y"
proof -
  from moved obtain d where armed: "armedDeadline x k = Some d"
    and fired: "expireArmed x t k = Moved y fx"
    by (auto simp: onDeadline_Moved_iff)
  from armed show ?thesis
  proof (cases rule: armedDeadline_cases)
    case settling
    with inv fired show ?thesis by (auto simp: expireArmed_def intro: onSilentSettle_keeps)
  next
    case created
    with inv fired show ?thesis by (auto simp: expireArmed_def intro: onQuoteSilence_keeps)
  next
    case sync
    with inv fired show ?thesis
      using resolveFulfillmentFailure_keeps [of x "DeadlineExpiredClosure SyncResponse" y fx]
      by (simp add: expireArmed_def)
  next
    case async
    with inv fired show ?thesis
      using resolveFulfillmentFailure_keeps [of x "DeadlineExpiredClosure AsyncFulfillment" y fx]
      by (simp add: expireArmed_def)
  next
    case quoted
    with inv fired closeExpired_orderInv [of x k] show ?thesis
      by (simp add: expireArmed_def ok_def)
  next
    case awaiting
    with inv fired closeExpired_orderInv [of x k] show ?thesis
      by (simp add: expireArmed_def ok_def)
  next
    case confirmed
    with inv fired closeExpired_orderInv [of x k] show ?thesis
      by (auto simp: expireArmed_def ok_def)
  qed
qed

section \<open>The transition keeps it\<close>

lemma transition_Happened_Moved:
  "transition x (Happened e) = Moved y fx \<longleftrightarrow>
     (payment x = PaySettling \<longrightarrow> allowedWhileSettling x e) \<and> stateTransition x e = Moved y fx"
  by (auto simp: reject_def)

lemma transition_keeps_orderInv:
  assumes "orderInv x" and "transition x event = Moved y fx"
  shows "orderInv y"
proof (cases event)
  case (Happened e)
  with assms show ?thesis
    using transition_Happened_Moved [of x e y fx] stateTransition_keeps [of x e y fx] by blast
next
  case (DeadlineExpired t k)
  with assms show ?thesis by (auto intro: onDeadline_keeps)
qed

section \<open>Reachable orders\<close>

inductive reachable :: "Order \<Rightarrow> bool" where
  born: "createOrder i = Born order fx \<Longrightarrow> reachable order"
| moved: "reachable order \<Longrightarrow> transition order event = Moved order' fx \<Longrightarrow> reachable order'"

lemma reachable_orderInv: "reachable order \<Longrightarrow> orderInv order"
  by (induction rule: reachable.induct)
    (blast intro: createOrder_orderInv transition_keeps_orderInv)+

end
