(* ===== verification/Order_Money.thy ===== *)
theory Order_Money
  imports Order_Invariant
begin

text \<open>
  \<^verbatim>\<open>packages/core/src/orders/money.ts\<close> and \<^verbatim>\<open>outcome.ts\<close>: the rules about money the
  gateway checks before it writes an order down, and the word an agent is told. The lemmas
  say that an order of the machine breaks none of the rules, and that no word told to the
  agent claims more about the buyer's money than the order knows.
\<close>

section \<open>The rules about money\<close>

definition CLOSED_OWING_NOTHING :: "OrderState list" where
  "CLOSED_OWING_NOTHING = [Rejected, Declined, Expired, Cancelled, Failed]"

definition MAY_HOLD_THE_BUYERS_MONEY :: "OrderState list" where
  "MAY_HOLD_THE_BUYERS_MONEY = [Paid, Dispatched, Delivered, RefundDue, Refunded]"

definition MAY_BE_CHARGING :: "OrderState list" where
  "MAY_BE_CHARGING = [Quoted, Confirmed, Fulfilled, DeliveredUnpaid]"

definition MAY_BE_UNACCOUNTED :: "OrderState list" where
  "MAY_BE_UNACCOUNTED = [Rejected, DeliveredUnpaid]"

definition RECORDS_A_DEBT :: "OrderState list" where
  "RECORDS_A_DEBT = [RefundDue, Refunded]"

definition moneyInvariantViolations :: "Order \<Rightarrow> string list" where
  "moneyInvariantViolations order =
     (let s = state order; p = payment order in
      (if p = PaySettled \<and> s \<notin> set MAY_HOLD_THE_BUYERS_MONEY
       then [''the buyer paid and the order sits in '' @ stateName s
             @ '', which records neither goods nor a debt''] else [])
      @ (if p = PaySettled \<and> s \<in> set CLOSED_OWING_NOTHING
         then [''the buyer paid and the order is closed as '' @ stateName s
               @ '', owing nothing''] else [])
      @ (if p \<noteq> PaySettled \<and> s \<in> set RECORDS_A_DEBT
         then [''the order is in '' @ stateName s @ '' with no charge behind the debt'']
         else [])
      @ (if s = Delivered \<and> p \<noteq> PaySettled
         then [''the order is a success and the money never moved''] else [])
      @ (if s = DeliveredUnpaid \<and> p = PaySettled
         then [''the order is marked unpaid and the money did move''] else [])
      @ (if p = PaySettling \<and> s \<notin> set MAY_BE_CHARGING
         then [''the payment is being executed and the order has moved on to '' @ stateName s
               @ '', so whatever happens to the money now happens to a decided order'']
         else [])
      @ (if p = PayOutcomeUnknown \<and> s \<notin> set MAY_BE_UNACCOUNTED
         then [''a charge on this order never reported back and the order is in ''
               @ stateName s @ '', which is not a place to wait in''] else [])
      @ (if p = PaySettling \<and> settleStartedAt (timestamps order) = None
         then [''the payment is being executed and the order has no record of when that began'']
         else []))"

lemmas money_lists =
  CLOSED_OWING_NOTHING_def MAY_HOLD_THE_BUYERS_MONEY_def MAY_BE_CHARGING_def
  MAY_BE_UNACCOUNTED_def RECORDS_A_DEBT_def

lemma orderInv_no_violations: "orderInv order \<Longrightarrow> moneyInvariantViolations order = []"
  by (cases "state order")
    (auto simp: moneyInvariantViolations_def money_lists orderInv_at Let_def split: if_splits)

section \<open>The word for the agent\<close>

datatype OrderOutcome =
    OutcomeInProgress | OutcomeDelivered | OutcomeRejected | OutcomePaymentUnresolved
  | OutcomeDeclined | OutcomeExpired | OutcomeCancelled | OutcomeRefundDue
  | OutcomeRefunded | OutcomeDeliveredUnpaid

definition outcomeFor :: "Order \<Rightarrow> OrderOutcome" where
  "outcomeFor order =
     (if payment order = PayOutcomeUnknown then
        (if isOpen (state order) then OutcomeInProgress else OutcomePaymentUnresolved)
      else
        (case state order of
           Created \<Rightarrow> OutcomeInProgress
         | Quoted \<Rightarrow> OutcomeInProgress
         | AwaitingConfirmation \<Rightarrow> OutcomeInProgress
         | Confirmed \<Rightarrow> OutcomeInProgress
         | Paid \<Rightarrow> OutcomeInProgress
         | Dispatched \<Rightarrow> OutcomeInProgress
         | Fulfilled \<Rightarrow> OutcomeInProgress
         | Delivered \<Rightarrow> OutcomeDelivered
         | DeliveredUnpaid \<Rightarrow> OutcomeDeliveredUnpaid
         | RefundDue \<Rightarrow> OutcomeRefundDue
         | Refunded \<Rightarrow> OutcomeRefunded
         | Failed \<Rightarrow> OutcomeRejected
         | Rejected \<Rightarrow> OutcomeRejected
         | Declined \<Rightarrow> OutcomeDeclined
         | Expired \<Rightarrow> OutcomeExpired
         | Cancelled \<Rightarrow> OutcomeCancelled))"

text \<open>The words that tell the agent that nothing was charged.\<close>

definition saysNothingCharged :: "OrderOutcome \<Rightarrow> bool" where
  "saysNothingCharged w =
     (w \<in> {OutcomeRejected, OutcomeDeclined, OutcomeExpired, OutcomeCancelled})"

lemma outcome_nothing_charged:
  "orderInv order \<Longrightarrow> saysNothingCharged (outcomeFor order)
   \<Longrightarrow> payment order \<in> {PayNone, PayVerified, PaySettleFailed}"
  by (cases "state order")
    (auto simp: outcomeFor_def saysNothingCharged_def orderInv_at split: if_splits)

lemma outcome_money_taken:
  "orderInv order
   \<Longrightarrow> outcomeFor order \<in> {OutcomeDelivered, OutcomeRefundDue, OutcomeRefunded}
   \<Longrightarrow> payment order = PaySettled"
  by (cases "state order") (auto simp: outcomeFor_def orderInv_at split: if_splits)

lemma outcome_unresolved_iff:
  "orderInv order \<Longrightarrow>
   outcomeFor order = OutcomePaymentUnresolved \<longleftrightarrow>
     state order = Rejected \<and> payment order = PayOutcomeUnknown"
  by (cases "state order") (auto simp: outcomeFor_def orderInv_at)

lemma outcome_in_progress_open:
  "outcomeFor order = OutcomeInProgress \<Longrightarrow> isOpen (state order)"
  by (cases "state order") (auto simp: outcomeFor_def split: if_splits)

end
