(* ===== verification/Order_Steps.thy ===== *)
theory Order_Steps
  imports Order_Money
begin

text \<open>
  What one accepted transition does: the edge of the state graph it follows, what it may
  not touch, which effects it asks for and when. The facts are proved once per function of
  \<^verbatim>\<open>machine.ts\<close>, as \<open>stepSound\<close>, and read off from there.
\<close>

section \<open>The state graph\<close>

definition STATE_EDGES :: "(OrderState \<times> OrderState) list" where
  "STATE_EDGES =
     [(Created, Quoted), (Created, Rejected), (Created, Cancelled),
      (Quoted, AwaitingConfirmation), (Quoted, Paid), (Quoted, Rejected), (Quoted, Expired),
      (Quoted, Cancelled),
      (AwaitingConfirmation, Confirmed), (AwaitingConfirmation, Declined),
      (AwaitingConfirmation, Expired), (AwaitingConfirmation, Cancelled),
      (Confirmed, Paid), (Confirmed, Rejected), (Confirmed, Declined), (Confirmed, Expired),
      (Confirmed, Cancelled),
      (Paid, Dispatched), (Paid, Fulfilled), (Paid, Delivered), (Paid, RefundDue),
      (Paid, Failed), (Paid, Expired), (Paid, Cancelled),
      (Dispatched, Fulfilled), (Dispatched, Delivered), (Dispatched, RefundDue),
      (Dispatched, Failed), (Dispatched, Expired), (Dispatched, Cancelled),
      (Fulfilled, Delivered), (Fulfilled, DeliveredUnpaid),
      (DeliveredUnpaid, Delivered),
      (RefundDue, Delivered), (RefundDue, Refunded),
      (Rejected, RefundDue),
      (Expired, Fulfilled)]"

definition legalEdge :: "OrderState \<Rightarrow> OrderState \<Rightarrow> bool" where
  "legalEdge s s' = (s' = s \<or> (s, s') \<in> set STATE_EDGES)"

text \<open>The edges, one by one, so that no proof unfolds the list.\<close>

lemma legalEdge_simps [simp]:
  "legalEdge s s"
  "legalEdge Created Quoted" "legalEdge Created Rejected" "legalEdge Created Cancelled"
  "legalEdge Quoted AwaitingConfirmation" "legalEdge Quoted Paid" "legalEdge Quoted Rejected"
  "legalEdge Quoted Expired" "legalEdge Quoted Cancelled"
  "legalEdge AwaitingConfirmation Confirmed" "legalEdge AwaitingConfirmation Declined"
  "legalEdge AwaitingConfirmation Expired" "legalEdge AwaitingConfirmation Cancelled"
  "legalEdge Confirmed Paid" "legalEdge Confirmed Rejected" "legalEdge Confirmed Declined"
  "legalEdge Confirmed Expired" "legalEdge Confirmed Cancelled" "legalEdge Paid Dispatched"
  "legalEdge Paid Fulfilled" "legalEdge Paid Delivered" "legalEdge Paid RefundDue"
  "legalEdge Paid Failed" "legalEdge Paid Expired" "legalEdge Paid Cancelled"
  "legalEdge Dispatched Fulfilled" "legalEdge Dispatched Delivered"
  "legalEdge Dispatched RefundDue" "legalEdge Dispatched Failed" "legalEdge Dispatched Expired"
  "legalEdge Dispatched Cancelled" "legalEdge Fulfilled Delivered"
  "legalEdge Fulfilled DeliveredUnpaid" "legalEdge DeliveredUnpaid Delivered"
  "legalEdge RefundDue Delivered" "legalEdge RefundDue Refunded" "legalEdge Rejected RefundDue"
  "legalEdge Expired Fulfilled"
  by (simp_all add: legalEdge_def STATE_EDGES_def)

section \<open>The facts about one transition\<close>

definition sameSale :: "Order \<Rightarrow> Order \<Rightarrow> bool" where
  "sameSale x y =
     (orderId y = orderId x \<and> mode y = mode x \<and> policy y = policy x
      \<and> cardPrice y = cardPrice x \<and> test y = test x
      \<and> createdAt (timestamps y) = createdAt (timestamps x))"

definition entersDelivered :: "Order \<Rightarrow> Order \<Rightarrow> bool" where
  "entersDelivered x y = (state x \<noteq> Delivered \<and> state y = Delivered)"

definition entersRefundDue :: "Order \<Rightarrow> Order \<Rightarrow> bool" where
  "entersRefundDue x y = (state x \<noteq> RefundDue \<and> state y = RefundDue)"

definition entersPaid :: "Order \<Rightarrow> Order \<Rightarrow> bool" where
  "entersPaid x y = (state x \<noteq> Paid \<and> state y = Paid)"

definition startsCharge :: "Order \<Rightarrow> Order \<Rightarrow> bool" where
  "startsCharge x y = (payment x \<noteq> PaySettling \<and> payment y = PaySettling)"

definition effectsFit :: "Order \<Rightarrow> Order \<Rightarrow> Effect list \<Rightarrow> bool" where
  "effectsFit x y fx =
     (distinct fx
      \<and> (ReleaseGoodsToAgent \<in> set fx \<longleftrightarrow> entersDelivered x y)
      \<and> (IssueReceipt \<in> set fx \<longleftrightarrow> entersDelivered x y)
      \<and> (EmitMerchantEvent RefundDueEvent \<in> set fx \<longleftrightarrow> entersRefundDue x y)
      \<and> (\<forall>c. MarkRefundDue c \<in> set fx \<longleftrightarrow> entersRefundDue x y \<and> closure y = Some c)
      \<and> (DispatchOrder \<in> set fx \<longleftrightarrow> entersPaid x y)
      \<and> (ExecutePayment \<in> set fx \<longleftrightarrow> startsCharge x y))"

text \<open>
  The instants the clocks run from, the price, and the held goods: each is written by one
  kind of move and by nothing else.
\<close>

definition recordsKept :: "Order \<Rightarrow> Order \<Rightarrow> bool" where
  "recordsKept x y =
     ((state x \<noteq> Created \<longrightarrow>
         price y = price x \<and> quoteSource y = quoteSource x
         \<and> quotedAt (timestamps y) = quotedAt (timestamps x))
      \<and> (state x \<noteq> Quoted \<longrightarrow>
         confirmationRequestedAt (timestamps y) = confirmationRequestedAt (timestamps x))
      \<and> (state x \<noteq> AwaitingConfirmation \<longrightarrow>
         confirmedAt (timestamps y) = confirmedAt (timestamps x))
      \<and> (payment x = PaySettling \<longrightarrow>
         settleStartedAt (timestamps y) = settleStartedAt (timestamps x))
      \<and> (state x \<noteq> Quoted \<and> state x \<noteq> Confirmed \<longrightarrow>
         paidAt (timestamps y) = paidAt (timestamps x))
      \<and> (heldFulfillment x \<longrightarrow> heldFulfillment y))"

text \<open>
  Where a charge may start: on purchase, from the quote, or from the merchant's yes where the
  mode asks for one; after fulfilment, only with the goods in hand.
\<close>

definition chargePlace :: "Order \<Rightarrow> Order \<Rightarrow> bool" where
  "chargePlace x y =
     (if settle (mode x) = AfterFulfillment then state y = Fulfilled \<or> state y = DeliveredUnpaid
      else state y = state x
           \<and> state x = (if needsConfirmation (mode x) then Confirmed else Quoted))"

definition stepSound :: "Order \<Rightarrow> Order \<Rightarrow> Effect list \<Rightarrow> bool" where
  "stepSound x y fx =
     (sameSale x y \<and> legalEdge (state x) (state y) \<and> effectsFit x y fx \<and> recordsKept x y
      \<and> (startsCharge x y \<longrightarrow> chargePlace x y))"

lemmas stepSound_defs =
  stepSound_def sameSale_def effectsFit_def entersDelivered_def entersRefundDue_def
  entersPaid_def startsCharge_def recordsKept_def chargePlace_def effectsOnQuoted_def

lemma fromCreated_sound:
  "state x = Created \<Longrightarrow> orderInv x \<Longrightarrow> fromCreated x e = Moved y fx \<Longrightarrow> stepSound x y fx"
  by (cases e; auto simp: machine_defs orderInv_at split: if_splits; auto simp: stepSound_defs)

lemma fromQuoted_sound:
  "state x = Quoted \<Longrightarrow> orderInv x \<Longrightarrow> payment x = PaySettling \<longrightarrow> allowedWhileSettling x e
   \<Longrightarrow> fromQuoted x e = Moved y fx \<Longrightarrow> stepSound x y fx"
  by (cases e; auto simp: machine_defs orderInv_at allowedWhileSettling_def split: if_splits;
      auto simp: stepSound_defs)

lemma fromAwaitingConfirmation_sound:
  "state x = AwaitingConfirmation \<Longrightarrow> orderInv x
   \<Longrightarrow> fromAwaitingConfirmation x e = Moved y fx \<Longrightarrow> stepSound x y fx"
  by (cases e; auto simp: machine_defs orderInv_at split: if_splits RedeliveryDecision.splits;
      auto simp: stepSound_defs)

lemma fromConfirmed_sound:
  "state x = Confirmed \<Longrightarrow> orderInv x \<Longrightarrow> payment x = PaySettling \<longrightarrow> allowedWhileSettling x e
   \<Longrightarrow> fromConfirmed x e = Moved y fx \<Longrightarrow> stepSound x y fx"
  by (cases e; auto simp: machine_defs orderInv_at allowedWhileSettling_def split: if_splits;
      auto simp: stepSound_defs)

text \<open>The moves \<open>fromDispatched\<close> is put together from.\<close>

lemma stepSound_same:
  "stepSound x x []"
  "stepSound x x [AnswerMerchant a]"
  "stepSound x x [RedeliverOrder n w]"
  "stepSound x (x\<lparr>dispatch := d\<rparr>) []"
  "stepSound x (x\<lparr>dispatch := d\<rparr>) [AnswerMerchant a]"
  "stepSound x (x\<lparr>dispatch := d,
      timestamps := (timestamps x)\<lparr>dispatchedAt := Some t\<rparr>\<rparr>) []"
  by (simp_all add: stepSound_defs)

lemma stepSound_answered:
  "stepSound x y fx \<Longrightarrow> (\<forall>a. AnswerMerchant a \<notin> set fx) \<Longrightarrow> stepSound x y (fx @ [AnswerMerchant b])"
  by (auto simp: stepSound_def effectsFit_def)

lemma resolveFulfillmentFailure_sound:
  assumes "state x = Dispatched \<or> state x = Paid" and "resolveFulfillmentFailure x c = Moved y fx"
  shows "stepSound x y fx \<and> (\<forall>a. AnswerMerchant a \<notin> set fx)"
  using assms
  by (auto simp: resolveFulfillmentFailure_def ok_def closeWithoutMoney_def split: if_splits;
      auto simp: stepSound_defs)

lemma deliverGoods_sound:
  assumes "state x = Dispatched" and "payment x \<noteq> PaySettling" and "deliverGoods x t [] = Moved y fx"
  shows "stepSound x y fx \<and> (\<forall>a. AnswerMerchant a \<notin> set fx)"
  using assms
  by (auto simp: deliverGoods_def startSettle_def ok_def split: if_splits;
      auto simp: stepSound_defs)

lemma deliverGoods_extra:
  "deliverGoods x t extra =
     (case deliverGoods x t [] of Refused r \<Rightarrow> Refused r | Moved y fx \<Rightarrow> Moved y (fx @ extra))"
  by (simp add: deliverGoods_def startSettle_def ok_def)

lemma onDeparture_sound:
  assumes "state x = Dispatched \<or> state x = Paid" and "onDeparture x = Moved y fx"
  shows "stepSound x y fx"
  using assms by (auto simp: onDeparture_def ok_def closeWithoutMoney_def split: if_splits;
      auto simp: stepSound_defs)

lemma redeliver_sound:
  assumes "state x = Dispatched" and "redeliver x t dl k = Moved y fx"
  shows "stepSound x y fx"
  using assms
  by (auto simp: redeliver_def ok_def stepSound_same resolveFulfillmentFailure_sound
      split: RedeliveryDecision.splits)

lemma fromDispatched_sound:
  assumes x: "state x = Dispatched" "orderInv x" and moved: "fromDispatched x e = Moved y fx"
  shows "stepSound x y fx"
proof -
  have busy: "payment x \<noteq> PaySettling"
    using x by (simp add: orderInv_at)
  note goods = deliverGoods_sound [OF x(1) busy] and failed = resolveFulfillmentFailure_sound [OF disjI1 [OF x(1)]]
  show ?thesis
  proof (cases e)
    case (DeliverCalled t)
    with moved show ?thesis
      using deliverGoods_extra [of x t "[AnswerMerchant (AnswerOk AnswerDelivered)]"] goods [of t]
      by (auto simp: answer_def ok_def stepSound_same stepSound_answered
          split: if_splits TransitionResult.splits)
  next
    case (RefuseCalled t c m)
    with moved show ?thesis
      using failed [of "MerchantRefusedClosure c m"]
      by (auto simp: answer_def ok_def stepSound_same stepSound_answered
          split: if_splits TransitionResult.splits)
  next
    case (HandlerUndelivered t)
    with moved show ?thesis by (simp add: Let_def redeliver_sound [OF x(1)])
  next
    case (MerchantDeparted t)
    with moved x show ?thesis by (simp add: onDeparture_sound)
  next
    case (HandlerDelivered t)
    with moved goods show ?thesis by simp
  next
    case (HandlerRefused t c m)
    with moved failed show ?thesis by simp
  qed (use moved in \<open>auto simp: ok_def ACCEPTANCE_LANDED_def notApplicable_def reject_def Let_def
        stepSound_same\<close>)
qed

text \<open>A paid order is handled as the dispatched one it is about to be.\<close>

lemma stepSound_as_dispatched:
  assumes "state x = Paid" and "state z = Dispatched" and "payment z = payment x"
    and "sameSale x z" and "recordsKept x z" and "stepSound z y fx"
  shows "stepSound x y fx"
proof -
  have "legalEdge (state x) (state y) \<and> state y \<noteq> Paid"
    using assms(1,2,6) by (auto simp: stepSound_def legalEdge_def STATE_EDGES_def)
  moreover have "entersPaid x y = entersPaid z y"
    using assms(1,2) calculation by (auto simp: entersPaid_def)
  ultimately show ?thesis
    using assms
    by (auto simp: stepSound_def sameSale_def effectsFit_def entersDelivered_def
        entersRefundDue_def startsCharge_def recordsKept_def chargePlace_def split: if_splits)
qed

lemma fromPaid_as_dispatched:
  assumes "fromPaid x e = Moved y fx" and "state x = Paid"
  obtains
    (via_handover) "fromDispatched (handedOver x) e = Moved y fx"
  | (via_call) "fromDispatched (x\<lparr>state := Dispatched\<rparr>) e = Moved y fx"
  | (departed) "onDeparture x = Moved y fx"
  | (recorded) t where "y = dispatchedOrder x t" "fx = []"
  | (unchanged) "y = x" "fx = [] \<or> (\<exists>a. fx = [AnswerMerchant a])"
  using assms
  by (cases e)
    (auto simp: answer_def ok_def notApplicable_def reject_def split: if_splits
      simp del: fromDispatched.simps)

lemma fromPaid_sound:
  assumes x: "state x = Paid" "orderInv x" and moved: "fromPaid x e = Moved y fx"
  shows "stepSound x y fx"
  using moved x(1)
proof (cases rule: fromPaid_as_dispatched)
  case via_handover
  have "stepSound (handedOver x) y fx"
    using fromDispatched_sound [OF _ orderInv_handedOver(1) [OF x] via_handover] by simp
  then show ?thesis
    by (rule stepSound_as_dispatched [OF x(1) _ _ _ _, rotated -1])
      (simp_all add: handedOver_def sameSale_def recordsKept_def)
next
  case via_call
  have "stepSound (x\<lparr>state := Dispatched\<rparr>) y fx"
    using fromDispatched_sound [OF _ orderInv_handedOver(2) [OF x] via_call] by simp
  then show ?thesis
    by (rule stepSound_as_dispatched [OF x(1) _ _ _ _, rotated -1]) (simp_all add: sameSale_def recordsKept_def)
next
  case departed
  with x show ?thesis by (intro onDeparture_sound) simp_all
next
  case recorded
  with x show ?thesis by (simp add: dispatchedOrder_def stepSound_defs)
next
  case unchanged
  with x show ?thesis by (auto simp: stepSound_defs)
qed

lemma fromFulfilled_sound:
  "state x = Fulfilled \<Longrightarrow> orderInv x \<Longrightarrow> payment x = PaySettling \<longrightarrow> allowedWhileSettling x e
   \<Longrightarrow> fromFulfilled x e = Moved y fx \<Longrightarrow> stepSound x y fx"
  by (cases e; auto simp: machine_defs orderInv_at split: if_splits; auto simp: stepSound_defs)

lemma fromDelivered_sound:
  "state x = Delivered \<Longrightarrow> orderInv x \<Longrightarrow> fromDelivered x e = Moved y fx \<Longrightarrow> stepSound x y fx"
  by (cases e; auto simp: machine_defs; auto simp: stepSound_defs)

lemma fromDeliveredUnpaid_sound:
  "state x = DeliveredUnpaid \<Longrightarrow> orderInv x \<Longrightarrow> payment x = PaySettling \<longrightarrow> allowedWhileSettling x e
   \<Longrightarrow> fromDeliveredUnpaid x e = Moved y fx \<Longrightarrow> stepSound x y fx"
  by (cases e; auto simp: machine_defs orderInv_at split: if_splits; auto simp: stepSound_defs)

lemma fromRefundDue_sound:
  "state x = RefundDue \<Longrightarrow> orderInv x \<Longrightarrow> fromRefundDue x e = Moved y fx \<Longrightarrow> stepSound x y fx"
  by (cases e; auto simp: machine_defs orderInv_at; auto simp: stepSound_defs)

lemma fromRefunded_sound:
  "state x = Refunded \<Longrightarrow> orderInv x \<Longrightarrow> fromRefunded x e = Moved y fx \<Longrightarrow> stepSound x y fx"
  by (cases e; auto simp: machine_defs; auto simp: stepSound_defs)

lemma fromFailed_sound:
  "state x = Failed \<Longrightarrow> orderInv x \<Longrightarrow> fromFailed x e = Moved y fx \<Longrightarrow> stepSound x y fx"
  by (cases e; auto simp: machine_defs; auto simp: stepSound_defs)

lemma fromExpired_sound:
  "state x = Expired \<Longrightarrow> orderInv x \<Longrightarrow> fromExpired x e = Moved y fx \<Longrightarrow> stepSound x y fx"
  by (cases e; auto simp: machine_defs orderInv_at awaitedLateGoods_def split: if_splits; auto simp: stepSound_defs)

lemma fromClosedWithoutMoney_sound:
  "state x \<in> {Rejected, Declined, Cancelled} \<Longrightarrow> orderInv x
   \<Longrightarrow> fromClosedWithoutMoney x e = Moved y fx \<Longrightarrow> stepSound x y fx"
  by (cases e; auto simp: machine_defs orderInv_at split: if_splits; auto simp: stepSound_defs)

lemmas fromState_sound =
  fromCreated_sound fromQuoted_sound fromAwaitingConfirmation_sound fromConfirmed_sound
  fromPaid_sound fromDispatched_sound fromFulfilled_sound fromDelivered_sound
  fromDeliveredUnpaid_sound fromRefundDue_sound fromRefunded_sound fromFailed_sound
  fromExpired_sound fromClosedWithoutMoney_sound

lemma stateTransition_sound:
  assumes "orderInv x" and "payment x = PaySettling \<longrightarrow> allowedWhileSettling x e"
    and "stateTransition x e = Moved y fx"
  shows "stepSound x y fx"
  using assms
  by (cases "state x") (auto simp: stateTransition_def elim: fromState_sound [rotated -1])

lemma onSilentSettle_sound:
  assumes "payment x = PaySettling" and "orderInv x" and "onSilentSettle x = Moved y fx"
  shows "stepSound x y fx"
proof -
  have "state x \<in> {Quoted, Confirmed, Fulfilled, DeliveredUnpaid}"
    using assms(1,2) by (cases "state x") (auto simp: orderInv_at split: if_splits)
  then show ?thesis
    using assms(1,3)
    by (auto simp: onSilentSettle_def ok_def closeWithoutMoney_def Let_def;
        auto simp: stepSound_defs)
qed

lemma expireArmed_sound:
  assumes inv: "orderInv x" and armed: "armedDeadline x k = Some d"
    and fired: "expireArmed x t k = Moved y fx"
  shows "stepSound x y fx"
  using armed
proof (cases rule: armedDeadline_cases)
  case settling
  with inv fired show ?thesis by (simp add: expireArmed_def onSilentSettle_sound)
next
  case sync
  with fired show ?thesis
    by (auto simp: expireArmed_def dest: resolveFulfillmentFailure_sound [rotated])
next
  case async
  with fired show ?thesis
    by (auto simp: expireArmed_def dest: resolveFulfillmentFailure_sound [rotated])
qed (use inv fired in
      \<open>auto simp: expireArmed_def onQuoteSilence_def enterQuoted_def closeWithoutMoney_def ok_def
        stepSound_defs split: if_splits\<close>)

lemma onDeadline_sound:
  "orderInv x \<Longrightarrow> onDeadline x t k = Moved y fx \<Longrightarrow> stepSound x y fx"
  by (auto simp: onDeadline_Moved_iff intro: expireArmed_sound)

lemma transition_sound:
  assumes "orderInv x" and "transition x event = Moved y fx"
  shows "stepSound x y fx"
proof (cases event)
  case (Happened e)
  with assms show ?thesis
    using transition_Happened_Moved [of x e y fx] stateTransition_sound [of x e y fx] by blast
next
  case (DeadlineExpired t k)
  with assms show ?thesis by (auto intro: onDeadline_sound)
qed

end
