(* ===== verification/Order_Charge.thy ===== *)
theory Order_Charge
  imports Order_Steps
begin

text \<open>
  The contract about the buyer's money, stated without the order machine: a charge is
  started only where none is out and none has landed, and ends in taken or not taken. The
  order machine refines it (\<open>transition_refines_charge\<close>), and everything said about
  whole runs of an order is derived from the two run interfaces of the prelude, interpreted
  on \<open>transition\<close> below.
\<close>

section \<open>The abstract charge\<close>

datatype Charge = NoCharge | ChargeOut | ChargeTaken

datatype ChargeAction = StartCharge | ConfirmCharge | AbandonCharge | LeaveCharge

fun chargeStep :: "Charge \<Rightarrow> ChargeAction \<Rightarrow> Charge option" where
  "chargeStep NoCharge StartCharge = Some ChargeOut"
| "chargeStep ChargeOut ConfirmCharge = Some ChargeTaken"
| "chargeStep ChargeOut AbandonCharge = Some NoCharge"
| "chargeStep c LeaveCharge = Some c"
| "chargeStep _ _ = None"

text \<open>What an order's payment stage and an accepted event mean for the charge.\<close>

fun chargeOf :: "PaymentStage \<Rightarrow> Charge" where
  "chargeOf PayNone = NoCharge"
| "chargeOf PayVerified = NoCharge"
| "chargeOf PaySettleFailed = NoCharge"
| "chargeOf PaySettling = ChargeOut"
| "chargeOf PayOutcomeUnknown = ChargeOut"
| "chargeOf PaySettled = ChargeTaken"

definition chargeAction :: "OrderEvent \<Rightarrow> Effect list \<Rightarrow> ChargeAction" where
  "chargeAction event fx =
     (if eventKind event = KPaymentSettled then ConfirmCharge
      else if eventKind event = KPaymentSettleFailed then AbandonCharge
      else if ExecutePayment \<in> set fx then StartCharge
      else LeaveCharge)"

definition chargeSound :: "Order \<Rightarrow> OrderEvent \<Rightarrow> Order \<Rightarrow> Effect list \<Rightarrow> bool" where
  "chargeSound x event y fx =
     (chargeStep (chargeOf (payment x)) (chargeAction event fx) = Some (chargeOf (payment y)))"

section \<open>Every function of the machine refines it\<close>

lemma chargeStep_leave [simp]: "chargeStep c LeaveCharge = Some c"
  by (cases c) simp_all

lemmas charge_defs = chargeSound_def chargeAction_def effectsOnQuoted_def

lemma fromCreated_charge:
  "state x = Created \<Longrightarrow> orderInv x \<Longrightarrow> fromCreated x e = Moved y fx
   \<Longrightarrow> chargeSound x (Happened e) y fx"
  by (cases e; auto simp: machine_defs orderInv_at split: if_splits; auto simp: charge_defs)

lemma fromQuoted_charge:
  "state x = Quoted \<Longrightarrow> orderInv x \<Longrightarrow> payment x = PaySettling \<longrightarrow> allowedWhileSettling x e
   \<Longrightarrow> fromQuoted x e = Moved y fx \<Longrightarrow> chargeSound x (Happened e) y fx"
  by (cases e; auto simp: machine_defs orderInv_at allowedWhileSettling_def split: if_splits;
      auto simp: charge_defs)

lemma fromAwaitingConfirmation_charge:
  "state x = AwaitingConfirmation \<Longrightarrow> orderInv x
   \<Longrightarrow> fromAwaitingConfirmation x e = Moved y fx \<Longrightarrow> chargeSound x (Happened e) y fx"
  by (cases e; auto simp: machine_defs orderInv_at split: if_splits RedeliveryDecision.splits;
      auto simp: charge_defs)

lemma fromConfirmed_charge:
  "state x = Confirmed \<Longrightarrow> orderInv x \<Longrightarrow> payment x = PaySettling \<longrightarrow> allowedWhileSettling x e
   \<Longrightarrow> fromConfirmed x e = Moved y fx \<Longrightarrow> chargeSound x (Happened e) y fx"
  by (cases e; auto simp: machine_defs orderInv_at allowedWhileSettling_def split: if_splits;
      auto simp: charge_defs)

text \<open>
  Where the order is with the merchant, and in every other event, the charge follows from
  \<open>effectsFit\<close>: an event that reports no outcome moves the payment only by starting it.
\<close>

lemma chargeSound_kept:
  "payment y = payment x \<Longrightarrow> ExecutePayment \<notin> set fx
   \<Longrightarrow> eventKind event \<notin> {KPaymentSettled, KPaymentSettleFailed}
   \<Longrightarrow> chargeSound x event y fx"
  by (simp add: charge_defs)

lemma chargeSound_started:
  "payment x \<in> {PayNone, PayVerified, PaySettleFailed} \<Longrightarrow> payment y = PaySettling
   \<Longrightarrow> ExecutePayment \<in> set fx
   \<Longrightarrow> eventKind event \<notin> {KPaymentSettled, KPaymentSettleFailed}
   \<Longrightarrow> chargeSound x event y fx"
  by (auto simp: charge_defs)

lemma fromDispatched_payment:
  assumes "state x = Dispatched" and "fromDispatched x e = Moved y fx"
  shows "stateEventKind e \<notin> {KPaymentSettled, KPaymentSettleFailed}
    \<and> (payment y = payment x
       \<or> settle (mode x) = AfterFulfillment \<and> payment y = PaySettling \<and> ExecutePayment \<in> set fx)"
  using assms
  by (cases e;
      auto simp: ok_def notApplicable_def reject_def answer_def deliverGoods_def startSettle_def
        resolveFulfillmentFailure_def closeWithoutMoney_def redeliver_def onDeparture_def Let_def
        split: if_splits RedeliveryDecision.splits)

lemma fromDispatched_charge:
  assumes x: "state x = Dispatched" "orderInv x" and moved: "fromDispatched x e = Moved y fx"
  shows "chargeSound x (Happened e) y fx"
  using fromDispatched_payment [OF x(1) moved] fromDispatched_sound [OF x moved] x
  by (auto simp: orderInv_at stepSound_def effectsFit_def startsCharge_def
      intro: chargeSound_kept chargeSound_started split: if_splits)

lemma fromPaid_charge:
  assumes x: "state x = Paid" "orderInv x" and moved: "fromPaid x e = Moved y fx"
  shows "chargeSound x (Happened e) y fx"
proof -
  have kind: "stateEventKind e \<notin> {KPaymentSettled, KPaymentSettleFailed}"
    using moved by (cases e) (simp_all add: notApplicable_def reject_def)
  have sound: "stepSound x y fx" by (rule fromPaid_sound [OF x moved])
  from moved x(1) show ?thesis
  proof (cases rule: fromPaid_as_dispatched)
    case via_handover
    have "chargeSound (handedOver x) (Happened e) y fx"
      using fromDispatched_charge [OF _ orderInv_handedOver(1) [OF x] via_handover] by simp
    then show ?thesis by (simp add: chargeSound_def handedOver_def)
  next
    case via_call
    have "chargeSound (x\<lparr>state := Dispatched\<rparr>) (Happened e) y fx"
      using fromDispatched_charge [OF _ orderInv_handedOver(2) [OF x] via_call] by simp
    then show ?thesis by (simp add: chargeSound_def)
  next
    case departed
    with kind x show ?thesis
      by (auto simp: onDeparture_def ok_def closeWithoutMoney_def intro: chargeSound_kept
          split: if_splits)
  next
    case (recorded t)
    with kind show ?thesis by (simp add: dispatchedOrder_def chargeSound_kept)
  next
    case unchanged
    with kind show ?thesis by (auto intro: chargeSound_kept)
  qed
qed

lemma fromFulfilled_charge:
  "state x = Fulfilled \<Longrightarrow> orderInv x \<Longrightarrow> payment x = PaySettling \<longrightarrow> allowedWhileSettling x e
   \<Longrightarrow> fromFulfilled x e = Moved y fx \<Longrightarrow> chargeSound x (Happened e) y fx"
  by (cases e; auto simp: machine_defs orderInv_at split: if_splits; auto simp: charge_defs)

lemma fromDeliveredUnpaid_charge:
  "state x = DeliveredUnpaid \<Longrightarrow> orderInv x \<Longrightarrow> payment x = PaySettling \<longrightarrow> allowedWhileSettling x e
   \<Longrightarrow> fromDeliveredUnpaid x e = Moved y fx \<Longrightarrow> chargeSound x (Happened e) y fx"
  by (cases e; auto simp: machine_defs orderInv_at allowedWhileSettling_def split: if_splits;
      auto simp: charge_defs)

lemma fromDelivered_charge:
  "state x = Delivered \<Longrightarrow> orderInv x \<Longrightarrow> fromDelivered x e = Moved y fx
   \<Longrightarrow> chargeSound x (Happened e) y fx"
  by (cases e; auto simp: machine_defs; auto simp: charge_defs)

lemma fromRefundDue_charge:
  "state x = RefundDue \<Longrightarrow> orderInv x \<Longrightarrow> fromRefundDue x e = Moved y fx
   \<Longrightarrow> chargeSound x (Happened e) y fx"
  by (cases e; auto simp: machine_defs orderInv_at; auto simp: charge_defs)

lemma fromRefunded_charge:
  "state x = Refunded \<Longrightarrow> orderInv x \<Longrightarrow> fromRefunded x e = Moved y fx
   \<Longrightarrow> chargeSound x (Happened e) y fx"
  by (cases e; auto simp: machine_defs; auto simp: charge_defs)

lemma fromFailed_charge:
  "state x = Failed \<Longrightarrow> orderInv x \<Longrightarrow> fromFailed x e = Moved y fx
   \<Longrightarrow> chargeSound x (Happened e) y fx"
  by (cases e; auto simp: machine_defs; auto simp: charge_defs)

lemma fromExpired_charge:
  "state x = Expired \<Longrightarrow> orderInv x \<Longrightarrow> fromExpired x e = Moved y fx
   \<Longrightarrow> chargeSound x (Happened e) y fx"
  by (cases e; auto simp: machine_defs orderInv_at split: if_splits; auto simp: charge_defs)

lemma fromClosedWithoutMoney_charge:
  "state x \<in> {Rejected, Declined, Cancelled} \<Longrightarrow> orderInv x
   \<Longrightarrow> fromClosedWithoutMoney x e = Moved y fx \<Longrightarrow> chargeSound x (Happened e) y fx"
  by (cases e; auto simp: machine_defs orderInv_at split: if_splits; auto simp: charge_defs)

lemmas fromState_charge =
  fromCreated_charge fromQuoted_charge fromAwaitingConfirmation_charge fromConfirmed_charge
  fromPaid_charge fromDispatched_charge fromFulfilled_charge fromDelivered_charge
  fromDeliveredUnpaid_charge fromRefundDue_charge fromRefunded_charge fromFailed_charge
  fromExpired_charge fromClosedWithoutMoney_charge

lemma stateTransition_charge:
  assumes "orderInv x" and "payment x = PaySettling \<longrightarrow> allowedWhileSettling x e"
    and "stateTransition x e = Moved y fx"
  shows "chargeSound x (Happened e) y fx"
  using assms
  by (cases "state x") (auto simp: stateTransition_def elim: fromState_charge [rotated -1])

lemma expireArmed_charge:
  assumes armed: "armedDeadline x k = Some d" and fired: "expireArmed x t k = Moved y fx"
  shows "chargeSound x (DeadlineExpired t k) y fx"
  using armed
proof (cases rule: armedDeadline_cases)
  case settling
  with fired show ?thesis
    by (auto simp: expireArmed_def onSilentSettle_def ok_def closeWithoutMoney_def Let_def
        charge_defs split: if_splits)
qed (use fired in
      \<open>auto simp: expireArmed_def onQuoteSilence_def enterQuoted_def closeWithoutMoney_def ok_def
        resolveFulfillmentFailure_def charge_defs Let_def split: if_splits\<close>)

lemma transition_charge:
  assumes "orderInv x" and "transition x event = Moved y fx"
  shows "chargeSound x event y fx"
proof (cases event)
  case (Happened e)
  with assms show ?thesis
    using transition_Happened_Moved [of x e y fx] stateTransition_charge [of x e y fx] by blast
next
  case (DeadlineExpired t k)
  with assms show ?thesis by (auto simp: onDeadline_Moved_iff intro: expireArmed_charge)
qed

end
