(* ===== verification/Order_Runs.thy ===== *)
theory Order_Runs
  imports Order_Charge
begin

text \<open>
  Whole runs of one order: a list of events, some accepted and some refused, fed to
  \<open>transition\<close>. The run interfaces of the prelude are interpreted on it once per quantity
  that is bounded: charges sent, charges landed, goods and receipts released, dispatches,
  and debts announced.
\<close>

section \<open>The transition function as a machine\<close>

definition orderMachine :: "(Order, OrderEvent, Effect) machine" where
  "orderMachine order event =
     (case transition order event of
        Moved order' effects \<Rightarrow> Some (order', effects)
      | Refused rejection \<Rightarrow> None)"

lemma orderMachine_Some [simp]:
  "orderMachine x e = Some (y, fx) \<longleftrightarrow> transition x e = Moved y fx"
  by (simp add: orderMachine_def split: TransitionResult.split)

text \<open>How often an effect was asked for in a run, and an event of a kind was accepted.\<close>

definition timesAsked :: "Effect \<Rightarrow> (OrderEvent, Effect) log \<Rightarrow> nat" where
  "timesAsked effect entries = count_list (concat (map snd entries)) effect"

definition timesAccepted :: "OrderEventKind \<Rightarrow> (OrderEvent, Effect) log \<Rightarrow> nat" where
  "timesAccepted kind entries = count_list (map (eventKind \<circ> fst) entries) kind"

definition asks :: "Effect \<Rightarrow> OrderEvent \<times> Effect list \<Rightarrow> nat" where
  "asks effect entry = count_list (snd entry) effect"

definition accepts :: "OrderEventKind \<Rightarrow> OrderEvent \<times> Effect list \<Rightarrow> nat" where
  "accepts kind entry = (if eventKind (fst entry) = kind then 1 else 0)"

lemma count_list_append' [simp]: "count_list (xs @ ys) x = count_list xs x + count_list ys x"
  by (induction xs) simp_all

lemma logged_asks: "logged (asks effect) entries = timesAsked effect entries"
  by (induction entries) (simp_all add: timesAsked_def asks_def)

lemma logged_accepts: "logged (accepts kind) entries = timesAccepted kind entries"
  by (induction entries) (simp_all add: timesAccepted_def accepts_def)

lemma logged_none: "logged (\<lambda>_. 0) entries = 0"
  by (induction entries) simp_all

lemma count_list_distinct: "distinct xs \<Longrightarrow> count_list xs x = (if x \<in> set xs then 1 else 0)"
  by (induction xs) auto

lemma asks_le_one: "stepSound x y fx \<Longrightarrow> asks effect (e, fx) = (if effect \<in> set fx then 1 else 0)"
  by (simp add: asks_def stepSound_def effectsFit_def count_list_distinct)

interpretation orders: preserved_machine orderMachine orderInv
  by unfold_locales (auto intro: transition_keeps_orderInv)

section \<open>What is used up by a run\<close>

text \<open>The charge that may still be started without another one failing first.\<close>

fun chargesLeft :: "Charge \<Rightarrow> nat" where
  "chargesLeft NoCharge = 1"
| "chargesLeft _ = 0"

interpretation charges: budgeted_machine orderMachine orderInv
    "asks ExecutePayment" "accepts KPaymentSettleFailed" "chargesLeft \<circ> chargeOf \<circ> payment"
proof
  fix x y :: Order and e fx
  assume inv: "orderInv x" and "orderMachine x e = Some (y, fx)"
  then have moved: "transition x e = Moved y fx" by simp
  have sound: "stepSound x y fx" by (rule transition_sound [OF inv moved])
  have charge: "chargeSound x e y fx" by (rule transition_charge [OF inv moved])
  have starts: "ExecutePayment \<in> set fx \<longleftrightarrow> payment x \<noteq> PaySettling \<and> payment y = PaySettling"
    using sound by (simp add: stepSound_def effectsFit_def startsCharge_def)
  show "asks ExecutePayment (e, fx) + (chargesLeft \<circ> chargeOf \<circ> payment) y
      \<le> (chargesLeft \<circ> chargeOf \<circ> payment) x + accepts KPaymentSettleFailed (e, fx)"
    using charge starts unfolding asks_le_one [OF sound] accepts_def chargeSound_def
    by (cases "payment x"; cases "payment y")
      (auto simp: chargeAction_def split: if_splits)
qed

text \<open>The charge that can still land.\<close>

fun landingsLeft :: "Charge \<Rightarrow> nat" where
  "landingsLeft ChargeTaken = 0"
| "landingsLeft _ = 1"

interpretation landings: budgeted_machine orderMachine orderInv
    "accepts KPaymentSettled" "\<lambda>_. 0" "landingsLeft \<circ> chargeOf \<circ> payment"
proof
  fix x y :: Order and e fx
  assume inv: "orderInv x" and "orderMachine x e = Some (y, fx)"
  then have "chargeSound x e y fx" by (simp add: transition_charge)
  then show "accepts KPaymentSettled (e, fx) + (landingsLeft \<circ> chargeOf \<circ> payment) y
      \<le> (landingsLeft \<circ> chargeOf \<circ> payment) x + 0"
    by (cases "payment x"; cases "payment y")
      (auto simp: chargeSound_def chargeAction_def accepts_def split: if_splits)
qed

text \<open>
  Three stretches of the state graph that an order enters at most once. Each is given by the
  states from which it can still be entered, and the edges of the graph do the rest.
\<close>

definition beforeEntry :: "OrderState list \<Rightarrow> Order \<Rightarrow> nat" where
  "beforeEntry states order = (if state order \<in> set states then 1 else 0)"

definition canStillDeliver :: "OrderState list" where
  "canStillDeliver = removeAll Delivered ORDER_STATES"

definition canStillOwe :: "OrderState list" where
  "canStillOwe = removeAll Delivered (removeAll RefundDue (removeAll Refunded ORDER_STATES))"

definition canStillBePaid :: "OrderState list" where
  "canStillBePaid = [Created, Quoted, AwaitingConfirmation, Confirmed]"

lemma canStill_sets:
  "s \<in> set canStillDeliver \<longleftrightarrow> s \<noteq> Delivered"
  "s \<in> set canStillOwe \<longleftrightarrow> s \<notin> {Delivered, RefundDue, Refunded}"
  "s \<in> set canStillBePaid \<longleftrightarrow> s \<in> {Created, Quoted, AwaitingConfirmation, Confirmed}"
  using order_states_complete
  by (auto simp: canStillDeliver_def canStillOwe_def canStillBePaid_def)

lemma legalEdge_stays:
  assumes "legalEdge s s'"
  shows "s = Delivered \<longrightarrow> s' = Delivered"
    and "s \<in> {Delivered, RefundDue, Refunded} \<longrightarrow> s' \<in> {Delivered, RefundDue, Refunded}"
    and "s' = RefundDue \<and> s \<noteq> RefundDue \<longrightarrow> s \<notin> {Delivered, Refunded}"
    and "s' \<in> {Created, Quoted, AwaitingConfirmation, Confirmed}
      \<longrightarrow> s \<in> {Created, Quoted, AwaitingConfirmation, Confirmed}"
    and "s' = Paid \<and> s \<noteq> Paid \<longrightarrow> s \<in> {Created, Quoted, AwaitingConfirmation, Confirmed}"
  using assms by (auto simp: legalEdge_def STATE_EDGES_def)

lemma deliveries_pay:
  assumes "stepSound x y fx" and "f \<in> {ReleaseGoodsToAgent, IssueReceipt}"
  shows "asks f (e, fx) + beforeEntry canStillDeliver y \<le> beforeEntry canStillDeliver x"
proof -
  have "f \<in> set fx \<longleftrightarrow> entersDelivered x y" and "legalEdge (state x) (state y)"
    using assms by (auto simp: stepSound_def effectsFit_def)
  then show ?thesis
    using legalEdge_stays(1) [of "state x" "state y"]
    by (auto simp: asks_le_one [OF assms(1)] beforeEntry_def canStill_sets entersDelivered_def)
qed

interpretation releases: budgeted_machine orderMachine orderInv
    "asks ReleaseGoodsToAgent" "\<lambda>_. 0" "beforeEntry canStillDeliver"
  by unfold_locales (simp add: deliveries_pay transition_sound)

interpretation receipts: budgeted_machine orderMachine orderInv
    "asks IssueReceipt" "\<lambda>_. 0" "beforeEntry canStillDeliver"
  by unfold_locales (simp add: deliveries_pay transition_sound)

lemma debts_pay:
  assumes "stepSound x y fx"
  shows "asks (EmitMerchantEvent RefundDueEvent) (e, fx) + beforeEntry canStillOwe y
    \<le> beforeEntry canStillOwe x"
proof -
  have "EmitMerchantEvent RefundDueEvent \<in> set fx \<longleftrightarrow> entersRefundDue x y"
    and "legalEdge (state x) (state y)"
    using assms by (simp_all add: stepSound_def effectsFit_def)
  then show ?thesis
    using legalEdge_stays(2,3) [of "state x" "state y"]
    by (auto simp: asks_le_one [OF assms] beforeEntry_def canStill_sets entersRefundDue_def)
qed

interpretation debts: budgeted_machine orderMachine orderInv
    "asks (EmitMerchantEvent RefundDueEvent)" "\<lambda>_. 0" "beforeEntry canStillOwe"
  by unfold_locales (simp add: debts_pay transition_sound)

lemma dispatches_pay:
  assumes "stepSound x y fx"
  shows "asks DispatchOrder (e, fx) + beforeEntry canStillBePaid y
    \<le> beforeEntry canStillBePaid x"
proof -
  have "DispatchOrder \<in> set fx \<longleftrightarrow> entersPaid x y" and "legalEdge (state x) (state y)"
    using assms by (simp_all add: stepSound_def effectsFit_def)
  then show ?thesis
    using legalEdge_stays(4,5) [of "state x" "state y"]
    by (auto simp: asks_le_one [OF assms] beforeEntry_def canStill_sets entersPaid_def)
qed

interpretation dispatches: budgeted_machine orderMachine orderInv
    "asks DispatchOrder" "\<lambda>_. 0" "beforeEntry canStillBePaid"
  by unfold_locales (simp add: dispatches_pay transition_sound)

section \<open>Runs of an order from its birth\<close>

lemma run_charges:
  assumes "createOrder i = Born x fx" and "run_machine orderMachine x es = (y, entries)"
  shows "timesAsked ExecutePayment entries \<le> 1 + timesAccepted KPaymentSettleFailed entries"
proof -
  have "payment x = PayNone" using assms(1) by (auto elim!: createOrder_bornE simp: baseOrder_def)
  with charges.run_pays [OF createOrder_orderInv [OF assms(1)] assms(2)]
  show ?thesis by (simp add: logged_asks logged_accepts)
qed

lemma run_landings:
  assumes "orderInv x" and "run_machine orderMachine x es = (y, entries)"
  shows "timesAccepted KPaymentSettled entries \<le> 1"
proof -
  have "landingsLeft (chargeOf (payment x)) \<le> 1" by (cases "payment x") simp_all
  with landings.run_pays [OF assms] show ?thesis by (simp add: logged_accepts logged_none)
qed

lemma run_at_most_once:
  assumes "orderInv x" and "run_machine orderMachine x es = (y, entries)"
  shows "timesAsked ReleaseGoodsToAgent entries \<le> 1"
    and "timesAsked IssueReceipt entries \<le> 1"
    and "timesAsked (EmitMerchantEvent RefundDueEvent) entries \<le> 1"
    and "timesAsked DispatchOrder entries \<le> 1"
  using releases.run_pays [OF assms] receipts.run_pays [OF assms] debts.run_pays [OF assms]
    dispatches.run_pays [OF assms]
  by (auto simp: logged_asks logged_none beforeEntry_def split: if_splits)

text \<open>A run keeps to the reachable orders.\<close>

lemma run_reachable:
  "reachable x \<Longrightarrow> run_machine orderMachine x es = (y, entries) \<Longrightarrow> reachable y"
proof (induction es arbitrary: x entries)
  case (Cons e es)
  then show ?case
    by (auto simp: split: option.splits prod.splits intro: reachable.moved)
qed simp

end
