(* ===== verification/Order_Answers.thy ===== *)
theory Order_Answers
  imports Order_Clocks
begin

text \<open>
  What the machine answers, state by state: the shape of a refusal, what is taken while a
  payment is being executed, what leaves a closed state, a merchant's call repeated or late,
  a merchant's departure, and when another delivery is asked for.
\<close>

section \<open>Refusals\<close>

definition refusalFits :: "Order \<Rightarrow> OrderEvent \<Rightarrow> TransitionRejection \<Rightarrow> bool" where
  "refusalFits x event r =
     (rejectedState r = state x \<and> rejectedEvent r = eventKind event
      \<and> (retryable r \<longleftrightarrow> rejectionCode r = SettleInFlight))"

lemmas refusal_defs = refusalFits_def isRetryable_def

lemma refusal_before_payment:
  "fromCreated x e = Refused r \<Longrightarrow> refusalFits x (Happened e) r"
  "fromQuoted x e = Refused r \<Longrightarrow> refusalFits x (Happened e) r"
  "fromAwaitingConfirmation x e = Refused r \<Longrightarrow> refusalFits x (Happened e) r"
  "fromConfirmed x e = Refused r \<Longrightarrow> refusalFits x (Happened e) r"
  by (cases e; auto simp: machine_defs refusal_defs
      split: if_splits RedeliveryDecision.splits)+

lemma fromDispatched_Refused:
  "fromDispatched x e = Refused r \<Longrightarrow>
     refusalFits x (Happened e) r
     \<and> stateEventKind e \<notin> {KDeliverCalled, KRefuseCalled, KHandlerAccepted, KHandlerDelivered,
          KHandlerRefused, KHandlerUndelivered}"
  by (cases e; auto simp: machine_defs refusal_defs Let_def
      split: if_splits RedeliveryDecision.splits)

lemma refusal_at_merchant:
  "fromDispatched x e = Refused r \<Longrightarrow> refusalFits x (Happened e) r"
  "fromPaid x e = Refused r \<Longrightarrow> refusalFits x (Happened e) r"
  "fromFulfilled x e = Refused r \<Longrightarrow> refusalFits x (Happened e) r"
    apply (simp add: fromDispatched_Refused)
   apply (cases e; auto simp: onDeparture_def ok_def answer_def notApplicable_def reject_def
      refusal_defs split: if_splits dest: fromDispatched_Refused
      simp del: fromDispatched.simps)
  apply (cases e; auto simp: machine_defs refusal_defs split: if_splits)
  done

lemma refusal_after_goods:
  "fromDelivered x e = Refused r \<Longrightarrow> refusalFits x (Happened e) r"
  "fromDeliveredUnpaid x e = Refused r \<Longrightarrow> refusalFits x (Happened e) r"
  "fromRefundDue x e = Refused r \<Longrightarrow> refusalFits x (Happened e) r"
  "fromRefunded x e = Refused r \<Longrightarrow> refusalFits x (Happened e) r"
  "fromFailed x e = Refused r \<Longrightarrow> refusalFits x (Happened e) r"
  "fromExpired x e = Refused r \<Longrightarrow> refusalFits x (Happened e) r"
  "fromClosedWithoutMoney x e = Refused r \<Longrightarrow> refusalFits x (Happened e) r"
  by (cases e; auto simp: machine_defs refusal_defs split: if_splits)+

lemma stateTransition_refusal:
  "stateTransition x e = Refused r \<Longrightarrow> refusalFits x (Happened e) r"
  by (cases "state x")
    (simp_all add: stateTransition_def refusal_before_payment refusal_at_merchant
      refusal_after_goods)

lemma onDeadline_refusal:
  "onDeadline x t k = Refused r \<Longrightarrow> refusalFits x (DeadlineExpired t k) r"
  using expireArmed_Moved [of x t k]
  by (auto simp: onDeadline_def expireArmed_def [symmetric] reject_def refusal_defs
      split: option.splits if_splits)

lemma transition_refusal:
  "transition x event = Refused r \<Longrightarrow> refusalFits x event r"
  by (cases event)
    (auto simp: reject_def refusal_defs onDeadline_refusal [unfolded refusal_defs]
      dest: stateTransition_refusal [unfolded refusal_defs] split: if_splits)

section \<open>While the payment is being executed\<close>

lemma settling_window:
  assumes inv: "orderInv x" and busy: "payment x = PaySettling"
    and moved: "transition x (Happened e) = Moved y fx"
  shows "allowedEventWhileSettling e
    \<or> merchantCall e \<and> y = x \<and> (\<exists>a. fx = [AnswerMerchant a])"
proof (cases "allowedEventWhileSettling e")
  case False
  with moved busy have "merchantCall e" and st: "state x = Fulfilled \<or> state x = DeliveredUnpaid"
    and step: "stateTransition x e = Moved y fx"
    by (auto simp: allowedWhileSettling_def reject_def split: if_splits)
  then show ?thesis
    by (cases e) (auto simp: stateTransition_def answer_def ok_def)
qed simp

lemma settling_refusal:
  assumes inv: "orderInv x" and busy: "payment x = PaySettling"
    and refused: "transition x (Happened e) = Refused r"
  shows "\<not> allowedEventWhileSettling e \<and> retryable r"
proof (rule ccontr)
  assume "\<not> (\<not> allowedEventWhileSettling e \<and> retryable r)"
  with refused busy have "allowedWhileSettling x e" and step: "stateTransition x e = Refused r"
    by (auto simp: allowedWhileSettling_def reject_def isRetryable_def split: if_splits)
  moreover have "state x \<in> {Quoted, Confirmed, Fulfilled, DeliveredUnpaid}"
    using inv busy by (cases "state x") (auto simp: orderInv_at split: if_splits)
  ultimately show False
    using busy
    by (cases e) (auto simp: allowedWhileSettling_def stateTransition_def answer_def ok_def
        enterPaid_def split: if_splits)
qed

section \<open>What leaves a closed state\<close>

lemma closed_state_left:
  assumes inv: "orderInv x" and closed: "\<not> isOpen (state x)"
    and moved: "transition x event = Moved y fx" and left: "state y \<noteq> state x"
  shows "state x = Rejected \<and> payment x = PayOutcomeUnknown \<and> state y = RefundDue
      \<and> eventKind event = KPaymentSettled
    \<or> state x = Expired \<and> heldFulfillment x \<and> state y = Fulfilled
      \<and> eventKind event = KPaymentVerified"
proof -
  have idle: "payment x \<noteq> PaySettling"
    using inv closed by (cases "state x") (auto simp: orderInv_at)
  then have "deadlines x = []" using inv closed one_clock [of x] by simp
  then obtain e where e: "event = Happened e"
    using moved by (cases event) (auto simp: onDeadline_def reject_def)
  have "legalEdge (state x) (state y)"
    using transition_sound [OF inv moved] by (simp add: stepSound_def)
  with closed left
  have "state x = Rejected \<and> state y = RefundDue \<or> state x = Expired \<and> state y = Fulfilled"
    by (cases "state x") (auto simp: legalEdge_def STATE_EDGES_def)
  then show ?thesis
  proof
    assume "state x = Rejected \<and> state y = RefundDue"
    with moved inv idle show ?thesis unfolding e
      by (cases e) (auto simp: stateTransition_def machine_defs orderInv_at split: if_splits)
  next
    assume "state x = Expired \<and> state y = Fulfilled"
    with moved inv idle show ?thesis unfolding e
      by (cases e) (auto simp: stateTransition_def machine_defs split: if_splits)
  qed
qed

section \<open>A merchant's calls\<close>

lemma deliver_again:
  "state x \<in> {Fulfilled, Delivered, DeliveredUnpaid} \<Longrightarrow> payment x = PaySettling \<longrightarrow> state x \<noteq> Delivered
   \<Longrightarrow> transition x (Happened (DeliverCalled t))
         = Moved x [AnswerMerchant (AnswerOk AnswerAlreadyDelivered)]"
  by (auto simp: stateTransition_def answer_def ok_def allowedWhileSettling_def)

text \<open>An order whose money is taken or promised accepts the goods, and the goods move it on.\<close>

lemma goods_accepted:
  assumes inv: "orderInv x" and st: "state x \<in> {Paid, Dispatched, RefundDue}"
  shows "\<exists>y fx. transition x (Happened (HandlerDelivered t)) = Moved y fx
    \<and> state y = (if settle (mode x) = AfterFulfillment \<and> state x \<noteq> RefundDue
                 then Fulfilled else Delivered)"
  using assms
  by (auto simp: stateTransition_def orderInv_at deliverGoods_def startSettle_def ok_def
      handedOver_def)

lemma order_dispatched_iff:
  assumes "orderInv x"
  shows "(\<exists>y fx. transition x (Happened (OrderDispatched t)) = Moved y fx)
     \<longleftrightarrow> state x \<in> {Paid, Dispatched, RefundDue}"
  using assms
  by (cases "state x")
    (auto simp: stateTransition_def notApplicable_def reject_def ok_def orderInv_at Let_def
      allowedWhileSettling_def split: if_splits)

section \<open>A merchant's departure\<close>

lemma departure:
  assumes inv: "orderInv x" and moved: "transition x (Happened (MerchantDeparted t)) = Moved y fx"
  shows "payment y = payment x \<and> heldFulfillment y = heldFulfillment x
    \<and> (state x \<in> {Created, Quoted, AwaitingConfirmation, Confirmed, Paid, Dispatched} \<longrightarrow>
        state y = (if payment x = PaySettled then RefundDue else Cancelled))
    \<and> (state x \<notin> {Created, Quoted, AwaitingConfirmation, Confirmed, Paid, Dispatched} \<longrightarrow>
        y = x \<and> fx = [])"
  using assms
  by (cases "state x")
    (auto simp: stateTransition_def onDeparture_def ok_def closeWithoutMoney_def
      notApplicable_def reject_def split: if_splits)

lemma departure_accepted_iff:
  assumes "orderInv x"
  shows "(\<exists>y fx. transition x (Happened (MerchantDeparted t)) = Moved y fx)
    \<longleftrightarrow> payment x \<noteq> PaySettling"
  using assms
  by (cases "state x")
    (auto simp: stateTransition_def onDeparture_def ok_def reject_def orderInv_at
      allowedWhileSettling_def split: if_splits)

section \<open>Another delivery\<close>

lemma redeliver_asks:
  assumes "redeliver x t dl k = Moved y fx" and "RedeliverOrder a w \<in> set fx"
  shows "y = x \<and> a = attempts (dispatch x) + 1 \<and> a \<le> maxAttempts (redelivery (policy x))
    \<and> w = redeliveryDelay (redelivery (policy x)) (attempts (dispatch x))
    \<and> (\<forall>due. dl = Some due \<longrightarrow> of_int t + w < of_int due)"
  using assms
  by (auto simp: redeliver_def resolveFulfillmentFailure_def ok_def nextRedelivery_retry_iff
      split: RedeliveryDecision.splits if_splits)

lemma fromDispatched_redelivers:
  assumes "fromDispatched x e = Moved y fx" and "RedeliverOrder a w \<in> set fx"
  obtains t where "e = HandlerUndelivered t"
    and "redeliver x t (map_option dueAt (headDeadline (fulfillmentDeadline x)))
        (case headDeadline (fulfillmentDeadline x) of
           Some d \<Rightarrow> deadlineKind d
         | None \<Rightarrow> (if settle (mode x) = AfterFulfillment then SyncResponse
                   else AsyncFulfillment)) = Moved y fx"
  using assms
  by (cases e)
    (auto simp: ok_def answer_def notApplicable_def reject_def ACCEPTANCE_LANDED_def
      deliverGoods_def startSettle_def resolveFulfillmentFailure_def onDeparture_def Let_def
      split: if_splits)

definition redeliveryFits :: "Order \<Rightarrow> int \<Rightarrow> nat \<Rightarrow> rat \<Rightarrow> bool" where
  "redeliveryFits y t a w =
     (a = attempts (dispatch y) + 1 \<and> a \<le> maxAttempts (redelivery (policy y))
      \<and> w \<le> of_int (maxDelayMs (redelivery (policy y)))
      \<and> (\<forall>d \<in> set (deadlines y). of_int t + w < of_int (dueAt d)))"

lemma redeliver_fits:
  assumes "redeliver x t dl k = Moved y fx" and "RedeliverOrder a w \<in> set fx"
    and "\<And>d. d \<in> set (deadlines x) \<Longrightarrow> dl = Some (dueAt d)"
  shows "redeliveryFits y t a w"
  using redeliver_asks [OF assms(1,2)] assms(3) redeliveryDelay_le_max
  by (auto simp: redeliveryFits_def)

lemma fromDispatched_redelivery:
  assumes x: "state x = Dispatched" "payment x \<noteq> PaySettling"
    and moved: "fromDispatched x e = Moved y fx" and asked: "RedeliverOrder a w \<in> set fx"
  shows "\<exists>t. e = HandlerUndelivered t \<and> redeliveryFits y t a w"
proof -
  from moved asked obtain t where e: "e = HandlerUndelivered t"
    and again: "redeliver x t (map_option dueAt (headDeadline (fulfillmentDeadline x)))
        (case headDeadline (fulfillmentDeadline x) of
           Some d \<Rightarrow> deadlineKind d
         | None \<Rightarrow> (if settle (mode x) = AfterFulfillment then SyncResponse
                   else AsyncFulfillment)) = Moved y fx"
    by (rule fromDispatched_redelivers)
  have "d \<in> set (deadlines x)
      \<Longrightarrow> map_option dueAt (headDeadline (fulfillmentDeadline x)) = Some (dueAt d)" for d
    using x fulfillmentDeadline_length [of x]
    by (cases "fulfillmentDeadline x") (auto simp: deadlines_at(2) headDeadline_def)
  with redeliver_fits [OF again asked] e show ?thesis by blast
qed

lemma no_redelivery_elsewhere:
  assumes "stateTransition x e = Moved y fx" and "RedeliverOrder a w \<in> set fx"
  shows "state x \<in> {AwaitingConfirmation, Paid, Dispatched}"
proof (rule ccontr)
  assume "state x \<notin> {AwaitingConfirmation, Paid, Dispatched}"
  with assms show False
    by (cases "state x"; simp add: stateTransition_def; cases e;
        auto simp: machine_defs effectsOnQuoted_def split: if_splits)
qed

lemma redelivery_in_time:
  assumes inv: "orderInv x" and moved: "transition x (Happened e) = Moved y fx"
    and asked: "RedeliverOrder a w \<in> set fx"
  shows "\<exists>t. e = HandlerUndelivered t \<and> redeliveryFits y t a w"
proof -
  have step: "stateTransition x e = Moved y fx"
    using moved transition_Happened_Moved by blast
  from no_redelivery_elsewhere [OF step asked] show ?thesis
  proof (elim insertE emptyE)
    assume st: "state x = AwaitingConfirmation"
    with step asked obtain t where e: "e = HandlerUndelivered t"
      by (cases e)
        (auto simp: stateTransition_def ok_def answer_def notApplicable_def reject_def
          ACCEPTANCE_LANDED_def onDeparture_def split: if_splits)
    have "d \<in> set (deadlines x) \<Longrightarrow>
        (case confirmationRequestedAt (timestamps x) of
           None \<Rightarrow> None
         | Some c \<Rightarrow> Some (c + confirmationResponseMs (deadlinePolicy (policy x))))
        = Some (dueAt d)" for d
      using st inv by (auto simp: deadlines_def orderInv_at Let_def split: option.splits)
    with redeliver_fits [of x t _ ConfirmationResponse y fx a w] step st e asked
    show ?thesis by (auto simp: stateTransition_def)
  next
    assume st: "state x = Paid"
    then have free: "payment x \<noteq> PaySettling" using inv by (simp add: orderInv_at)
    from step st have "fromPaid x e = Moved y fx" by (simp add: stateTransition_def)
    from this st show ?thesis
    proof (cases rule: fromPaid_as_dispatched)
      case via_handover
      from fromDispatched_redelivery [OF _ _ this asked] free show ?thesis
        by (simp add: handedOver_def)
    next
      case via_call
      from fromDispatched_redelivery [OF _ _ this asked] free show ?thesis by simp
    qed (use asked in \<open>auto simp: onDeparture_def ok_def split: if_splits\<close>)
  next
    assume st: "state x = Dispatched"
    then have "payment x \<noteq> PaySettling" using inv by (simp add: orderInv_at)
    from fromDispatched_redelivery [OF st this _ asked] step st show ?thesis
      by (simp add: stateTransition_def)
  qed
qed

section \<open>No dead end\<close>

text \<open>Events that take an open order to a closed state, whatever it is waiting for.\<close>

definition closingEvents :: "Order \<Rightarrow> int \<Rightarrow> StateEvent list" where
  "closingEvents x t =
     (case state x of
        Created \<Rightarrow> [QuoteAnsweredUnavailable t]
      | Quoted \<Rightarrow>
          (if payment x = PaySettling then [PaymentSettleFailed t] else [MerchantDeparted t])
      | AwaitingConfirmation \<Rightarrow> [MerchantDeparted t]
      | Confirmed \<Rightarrow>
          (if payment x = PaySettling then [PaymentSettleFailed t] else [MerchantDeparted t])
      | Paid \<Rightarrow>
          (if payment x = PaySettled then [MerchantDeparted t, RefundSettled t]
           else [MerchantDeparted t])
      | Dispatched \<Rightarrow>
          (if payment x = PaySettled then [MerchantDeparted t, RefundSettled t]
           else [MerchantDeparted t])
      | Fulfilled \<Rightarrow> [PaymentSettled t]
      | DeliveredUnpaid \<Rightarrow>
          (if payment x = PaySettling \<or> payment x = PayOutcomeUnknown then [PaymentSettled t]
           else [PurchaseRepeated t, PaymentVerified t, PaymentSettled t])
      | RefundDue \<Rightarrow> [RefundSettled t]
      | _ \<Rightarrow> [])"

fun applyAll :: "Order \<Rightarrow> StateEvent list \<Rightarrow> Order option" where
  "applyAll x [] = Some x"
| "applyAll x (e # es) =
     (case transition x (Happened e) of
        Moved y fx \<Rightarrow> applyAll y es
      | Refused r \<Rightarrow> None)"

lemma closingEvents_close:
  assumes "orderInv x"
  shows "\<exists>y. applyAll x (closingEvents x t) = Some y \<and> \<not> isOpen (state y)"
  using assms
  by (cases "state x")
    (auto simp: closingEvents_def stateTransition_def orderInv_at ok_def closeWithoutMoney_def
      onDeparture_def startSettle_def allowedWhileSettling_def)

lemma closingEvents_length: "length (closingEvents x t) \<le> 3"
  by (cases "state x") (simp_all add: closingEvents_def)

end
