(* ===== verification/Order_Fixtures.thy ===== *)
theory Order_Fixtures
  imports Order_Invariant
begin

text \<open>
  \<^verbatim>\<open>packages/core/src/orders/fixtures.ts\<close>: the sample policy, the sample purchase and one
  order in each state, walked there through accepted events only. An exception of the
  fixtures is \<^const>\<open>None\<close>; the partial record of overrides is an update function.
\<close>

definition T0 :: int where
  "T0 = 1000000"

definition TEST_POLICY :: OrderPolicy where
  "TEST_POLICY =
     \<lparr>deadlinePolicy =
        \<lparr>quoteResponseMs = 5000, quoteTtlMs = 60000, settleResponseMs = 30000,
         syncResponseMs = 10000, paymentAfterConfirmationMs = 300000,
         confirmationResponseMs = 600000, asyncFulfillmentMs = 900000\<rparr>,
      redelivery =
        \<lparr>baseDelayMs = 1000, factor = 2, maxDelayMs = 60000, maxAttempts = 5\<rparr>\<rparr>"

definition TEST_PRICE :: Price where
  "TEST_PRICE = \<lparr>amount = ''5.00'', currency = ''USD'', asOf = T0\<rparr>"

definition createInput ::
  "FulfillmentMode \<Rightarrow> (CreateOrderInput \<Rightarrow> CreateOrderInput) \<Rightarrow> CreateOrderInput" where
  "createInput fulfillment overrides =
     overrides
       \<lparr>inputId = ''ord_7c1e05'', inputAt = T0, inputMode = modeOf fulfillment,
        inputPolicy = TEST_POLICY, inputPriceCheck = PriceCheckNone,
        inputCardPrice = TEST_PRICE, inputTest = False, inputSelling = SellingOpen\<rparr>"

definition newOrder ::
  "FulfillmentMode \<Rightarrow> (CreateOrderInput \<Rightarrow> CreateOrderInput) \<Rightarrow> Order option" where
  "newOrder fulfillment overrides =
     (case createOrder (createInput fulfillment overrides) of
        Born order effects \<Rightarrow> Some order
      | NotBorn rejection message \<Rightarrow> None)"

fun sampleEvent :: "OrderEventKind \<Rightarrow> OrderEvent" where
  "sampleEvent KQuoteAnswered =
     Happened (QuoteAnswered (T0 + 1)
       \<lparr>amount = ''6.50'', currency = currency TEST_PRICE, asOf = T0 + 1\<rparr>)"
| "sampleEvent KHandlerRefused =
     Happened (HandlerRefused (T0 + 1) ''out_of_stock'' ''none left'')"
| "sampleEvent KRefuseCalled =
     Happened (RefuseCalled (T0 + 1) ''cannot_fulfill'' ''the supplier is silent'')"
| "sampleEvent KPaymentVerificationFailed =
     Happened (PaymentVerificationFailed (T0 + 1) InsufficientFunds)"
| "sampleEvent KDeadlineExpired = DeadlineExpired (T0 + 1000000) SyncResponse"
| "sampleEvent KQuoteSilent = Happened (QuoteSilent (T0 + 1))"
| "sampleEvent KPaymentVerified = Happened (PaymentVerified (T0 + 1))"
| "sampleEvent KPaymentSettled = Happened (PaymentSettled (T0 + 1))"
| "sampleEvent KPaymentSettleFailed = Happened (PaymentSettleFailed (T0 + 1))"
| "sampleEvent KPurchaseRepeated = Happened (PurchaseRepeated (T0 + 1))"
| "sampleEvent KConfirmationDispatched = Happened (ConfirmationDispatched (T0 + 1))"
| "sampleEvent KOrderDispatched = Happened (OrderDispatched (T0 + 1))"
| "sampleEvent KHandlerAccepted = Happened (HandlerAccepted (T0 + 1))"
| "sampleEvent KHandlerDelivered = Happened (HandlerDelivered (T0 + 1))"
| "sampleEvent KHandlerUndelivered = Happened (HandlerUndelivered (T0 + 1))"
| "sampleEvent KDeliverCalled = Happened (DeliverCalled (T0 + 1))"
| "sampleEvent KRefundSettled = Happened (RefundSettled (T0 + 1))"
| "sampleEvent KMerchantDeparted = Happened (MerchantDeparted (T0 + 1))"

definition must :: "Order \<Rightarrow> OrderEvent \<Rightarrow> (Order \<times> Effect list) option" where
  "must order event =
     (case transition order event of
        Moved order' effects \<Rightarrow> Some (order', effects)
      | Refused rejection \<Rightarrow> None)"

primrec walk :: "Order \<Rightarrow> OrderEvent list \<Rightarrow> Order option" where
  "walk order [] = Some order"
| "walk order (event # events) =
     (case must order event of
        None \<Rightarrow> None
      | Some (order', effects) \<Rightarrow> walk order' events)"

definition PAID_SYNC :: "OrderEvent list" where
  "PAID_SYNC = [Happened (PaymentVerified (T0 + 1))]"

definition PAID_ASYNC :: "OrderEvent list" where
  "PAID_ASYNC = [Happened (PaymentVerified (T0 + 1)), Happened (PaymentSettled (T0 + 2))]"

definition walkFrom :: "Order option \<Rightarrow> OrderEvent list \<Rightarrow> Order option" where
  "walkFrom start events = Option.bind start (\<lambda>order. walk order events)"

fun reachRank :: "OrderState \<Rightarrow> nat" where
  "reachRank Refunded = 1"
| "reachRank Delivered = 1"
| "reachRank DeliveredUnpaid = 1"
| "reachRank _ = 0"

function reach :: "OrderState \<Rightarrow> Order option" where
  "reach Created = newOrder Sync (\<lambda>i. i\<lparr>inputPriceCheck := PriceCheckMerchant\<rparr>)"
| "reach Quoted = newOrder Sync id"
| "reach AwaitingConfirmation =
     walkFrom (newOrder Confirm id) [Happened (ConfirmationDispatched (T0 + 1))]"
| "reach Confirmed =
     walkFrom (newOrder Confirm id)
       [Happened (ConfirmationDispatched (T0 + 1)), Happened (HandlerAccepted (T0 + 2))]"
| "reach Paid = walkFrom (newOrder Sync id) PAID_SYNC"
| "reach Dispatched =
     walkFrom (newOrder Sync id) (PAID_SYNC @ [Happened (OrderDispatched (T0 + 3))])"
| "reach Fulfilled =
     walkFrom (newOrder Sync id)
       (PAID_SYNC @ [Happened (OrderDispatched (T0 + 3)), Happened (HandlerDelivered (T0 + 4))])"
| "reach Delivered = walkFrom (reach Fulfilled) [Happened (PaymentSettled (T0 + 5))]"
| "reach DeliveredUnpaid = walkFrom (reach Fulfilled) [Happened (PaymentSettleFailed (T0 + 5))]"
| "reach RefundDue =
     walkFrom (newOrder Async id)
       (PAID_ASYNC @ [Happened (OrderDispatched (T0 + 3)),
          Happened (HandlerRefused (T0 + 4) ''out_of_stock'' ''none left'')])"
| "reach Refunded = walkFrom (reach RefundDue) [Happened (RefundSettled (T0 + 9))]"
| "reach Failed =
     walkFrom (newOrder Sync id)
       (PAID_SYNC @ [Happened (OrderDispatched (T0 + 3)),
          Happened (HandlerRefused (T0 + 4) ''out_of_stock'' ''none left'')])"
| "reach Rejected =
     walkFrom (newOrder Sync (\<lambda>i. i\<lparr>inputPriceCheck := PriceCheckMerchant\<rparr>))
       [Happened (QuoteAnsweredUnavailable (T0 + 1))]"
| "reach Declined =
     walkFrom (newOrder Confirm id)
       [Happened (ConfirmationDispatched (T0 + 1)),
        Happened (HandlerRefused (T0 + 2) ''cannot_fulfill'' ''not this week'')]"
| "reach Expired =
     walkFrom (newOrder Sync id) [DeadlineExpired (T0 + 999999) QuoteExpiry]"
| "reach Cancelled =
     walkFrom (newOrder Sync id) [Happened (MerchantDeparted (T0 + 1))]"
  by pat_completeness auto

termination
  by (relation "measure reachRank") simp_all

section \<open>The walks are runs of the machine\<close>

lemma newOrder_reachable: "newOrder m f = Some x \<Longrightarrow> reachable x"
  by (auto simp: newOrder_def split: CreateOrderResult.splits intro: reachable.born)

lemma walk_reachable: "reachable x \<Longrightarrow> walk x es = Some y \<Longrightarrow> reachable y"
  by (induction es arbitrary: x)
    (auto simp: must_def split: option.splits TransitionResult.splits intro: reachable.moved)

lemma walkFrom_reachable:
  "walkFrom start es = Some y \<Longrightarrow> (\<And>x. start = Some x \<Longrightarrow> reachable x) \<Longrightarrow> reachable y"
  by (auto simp: walkFrom_def bind_eq_Some_conv intro: walk_reachable)

lemma reach_reachable: "reach s = Some x \<Longrightarrow> reachable x"
  by (induction s arbitrary: x rule: reach.induct)
    (auto intro: newOrder_reachable walkFrom_reachable)

text \<open>Evaluating a walk.\<close>

lemmas walk_eval =
  newOrder_def createInput_def createOrder_def baseOrder_def effectsOnQuoted_def
  walkFrom_def must_def PAID_SYNC_def PAID_ASYNC_def T0_def TEST_POLICY_def TEST_PRICE_def
  stateTransition_def allowedWhileSettling_def machine_defs

lemma reach_before_payment:
  "map_option state (reach Created) = Some Created"
  "map_option state (reach Quoted) = Some Quoted"
  "map_option state (reach AwaitingConfirmation) = Some AwaitingConfirmation"
  "map_option state (reach Confirmed) = Some Confirmed"
  by (simp_all add: walk_eval)

lemma reach_at_merchant:
  "map_option state (reach Paid) = Some Paid"
  "map_option state (reach Dispatched) = Some Dispatched"
  "map_option state (reach Fulfilled) = Some Fulfilled"
  by (simp_all add: walk_eval)

lemma reach_after_goods:
  "map_option state (reach Delivered) = Some Delivered"
  "map_option state (reach DeliveredUnpaid) = Some DeliveredUnpaid"
  "map_option state (reach RefundDue) = Some RefundDue"
  "map_option state (reach Refunded) = Some Refunded"
  by (simp_all add: walk_eval)

lemma reach_closed:
  "map_option state (reach Failed) = Some Failed"
  "map_option state (reach Rejected) = Some Rejected"
  "map_option state (reach Declined) = Some Declined"
  "map_option state (reach Expired) = Some Expired"
  "map_option state (reach Cancelled) = Some Cancelled"
  by (simp_all add: walk_eval deadlines_def)

lemmas reach_states =
  reach_before_payment reach_at_merchant reach_after_goods reach_closed

end
