(* ===== verification/Order_Properties.thy ===== *)
theory Order_Properties
  imports Order_Runs Order_Answers Order_Fixtures
begin

text \<open>
  The properties of the order machine, each over the orders that creation and accepted
  events produce (\<open>reachable\<close>), with a witness that applies it to an order of the fixtures.
\<close>

section \<open>The orders the witnesses use\<close>

lemma reach_some: "\<exists>x. reach s = Some x \<and> state x = s"
  using reach_states by (cases s) (auto simp del: reach.simps)

definition sampleIn :: "OrderState \<Rightarrow> Order" where
  "sampleIn s = the (reach s)"

lemma sampleIn_reachable: "reachable (sampleIn s)"
  using reach_some [of s] reach_reachable [of s] by (auto simp: sampleIn_def)

lemma sampleIn_state [simp]: "state (sampleIn s) = s"
  using reach_some [of s] by (auto simp: sampleIn_def)

lemmas sample_eval = sampleIn_def walk_eval

lemma sample_payments [simp]:
  "payment (sampleIn Quoted) = PayNone"
  "payment (sampleIn Paid) = PayVerified"
  "payment (sampleIn Dispatched) = PayVerified"
  "payment (sampleIn Fulfilled) = PaySettling"
  "payment (sampleIn DeliveredUnpaid) = PaySettleFailed"
  "payment (sampleIn Delivered) = PaySettled"
  "payment (sampleIn RefundDue) = PaySettled"
  by (simp_all add: sample_eval)

text \<open>Two sample steps: a landed charge releases the goods, a verified payment starts one.\<close>

lemma sample_settled:
  "transition (sampleIn Fulfilled) (Happened (PaymentSettled 7))
    = Moved ((sampleIn Fulfilled)\<lparr>state := Delivered, payment := PaySettled, closure := None\<rparr>)
        [ReleaseGoodsToAgent, IssueReceipt]"
  by (simp add: stateTransition_def allowedWhileSettling_def ok_def)

lemma sample_confirmed:
  "payment (sampleIn Confirmed) = PayNone"
  "settle (mode (sampleIn Confirmed)) = OnPurchase"
  "needsConfirmation (mode (sampleIn Confirmed))"
  by (simp_all add: sample_eval)

lemma sample_charged:
  "transition (sampleIn Confirmed) (Happened (PaymentVerified 9))
    = Moved ((sampleIn Confirmed)\<lparr>payment := PaySettling,
        timestamps := (timestamps (sampleIn Confirmed))\<lparr>settleStartedAt := Some 9\<rparr>\<rparr>)
        [ExecutePayment]"
  by (simp add: stateTransition_def startSettle_def ok_def sample_confirmed)

section \<open>Money\<close>

text \<open>C1: No order the machine can produce breaks one of the rules about money: it is never
  closed owing nothing with the buyer's money taken, never a debt without a charge, never a
  success without the money, and never executing a payment without a clock.\<close>

theorem reachable_keeps_money_rules:
  "reachable order \<Longrightarrow> moneyInvariantViolations order = []"
  by (rule orderInv_no_violations [OF reachable_orderInv])

theorem reachable_keeps_money_rules_witness:
  "moneyInvariantViolations (sampleIn RefundDue) = []"
  by (rule reachable_keeps_money_rules [OF sampleIn_reachable])

text \<open>C2: The order machine refines the charge: every accepted event is the step of the
  abstract charge that it stands for, so a charge is started only where none is out and none
  has landed, and an outcome is taken only while a charge is out.\<close>

theorem transition_refines_charge:
  assumes "reachable x" and "transition x event = Moved y fx"
  shows "chargeStep (chargeOf (payment x)) (chargeAction event fx) = Some (chargeOf (payment y))"
  using transition_charge [OF reachable_orderInv [OF assms(1)] assms(2)]
  by (simp add: chargeSound_def)

theorem transition_refines_charge_witness:
  "chargeStep ChargeOut (chargeAction (Happened (PaymentSettled 7)) [ReleaseGoodsToAgent, IssueReceipt])
    = Some ChargeTaken"
  using transition_refines_charge [OF sampleIn_reachable sample_settled] by simp

text \<open>Over a whole life of an order, whatever events arrive in whatever order, it asks for
  at most one charge more than the charges that were reported failed, and at most one
  charge is ever recorded as landed.\<close>

theorem charges_over_a_life:
  assumes "createOrder i = Born x born" and "run_machine orderMachine x events = (y, entries)"
  shows "timesAsked ExecutePayment entries \<le> 1 + timesAccepted KPaymentSettleFailed entries
    \<and> timesAccepted KPaymentSettled entries \<le> 1"
  using run_charges [OF assms] run_landings [OF createOrder_orderInv [OF assms(1)] assms(2)]
  by simp

theorem charges_over_a_life_witness:
  "timesAsked ExecutePayment
     (snd (run_machine orderMachine (sampleIn Quoted)
        [Happened (PaymentVerified 1), Happened (HandlerDelivered 2), Happened (PaymentVerified 3)]))
   \<le> 1 + timesAccepted KPaymentSettleFailed
     (snd (run_machine orderMachine (sampleIn Quoted)
        [Happened (PaymentVerified 1), Happened (HandlerDelivered 2), Happened (PaymentVerified 3)]))"
proof -
  have "createOrder (createInput Sync id) = Born (sampleIn Quoted) [VerifyPayment]"
    by (simp add: sample_eval)
  from charges_over_a_life [OF this surjective_pairing] show ?thesis by blast
qed

text \<open>Over a whole life of an order the goods are released to the agent at most once, the
  receipt is issued at most once, the order goes out to the merchant from a payment at most
  once, and a debt is announced at most once.\<close>

theorem announced_at_most_once:
  assumes "reachable x" and "run_machine orderMachine x events = (y, entries)"
  shows "timesAsked ReleaseGoodsToAgent entries \<le> 1 \<and> timesAsked IssueReceipt entries \<le> 1
    \<and> timesAsked DispatchOrder entries \<le> 1
    \<and> timesAsked (EmitMerchantEvent RefundDueEvent) entries \<le> 1"
  using run_at_most_once [OF reachable_orderInv [OF assms(1)] assms(2)] by blast

theorem announced_at_most_once_witness:
  "timesAsked ReleaseGoodsToAgent
     (snd (run_machine orderMachine (sampleIn RefundDue)
        [Happened (DeliverCalled 1), Happened (DeliverCalled 2)])) \<le> 1"
  using announced_at_most_once [OF sampleIn_reachable surjective_pairing] by blast

text \<open>Goods are released to the agent only with the money taken, only on entering
  \<open>delivered\<close>, and always together with the receipt.\<close>

theorem goods_only_for_money:
  assumes "reachable x" and "transition x event = Moved y fx"
  shows "(ReleaseGoodsToAgent \<in> set fx \<longleftrightarrow> state x \<noteq> Delivered \<and> state y = Delivered)
    \<and> (ReleaseGoodsToAgent \<in> set fx \<longleftrightarrow> IssueReceipt \<in> set fx)
    \<and> (ReleaseGoodsToAgent \<in> set fx \<longrightarrow> payment y = PaySettled)"
proof -
  have inv: "orderInv x" by (rule reachable_orderInv [OF assms(1)])
  have "effectsFit x y fx"
    using transition_sound [OF inv assms(2)] by (simp add: stepSound_def)
  moreover have "state y = Delivered \<longrightarrow> payment y = PaySettled"
    using transition_keeps_orderInv [OF inv assms(2)] by (auto simp: orderInv_at)
  ultimately show ?thesis by (simp add: effectsFit_def entersDelivered_def)
qed

theorem goods_only_for_money_witness:
  "\<exists>y fx. transition (sampleIn Fulfilled) (Happened (PaymentSettled 7)) = Moved y fx
    \<and> ReleaseGoodsToAgent \<in> set fx \<and> payment y = PaySettled"
  using goods_only_for_money [OF sampleIn_reachable sample_settled] sample_settled by auto

text \<open>The mode decides where a charge may start. Where the sale settles on purchase, from
  the quote, or from the merchant's confirmation if the mode asks for one; where it settles
  after fulfilment, only with the goods in hand.\<close>

theorem charge_starts_where_the_mode_says:
  assumes "reachable x" and "transition x event = Moved y fx" and "ExecutePayment \<in> set fx"
  shows "if settle (mode x) = AfterFulfillment then state y \<in> {Fulfilled, DeliveredUnpaid}
    else state y = state x \<and> state x = (if needsConfirmation (mode x) then Confirmed else Quoted)"
proof -
  have "startsCharge x y" and "chargePlace x y"
    using transition_sound [OF reachable_orderInv [OF assms(1)] assms(2)] assms(3)
    by (auto simp: stepSound_def effectsFit_def)
  then show ?thesis by (simp add: chargePlace_def)
qed

theorem charge_starts_where_the_mode_says_witness:
  "\<exists>y fx. transition (sampleIn Confirmed) (Happened (PaymentVerified 9)) = Moved y fx
    \<and> ExecutePayment \<in> set fx \<and> state y = Confirmed"
  using charge_starts_where_the_mode_says [OF sampleIn_reachable sample_charged]
    sample_charged sample_confirmed
  by (auto split: if_splits)

text \<open>C12: The word the agent is told never claims more than the order knows: a word that says
  nothing was charged is told only where no charge is out and none has landed, a word that
  says the money was taken only where it was, and \<open>payment_unresolved\<close> exactly on a closed
  order whose charge never reported back.\<close>

theorem outcome_never_overstates:
  assumes "reachable x"
  shows "(saysNothingCharged (outcomeFor x) \<longrightarrow> chargeOf (payment x) = NoCharge)
    \<and> (outcomeFor x \<in> {OutcomeDelivered, OutcomeRefundDue, OutcomeRefunded}
         \<longrightarrow> chargeOf (payment x) = ChargeTaken)
    \<and> (outcomeFor x = OutcomePaymentUnresolved
         \<longleftrightarrow> state x = Rejected \<and> payment x = PayOutcomeUnknown)"
  using outcome_nothing_charged outcome_money_taken outcome_unresolved_iff
    reachable_orderInv [OF assms]
  by fastforce

theorem outcome_never_overstates_witness:
  "outcomeFor (sampleIn Delivered) = OutcomeDelivered
    \<and> chargeOf (payment (sampleIn Delivered)) = ChargeTaken"
  using outcome_never_overstates [OF sampleIn_reachable [of Delivered]]
  by (simp add: outcomeFor_def)

section \<open>States\<close>

text \<open>Every accepted event follows an edge of the state graph or stays where it is, and
  leaves the identity of the sale alone: the order's id, mode, policy, card price, test mark
  and birth instant.\<close>

theorem transition_follows_the_graph:
  assumes "reachable x" and "transition x event = Moved y fx"
  shows "legalEdge (state x) (state y) \<and> orderId y = orderId x \<and> mode y = mode x
    \<and> policy y = policy x \<and> cardPrice y = cardPrice x \<and> test y = test x
    \<and> createdAt (timestamps y) = createdAt (timestamps x)"
  using transition_sound [OF reachable_orderInv [OF assms(1)] assms(2)]
  by (simp add: stepSound_def sameSale_def)

theorem transition_follows_the_graph_witness:
  "legalEdge Fulfilled Delivered \<and> \<not> legalEdge Delivered Fulfilled"
  using transition_follows_the_graph [OF sampleIn_reachable sample_settled]
  by (simp add: legalEdge_def STATE_EDGES_def)

text \<open>A closed order stays closed where it is, with two exceptions: an unresolved payment
  that turns out to have landed opens a debt, and a purchase that expired with the goods held
  is fulfilled when a repeated purchase brings a verified payment.\<close>

theorem closed_orders_stay_closed:
  assumes "reachable x" and "\<not> isOpen (state x)" and "transition x event = Moved y fx"
    and "state y \<noteq> state x"
  shows "state x = Rejected \<and> payment x = PayOutcomeUnknown \<and> state y = RefundDue
      \<and> eventKind event = KPaymentSettled
    \<or> state x = Expired \<and> heldFulfillment x \<and> state y = Fulfilled
      \<and> eventKind event = KPaymentVerified"
  by (rule closed_state_left [OF reachable_orderInv [OF assms(1)] assms(2-4)])

definition unresolvedSample :: Order where
  "unresolvedSample =
     the (walkFrom (newOrder Async id)
       [Happened (PaymentVerified (T0 + 1)), DeadlineExpired (T0 + 900000) SettleResponse])"

lemma unresolvedSample_facts:
  "reachable unresolvedSample" "state unresolvedSample = Rejected"
  "payment unresolvedSample = PayOutcomeUnknown"
  "closure unresolvedSample = Some PaymentOutcomeUnknownClosure"
proof -
  obtain x where x: "walkFrom (newOrder Async id)
      [Happened (PaymentVerified (T0 + 1)), DeadlineExpired (T0 + 900000) SettleResponse] = Some x"
    and "state x = Rejected" "payment x = PayOutcomeUnknown"
      "closure x = Some PaymentOutcomeUnknownClosure"
    by (simp add: walk_eval deadlines_def)
  moreover have "reachable x"
    using x by (rule walkFrom_reachable) (rule newOrder_reachable)
  ultimately show "reachable unresolvedSample" "state unresolvedSample = Rejected"
    "payment unresolvedSample = PayOutcomeUnknown"
    "closure unresolvedSample = Some PaymentOutcomeUnknownClosure"
    by (simp_all add: unresolvedSample_def)
qed

theorem closed_orders_stay_closed_witness:
  "\<exists>y fx. transition unresolvedSample (Happened (PaymentSettled 5)) = Moved y fx
    \<and> \<not> isOpen (state unresolvedSample) \<and> state y = RefundDue"
proof -
  obtain y fx where moved: "transition unresolvedSample (Happened (PaymentSettled 5)) = Moved y fx"
    and left: "state y \<noteq> state unresolvedSample"
    by (simp add: stateTransition_def unresolvedSample_facts ok_def)
  have "\<not> isOpen (state unresolvedSample)" by (simp add: unresolvedSample_facts)
  from closed_orders_stay_closed [OF unresolvedSample_facts(1) this moved left] moved this
  show ?thesis by (auto simp: unresolvedSample_facts)
qed

text \<open>C14: No order is a dead end: from every order the machine can produce, at most three
  events that it accepts take it to a closed state.\<close>

theorem every_order_can_close:
  assumes "reachable x"
  shows "\<exists>y. applyAll x (closingEvents x t) = Some y \<and> \<not> isOpen (state y)
    \<and> length (closingEvents x t) \<le> 3"
  using closingEvents_close [OF reachable_orderInv [OF assms]] closingEvents_length by blast

theorem every_order_can_close_witness:
  "\<exists>y. applyAll (sampleIn DeliveredUnpaid)
      [PurchaseRepeated 8, PaymentVerified 8, PaymentSettled 8] = Some y \<and> \<not> isOpen (state y)"
  using every_order_can_close [OF sampleIn_reachable [of DeliveredUnpaid], of 8]
  by (simp add: closingEvents_def)

text \<open>No state of the vocabulary is decoration: the walks of the fixtures, made of
  accepted events only, end in each of the sixteen states, and the lists of states that are
  open and closed divide them.\<close>

theorem every_state_is_reached:
  "(\<exists>x. reach s = Some x \<and> reachable x \<and> state x = s) \<and> s \<in> set ORDER_STATES
    \<and> (s \<in> set OPEN_ORDER_STATES \<longleftrightarrow> s \<notin> set CLOSED_ORDER_STATES)"
  using reach_some [of s] reach_reachable [of s] order_states_complete
    closed_states_are_not_open [of s] isOpen_iff [of s]
  by auto

section \<open>Clocks\<close>

text \<open>C15: Every open order has exactly one clock, except the two kinds a deadline cannot
  settle: a debt, and goods handed over whose payment is not being executed. A closed order
  has none.\<close>

theorem open_orders_have_one_clock:
  assumes "reachable x"
  shows "length (deadlines x) =
    (if isOpen (state x) \<and> state x \<noteq> RefundDue
        \<and> (state x = DeliveredUnpaid \<longrightarrow> payment x = PaySettling) then 1 else 0)"
  using one_clock [OF reachable_orderInv [OF assms]] by (auto simp: waitsWithoutClock_def)

theorem open_orders_have_one_clock_witness:
  "length (deadlines (sampleIn Dispatched)) = 1 \<and> deadlines (sampleIn RefundDue) = []"
  using open_orders_have_one_clock [OF sampleIn_reachable [of Dispatched]]
    open_orders_have_one_clock [OF sampleIn_reachable [of RefundDue]]
  by simp

text \<open>An expiry moves an order exactly when that clock is running on it and has come due;
  any other expiry is refused, so a clock that fires twice or early changes nothing.\<close>

theorem expiry_moves_exactly_when_due:
  "(\<exists>y fx. transition x (DeadlineExpired t k) = Moved y fx) \<longleftrightarrow>
     (\<exists>d \<in> set (deadlines x). deadlineKind d = k \<and> dueAt d \<le> t)"
  by (rule expiry_moves_iff)

text \<open>C16: Letting the clocks of an order run out, each at its own instant, always ends: after
  at most two expiries the order has no clock left.\<close>

theorem clocks_run_out:
  assumes "reachable x"
  shows "deadlines (letRunOut 2 x) = [] \<and> reachable (letRunOut 2 x)"
proof -
  have steps: "reachable z \<Longrightarrow> reachable (letRunOut n z)" for n z
    by (induction n arbitrary: z)
      (auto split: list.split TransitionResult.split intro: reachable.moved
        simp del: transition.simps)
  show ?thesis
    using letRunOut_drains [OF reachable_orderInv [OF assms] clockRank_le_two] steps [OF assms]
    by blast
qed

theorem clocks_run_out_witness:
  "deadlines (letRunOut 2 (sampleIn Created)) = [] \<and> reachable (letRunOut 2 (sampleIn Created))"
  by (rule clocks_run_out [OF sampleIn_reachable])

text \<open>Nothing postpones a running clock: an accepted event either stops it or leaves it due
  at the instant it was due.\<close>

theorem running_clock_keeps_its_instant:
  assumes "reachable x" and "transition x event = Moved y fx"
    and "d \<in> set (deadlines x)" and "d' \<in> set (deadlines y)"
    and "deadlineKind d' = deadlineKind d"
  shows "d' = d"
  by (rule clock_not_postponed [OF reachable_orderInv [OF assms(1)] assms(2-5)])

theorem running_clock_keeps_its_instant_witness:
  "\<exists>y fx d. transition (sampleIn Dispatched) (Happened (OrderDispatched (T0 + 900))) = Moved y fx
    \<and> deadlines (sampleIn Dispatched) = [d] \<and> deadlines y = [d]"
proof -
  obtain y fx where moved:
    "transition (sampleIn Dispatched) (Happened (OrderDispatched (T0 + 900))) = Moved y fx"
    and st: "state y = Dispatched" and pay: "payment y = PayVerified"
    by (simp add: stateTransition_def ok_def Let_def)
  obtain d where d: "deadlines (sampleIn Dispatched) = [d]"
    using one_clock [OF reachable_orderInv [OF sampleIn_reachable [of Dispatched]]]
    by (auto simp: waitsWithoutClock_def length_Suc_conv)
  obtain d' where d': "deadlines y = [d']"
    using one_clock [OF reachable_orderInv [OF reachable.moved [OF sampleIn_reachable moved]]] st
    by (auto simp: waitsWithoutClock_def length_Suc_conv)
  have "armedDeadline (sampleIn Dispatched) (deadlineKind d) = Some d"
    "armedDeadline y (deadlineKind d') = Some d'"
    using d d' by (simp_all add: armedDeadline_iff)
  moreover have "mode y = mode (sampleIn Dispatched)"
    using moved by (auto simp: stateTransition_def ok_def Let_def)
  ultimately have "deadlineKind d' = deadlineKind d"
    using st pay by (auto elim!: armedDeadline_cases)
  with running_clock_keeps_its_instant [OF sampleIn_reachable moved, of d d'] d d' moved
  show ?thesis by auto
qed

section \<open>Answers\<close>

text \<open>While a payment is being executed the order takes nothing but its outcome, its
  clock's expiry, and a merchant's call about goods he has handed over; the call changes
  nothing, the outcome is never refused, and everything else is refused as retryable.\<close>

theorem settling_takes_only_the_outcome:
  assumes "reachable x" and "payment x = PaySettling"
  shows "case transition x (Happened e) of
      Moved y fx \<Rightarrow>
        stateEventKind e \<in> {KPaymentSettled, KPaymentSettleFailed}
        \<or> stateEventKind e \<in> {KDeliverCalled, KRefuseCalled} \<and> y = x
           \<and> (\<exists>a. fx = [AnswerMerchant a])
    | Refused r \<Rightarrow>
        stateEventKind e \<notin> {KPaymentSettled, KPaymentSettleFailed} \<and> retryable r"
proof (cases "transition x (Happened e)")
  case (Moved y fx)
  with settling_window [OF reachable_orderInv [OF assms(1)] assms(2) Moved] show ?thesis
    by (cases e) auto
next
  case (Refused r)
  then show ?thesis
    using settling_refusal [OF reachable_orderInv [OF assms(1)] assms(2) Refused]
    by (cases e) auto
qed

theorem settling_takes_only_the_outcome_witness:
  "case transition (sampleIn Fulfilled) (Happened (PurchaseRepeated 3)) of
     Moved y fx \<Rightarrow> False | Refused r \<Rightarrow> retryable r"
  using settling_takes_only_the_outcome [OF sampleIn_reachable, of Fulfilled "PurchaseRepeated 3"]
  by (simp del: transition.simps split: TransitionResult.splits)



text \<open>A price, once an order has one, never moves, and it is in the currency of the card; an
  order past its creation has one unless it was rejected or cancelled before any was quoted.\<close>

theorem price_is_kept:
  assumes "reachable x" and "transition x event = Moved y fx"
  shows "(\<forall>p. price y = Some p \<longrightarrow> currency p = currency (cardPrice y))
    \<and> (\<forall>p. price x = Some p \<longrightarrow> price y = Some p \<and> quoteSource y = quoteSource x)
    \<and> (price y = None \<longrightarrow> state y \<in> {Created, Rejected, Cancelled} \<and> payment y = PayNone)"
proof -
  have inv: "orderInv x" by (rule reachable_orderInv [OF assms(1)])
  have "priceFits x" "priceFits y"
    using inv transition_keeps_orderInv [OF inv assms(2)] by (simp_all add: orderInv_def)
  moreover have "recordsKept x y"
    using transition_sound [OF inv assms(2)] by (simp add: stepSound_def)
  ultimately show ?thesis
    by (auto simp: priceFits_def recordsKept_def split: option.splits)
qed

theorem price_is_kept_witness:
  "\<exists>y fx. transition (sampleIn Fulfilled) (Happened (PaymentSettled 7)) = Moved y fx
    \<and> (\<exists>p. price y = Some p \<and> currency p = currency (cardPrice y))"
  using price_is_kept [OF sampleIn_reachable sample_settled] sample_settled by auto

text \<open>Another delivery is asked for only when one was reported undelivered, with the next
  attempt number, within the attempts and the longest delay of the policy, and only if it
  starts before the clock on the goods or on the confirmation runs out.\<close>

theorem redelivery_within_policy:
  assumes "reachable x" and "transition x (Happened e) = Moved y fx"
    and "RedeliverOrder a w \<in> set fx"
  shows "\<exists>t. e = HandlerUndelivered t
    \<and> a = attempts (dispatch y) + 1 \<and> a \<le> maxAttempts (redelivery (policy y))
    \<and> w \<le> of_int (maxDelayMs (redelivery (policy y)))
    \<and> (\<forall>d \<in> set (deadlines y). of_int t + w < of_int (dueAt d))"
  using redelivery_in_time [OF reachable_orderInv [OF assms(1)] assms(2,3)]
  by (simp add: redeliveryFits_def)

theorem redelivery_within_policy_witness:
  "\<exists>y fx. transition (sampleIn Dispatched) (Happened (HandlerUndelivered (T0 + 5))) = Moved y fx
    \<and> RedeliverOrder 2 1000 \<in> set fx \<and> 2 \<le> maxAttempts (redelivery (policy y))"
proof -
  have moved: "transition (sampleIn Dispatched) (Happened (HandlerUndelivered (T0 + 5)))
      = Moved (sampleIn Dispatched) [RedeliverOrder 2 1000]"
    by (simp add: sample_eval Let_def headDeadline_def fulfillmentDeadline_def
        nextRedelivery_def redeliveryDelay_def)
  from redelivery_within_policy [OF sampleIn_reachable this, of 2 1000] moved
  show ?thesis by auto
qed

text \<open>A merchant's departure: an order on its way to the merchant becomes a debt where the
  buyer's money is taken and is cancelled where it is not, every other order is left as it
  is, and only an order whose payment is being executed puts it off.\<close>

theorem departure_settles_every_order:
  assumes "reachable x" and "payment x \<noteq> PaySettling"
  shows "\<exists>y fx. transition x (Happened (MerchantDeparted t)) = Moved y fx
    \<and> payment y = payment x
    \<and> (if state x \<in> {Created, Quoted, AwaitingConfirmation, Confirmed, Paid, Dispatched}
        then state y = (if payment x = PaySettled then RefundDue else Cancelled)
        else y = x \<and> fx = [])"
proof -
  have inv: "orderInv x" by (rule reachable_orderInv [OF assms(1)])
  then obtain y fx where moved: "transition x (Happened (MerchantDeparted t)) = Moved y fx"
    using departure_accepted_iff [of x t] assms(2) by blast
  from departure [OF inv moved] show ?thesis
    unfolding moved by auto
qed

theorem departure_settles_every_order_witness:
  "\<exists>y fx. transition (sampleIn Dispatched) (Happened (MerchantDeparted 4)) = Moved y fx
    \<and> state y = Cancelled"
proof -
  have "payment (sampleIn Dispatched) \<noteq> PaySettling" by simp
  from departure_settles_every_order [OF sampleIn_reachable this, of 4] show ?thesis
    by (auto simp del: transition.simps)
qed

text \<open>The goods of an order that is paid for are never turned away: an order paid, handed to
  the merchant or owed a refund accepts a delivery and moves to where the mode says, and a
  merchant who says again that he delivered is told so with nothing changed.\<close>

theorem goods_are_taken:
  assumes "reachable x"
  shows "(state x \<in> {Paid, Dispatched, RefundDue} \<longrightarrow>
      (\<exists>y fx. transition x (Happened (HandlerDelivered t)) = Moved y fx
        \<and> state y = (if settle (mode x) = AfterFulfillment \<and> state x \<noteq> RefundDue
                     then Fulfilled else Delivered)))
    \<and> (state x \<in> {Fulfilled, Delivered, DeliveredUnpaid} \<longrightarrow>
        transition x (Happened (DeliverCalled t))
          = Moved x [AnswerMerchant (AnswerOk AnswerAlreadyDelivered)])"
proof -
  have inv: "orderInv x" by (rule reachable_orderInv [OF assms])
  then have "payment x = PaySettling \<longrightarrow> state x \<noteq> Delivered"
    by (auto simp: orderInv_at)
  with goods_accepted [OF inv] deliver_again [of x t] show ?thesis by blast
qed

theorem goods_are_taken_witness:
  "(\<exists>y fx. transition (sampleIn RefundDue) (Happened (HandlerDelivered 6)) = Moved y fx
      \<and> state y = Delivered)
    \<and> transition (sampleIn Fulfilled) (Happened (DeliverCalled 6))
        = Moved (sampleIn Fulfilled) [AnswerMerchant (AnswerOk AnswerAlreadyDelivered)]"
  using goods_are_taken [OF sampleIn_reachable [of RefundDue], of 6]
    goods_are_taken [OF sampleIn_reachable [of Fulfilled], of 6]
  by (auto simp del: transition.simps)

text \<open>The record that an order went out is accepted exactly while the order is with the
  merchant or owed a refund, which is when the queue may still be handing it over.\<close>

theorem dispatch_recorded_exactly_while_out:
  assumes "reachable x"
  shows "(\<exists>y fx. transition x (Happened (OrderDispatched t)) = Moved y fx)
    \<longleftrightarrow> state x \<in> {Paid, Dispatched, RefundDue}"
  by (rule order_dispatched_iff [OF reachable_orderInv [OF assms]])

theorem dispatch_recorded_exactly_while_out_witness:
  "\<not> (\<exists>y fx. transition (sampleIn Delivered) (Happened (OrderDispatched 2)) = Moved y fx)"
  using dispatch_recorded_exactly_while_out [OF sampleIn_reachable [of Delivered], of 2]
  by (simp del: transition.simps)

end
