(* ===== verification/Deployment_Environment.thy ===== *)
theory Deployment_Environment
  imports Prelude "HOL-Library.Sublist"
begin

text \<open>
  \<^verbatim>\<open>packages/core/src/deployment/environment.ts\<close>: which environment a deployment is, read
  off the chain it settles on, and which environment issued a key. A \<open>Set\<close> of the code is
  the list of its members in insertion order, which is the order it is printed in; the
  thrown error is the left of a sum and carries its message.
\<close>

datatype Environment = EnvTest | EnvLive

datatype SurfaceMode = SurfaceSandbox | SurfaceTest | SurfaceLive

definition TESTNET_CHAINS :: "string list" where
  "TESTNET_CHAINS = [''eip155:84532'', ''eip155:11155111'', ''eip155:80002'']"

definition LIVE_CHAINS :: "string list" where
  "LIVE_CHAINS = [''eip155:8453'']"

definition SANDBOX_FACILITATOR :: string where
  "SANDBOX_FACILITATOR = ''sandbox:scripted''"

definition isSandboxFacilitator :: "string \<Rightarrow> bool" where
  "isSandboxFacilitator facilitatorUrl = (facilitatorUrl = SANDBOX_FACILITATOR)"

definition isTestnetChain :: "string \<Rightarrow> bool" where
  "isTestnetChain network = List.member TESTNET_CHAINS network"

text \<open>\<open>[...chains].join(", ")\<close>\<close>

fun written :: "string list \<Rightarrow> string" where
  "written [] = ''''"
| "written [c] = c"
| "written (c # d # cs) = c @ '', '' @ written (d # cs)"

text \<open>
  \<open>JSON.stringify\<close> of a string: the quote, the backslash and the control characters are
  escaped, every other character stands for itself.
\<close>

definition jsonChar :: "char \<Rightarrow> string" where
  "jsonChar c =
     (let n = (of_char c :: nat) in
      if n = 34 then [CHR 0x5C, CHR 0x22]
      else if n = 92 then [CHR 0x5C, CHR 0x5C]
      else if n = 8 then [CHR 0x5C, CHR ''b'']
      else if n = 9 then [CHR 0x5C, CHR ''t'']
      else if n = 10 then [CHR 0x5C, CHR ''n'']
      else if n = 12 then [CHR 0x5C, CHR ''f'']
      else if n = 13 then [CHR 0x5C, CHR ''r'']
      else if n < 32 then [CHR 0x5C] @ ''u00'' @ [digitChar (n div 16), digitChar (n mod 16)]
      else [c])"

definition jsonString :: "string \<Rightarrow> string" where
  "jsonString s = [CHR 0x22] @ concat (map jsonChar s) @ [CHR 0x22]"

definition environmentOf :: "string \<Rightarrow> string + Environment" where
  "environmentOf network =
     (if List.member TESTNET_CHAINS network then Inr EnvTest
      else if List.member LIVE_CHAINS network then Inr EnvLive
      else Inl
        (''PAYMENT_NETWORK is '' @ jsonString network
         @ '', which is on neither written list, so there is ''
         @ ''no honest answer to whether this deployment''
         @ [CHR 0x27] @ ''s money is real. The test chains are ''
         @ written TESTNET_CHAINS @ ''; the live chains are '' @ written LIVE_CHAINS
         @ ''. Adding one is a ''
         @ ''decision recorded in docs/decisions, not a value typed into an environment file''))"

definition surfaceModeOf :: "string \<Rightarrow> string \<Rightarrow> string + SurfaceMode" where
  "surfaceModeOf network facilitatorUrl =
     (case environmentOf network of
        Inl message \<Rightarrow> Inl message
      | Inr environment \<Rightarrow>
          Inr (if isSandboxFacilitator facilitatorUrl then SurfaceSandbox
               else (case environment of EnvTest \<Rightarrow> SurfaceTest | EnvLive \<Rightarrow> SurfaceLive)))"

fun SITES :: "Environment \<Rightarrow> string" where
  "SITES EnvTest = ''test.agentify.ad''"
| "SITES EnvLive = ''app.agentify.ad''"

fun KEY_PREFIXES :: "Environment \<Rightarrow> string" where
  "KEY_PREFIXES EnvTest = ''csk_test_''"
| "KEY_PREFIXES EnvLive = ''csk_live_''"

definition keyPrefixFor :: "Environment \<Rightarrow> string" where
  "keyPrefixFor environment = KEY_PREFIXES environment"

definition environmentOfKeyPrefix :: "string \<Rightarrow> Environment option" where
  "environmentOfKeyPrefix secret =
     find (\<lambda>environment. prefix (KEY_PREFIXES environment) secret) [EnvTest, EnvLive]"

fun SURFACE_WORDS :: "SurfaceMode \<Rightarrow> string option" where
  "SURFACE_WORDS SurfaceSandbox =
     Some (''Sandbox. No chain stands behind this stack: every payment it accepts is pretend, nothing ''
       @ ''arrives at the address in a challenge, and no receipt it writes points at a transfer.'')"
| "SURFACE_WORDS SurfaceTest =
     Some (''Test environment. Payments settle on Base Sepolia with test funds, and every order and ''
       @ ''receipt here is marked as a test. The live site is app.agentify.ad.'')"
| "SURFACE_WORDS SurfaceLive = None"

section \<open>Which chains are answered\<close>

lemma chains_disjoint: "set TESTNET_CHAINS \<inter> set LIVE_CHAINS = {}"
  by (simp add: TESTNET_CHAINS_def LIVE_CHAINS_def)

lemma environmentOf_test_iff: "environmentOf n = Inr EnvTest \<longleftrightarrow> isTestnetChain n"
  by (simp add: environmentOf_def isTestnetChain_def)

lemma environmentOf_live_iff: "environmentOf n = Inr EnvLive \<longleftrightarrow> n \<in> set LIVE_CHAINS"
  using chains_disjoint by (auto simp: environmentOf_def)

lemma environmentOf_refuses_iff:
  "(\<exists>m. environmentOf n = Inl m) \<longleftrightarrow> n \<notin> set TESTNET_CHAINS \<union> set LIVE_CHAINS"
  by (simp add: environmentOf_def)

lemma surfaceModeOf_cases:
  "surfaceModeOf n f = Inr SurfaceSandbox \<longleftrightarrow>
     f = SANDBOX_FACILITATOR \<and> n \<in> set TESTNET_CHAINS \<union> set LIVE_CHAINS"
  "surfaceModeOf n f = Inr SurfaceTest \<longleftrightarrow> f \<noteq> SANDBOX_FACILITATOR \<and> isTestnetChain n"
  "surfaceModeOf n f = Inr SurfaceLive \<longleftrightarrow> f \<noteq> SANDBOX_FACILITATOR \<and> n \<in> set LIVE_CHAINS"
  "(\<exists>m. surfaceModeOf n f = Inl m) \<longleftrightarrow> (\<exists>m. environmentOf n = Inl m)"
  using chains_disjoint
  by (auto simp: surfaceModeOf_def environmentOf_def isSandboxFacilitator_def isTestnetChain_def)

section \<open>Keys\<close>

lemma key_prefixes_apart:
  "prefix (KEY_PREFIXES a) s \<Longrightarrow> prefix (KEY_PREFIXES b) s \<Longrightarrow> a = b"
  by (cases a; cases b) (auto simp: prefix_def)

lemma environmentOfKeyPrefix_iff:
  "environmentOfKeyPrefix s = Some e \<longleftrightarrow> prefix (keyPrefixFor e) s"
  using key_prefixes_apart [of EnvTest s EnvLive]
  by (cases e) (auto simp: environmentOfKeyPrefix_def keyPrefixFor_def simp del: KEY_PREFIXES.simps)

section \<open>The properties\<close>

text \<open>A surface says live only for a listed live chain behind a real facilitator, test only
  for a listed test chain behind a real one, sandbox only for the scripted facilitator, and
  a chain on neither list is refused whatever facilitator stands behind it.\<close>

theorem surface_says_what_the_deployment_is:
  "(case surfaceModeOf network facilitatorUrl of
      Inr SurfaceLive \<Rightarrow> network \<in> set LIVE_CHAINS \<and> \<not> isTestnetChain network
        \<and> facilitatorUrl \<noteq> SANDBOX_FACILITATOR
    | Inr SurfaceTest \<Rightarrow> isTestnetChain network \<and> facilitatorUrl \<noteq> SANDBOX_FACILITATOR
    | Inr SurfaceSandbox \<Rightarrow> facilitatorUrl = SANDBOX_FACILITATOR
        \<and> network \<in> set TESTNET_CHAINS \<union> set LIVE_CHAINS
    | Inl message \<Rightarrow> network \<notin> set TESTNET_CHAINS \<union> set LIVE_CHAINS)"
  using surfaceModeOf_cases [of network facilitatorUrl] environmentOf_refuses_iff [of network]
    chains_disjoint
  by (auto simp: isTestnetChain_def split: sum.split SurfaceMode.split)

text \<open>A key names the environment that issued it: a secret is read back as an environment
  exactly when it starts with that environment's prefix, no secret starts with both, and
  whatever follows the prefix of an issued key does not change the answer.\<close>

theorem key_names_its_environment:
  "(environmentOfKeyPrefix secret = Some e \<longleftrightarrow> prefix (keyPrefixFor e) secret)
    \<and> environmentOfKeyPrefix (keyPrefixFor e @ rest) = Some e"
  by (simp add: environmentOfKeyPrefix_iff)

end
