(* ===== verification/Sdk_Backoff.thy ===== *)
theory Sdk_Backoff
  imports Prelude
begin

text \<open>
  \<^verbatim>\<open>packages/sdk/src/backoff.ts\<close>: how long the worker waits before it asks a gateway that
  did not answer. Both parameters are JavaScript numbers, so the two refusals of the
  function are reached by fractions, infinities and the value that is not a number.
\<close>

datatype JsNumber = Finite rat | PosInfinity | NegInfinity | NotANumber

datatype RetryError =
    BadAttempt JsNumber \<comment> \<open>the attempt is a whole number from 1 upwards\<close>
  | BadDraw JsNumber \<comment> \<open>the random draw is a number from 0 to 1\<close>

definition FIRST_RETRY_MS :: rat where
  "FIRST_RETRY_MS = 500"

definition RETRY_CEILING_MS :: rat where
  "RETRY_CEILING_MS = 30000"

definition RETRY_GROWTH :: rat where
  "RETRY_GROWTH = 2"

fun isInteger :: "JsNumber \<Rightarrow> bool" where
  "isInteger (Finite r) = (snd (quotient_of r) = 1)"
| "isInteger _ = False"

fun lessThanOne :: "JsNumber \<Rightarrow> bool" where
  "lessThanOne (Finite r) = (r < 1)"
| "lessThanOne NegInfinity = True"
| "lessThanOne _ = False"

fun isDraw :: "JsNumber \<Rightarrow> bool" where
  "isDraw (Finite r) = (0 \<le> r \<and> r \<le> 1)"
| "isDraw _ = False"

text \<open>The number an accepted argument stands for.\<close>

fun finitePart :: "JsNumber \<Rightarrow> rat" where
  "finitePart (Finite r) = r"
| "finitePart _ = 0"

definition cappedDelay :: "nat \<Rightarrow> rat" where
  "cappedDelay n = min RETRY_CEILING_MS (FIRST_RETRY_MS * RETRY_GROWTH ^ (n - 1))"

definition retryDelayMs :: "JsNumber \<Rightarrow> JsNumber \<Rightarrow> RetryError + rat" where
  "retryDelayMs attempt random =
     (if \<not> isInteger attempt \<or> lessThanOne attempt then Inl (BadAttempt attempt)
      else if \<not> isDraw random then Inl (BadDraw random)
      else
        (let capped = cappedDelay (nat \<lfloor>finitePart attempt\<rfloor>) in
         Inr (capped / 2 + capped / 2 * finitePart random)))"

section \<open>Its bounds\<close>

lemma isInteger_of_nat [simp]: "isInteger (Finite (of_nat n))"
  using quotient_of_int [of "int n"] by (simp add: Rat.of_int_def)

lemma retryDelayMs_eq:
  assumes "1 \<le> n" and "0 \<le> r" and "r \<le> 1"
  shows "retryDelayMs (Finite (of_nat n)) (Finite r)
    = Inr (cappedDelay n / 2 + cappedDelay n / 2 * r)"
  using assms by (simp add: retryDelayMs_def Let_def del: isInteger.simps(1))

lemma retryDelayMs_accepts_iff:
  "(\<exists>d. retryDelayMs a r = Inr d) \<longleftrightarrow>
     (\<exists>n \<ge> 1. a = Finite (of_nat n)) \<and> (\<exists>q. r = Finite q \<and> 0 \<le> q \<and> q \<le> 1)"
proof -
  have "isInteger a \<and> \<not> lessThanOne a \<longleftrightarrow> (\<exists>n \<ge> 1. a = Finite (of_nat n))"
  proof (cases a)
    case (Finite q)
    have "\<exists>n \<ge> 1. q = of_nat n" if int: "snd (quotient_of q) = 1" and ge: "1 \<le> q"
    proof -
      have "q = of_int (fst (quotient_of q))"
        using int quotient_of_div [of q "fst (quotient_of q)" 1] by (simp add: prod_eq_iff)
      with ge have "1 \<le> fst (quotient_of q)" by (metis of_int_1_le_iff)
      with \<open>q = of_int (fst (quotient_of q))\<close>
      have "q = of_nat (nat (fst (quotient_of q)))" "1 \<le> nat (fst (quotient_of q))"
        by (simp_all add: of_nat_nat)
      then show ?thesis by blast
    qed
    with Finite show ?thesis
      using isInteger_of_nat by auto
  qed auto
  moreover have "isDraw r \<longleftrightarrow> (\<exists>q. r = Finite q \<and> 0 \<le> q \<and> q \<le> 1)"
    by (cases r) auto
  moreover have "(\<exists>d. retryDelayMs a r = Inr d) \<longleftrightarrow> (isInteger a \<and> \<not> lessThanOne a) \<and> isDraw r"
    by (simp add: retryDelayMs_def Let_def)
  ultimately show ?thesis by simp
qed

lemma cappedDelay_bounds: "500 \<le> cappedDelay n" "cappedDelay n \<le> 30000"
proof -
  have "(1 :: rat) \<le> 2 ^ (n - 1)" by simp
  then show "500 \<le> cappedDelay n"
    by (simp add: cappedDelay_def FIRST_RETRY_MS_def RETRY_CEILING_MS_def RETRY_GROWTH_def
        del: one_le_power)
  show "cappedDelay n \<le> 30000"
    by (simp add: cappedDelay_def RETRY_CEILING_MS_def)
qed

lemma cappedDelay_mono: "m \<le> n \<Longrightarrow> cappedDelay m \<le> cappedDelay n"
proof -
  assume "m \<le> n"
  then have "(2 :: rat) ^ (m - 1) \<le> 2 ^ (n - 1)" by (intro power_increasing) auto
  then show ?thesis
    unfolding cappedDelay_def FIRST_RETRY_MS_def RETRY_GROWTH_def
    by (intro min.mono mult_left_mono) simp_all
qed

lemma retryDelayMs_bounds:
  assumes "1 \<le> n" and "0 \<le> r" and "r \<le> 1"
  obtains d where "retryDelayMs (Finite (of_nat n)) (Finite r) = Inr d"
    and "cappedDelay n / 2 \<le> d" and "d \<le> cappedDelay n"
proof
  show "retryDelayMs (Finite (of_nat n)) (Finite r)
      = Inr (cappedDelay n / 2 + cappedDelay n / 2 * r)"
    by (rule retryDelayMs_eq [OF assms])
  have pos: "0 \<le> cappedDelay n / 2" using cappedDelay_bounds(1) [of n] by simp
  then show "cappedDelay n / 2 \<le> cappedDelay n / 2 + cappedDelay n / 2 * r"
    using assms(2) by (metis add.right_neutral add_left_mono mult_nonneg_nonneg)
  have "cappedDelay n / 2 * r \<le> cappedDelay n / 2"
    using pos assms(3) by (metis mult_left_mono mult.right_neutral)
  then show "cappedDelay n / 2 + cappedDelay n / 2 * r \<le> cappedDelay n" by linarith
qed

section \<open>The property\<close>

text \<open>The wait before an attempt is defined exactly for whole attempts from one and draws
  between zero and one; it lies between a quarter of a second and half a minute, within half
  of a capped delay that never shrinks from one attempt to the next.\<close>

theorem retry_delay_bounds:
  "((\<exists>d. retryDelayMs attempt random = Inr d) \<longleftrightarrow>
      (\<exists>n \<ge> 1. attempt = Finite (of_nat n)) \<and> (\<exists>q. random = Finite q \<and> 0 \<le> q \<and> q \<le> 1))
    \<and> (\<forall>n d. attempt = Finite (of_nat n) \<and> retryDelayMs attempt random = Inr d \<longrightarrow>
        cappedDelay n / 2 \<le> d \<and> d \<le> cappedDelay n \<and> 250 \<le> d \<and> d \<le> 30000
        \<and> cappedDelay n \<le> cappedDelay (n + 1))"
proof -
  have "cappedDelay n / 2 \<le> d \<and> d \<le> cappedDelay n \<and> 250 \<le> d \<and> d \<le> 30000
      \<and> cappedDelay n \<le> cappedDelay (n + 1)"
    if d: "retryDelayMs (Finite (of_nat n)) random = Inr d" for n d
  proof -
    obtain q where "random = Finite q" "0 \<le> q" "q \<le> 1" and "1 \<le> n"
      using d retryDelayMs_accepts_iff [of "Finite (of_nat n)" random] by auto
    with d retryDelayMs_bounds [of n q]
    have "cappedDelay n / 2 \<le> d \<and> d \<le> cappedDelay n" by auto
    moreover have "500 \<le> cappedDelay n" "cappedDelay n \<le> 30000"
      by (rule cappedDelay_bounds)+
    ultimately show ?thesis using cappedDelay_mono [of n "n + 1"] by auto
  qed
  then show ?thesis using retryDelayMs_accepts_iff [of attempt random] by blast
qed

theorem retry_delay_bounds_witness:
  "retryDelayMs (Finite (of_nat 3)) (Finite (1 / 2)) = Inr 1500
    \<and> (250 :: rat) \<le> 1500 \<and> 1500 \<le> cappedDelay 4"
proof -
  have "retryDelayMs (Finite (of_nat 3)) (Finite (1 / 2)) = Inr 1500"
    using retryDelayMs_eq [of 3 "1 / 2"]
    by (simp add: cappedDelay_def FIRST_RETRY_MS_def RETRY_CEILING_MS_def RETRY_GROWTH_def)
  with retry_delay_bounds [of "Finite (of_nat 3)" "Finite (1 / 2)"] show ?thesis
    by (auto simp del: of_nat_numeral)
qed

end
