(* ===== verification/Gateway_Wire.thy ===== *)
theory Gateway_Wire
  imports Order_Model
begin

text \<open>
  The documents the gateway writes on the wire, \<^verbatim>\<open>packages/contracts/src\<close>: the types the
  zod schemas infer, without their parsing, and the instant as every document writes one
  (\<^verbatim>\<open>apps/gateway/src/ports/clock.ts\<close>). An optional field is an option. Field names carry the
  document's name where two documents share one.
\<close>

section \<open>Values\<close>

datatype Json =
    JNull
  | JBool bool
  | JNumber rat
  | JString string
  | JArray "Json list"
  | JObject "(string \<times> Json) list"

type_synonym Params = "(string \<times> Json) list"
type_synonym Delivery = "(string \<times> Json) list"

record Money =
  moneyAmount :: string
  moneyCurrency :: string

record SalePrice =
  saleAmount :: string
  saleCurrency :: string
  saleAt :: string
  saleAsOf :: string

section \<open>Instants\<close>

text \<open>
  \<open>new Date(at).toISOString()\<close>: the days since the epoch are turned into a civil date in
  the proleptic Gregorian calendar, counting years from March so that the leap day is the
  last day of a year. Years outside 0 to 9999 are written with a sign and six digits. The
  standard library throws only beyond a hundred million days from the epoch, which no
  instant of a clock reaches.
\<close>

definition padded :: "nat \<Rightarrow> int \<Rightarrow> string" where
  "padded width n =
     (let s = show_nat (nat n) in replicate (width - length s) (CHR ''0'') @ s)"

definition yearOfEra :: "int \<Rightarrow> int" where
  "yearOfEra doe = (doe - doe div 1460 + doe div 36524 - doe div 146096) div 365"

definition dayOfYear :: "int \<Rightarrow> int \<Rightarrow> int" where
  "dayOfYear doe yoe = doe - (365 * yoe + yoe div 4 - yoe div 100)"

definition monthFromMarch :: "int \<Rightarrow> int" where
  "monthFromMarch doy = (5 * doy + 2) div 153"

definition civilOfDay :: "int \<Rightarrow> int \<Rightarrow> int \<Rightarrow> int \<times> int \<times> int" where
  "civilOfDay y doy mp =
     (y + (if mp < 10 then 0 else 1), if mp < 10 then mp + 3 else mp - 9,
      doy - (153 * mp + 2) div 5 + 1)"

definition civilOfEraDay :: "int \<Rightarrow> int \<Rightarrow> int \<times> int \<times> int" where
  "civilOfEraDay era doe =
     civilOfDay (yearOfEra doe + era * 400) (dayOfYear doe (yearOfEra doe))
       (monthFromMarch (dayOfYear doe (yearOfEra doe)))"

definition civilOfDays :: "int \<Rightarrow> int \<times> int \<times> int" where
  "civilOfDays days = civilOfEraDay ((days + 719468) div 146097) ((days + 719468) mod 146097)"

lemmas civil_eval =
  civilOfDays_def civilOfEraDay_def civilOfDay_def monthFromMarch_def dayOfYear_def
  yearOfEra_def

definition yearText :: "int \<Rightarrow> string" where
  "yearText y =
     (if 0 \<le> y \<and> y \<le> 9999 then padded 4 y
      else if y < 0 then ''-'' @ padded 6 (- y)
      else ''+'' @ padded 6 y)"

definition asTimestamp :: "int \<Rightarrow> string" where
  "asTimestamp t =
     (let (y, m, d) = civilOfDays (t div 86400000); ms = t mod 86400000 in
      yearText y @ ''-'' @ padded 2 m @ ''-'' @ padded 2 d @ ''T''
      @ padded 2 (ms div 3600000) @ '':'' @ padded 2 (ms div 60000 mod 60) @ '':''
      @ padded 2 (ms div 1000 mod 60) @ ''.'' @ padded 3 (ms mod 1000) @ ''Z'')"

section \<open>Documents\<close>

datatype ReceiptOutcome =
    ReceiptInProgress | ReceiptDelivered | ReceiptRefundDue | ReceiptRefunded

record Receipt =
  receiptId :: string
  receiptOrderId :: string
  receiptItemId :: string
  receiptPrice :: SalePrice
  receiptPriceId :: "string option"
  receiptPaidAt :: string
  receiptOutcome :: ReceiptOutcome
  receiptTest :: bool

record OrderDocument =
  documentId :: string
  documentMerchantItemId :: string
  documentParams :: Params
  documentPrice :: SalePrice
  documentPriceId :: "string option"
  documentTest :: bool

datatype QuotePurpose = QuoteForPurchase | QuoteForPoll

record QuoteRequest =
  quoteMerchantItemId :: string
  quoteParams :: "Params option"
  quotePriceId :: string
  quotePurpose :: QuotePurpose
  quoteExpiresAt :: string

text \<open>A merchant's answer about a price, with \<open>as_of\<close> as the instant it parses to.\<close>

datatype QuoteResponse = QuoteAvailable Money int | QuoteUnavailable

text \<open>One finding about a document: where, of which kind, and in words.\<close>

record Problem =
  problemPath :: "string list"
  problemCode :: string
  problemMessage :: string

datatype RefundDueReason = ReasonRefused | ReasonDeadlinePassed | ReasonMerchantLeft

datatype OrderEventDocument =
    RefundDueDocument string string Money RefundDueReason
      \<comment> \<open>\<open>order_id\<close>, \<open>at\<close>, \<open>price\<close>, \<open>reason\<close>\<close>
  | UnpaidAfterConfirmationDocument string string
  | PaymentFailedAfterDeliveryDocument string string

datatype WorkerEnvelope =
    OrderEnvelope string string OrderDocument \<comment> \<open>\<open>id\<close>, \<open>sent_at\<close>, \<open>payload\<close>\<close>
  | QuoteEnvelope string string QuoteRequest
  | EventEnvelope string string OrderEventDocument

fun envelopeId :: "WorkerEnvelope \<Rightarrow> string" where
  "envelopeId (OrderEnvelope i t p) = i"
| "envelopeId (QuoteEnvelope i t p) = i"
| "envelopeId (EventEnvelope i t p) = i"

section \<open>Cards\<close>

text \<open>
  A card as it stands after parsing, with the fields the gateway's own logic reads; the
  rest of the card (title, description, declared fields, tags) travels as it was parsed.
\<close>

datatype PriceCheckDeclared = CheckByHandler | CheckByUrl string

record Card =
  cardMerchantItemId :: string
  cardFulfillment :: FulfillmentMode
  cardMoney :: Money
  cardPriceCheck :: "PriceCheckDeclared option"
  cardConfirmDeadlineSeconds :: "int option"
  cardFulfillDeadlineSeconds :: "int option"
  cardRest :: Params

section \<open>Timestamps read back\<close>

text \<open>A few instants, to hold the calendar to the standard library's own answers.\<close>

lemma asTimestamp_samples:
  "asTimestamp 951782400000 = ''2000-02-29T00:00:00.000Z''"
  "asTimestamp 1709251199999 = ''2024-02-29T23:59:59.999Z''"
  "asTimestamp (- 1) = ''1969-12-31T23:59:59.999Z''"
  by (simp_all add: asTimestamp_def civil_eval yearText_def padded_def show_nat_eval
      digitChar_def numeral_eq_Suc [of "num.Bit0 num.One"])

end
