(* ===== verification/Gateway_Runtime.thy ===== *)
theory Gateway_Runtime
  imports Gateway_Wire Order_Create Deployment_Environment
begin

text \<open>
  \<^verbatim>\<open>apps/gateway/src/app/runtime.ts\<close> and \<^verbatim>\<open>answers.ts\<close>: the translations from a card to the
  vocabulary of the order machine, and from the machine's answer to the document a merchant
  reads. Of the configuration the records keep the fields these flows and the runner read.
\<close>

section \<open>Configuration and stored cards\<close>

record DeadlineConfig =
  cfgQuoteResponseMs :: int
  cfgQuoteTtlMs :: int
  cfgSettleResponseMs :: int
  cfgSyncResponseMs :: int
  cfgSyncBudgetMs :: int
  cfgPaymentAfterConfirmationMs :: int
  cfgDefaultConfirmationResponseMs :: int
  cfgDefaultAsyncFulfillmentMs :: int
  cfgHandlerAnswerMs :: int

record WorkerConfig =
  cfgPollWaitMs :: int
  cfgPollMaxEnvelopes :: int

record GatewayConfig =
  cfgRegistrationInvitation :: "string option"
  cfgSettleInFlightRetryMs :: int
  cfgClaimRetentionMs :: int
  cfgSweepDispatchGraceMs :: int
  cfgPaymentWordsKept :: nat
  cfgDeadlines :: DeadlineConfig
  cfgRedelivery :: RedeliveryPolicy
  cfgWorker :: WorkerConfig
  cfgFacilitatorUrl :: string
  cfgEnvironment :: Environment

record StoredCard =
  storedCardId :: string
  storedCardMerchantId :: string
  storedCard :: Card
  storedCardAsOf :: int
  storedCardPaused :: bool

section \<open>From a card to the machine\<close>

definition policyFor :: "Card \<Rightarrow> GatewayConfig \<Rightarrow> OrderPolicy" where
  "policyFor c config =
     (let d = cfgDeadlines config in
      \<lparr>deadlinePolicy =
         \<lparr>quoteResponseMs = cfgQuoteResponseMs d, quoteTtlMs = cfgQuoteTtlMs d,
          settleResponseMs = cfgSettleResponseMs d, syncResponseMs = cfgSyncResponseMs d,
          paymentAfterConfirmationMs = cfgPaymentAfterConfirmationMs d,
          confirmationResponseMs =
            (case cardConfirmDeadlineSeconds c of
               None \<Rightarrow> cfgDefaultConfirmationResponseMs d
             | Some s \<Rightarrow> s * 1000),
          asyncFulfillmentMs =
            (case cardFulfillDeadlineSeconds c of
               None \<Rightarrow> cfgDefaultAsyncFulfillmentMs d
             | Some s \<Rightarrow> s * 1000)\<rparr>,
       redelivery = cfgRedelivery config\<rparr>)"

definition modeForCard :: "Card \<Rightarrow> OrderMode" where
  "modeForCard c = modeOf (cardFulfillment c)"

definition priceCheckOf :: "Card \<Rightarrow> PriceCheck" where
  "priceCheckOf c =
     (if cardPriceCheck c = None then PriceCheckNone else PriceCheckMerchant)"

definition quoteReachesTheMerchant :: "Card \<Rightarrow> bool" where
  "quoteReachesTheMerchant c = (cardPriceCheck c = Some CheckByHandler)"

definition sellingFor :: "MerchantSelling \<Rightarrow> StoredCard \<Rightarrow> bool \<Rightarrow> MerchantSelling" where
  "sellingFor merchant c sellable =
     (if merchant = SellingOpen \<and> (storedCardPaused c \<or> \<not> sellable) then SellingPaused
      else merchant)"

definition payableTo :: "string option \<Rightarrow> GatewayConfig \<Rightarrow> bool" where
  "payableTo payoutWallet config =
     (payoutWallet \<noteq> None \<or> isSandboxFacilitator (cfgFacilitatorUrl config))"

definition listedUnder :: "string option \<Rightarrow> bool" where
  "listedUnder serviceName = (serviceName \<noteq> None)"

text \<open>The merchant's \<open>payoutWallet\<close> and \<open>serviceName\<close> are the two fields this reads.\<close>

definition sellableBy :: "string option \<Rightarrow> string option \<Rightarrow> GatewayConfig \<Rightarrow> bool" where
  "sellableBy payoutWallet serviceName config =
     (payableTo payoutWallet config \<and> listedUnder serviceName)"

section \<open>The machine's answer on the wire\<close>

fun answerResultName :: "MerchantAnswerResult \<Rightarrow> string" where
  "answerResultName AnswerAccepted = ''accepted''"
| "answerResultName AnswerDelivered = ''delivered''"
| "answerResultName AnswerAlreadyDelivered = ''already_delivered''"
| "answerResultName AnswerDebtClosedByDelivery = ''debt_closed_by_delivery''"
| "answerResultName AnswerRefused = ''refused''"
| "answerResultName AnswerPurchaseAlreadyClosed = ''purchase_already_closed''"

fun answerErrorName :: "MerchantAnswerError \<Rightarrow> string" where
  "answerErrorName RefundAlreadySettled = ''refund_already_settled''"
| "answerErrorName OrderAlreadyClosed = ''order_already_closed''"
| "answerErrorName NotApplicableInMode = ''not_applicable_in_mode''"

fun WHY :: "MerchantAnswerError \<Rightarrow> string" where
  "WHY RefundAlreadySettled =
     ''the buyer has his money back for this order, so there is nothing left to deliver against''"
| "WHY OrderAlreadyClosed = ''this order reached an ending that no call reopens''"
| "WHY NotApplicableInMode =
     ''this call does not exist for this card'' @ [CHR 0x27]
     @ ''s mode '' @ [CHR 0xE2, CHR 0x80, CHR 0x94]
     @ '' in the synchronous one the handler'' @ [CHR 0x27]
     @ ''s own answer is the delivery and the refusal''"

record CallError =
  callErrorCode :: string
  callErrorMessage :: string
  callErrorRetryable :: bool
  callErrorProblems :: "Problem list option"

datatype OrderCallResponse = CallOk string | CallFailed CallError

fun orderCallResponseOf :: "MerchantAnswer \<Rightarrow> OrderCallResponse" where
  "orderCallResponseOf (AnswerOk result) = CallOk (answerResultName result)"
| "orderCallResponseOf (AnswerError e retry) =
     CallFailed \<lparr>callErrorCode = answerErrorName e, callErrorMessage = WHY e,
                 callErrorRetryable = retry, callErrorProblems = None\<rparr>"

lemma orderCallResponseOf_inject:
  "orderCallResponseOf a = orderCallResponseOf b \<longleftrightarrow> a = b"
proof -
  have results: "answerResultName r = answerResultName s \<longleftrightarrow> r = s" for r s
    by (cases r; cases s) simp_all
  have errors: "answerErrorName e = answerErrorName f \<longleftrightarrow> e = f" for e f
    by (cases e; cases f) simp_all
  show ?thesis by (cases a; cases b) (auto simp: results errors)
qed

section \<open>What may be sold\<close>

text \<open>An order for a card is born exactly where the merchant is selling, the card itself is
  not off sale, the sale could be paid for and there is a seller to name; a merchant who has
  left stays departed whatever the card says.\<close>

theorem order_born_exactly_where_sellable:
  assumes "inputSelling i = sellingFor word c (sellableBy wallet name config)"
  shows "((\<exists>order fx. createOrder i = Born order fx) \<longleftrightarrow>
      word = SellingOpen \<and> \<not> storedCardPaused c \<and> name \<noteq> None
      \<and> (wallet \<noteq> None \<or> cfgFacilitatorUrl config = SANDBOX_FACILITATOR))
    \<and> (word = SellingDeparted \<longrightarrow> (\<exists>m. createOrder i = NotBorn RejectMerchantDeparted m))"
proof -
  have "sellingFor word c s = SellingOpen \<longleftrightarrow>
      word = SellingOpen \<and> \<not> storedCardPaused c \<and> s" for s
    by (cases word) (auto simp: sellingFor_def)
  moreover have "sellingFor SellingDeparted c s = SellingDeparted" for s
    by (simp add: sellingFor_def)
  ultimately show ?thesis
    using assms createOrder_born_iff [of i]
    by (auto simp: sellableBy_def payableTo_def listedUnder_def isSandboxFacilitator_def
        createOrder_def)
qed

definition sampleInput :: CreateOrderInput where
  "sampleInput =
     \<lparr>inputId = ''ord_1'', inputAt = 0, inputMode = modeOf Sync,
      inputPolicy =
        \<lparr>deadlinePolicy = \<lparr>quoteResponseMs = 1, quoteTtlMs = 1, settleResponseMs = 1,
           syncResponseMs = 1, paymentAfterConfirmationMs = 1, confirmationResponseMs = 1,
           asyncFulfillmentMs = 1\<rparr>,
         redelivery = \<lparr>baseDelayMs = 1, factor = 1, maxDelayMs = 1, maxAttempts = 1\<rparr>\<rparr>,
      inputPriceCheck = PriceCheckNone,
      inputCardPrice = \<lparr>amount = ''1'', currency = ''USD'', asOf = 0\<rparr>,
      inputTest = True, inputSelling = SellingPaused\<rparr>"

theorem order_born_exactly_where_sellable_witness:
  "\<forall>c config. \<not> (\<exists>order fx. createOrder
     (sampleInput\<lparr>inputSelling :=
        sellingFor SellingOpen c (sellableBy (Some ''0x1'') None config)\<rparr>) = Born order fx)"
  using order_born_exactly_where_sellable
    [of "sampleInput\<lparr>inputSelling := sellingFor SellingOpen c (sellableBy (Some ''0x1'') None config)\<rparr>"
      SellingOpen c "Some ''0x1''" None config for c config]
  by simp

end
