(* ===== verification/Gateway_Store.thy ===== *)
theory Gateway_Store
  imports Gateway_Runtime "HOL-Library.AList" "HOL-Library.List_Lexorder"
    "HOL-Library.Product_Lexorder" "HOL-Library.Char_ord"
begin

text \<open>
  \<^verbatim>\<open>apps/gateway/src/adapters/memory/store.ts\<close>: what the gateway remembers. A \<open>Map\<close> of the
  code is an association list in insertion order, written with \<^const>\<open>AList.update\<close> and
  \<^const>\<open>AList.delete\<close>; an operation that changes the store returns the changed store; a
  thrown error is the left of a sum and leaves the store as it was. Identifiers come from
  the caller as the function \<open>ids\<close> and a counter, since the code draws them from outside.
  The hold on an order, which involves the queue, is in \<^verbatim>\<open>Gateway_World\<close>.
\<close>

section \<open>What is stored\<close>

record StoredMerchant =
  merchantRowId :: string
  merchantRowName :: string
  merchantServiceName :: "string option"
  merchantPayoutWallet :: "string option"
  merchantSelling :: MerchantSelling
  merchantCreatedAt :: int

datatype KeyPurpose = KeyForMerchantCode | KeyForCabinet

record StoredKey =
  keyId :: string
  keyMerchantId :: string
  keyLabel :: string
  keyPurpose :: KeyPurpose
  keyCreatedAt :: int
  keyDisabledAt :: "int option"
  keyLastUsedAt :: "int option"

datatype PaymentAbout = AboutVerify | AboutSettle

record PaymentWord =
  wordAt :: int
  wordAbout :: PaymentAbout
  wordSaid :: string

record StoredOrder =
  theOrder :: Order
  saleMerchant :: string
  saleItem :: string
  saleMerchantItem :: string
  saleParams :: Params
  salePriceId :: "string option"
  saleDelivery :: "Delivery option"
  salePayment :: "string option"
  salePayTo :: "string option"
  salePaidBy :: "string option"
  saleSettlement :: "string option"
  salePaymentWords :: "PaymentWord list"
  salePaymentWordsDropped :: nat
  saleOpenDelivery :: "string option"

record MemoryStore =
  merchantsMap :: "(string \<times> StoredMerchant) list"
  keysMap :: "(string \<times> StoredKey) list"
  keysByDigest :: "(string \<times> string) list"
  cardsMap :: "(string \<times> StoredCard) list"
  cardIdByMerchantKey :: "(string \<times> string) list"
  ordersMap :: "(string \<times> StoredOrder) list"
  receiptsMap :: "(string \<times> (string \<times> Receipt)) list"
  paymentClaims :: "(string \<times> (string \<times> int)) list"
  runningNames :: "string list"

definition emptyStore :: MemoryStore where
  "emptyStore =
     \<lparr>merchantsMap = [], keysMap = [], keysByDigest = [], cardsMap = [],
      cardIdByMerchantKey = [], ordersMap = [], receiptsMap = [], paymentClaims = [],
      runningNames = []\<rparr>"

definition mapValues :: "('k \<times> 'v) list \<Rightarrow> 'v list" where
  "mapValues m = map snd m"

section \<open>Merchants and their keys\<close>

definition newMerchant :: "string \<Rightarrow> string \<Rightarrow> int \<Rightarrow> StoredMerchant" where
  "newMerchant i name t =
     \<lparr>merchantRowId = i, merchantRowName = name, merchantServiceName = None,
      merchantPayoutWallet = None, merchantSelling = SellingOpen, merchantCreatedAt = t\<rparr>"

definition addMerchant ::
  "string \<Rightarrow> string \<Rightarrow> int \<Rightarrow> MemoryStore \<Rightarrow> StoredMerchant option \<times> MemoryStore" where
  "addMerchant i name t s =
     (if map_of (merchantsMap s) i \<noteq> None then (None, s)
      else
        (Some (newMerchant i name t),
         s\<lparr>merchantsMap := AList.update i (newMerchant i name t) (merchantsMap s)\<rparr>))"

definition writeKey ::
  "string \<Rightarrow> string \<Rightarrow> string \<Rightarrow> string \<Rightarrow> KeyPurpose \<Rightarrow> int \<Rightarrow> MemoryStore
   \<Rightarrow> string + StoredKey \<times> MemoryStore" where
  "writeKey i merchantId label digest purpose t s =
     (if map_of (merchantsMap s) merchantId = None then
        Inl (''there is no merchant '' @ merchantId @ '' for a key to belong to'')
      else if map_of (keysMap s) i \<noteq> None then
        Inl (''the key '' @ i @ '' is already written down'')
      else if map_of (keysByDigest s) digest \<noteq> None then
        Inl ''a key with that digest is already written down''
      else
        (let stored =
           \<lparr>keyId = i, keyMerchantId = merchantId, keyLabel = label, keyPurpose = purpose,
            keyCreatedAt = t, keyDisabledAt = None, keyLastUsedAt = None\<rparr> in
         Inr (stored,
           s\<lparr>keysMap := AList.update i stored (keysMap s),
             keysByDigest := AList.update digest i (keysByDigest s)\<rparr>)))"

definition addKey ::
  "string \<Rightarrow> string \<Rightarrow> string \<Rightarrow> string \<Rightarrow> KeyPurpose \<Rightarrow> int \<Rightarrow> MemoryStore
   \<Rightarrow> string + StoredKey \<times> MemoryStore" where
  "addKey i merchantId label digest purpose t s =
     writeKey i merchantId label digest purpose t s"

text \<open>
  A merchant and the cabinet's key together: the merchant is written, and taken back out
  when the key is refused.
\<close>

definition registerMerchant ::
  "string \<Rightarrow> string \<Rightarrow> string \<Rightarrow> string \<Rightarrow> string \<Rightarrow> int \<Rightarrow> MemoryStore
   \<Rightarrow> (string + (StoredMerchant \<times> StoredKey) option) \<times> MemoryStore" where
  "registerMerchant i name newKeyId label digest t s =
     (if map_of (merchantsMap s) i \<noteq> None then (Inr None, s)
      else
        (let row = newMerchant i name t;
             s' = s\<lparr>merchantsMap := AList.update i row (merchantsMap s)\<rparr>
         in case writeKey newKeyId i label digest KeyForCabinet t s' of
              Inl thrown \<Rightarrow>
                (Inl thrown, s'\<lparr>merchantsMap := AList.delete i (merchantsMap s')\<rparr>)
            | Inr (stored, s'') \<Rightarrow> (Inr (Some (row, stored)), s'')))"

definition merchantById :: "string \<Rightarrow> MemoryStore \<Rightarrow> StoredMerchant option" where
  "merchantById i s = map_of (merchantsMap s) i"

definition merchants :: "MemoryStore \<Rightarrow> StoredMerchant list" where
  "merchants s = mapValues (merchantsMap s)"

definition setServiceName ::
  "string \<Rightarrow> string option \<Rightarrow> MemoryStore \<Rightarrow> StoredMerchant option \<times> MemoryStore" where
  "setServiceName i serviceName s =
     (case map_of (merchantsMap s) i of
        None \<Rightarrow> (None, s)
      | Some row \<Rightarrow>
          (let row' = row\<lparr>merchantServiceName := serviceName\<rparr> in
           (Some row', s\<lparr>merchantsMap := AList.update i row' (merchantsMap s)\<rparr>)))"

definition setPayoutWallet ::
  "string \<Rightarrow> string \<Rightarrow> MemoryStore \<Rightarrow> StoredMerchant option \<times> MemoryStore" where
  "setPayoutWallet i payoutWallet s =
     (case map_of (merchantsMap s) i of
        None \<Rightarrow> (None, s)
      | Some row \<Rightarrow>
          (let row' = row\<lparr>merchantPayoutWallet := Some payoutWallet\<rparr> in
           (Some row', s\<lparr>merchantsMap := AList.update i row' (merchantsMap s)\<rparr>)))"

definition noteKeyUse :: "string \<Rightarrow> int \<Rightarrow> MemoryStore \<Rightarrow> MemoryStore" where
  "noteKeyUse i t s =
     (case map_of (keysMap s) i of
        None \<Rightarrow> s
      | Some found \<Rightarrow>
          if (case keyLastUsedAt found of None \<Rightarrow> False | Some seen \<Rightarrow> t \<le> seen) then s
          else
            s\<lparr>keysMap :=
                AList.update (keyId found) (found\<lparr>keyLastUsedAt := Some t\<rparr>) (keysMap s)\<rparr>)"

definition keyByDigest :: "string \<Rightarrow> MemoryStore \<Rightarrow> StoredKey option" where
  "keyByDigest digest s = Option.bind (map_of (keysByDigest s) digest) (map_of (keysMap s))"

definition workingKey :: "string \<Rightarrow> MemoryStore \<Rightarrow> StoredKey option" where
  "workingKey digest s =
     (case Option.bind (map_of (keysByDigest s) digest) (map_of (keysMap s)) of
        None \<Rightarrow> None
      | Some key \<Rightarrow> if keyDisabledAt key \<noteq> None then None else Some key)"

definition keysOf :: "string \<Rightarrow> MemoryStore \<Rightarrow> StoredKey list" where
  "keysOf merchantId s =
     sort_key (\<lambda>key. (keyCreatedAt key, keyId key))
       (filter (\<lambda>key. keyMerchantId key = merchantId) (mapValues (keysMap s)))"

definition codeKeysOf :: "string \<Rightarrow> MemoryStore \<Rightarrow> StoredKey list" where
  "codeKeysOf merchantId s =
     filter (\<lambda>key. keyPurpose key = KeyForMerchantCode) (keysOf merchantId s)"

definition forgetCabinetKey :: "string \<Rightarrow> MemoryStore \<Rightarrow> bool \<times> MemoryStore" where
  "forgetCabinetKey i s =
     (case map_of (keysMap s) i of
        None \<Rightarrow> (False, s)
      | Some going \<Rightarrow>
          if keyPurpose going \<noteq> KeyForCabinet then (False, s)
          else
            (True,
             s\<lparr>keysMap := AList.delete (keyId going) (keysMap s),
               keysByDigest := filter (\<lambda>(digest, k). k \<noteq> keyId going) (keysByDigest s)\<rparr>))"

definition revoke :: "StoredKey \<Rightarrow> int \<Rightarrow> MemoryStore \<Rightarrow> StoredKey \<times> MemoryStore" where
  "revoke found t s =
     (let stored =
        found\<lparr>keyDisabledAt :=
          (case keyDisabledAt found of None \<Rightarrow> Some t | Some earlier \<Rightarrow> Some earlier)\<rparr> in
      (stored, s\<lparr>keysMap := AList.update (keyId found) stored (keysMap s)\<rparr>))"

definition disableKey :: "string \<Rightarrow> int \<Rightarrow> MemoryStore \<Rightarrow> StoredKey option \<times> MemoryStore" where
  "disableKey i t s =
     (case map_of (keysMap s) i of
        None \<Rightarrow> (None, s)
      | Some found \<Rightarrow> (let (stored, s') = revoke found t s in (Some stored, s')))"

datatype DisableAnswer = NoSuchKey | MadeForACabinet | KeyDisabled StoredKey

definition disableKeyOf ::
  "string \<Rightarrow> string \<Rightarrow> int \<Rightarrow> MemoryStore \<Rightarrow> DisableAnswer \<times> MemoryStore" where
  "disableKeyOf merchantId i t s =
     (case map_of (keysMap s) i of
        None \<Rightarrow> (NoSuchKey, s)
      | Some found \<Rightarrow>
          if keyMerchantId found \<noteq> merchantId then (NoSuchKey, s)
          else if keyPurpose found \<noteq> KeyForMerchantCode then (MadeForACabinet, s)
          else (let (stored, s') = revoke found t s in (KeyDisabled stored, s')))"

section \<open>The catalog\<close>

definition catalogKey :: "string \<Rightarrow> string \<Rightarrow> string" where
  "catalogKey merchantId merchantItemId = merchantId @ [CHR 0x00] @ merchantItemId"

text \<open>The identifier drawn for a new card is the argument \<open>fresh\<close>.\<close>

definition publishCard ::
  "string \<Rightarrow> Card \<Rightarrow> int \<Rightarrow> string \<Rightarrow> MemoryStore \<Rightarrow> StoredCard \<times> MemoryStore" where
  "publishCard merchantId c t fresh s =
     (let owned = catalogKey merchantId (cardMerchantItemId c);
          existing = map_of (cardIdByMerchantKey s) owned;
          i = (case existing of None \<Rightarrow> fresh | Some known \<Rightarrow> known);
          paused = (case existing of
                      None \<Rightarrow> False
                    | Some known \<Rightarrow>
                        (case map_of (cardsMap s) known of
                           None \<Rightarrow> False
                         | Some was \<Rightarrow> storedCardPaused was));
          stored = \<lparr>storedCardId = i, storedCardMerchantId = merchantId, storedCard = c,
                    storedCardAsOf = t, storedCardPaused = paused\<rparr>
      in (stored,
          s\<lparr>cardIdByMerchantKey := AList.update owned i (cardIdByMerchantKey s),
            cardsMap := AList.update i stored (cardsMap s)\<rparr>))"

definition cardById :: "string \<Rightarrow> MemoryStore \<Rightarrow> StoredCard option" where
  "cardById i s = map_of (cardsMap s) i"

definition cards :: "string \<Rightarrow> MemoryStore \<Rightarrow> StoredCard list" where
  "cards merchantId s = filter (\<lambda>c. storedCardMerchantId c = merchantId) (mapValues (cardsMap s))"

definition sellingOf :: "string \<Rightarrow> MemoryStore \<Rightarrow> string + MerchantSelling" where
  "sellingOf merchantId s =
     (case map_of (merchantsMap s) merchantId of
        None \<Rightarrow>
          Inl (''there is no merchant '' @ merchantId @ '', so there is no word for their selling'')
      | Some row \<Rightarrow> Inr (merchantSelling row))"

record CatalogEntry =
  entryCard :: StoredCard
  entryMerchant :: MerchantSelling
  entryPayoutWallet :: "string option"
  entryServiceName :: "string option"

definition catalogEntry :: "MemoryStore \<Rightarrow> StoredCard \<Rightarrow> string + CatalogEntry" where
  "catalogEntry s c =
     (case sellingOf (storedCardMerchantId c) s of
        Inl thrown \<Rightarrow> Inl thrown
      | Inr word \<Rightarrow>
          Inr \<lparr>entryCard = c, entryMerchant = word,
               entryPayoutWallet =
                 Option.bind (map_of (merchantsMap s) (storedCardMerchantId c))
                   merchantPayoutWallet,
               entryServiceName =
                 Option.bind (map_of (merchantsMap s) (storedCardMerchantId c))
                   merchantServiceName\<rparr>)"

primrec firstThrown :: "(string + 'a) list \<Rightarrow> string + 'a list" where
  "firstThrown [] = Inr []"
| "firstThrown (r # rs) =
     (case r of
        Inl thrown \<Rightarrow> Inl thrown
      | Inr x \<Rightarrow> (case firstThrown rs of Inl thrown \<Rightarrow> Inl thrown | Inr xs \<Rightarrow> Inr (x # xs)))"

definition catalogEntries :: "MemoryStore \<Rightarrow> string + CatalogEntry list" where
  "catalogEntries s = firstThrown (map (catalogEntry s) (mapValues (cardsMap s)))"

definition setCardPaused ::
  "string \<Rightarrow> string \<Rightarrow> bool \<Rightarrow> MemoryStore \<Rightarrow> StoredCard option \<times> MemoryStore" where
  "setCardPaused merchantId i paused s =
     (case map_of (cardsMap s) i of
        None \<Rightarrow> (None, s)
      | Some found \<Rightarrow>
          if storedCardMerchantId found \<noteq> merchantId then (None, s)
          else
            (let stored = found\<lparr>storedCardPaused := paused\<rparr> in
             (Some stored, s\<lparr>cardsMap := AList.update i stored (cardsMap s)\<rparr>)))"

definition setSelling ::
  "string \<Rightarrow> MerchantSelling \<Rightarrow> MemoryStore \<Rightarrow> string + MemoryStore" where
  "setSelling merchantId word s =
     (case map_of (merchantsMap s) merchantId of
        None \<Rightarrow> Inl (''there is no merchant '' @ merchantId @ '' to stop or start selling'')
      | Some row \<Rightarrow>
          Inr (s\<lparr>merchantsMap :=
                   AList.update merchantId (row\<lparr>merchantSelling := word\<rparr>) (merchantsMap s)\<rparr>))"

section \<open>Orders and receipts\<close>

definition addOrder :: "StoredOrder \<Rightarrow> MemoryStore \<Rightarrow> string + MemoryStore" where
  "addOrder r s =
     (if map_of (ordersMap s) (orderId (theOrder r)) \<noteq> None then
        Inl (''the order '' @ orderId (theOrder r) @ '' is already written down'')
      else Inr (s\<lparr>ordersMap := AList.update (orderId (theOrder r)) r (ordersMap s)\<rparr>))"

definition orderById :: "string \<Rightarrow> MemoryStore \<Rightarrow> StoredOrder option" where
  "orderById i s = map_of (ordersMap s) i"

definition merchantOrder :: "string \<Rightarrow> string \<Rightarrow> MemoryStore \<Rightarrow> StoredOrder option" where
  "merchantOrder merchantId i s =
     (case map_of (ordersMap s) i of
        None \<Rightarrow> None
      | Some found \<Rightarrow> if saleMerchant found \<noteq> merchantId then None else Some found)"

definition orders :: "string \<Rightarrow> bool \<Rightarrow> MemoryStore \<Rightarrow> StoredOrder list" where
  "orders merchantId onlyOpen s =
     (let mine = filter (\<lambda>r. saleMerchant r = merchantId) (mapValues (ordersMap s)) in
      if onlyOpen then filter (\<lambda>r. isOpen (state (theOrder r))) mine else mine)"

definition openOrders :: "MemoryStore \<Rightarrow> StoredOrder list" where
  "openOrders s = filter (\<lambda>r. isOpen (state (theOrder r))) (mapValues (ordersMap s))"

text \<open>
  The write a held decision ends with: under the identifier it was read by, for the merchant
  of the order that was read.
\<close>

definition saveHeld :: "string \<Rightarrow> StoredOrder \<Rightarrow> StoredOrder \<Rightarrow> MemoryStore \<Rightarrow> MemoryStore" where
  "saveHeld i found save s =
     s\<lparr>ordersMap := AList.update i (save\<lparr>saleMerchant := saleMerchant found\<rparr>) (ordersMap s)\<rparr>"

definition deliveredWithoutReceipt :: "MemoryStore \<Rightarrow> StoredOrder list" where
  "deliveredWithoutReceipt s =
     filter (\<lambda>r. state (theOrder r) = Delivered
               \<and> map_of (receiptsMap s) (orderId (theOrder r)) = None)
       (mapValues (ordersMap s))"

definition putReceipt :: "string \<Rightarrow> Receipt \<Rightarrow> MemoryStore \<Rightarrow> MemoryStore" where
  "putReceipt merchantId receipt s =
     s\<lparr>receiptsMap :=
         AList.update (receiptOrderId receipt)
           (case map_of (receiptsMap s) (receiptOrderId receipt) of
              None \<Rightarrow> merchantId
            | Some (holder, was) \<Rightarrow> holder, receipt)
           (receiptsMap s)\<rparr>"

definition receiptForOrder :: "string \<Rightarrow> MemoryStore \<Rightarrow> Receipt option" where
  "receiptForOrder i s = map_option snd (map_of (receiptsMap s) i)"

definition receipts :: "string \<Rightarrow> MemoryStore \<Rightarrow> Receipt list" where
  "receipts merchantId s =
     map snd (filter (\<lambda>held. fst held = merchantId) (mapValues (receiptsMap s)))"

section \<open>Claims on payments\<close>

datatype PaymentClaim = Claimed | HeldBy string

definition claimPayment ::
  "string \<Rightarrow> string \<Rightarrow> int \<Rightarrow> MemoryStore \<Rightarrow> PaymentClaim \<times> MemoryStore" where
  "claimPayment fingerprint claimer t s =
     (case map_of (paymentClaims s) fingerprint of
        None \<Rightarrow>
          (Claimed,
           s\<lparr>paymentClaims := AList.update fingerprint (claimer, t) (paymentClaims s)\<rparr>)
      | Some (holder, since) \<Rightarrow> (if holder = claimer then Claimed else HeldBy holder, s))"

definition releaseClaim :: "string \<Rightarrow> string \<Rightarrow> MemoryStore \<Rightarrow> MemoryStore" where
  "releaseClaim fingerprint claimer s =
     (if map_option fst (map_of (paymentClaims s) fingerprint) = Some claimer
      then s\<lparr>paymentClaims := AList.delete fingerprint (paymentClaims s)\<rparr>
      else s)"

definition forgetClaimsBefore :: "int \<Rightarrow> MemoryStore \<Rightarrow> nat \<times> MemoryStore" where
  "forgetClaimsBefore instant s =
     (length (filter (\<lambda>(fingerprint, holder, since). since < instant) (paymentClaims s)),
      s\<lparr>paymentClaims :=
          filter (\<lambda>(fingerprint, holder, since). \<not> since < instant) (paymentClaims s)\<rparr>)"

section \<open>Work run alone\<close>

definition beginAlone :: "string \<Rightarrow> MemoryStore \<Rightarrow> bool \<times> MemoryStore" where
  "beginAlone name s =
     (if List.member (runningNames s) name then (False, s)
      else (True, s\<lparr>runningNames := runningNames s @ [name]\<rparr>))"

definition endAlone :: "string \<Rightarrow> MemoryStore \<Rightarrow> MemoryStore" where
  "endAlone name s = s\<lparr>runningNames := removeAll name (runningNames s)\<rparr>"

section \<open>Every way the store changes\<close>

datatype StoreOp =
    OpAddMerchant string string int
  | OpRegisterMerchant string string string string string int
  | OpSetServiceName string "string option"
  | OpSetPayoutWallet string string
  | OpAddKey string string string string KeyPurpose int
  | OpNoteKeyUse string int
  | OpForgetCabinetKey string
  | OpDisableKey string int
  | OpDisableKeyOf string string int
  | OpPublishCard string Card int string
  | OpSetCardPaused string string bool
  | OpSetSelling string MerchantSelling
  | OpAddOrder StoredOrder
  | OpSaveHeld string StoredOrder
  | OpPutReceipt string Receipt
  | OpClaimPayment string string int
  | OpReleaseClaim string string
  | OpForgetClaimsBefore int
  | OpBeginAlone string
  | OpEndAlone string

definition afterwards :: "MemoryStore \<Rightarrow> string + 'a \<times> MemoryStore \<Rightarrow> MemoryStore" where
  "afterwards s r = (case r of Inl thrown \<Rightarrow> s | Inr (x, s') \<Rightarrow> s')"

fun storeStep :: "StoreOp \<Rightarrow> MemoryStore \<Rightarrow> MemoryStore" where
  "storeStep (OpAddMerchant i name t) s = snd (addMerchant i name t s)"
| "storeStep (OpRegisterMerchant i name k label digest t) s =
     snd (registerMerchant i name k label digest t s)"
| "storeStep (OpSetServiceName i name) s = snd (setServiceName i name s)"
| "storeStep (OpSetPayoutWallet i wallet) s = snd (setPayoutWallet i wallet s)"
| "storeStep (OpAddKey i m label digest purpose t) s =
     afterwards s (addKey i m label digest purpose t s)"
| "storeStep (OpNoteKeyUse i t) s = noteKeyUse i t s"
| "storeStep (OpForgetCabinetKey i) s = snd (forgetCabinetKey i s)"
| "storeStep (OpDisableKey i t) s = snd (disableKey i t s)"
| "storeStep (OpDisableKeyOf m i t) s = snd (disableKeyOf m i t s)"
| "storeStep (OpPublishCard m c t fresh) s = snd (publishCard m c t fresh s)"
| "storeStep (OpSetCardPaused m i paused) s = snd (setCardPaused m i paused s)"
| "storeStep (OpSetSelling m word) s =
     (case setSelling m word s of Inl thrown \<Rightarrow> s | Inr s' \<Rightarrow> s')"
| "storeStep (OpAddOrder r) s = (case addOrder r s of Inl thrown \<Rightarrow> s | Inr s' \<Rightarrow> s')"
| "storeStep (OpSaveHeld i save) s =
     (case map_of (ordersMap s) i of None \<Rightarrow> s | Some found \<Rightarrow> saveHeld i found save s)"
| "storeStep (OpPutReceipt m receipt) s = putReceipt m receipt s"
| "storeStep (OpClaimPayment f o' t) s = snd (claimPayment f o' t s)"
| "storeStep (OpReleaseClaim f o') s = releaseClaim f o' s"
| "storeStep (OpForgetClaimsBefore t) s = snd (forgetClaimsBefore t s)"
| "storeStep (OpBeginAlone name) s = snd (beginAlone name s)"
| "storeStep (OpEndAlone name) s = endAlone name s"

text \<open>One lemma per component of the store says which operations touch it.\<close>

lemmas store_defs =
  addMerchant_def registerMerchant_def setServiceName_def setPayoutWallet_def addKey_def
  writeKey_def noteKeyUse_def forgetCabinetKey_def disableKey_def disableKeyOf_def revoke_def
  publishCard_def setCardPaused_def setSelling_def addOrder_def saveHeld_def putReceipt_def
  claimPayment_def releaseClaim_def forgetClaimsBefore_def beginAlone_def endAlone_def
  afterwards_def Let_def

end
