(* ===== verification/Gateway_Queue.thy ===== *)
theory Gateway_Queue
  imports Gateway_Wire "HOL-Library.AList" "HOL-Library.Multiset"
begin

text \<open>
  \<^verbatim>\<open>apps/gateway/src/adapters/memory/queue.ts\<close>: one stream of envelopes per merchant, the
  deliveries drawn and not yet answered, and the timers. A timer is a numbered entry with
  what it will do; the environment fires one by its number (\<open>fireTimer\<close>), which is possible
  only while it is set, as \<open>clearTimeout\<close> removes it. An envelope held back is held under
  the number of its timer, which stands for the identity of the object in the code's \<open>Set\<close>.
  A poll that waits is split where the code awaits: \<open>draw\<close> parks it, \<open>resumeDraw\<close> goes on
  after it was woken.
\<close>

section \<open>State\<close>

datatype Reminder =
    DeadlineReminder string DeadlineKind int \<comment> \<open>order, kind, \<open>at\<close>\<close>
  | DeliveryUnansweredReminder string string \<comment> \<open>order, \<open>handOver\<close>\<close>

record Stream =
  ready :: "WorkerEnvelope list"
  heldBack :: "(nat \<times> WorkerEnvelope) list"
  waiters :: "nat list"

datatype TimerAction =
    ArriveTimer string WorkerEnvelope
  | ReminderTimer Reminder nat
  | WakeTimer string

record ReminderPatience =
  patienceAttempts :: nat
  patienceRetryDelayMs :: rat

record MemoryQueue =
  streams :: "(string \<times> Stream) list"
  inFlight :: "(string \<times> (string \<times> WorkerEnvelope)) list"
  timers :: "(nat \<times> rat \<times> TimerAction) list"
  nextTimer :: nat
  handles :: nat
  fireSet :: bool
  queueRunning :: bool
  woken :: "nat list"
  firedReminders :: "(Reminder \<times> nat) list"
  patience :: ReminderPatience

definition emptyStream :: Stream where
  "emptyStream = \<lparr>ready = [], heldBack = [], waiters = []\<rparr>"

definition newQueue :: "ReminderPatience \<Rightarrow> MemoryQueue" where
  "newQueue p =
     \<lparr>streams = [], inFlight = [], timers = [], nextTimer = 0, handles = 0, fireSet = False,
      queueRunning = False, woken = [], firedReminders = [], patience = p\<rparr>"

section \<open>Operations\<close>

text \<open>\<open>#streamOf\<close> answers with the stream there is, and makes it where there is none.\<close>

definition streamAt :: "MemoryQueue \<Rightarrow> string \<Rightarrow> Stream" where
  "streamAt q m = (case map_of (streams q) m of None \<Rightarrow> emptyStream | Some s \<Rightarrow> s)"

definition setStream :: "string \<Rightarrow> Stream \<Rightarrow> MemoryQueue \<Rightarrow> MemoryQueue" where
  "setStream m s q = q\<lparr>streams := AList.update m s (streams q)\<rparr>"

definition streamOf :: "string \<Rightarrow> MemoryQueue \<Rightarrow> MemoryQueue" where
  "streamOf m q = setStream m (streamAt q m) q"

definition clearTimers :: "nat list \<Rightarrow> MemoryQueue \<Rightarrow> MemoryQueue" where
  "clearTimers ns q = q\<lparr>timers := filter (\<lambda>(n, after, action). n \<notin> set ns) (timers q)\<rparr>"

definition later :: "TimerAction \<Rightarrow> rat \<Rightarrow> MemoryQueue \<Rightarrow> MemoryQueue" where
  "later action afterMs q =
     q\<lparr>timers := timers q @ [(nextTimer q, afterMs, action)], nextTimer := nextTimer q + 1\<rparr>"

text \<open>Waking a parked poll clears its timer and takes it off its stream.\<close>

definition wakeWaiters :: "string \<Rightarrow> MemoryQueue \<Rightarrow> MemoryQueue" where
  "wakeWaiters m q =
     (let ws = waiters (streamAt q m);
          q' = setStream m ((streamAt q m)\<lparr>waiters := []\<rparr>) (clearTimers ws q)
      in q'\<lparr>woken := woken q' @ ws\<rparr>)"

definition arrive :: "string \<Rightarrow> WorkerEnvelope \<Rightarrow> MemoryQueue \<Rightarrow> MemoryQueue" where
  "arrive m envelope q =
     wakeWaiters m
       (setStream m ((streamAt q m)\<lparr>ready := ready (streamAt q m) @ [envelope]\<rparr>) q)"

text \<open>An envelope published with a delay: on the stream, out of reach until its timer fires.\<close>

definition hold :: "string \<Rightarrow> WorkerEnvelope \<Rightarrow> rat \<Rightarrow> MemoryQueue \<Rightarrow> MemoryQueue" where
  "hold m envelope afterMs q =
     later (ArriveTimer m envelope) afterMs
       (setStream m
         ((streamAt q m)\<lparr>heldBack := heldBack (streamAt q m) @ [(nextTimer q, envelope)]\<rparr>) q)"

text \<open>\<open>stage\<close> takes the envelope; \<open>putStaged\<close> is the call it hands back.\<close>

definition stage :: "string \<Rightarrow> WorkerEnvelope \<Rightarrow> rat option \<Rightarrow> MemoryQueue \<Rightarrow> MemoryQueue" where
  "stage m envelope afterMs q = streamOf m q"

definition putStaged ::
  "string \<Rightarrow> WorkerEnvelope \<Rightarrow> rat option \<Rightarrow> MemoryQueue \<Rightarrow> MemoryQueue" where
  "putStaged m envelope afterMs q =
     (case afterMs of
        None \<Rightarrow> arrive m envelope q
      | Some ms \<Rightarrow>
          if ms \<le> 0 then arrive m envelope q else hold m envelope ms q)"

definition publish :: "string \<Rightarrow> WorkerEnvelope \<Rightarrow> rat option \<Rightarrow> MemoryQueue \<Rightarrow> MemoryQueue" where
  "publish m envelope afterMs q = putStaged m envelope afterMs (stage m envelope afterMs q)"

fun isOrderEnvelope :: "string \<Rightarrow> WorkerEnvelope \<Rightarrow> bool" where
  "isOrderEnvelope i (OrderEnvelope e t payload) = (documentId payload = i)"
| "isOrderEnvelope i _ = False"

definition holdsOrder :: "string \<Rightarrow> string \<Rightarrow> MemoryQueue \<Rightarrow> bool \<times> MemoryQueue" where
  "holdsOrder m i q =
     (list_ex (isOrderEnvelope i) (ready (streamAt q m) @ map snd (heldBack (streamAt q m))),
      streamOf m q)"

definition handleName :: "nat \<Rightarrow> string" where
  "handleName n = ''h'' @ show_nat n"

primrec takeOut ::
  "string \<Rightarrow> WorkerEnvelope list \<Rightarrow> MemoryQueue
   \<Rightarrow> (WorkerEnvelope \<times> string) list \<times> MemoryQueue" where
  "takeOut m [] q = ([], q)"
| "takeOut m (envelope # rest) q =
     (let n = handles q + 1;
          q' = q\<lparr>handles := n, inFlight := AList.update (handleName n) (m, envelope) (inFlight q)\<rparr>;
          (drawn, q'') = takeOut m rest q'
      in ((envelope, handleName n) # drawn, q''))"

text \<open>\<open>#take\<close>: the first \<open>max\<close> of what is ready, a negative number counting as none.\<close>

definition takeReady ::
  "string \<Rightarrow> int \<Rightarrow> MemoryQueue \<Rightarrow> (WorkerEnvelope \<times> string) list \<times> MemoryQueue" where
  "takeReady m n q =
     (let s = streamAt q m in
      takeOut m (take (nat n) (ready s)) (setStream m (s\<lparr>ready := drop (nat n) (ready s)\<rparr>) q))"

datatype DrawResult = Drawn "(WorkerEnvelope \<times> string) list" | ParkedAs nat

definition park :: "string \<Rightarrow> rat \<Rightarrow> MemoryQueue \<Rightarrow> MemoryQueue" where
  "park m waitMs q =
     later (WakeTimer m) waitMs
       (setStream m ((streamAt q m)\<lparr>waiters := waiters (streamAt q m) @ [nextTimer q]\<rparr>) q)"

definition draw :: "string \<Rightarrow> int \<Rightarrow> rat \<Rightarrow> MemoryQueue \<Rightarrow> DrawResult \<times> MemoryQueue" where
  "draw m n waitMs q =
     (let (drawn, q') = takeReady m n q in
      if drawn \<noteq> [] \<or> waitMs \<le> 0 then (Drawn drawn, q')
      else (ParkedAs (nextTimer q'), park m waitMs q'))"

definition resumeDraw ::
  "string \<Rightarrow> int \<Rightarrow> MemoryQueue \<Rightarrow> (WorkerEnvelope \<times> string) list \<times> MemoryQueue" where
  "resumeDraw m n q = takeReady m n q"

definition finish :: "string \<Rightarrow> string \<Rightarrow> MemoryQueue \<Rightarrow> MemoryQueue" where
  "finish m handle q =
     (if map_option fst (map_of (inFlight q) handle) = Some m
      then q\<lparr>inFlight := AList.delete handle (inFlight q)\<rparr>
      else q)"

definition deliverReminder :: "Reminder \<Rightarrow> rat \<Rightarrow> nat \<Rightarrow> MemoryQueue \<Rightarrow> MemoryQueue" where
  "deliverReminder reminder afterMs attempt q = later (ReminderTimer reminder attempt) afterMs q"

definition remind :: "Reminder \<Rightarrow> rat \<Rightarrow> MemoryQueue \<Rightarrow> MemoryQueue" where
  "remind reminder afterMs q = deliverReminder reminder (max afterMs 0) 1 q"

definition onReminder :: "MemoryQueue \<Rightarrow> string + MemoryQueue" where
  "onReminder q =
     (if queueRunning q
      then Inl ''where reminders go is set before the queue is started, not after''
      else Inr (q\<lparr>fireSet := True\<rparr>))"

definition startQueue :: "MemoryQueue \<Rightarrow> string + MemoryQueue" where
  "startQueue q =
     (if \<not> fireSet q
      then Inl ''the queue has nowhere to put reminders and will not start''
      else Inr (q\<lparr>queueRunning := True\<rparr>))"

definition stopQueue :: "MemoryQueue \<Rightarrow> MemoryQueue" where
  "stopQueue q =
     (let ws = concat (map (waiters \<circ> snd) (streams q)) in
      q\<lparr>queueRunning := False, timers := [],
        streams := map (\<lambda>(m, s). (m, s\<lparr>waiters := []\<rparr>)) (streams q),
        woken := woken q @ ws\<rparr>)"

text \<open>
  A timer goes off. For a reminder, \<open>handlerThrew\<close> is what came of the handler, which is
  set once before the queue is started.
\<close>

definition fireTimer :: "nat \<Rightarrow> bool \<Rightarrow> MemoryQueue \<Rightarrow> MemoryQueue" where
  "fireTimer n handlerThrew q =
     (case map_of (timers q) n of
        None \<Rightarrow> q
      | Some (afterMs, action) \<Rightarrow>
          (let q' = clearTimers [n] q in
           case action of
             ArriveTimer m envelope \<Rightarrow>
               arrive m envelope
                 (setStream m
                   ((streamAt q' m)
                     \<lparr>heldBack := filter (\<lambda>(k, e). k \<noteq> n) (heldBack (streamAt q' m))\<rparr>) q')
           | ReminderTimer reminder attempt \<Rightarrow>
               if \<not> fireSet q' then q'
               else
                 (let q'' = q'\<lparr>firedReminders := firedReminders q' @ [(reminder, attempt)]\<rparr> in
                  if handlerThrew \<and> attempt < patienceAttempts (patience q'')
                  then deliverReminder reminder (patienceRetryDelayMs (patience q''))
                         (attempt + 1) q''
                  else q'')
           | WakeTimer m \<Rightarrow>
               (let s = streamAt q' m;
                    q'' = setStream m (s\<lparr>waiters := removeAll n (waiters s)\<rparr>) q'
                in q''\<lparr>woken := woken q'' @ [n]\<rparr>)))"

end
