(* ===== verification/Gateway_Waiting.thy ===== *)
theory Gateway_Waiting
  imports Prelude "HOL-Library.AList"
begin

text \<open>
  \<^verbatim>\<open>apps/gateway/src/app/waiting.ts\<close>: callers parked until somebody answers or a timer gives
  up. A \<open>Map\<close> is an association list in insertion order, a \<open>Set\<close> of waiters the list of
  their numbers, a promise resolved is an entry of \<open>answered\<close>, and the timer of a waiter is
  the step \<open>timeOut\<close>, which is possible only while he is parked, since every waking clears it.
\<close>

record 'a Waiting =
  parked :: "(string \<times> nat list) list"
  answered :: "(nat \<times> 'a option) list"
  nextWaiter :: nat

definition noneWaiting :: "'a Waiting" where
  "noneWaiting = \<lparr>parked = [], answered = [], nextWaiter = 0\<rparr>"

definition parkedUnder :: "'a Waiting \<Rightarrow> string \<Rightarrow> nat list" where
  "parkedUnder w key = (case map_of (parked w) key of None \<Rightarrow> [] | Some ws \<Rightarrow> ws)"

text \<open>\<open>wait\<close> answers with the number of the caller it has parked.\<close>

definition wait :: "string \<Rightarrow> 'a Waiting \<Rightarrow> nat \<times> 'a Waiting" where
  "wait key w =
     (nextWaiter w,
      w\<lparr>parked := AList.update key (parkedUnder w key @ [nextWaiter w]) (parked w),
        nextWaiter := nextWaiter w + 1\<rparr>)"

definition timeOut :: "string \<Rightarrow> nat \<Rightarrow> 'a Waiting \<Rightarrow> 'a Waiting" where
  "timeOut key waiter w =
     (if waiter \<in> set (parkedUnder w key) then
        (let ws = removeAll waiter (parkedUnder w key) in
         w\<lparr>parked := (if ws = [] then AList.delete key (parked w)
                      else AList.update key ws (parked w)),
           answered := answered w @ [(waiter, None)]\<rparr>)
      else w)"

definition wakeAll :: "string \<Rightarrow> 'a option \<Rightarrow> 'a Waiting \<Rightarrow> bool \<times> 'a Waiting" where
  "wakeAll key value w =
     (if parkedUnder w key = [] then (False, w)
      else
        (True,
         w\<lparr>parked := AList.delete key (parked w),
           answered := answered w @ map (\<lambda>waiter. (waiter, value)) (parkedUnder w key)\<rparr>))"

definition answerWaiting :: "string \<Rightarrow> 'a \<Rightarrow> 'a Waiting \<Rightarrow> bool \<times> 'a Waiting" where
  "answerWaiting key value w = wakeAll key (Some value) w"

definition giveUp :: "string \<Rightarrow> 'a Waiting \<Rightarrow> 'a Waiting" where
  "giveUp key w = snd (wakeAll key None w)"

definition giveUpAll :: "'a Waiting \<Rightarrow> 'a Waiting" where
  "giveUpAll w = fold giveUp (map fst (parked w)) w"

definition purchaseOf :: "string \<Rightarrow> string \<Rightarrow> string" where
  "purchaseOf orderId owner = orderId @ ''#'' @ owner"

section \<open>Nobody is answered twice, and nobody by somebody else's answer\<close>

definition waitingInv :: "'a Waiting \<Rightarrow> bool" where
  "waitingInv w =
     (distinct (map fst (parked w))
      \<and> (\<forall>key. distinct (parkedUnder w key))
      \<and> (\<forall>key key' n. n \<in> set (parkedUnder w key) \<and> n \<in> set (parkedUnder w key') \<longrightarrow> key = key')
      \<and> distinct (map fst (answered w))
      \<and> (\<forall>key n. n \<in> set (parkedUnder w key) \<longrightarrow> n < nextWaiter w \<and> n \<notin> fst ` set (answered w))
      \<and> (\<forall>n \<in> fst ` set (answered w). n < nextWaiter w))"

lemma parkedUnder_update:
  "parkedUnder (w\<lparr>parked := AList.update k ws (parked w)\<rparr>) key
     = (if key = k then ws else parkedUnder w key)"
  by (simp add: parkedUnder_def update_conv')

lemma parkedUnder_delete:
  "parkedUnder (w\<lparr>parked := AList.delete k (parked w)\<rparr>) key
     = (if key = k then [] else parkedUnder w key)"
  by (simp add: parkedUnder_def delete_conv')

lemma parkedUnder_frame [simp]:
  "parkedUnder (w\<lparr>answered := a\<rparr>) key = parkedUnder w key"
  "parkedUnder (w\<lparr>nextWaiter := n\<rparr>) key = parkedUnder w key"
  by (simp_all add: parkedUnder_def)

lemma noneWaiting_inv: "waitingInv noneWaiting"
  by (simp add: waitingInv_def noneWaiting_def parkedUnder_def)


lemma waitingInvD:
  assumes "waitingInv w"
  shows "distinct (map fst (parked w))" and "distinct (parkedUnder w k)"
    and "n \<in> set (parkedUnder w k) \<Longrightarrow> n \<in> set (parkedUnder w k') \<Longrightarrow> k = k'"
    and "distinct (map fst (answered w))"
    and "n \<in> set (parkedUnder w k) \<Longrightarrow> n < nextWaiter w"
    and "n \<in> set (parkedUnder w k) \<Longrightarrow> n \<notin> fst ` set (answered w)"
    and "n \<in> fst ` set (answered w) \<Longrightarrow> n < nextWaiter w"
  using assms unfolding waitingInv_def by blast+

lemma waitingInvI:
  assumes "distinct (map fst (parked w))" and "\<And>k. distinct (parkedUnder w k)"
    and "\<And>k k' n. n \<in> set (parkedUnder w k) \<Longrightarrow> n \<in> set (parkedUnder w k') \<Longrightarrow> k = k'"
    and "distinct (map fst (answered w))"
    and "\<And>k n. n \<in> set (parkedUnder w k) \<Longrightarrow> n < nextWaiter w"
    and "\<And>k n. n \<in> set (parkedUnder w k) \<Longrightarrow> n \<notin> fst ` set (answered w)"
    and "\<And>n. n \<in> fst ` set (answered w) \<Longrightarrow> n < nextWaiter w"
  shows "waitingInv w"
  using assms unfolding waitingInv_def by blast

lemma wait_keeps:
  assumes inv: "waitingInv w"
  shows "waitingInv (snd (wait key w))"
proof -
  let ?w' = "snd (wait key w)"
  have news: "parkedUnder ?w' k
      = (if k = key then parkedUnder w key @ [nextWaiter w] else parkedUnder w k)" for k
    by (simp add: wait_def parkedUnder_update)
  have rest: "answered ?w' = answered w" "nextWaiter ?w' = nextWaiter w + 1"
    "distinct (map fst (parked ?w'))"
    using waitingInvD(1) [OF inv] by (simp_all add: wait_def distinct_update)
  have fresh: "nextWaiter w \<notin> set (parkedUnder w k)" "nextWaiter w \<notin> fst ` set (answered w)" for k
    using waitingInvD(5,7) [OF inv] by blast+
  show ?thesis
  proof (rule waitingInvI)
    show "distinct (parkedUnder ?w' k)" for k
      using waitingInvD(2) [OF inv] fresh(1) by (simp add: news)
    show "k = k'" if "n \<in> set (parkedUnder ?w' k)" "n \<in> set (parkedUnder ?w' k')" for k k' n
      using that waitingInvD(3) [OF inv, of n] fresh(1) by (auto simp: news split: if_splits)
    show "n < nextWaiter ?w'" if "n \<in> set (parkedUnder ?w' k)" for k n
      using that waitingInvD(5) [OF inv, of n] by (auto simp: news rest less_Suc_eq split: if_splits)
    show "n \<notin> fst ` set (answered ?w')" if "n \<in> set (parkedUnder ?w' k)" for k n
      using that waitingInvD(6) [OF inv, of n] fresh(2)
      by (cases "n = nextWaiter w") (simp_all add: news rest split: if_splits)
    show "n < nextWaiter ?w'" if "n \<in> fst ` set (answered ?w')" for n
      using that waitingInvD(7) [OF inv, of n] by (simp add: rest)
  qed (use rest waitingInvD(4) [OF inv] in simp_all)
qed

text \<open>
  The three ways out, answered, given up on and timed out, take callers of one key out of
  the park and answer each of them.
\<close>

definition released :: "string \<Rightarrow> nat list \<Rightarrow> 'a option \<Rightarrow> 'a Waiting \<Rightarrow> 'a Waiting \<Rightarrow> bool" where
  "released key gone value w w' =
     ((\<forall>k. parkedUnder w' k
         = (if k = key then filter (\<lambda>n. n \<notin> set gone) (parkedUnder w key) else parkedUnder w k))
      \<and> answered w' = answered w @ map (\<lambda>n. (n, value)) gone
      \<and> nextWaiter w' = nextWaiter w \<and> distinct (map fst (parked w')))"

lemma released_keeps:
  assumes inv: "waitingInv w" and gone: "released key gone value w w'"
    and there: "distinct gone" "set gone \<subseteq> set (parkedUnder w key)"
  shows "waitingInv w'"
proof -
  have at: "parkedUnder w' k
      = (if k = key then filter (\<lambda>n. n \<notin> set gone) (parkedUnder w key) else parkedUnder w k)"
    and ans: "answered w' = answered w @ map (\<lambda>n. (n, value)) gone"
    and rest: "nextWaiter w' = nextWaiter w" "distinct (map fst (parked w'))" for k
    using gone by (simp_all add: released_def)
  have said: "fst ` set (answered w') = fst ` set (answered w) \<union> set gone"
    by (simp add: ans image_Un image_image)
  have left: "n \<in> set (parkedUnder w k) \<and> n \<notin> set gone" if "n \<in> set (parkedUnder w' k)" for k n
    using that there(2) waitingInvD(3) [OF inv, of n k key] by (auto simp: at split: if_splits)
  have "set gone \<inter> fst ` set (answered w) = {}"
    using waitingInvD(6) [OF inv] there(2) by blast
  then have "distinct (map fst (answered w'))"
    using waitingInvD(4) [OF inv] there(1) by (simp add: ans comp_def Int_commute)
  then show ?thesis
  proof (rule waitingInvI [OF rest(2) _ _ _, rotated 2])
    show "distinct (parkedUnder w' k)" for k
      using waitingInvD(2) [OF inv] by (simp add: at)
    show "k = k'" if "n \<in> set (parkedUnder w' k)" "n \<in> set (parkedUnder w' k')" for k k' n
      using left [OF that(1)] left [OF that(2)] waitingInvD(3) [OF inv, of n] by blast
    show "n < nextWaiter w'" if "n \<in> set (parkedUnder w' k)" for k n
      using left [OF that] waitingInvD(5) [OF inv, of n k] rest(1) by simp
    show "n \<notin> fst ` set (answered w')" if "n \<in> set (parkedUnder w' k)" for k n
      using left [OF that] waitingInvD(6) [OF inv, of n] said by blast
    show "n < nextWaiter w'" if "n \<in> fst ` set (answered w')" for n
      using that there(2) waitingInvD(5,7) [OF inv, of n] unfolding said rest(1) by blast
  qed
qed

lemma wakeAll_released:
  assumes "waitingInv w"
  shows "released key (parkedUnder w key) value w (snd (wakeAll key value w))"
  using assms
  by (auto simp: released_def wakeAll_def parkedUnder_delete waitingInv_def distinct_delete)

lemma timeOut_released:
  assumes "waitingInv w" and "n \<in> set (parkedUnder w key)"
  shows "released key [n] None w (timeOut key n w)"
proof -
  have "removeAll n ps = filter (\<lambda>m. m \<noteq> n) ps" for ps
    by (induction ps) auto
  then show ?thesis
    using assms
    by (auto simp: released_def timeOut_def parkedUnder_delete parkedUnder_update
        waitingInv_def Let_def distinct_delete distinct_update)
qed

lemma wakeAll_keeps: "waitingInv w \<Longrightarrow> waitingInv (snd (wakeAll key value w))"
  by (rule released_keeps [OF _ wakeAll_released]) (auto simp: waitingInv_def)

lemma timeOut_keeps:
  assumes "waitingInv w"
  shows "waitingInv (timeOut key n w)"
proof (cases "n \<in> set (parkedUnder w key)")
  case True
  show ?thesis
    by (rule released_keeps [OF assms timeOut_released [OF assms True]]) (simp_all add: True)
next
  case False
  with assms show ?thesis by (simp add: timeOut_def)
qed

lemma giveUpAll_keeps: "waitingInv w \<Longrightarrow> waitingInv (giveUpAll w)"
proof -
  have "waitingInv w \<Longrightarrow> waitingInv (fold giveUp ks w)" for ks
    by (induction ks arbitrary: w) (auto simp: giveUp_def wakeAll_keeps)
  then show "waitingInv w \<Longrightarrow> waitingInv (giveUpAll w)" by (simp add: giveUpAll_def)
qed

text \<open>Everything that can happen to the park, in any order.\<close>

inductive parkReachable :: "'a Waiting \<Rightarrow> bool" where
  empty: "parkReachable noneWaiting"
| waits: "parkReachable w \<Longrightarrow> parkReachable (snd (wait key w))"
| timesOut: "parkReachable w \<Longrightarrow> parkReachable (timeOut key n w)"
| answers: "parkReachable w \<Longrightarrow> parkReachable (snd (answerWaiting key value w))"
| givesUp: "parkReachable w \<Longrightarrow> parkReachable (giveUp key w)"
| givesUpAll: "parkReachable w \<Longrightarrow> parkReachable (giveUpAll w)"

lemma parkReachable_inv: "parkReachable w \<Longrightarrow> waitingInv w"
  by (induction rule: parkReachable.induct)
    (simp_all add: noneWaiting_inv wait_keeps timeOut_keeps wakeAll_keeps giveUpAll_keeps
      answerWaiting_def giveUp_def)

section \<open>The property\<close>

text \<open>An answer under one key wakes exactly the callers parked under it, each once and with
  that answer, leaves every other caller parked, and says whether anybody was there; no
  caller is ever answered twice, and none who is still parked has been answered.\<close>

theorem answer_wakes_its_own:
  assumes "parkReachable w" and "answerWaiting key value w = (woke, w')"
  shows "(woke \<longleftrightarrow> parkedUnder w key \<noteq> [])
    \<and> answered w' = answered w @ map (\<lambda>n. (n, Some value)) (parkedUnder w key)
    \<and> (\<forall>k. parkedUnder w' k = (if k = key then [] else parkedUnder w k))
    \<and> distinct (map fst (answered w'))
    \<and> (\<forall>k. set (parkedUnder w' k) \<inter> fst ` set (answered w') = {})"
proof -
  have inv: "waitingInv w" by (rule parkReachable_inv [OF assms(1)])
  have w': "w' = snd (wakeAll key (Some value) w)" and woke: "woke = fst (wakeAll key (Some value) w)"
    using assms(2) by (simp_all add: answerWaiting_def)
  have "released key (parkedUnder w key) (Some value) w w'"
    unfolding w' by (rule wakeAll_released [OF inv])
  moreover have "waitingInv w'" unfolding w' by (rule wakeAll_keeps [OF inv])
  moreover have "woke \<longleftrightarrow> parkedUnder w key \<noteq> []" by (simp add: woke wakeAll_def)
  moreover have "filter (\<lambda>n. n \<notin> set ps) ps = []" for ps :: "nat list"
    by (simp add: filter_empty_conv)
  ultimately show ?thesis
    by (simp add: released_def waitingInv_def disjoint_iff)
qed

theorem answer_wakes_its_own_witness:
  "let w = snd (wait ''a'' (snd (wait ''b'' (snd (wait ''a'' (noneWaiting :: nat Waiting)))))) in
     answered (snd (answerWaiting ''a'' 7 w)) = [(0, Some 7), (2, Some 7)]"
proof -
  let ?w = "snd (wait ''a'' (snd (wait ''b'' (snd (wait ''a'' (noneWaiting :: nat Waiting))))))"
  have "parkReachable ?w" by (intro parkReachable.intros)
  from answer_wakes_its_own [OF this prod.collapse [symmetric], of "''a''" 7]
  have "answered (snd (answerWaiting ''a'' 7 ?w))
      = answered ?w @ map (\<lambda>n. (n, Some 7)) (parkedUnder ?w ''a'')"
    by blast
  then show ?thesis by (simp add: wait_def noneWaiting_def parkedUnder_def)
qed

end
