(* ===== verification/Gateway_World.thy ===== *)
theory Gateway_World
  imports Gateway_Store Gateway_Queue Gateway_Waiting
begin

text \<open>
  Everything a flow of the gateway can touch, as one value: the store and the queue in
  memory, the purchases parked in this process, the identifiers and clock readings drawn so
  far and the charges sent to the payment layer. A flow is a function from the world to the
  world and what it returned or threw; a flow that throws leaves behind what it had done.
  The second half is the hold on one order, \<open>withOrder\<close> of
  \<^verbatim>\<open>apps/gateway/src/adapters/memory/store.ts\<close>, which one adapter cannot describe alone: it
  writes the order and puts envelopes on the queue.
\<close>

text \<open>A dash as the code's texts write one, in UTF-8.\<close>

definition emDash :: string where
  "emDash = [CHR 0xE2, CHR 0x80, CHR 0x94]"

section \<open>The payment layer\<close>

record ChargeRequest =
  chargeOrderId :: string
  chargeAmount :: string
  chargeCurrency :: string
  chargePayment :: string
  chargePayTo :: "string option"

datatype VerifyOutcome =
    VerifiedBy "string option"
  | NotVerified PaymentVerificationFailure string
  | VerifyUnknown string

datatype SettleOutcome = SettledAs string | NotSettled string | SettleUnknown string

section \<open>The world and the runtime\<close>

record World =
  worldStore :: MemoryStore
  worldQueue :: MemoryQueue
  worldPurchases :: "StoredOrder Waiting"
  worldQuotes :: "QuoteResponse Waiting"
  worldQuestions :: "(string \<times> (string \<times> string)) list" \<comment> \<open>price to order and merchant\<close>
  idsDrawn :: nat
  clockReads :: nat
  chargesSent :: "ChargeRequest list"
  chargesVerified :: "ChargeRequest list"

text \<open>
  What the process is given. The clock and the identifiers come from outside and are
  functions of how often they were asked; the payment layer answers by what it has been
  sent before and the request itself; whether parameters and goods fit a card is decided by
  the schemas of the contract, which answer with what is wrong.
\<close>

record Runtime =
  config :: GatewayConfig
  clockAt :: "nat \<Rightarrow> int"
  idAt :: "string \<Rightarrow> nat \<Rightarrow> string"
  facilitatorVerify :: "ChargeRequest list \<Rightarrow> ChargeRequest \<Rightarrow> VerifyOutcome"
  facilitatorSettle :: "ChargeRequest list \<Rightarrow> ChargeRequest \<Rightarrow> SettleOutcome"
  purchaseCheck :: "Card \<Rightarrow> Params \<Rightarrow> Problem list"
  deliveryCheck :: "Card \<Rightarrow> Delivery \<Rightarrow> Problem list"

section \<open>Flows\<close>

type_synonym 'a flow = "World \<Rightarrow> (string + 'a) \<times> World"

definition returns :: "'a \<Rightarrow> 'a flow" where
  "returns x = (\<lambda>w. (Inr x, w))"

definition throws :: "string \<Rightarrow> 'a flow" where
  "throws message = (\<lambda>w. (Inl message, w))"

definition andThen :: "'a flow \<Rightarrow> ('a \<Rightarrow> 'b flow) \<Rightarrow> 'b flow" where
  "andThen m f =
     (\<lambda>w. case m w of
            (Inl thrown, w') \<Rightarrow> (Inl thrown, w')
          | (Inr x, w') \<Rightarrow> f x w')"

text \<open>\<open>try { \<dots> } catch\<close>: what was thrown becomes a value, and what was done stays done.\<close>

definition attempt :: "'a flow \<Rightarrow> (string + 'a) flow" where
  "attempt m = (\<lambda>w. case m w of (r, w') \<Rightarrow> (Inr r, w'))"

primrec forEach :: "('x \<Rightarrow> 'a \<Rightarrow> 'a flow) \<Rightarrow> 'x list \<Rightarrow> 'a \<Rightarrow> 'a flow" where
  "forEach body [] acc = returns acc"
| "forEach body (x # xs) acc = andThen (body x acc) (\<lambda>acc'. forEach body xs acc')"

definition onStore :: "(MemoryStore \<Rightarrow> 'a \<times> MemoryStore) \<Rightarrow> 'a flow" where
  "onStore f = (\<lambda>w. case f (worldStore w) of (x, s) \<Rightarrow> (Inr x, w\<lparr>worldStore := s\<rparr>))"

definition readStore :: "(MemoryStore \<Rightarrow> 'a) \<Rightarrow> 'a flow" where
  "readStore f = (\<lambda>w. (Inr (f (worldStore w)), w))"

definition onQueue :: "(MemoryQueue \<Rightarrow> 'a \<times> MemoryQueue) \<Rightarrow> 'a flow" where
  "onQueue f = (\<lambda>w. case f (worldQueue w) of (x, q) \<Rightarrow> (Inr x, w\<lparr>worldQueue := q\<rparr>))"

definition tellQueue :: "(MemoryQueue \<Rightarrow> MemoryQueue) \<Rightarrow> unit flow" where
  "tellQueue f = onQueue (\<lambda>q. ((), f q))"

definition drawId :: "Runtime \<Rightarrow> string \<Rightarrow> string flow" where
  "drawId rt kind = (\<lambda>w. (Inr (idAt rt kind (idsDrawn w)), w\<lparr>idsDrawn := idsDrawn w + 1\<rparr>))"

definition readClock :: "Runtime \<Rightarrow> int flow" where
  "readClock rt = (\<lambda>w. (Inr (clockAt rt (clockReads w)), w\<lparr>clockReads := clockReads w + 1\<rparr>))"

lemmas flow_defs =
  returns_def throws_def andThen_def attempt_def onStore_def readStore_def onQueue_def
  tellQueue_def drawId_def readClock_def

text \<open>A flow computes once it is given the world, and not before.\<close>

lemma flow_code [code]:
  "returns x w = (Inr x, w)"
  "throws message w = (Inl message, w)"
  "andThen m f w =
     (case m w of (Inl thrown, w') \<Rightarrow> (Inl thrown, w') | (Inr x, w') \<Rightarrow> f x w')"
  "attempt m w = (case m w of (r, w') \<Rightarrow> (Inr r, w'))"
  "onStore g w = (case g (worldStore w) of (x, s) \<Rightarrow> (Inr x, w\<lparr>worldStore := s\<rparr>))"
  "readStore h w = (Inr (h (worldStore w)), w)"
  "onQueue k w = (case k (worldQueue w) of (x, q) \<Rightarrow> (Inr x, w\<lparr>worldQueue := q\<rparr>))"
  "drawId rt kind w = (Inr (idAt rt kind (idsDrawn w)), w\<lparr>idsDrawn := idsDrawn w + 1\<rparr>)"
  "readClock rt w = (Inr (clockAt rt (clockReads w)), w\<lparr>clockReads := clockReads w + 1\<rparr>)"
  "tellQueue told w = (Inr (), w\<lparr>worldQueue := told (worldQueue w)\<rparr>)"
  by (simp_all add: flow_defs)

section \<open>The hold on one order\<close>

datatype WithTheOrder =
    EnvelopeWrite string WorkerEnvelope "rat option" \<comment> \<open>merchant, envelope, \<open>afterMs\<close>\<close>
  | ReceiptWrite string Receipt

record 'a OrderChange =
  saving :: "StoredOrder option"
  alongside :: "WithTheOrder list"
  deciding :: 'a

fun rankOf :: "WithTheOrder \<Rightarrow> nat" where
  "rankOf (EnvelopeWrite m e after) = 0"
| "rankOf (ReceiptWrite m r) = 1"

text \<open>
  Taking a write hands back the arrival to make visible afterwards: nothing for a receipt,
  which is written at once, and the staged envelope for an envelope. The store is composed
  with the queue's \<open>stage\<close>, as the gateway composes them.
\<close>

fun takeWithTheOrder :: "WithTheOrder \<Rightarrow> (MemoryQueue \<Rightarrow> MemoryQueue) flow" where
  "takeWithTheOrder (ReceiptWrite m r) =
     onStore (\<lambda>s. (\<lambda>q. q, putReceipt m r s))"
| "takeWithTheOrder (EnvelopeWrite m e after) =
     onQueue (\<lambda>q. (putStaged m e after, stage m e after q))"

definition writeOrder :: "string \<Rightarrow> StoredOrder \<Rightarrow> StoredOrder option \<Rightarrow> unit flow" where
  "writeOrder i found save =
     (case save of
        None \<Rightarrow> returns ()
      | Some record \<Rightarrow> onStore (\<lambda>s. ((), saveHeld i found record s)))"

lemma hold_code [code]:
  "takeWithTheOrder (ReceiptWrite m r) w
     = (Inr (\<lambda>q. q), w\<lparr>worldStore := putReceipt m r (worldStore w)\<rparr>)"
  "takeWithTheOrder (EnvelopeWrite m e after) w
     = (Inr (putStaged m e after), w\<lparr>worldQueue := stage m e after (worldQueue w)\<rparr>)"
  "writeOrder i found save w
     = (case save of
          None \<Rightarrow> (Inr (), w)
        | Some record \<Rightarrow>
            (Inr (), w\<lparr>worldStore := saveHeld i found record (worldStore w)\<rparr>))"
  by (simp_all add: flow_defs writeOrder_def split: option.split)

definition withOrder ::
  "string \<Rightarrow> (StoredOrder \<Rightarrow> 'a OrderChange flow) \<Rightarrow> string option \<Rightarrow> 'a option flow" where
  "withOrder i change scope =
     andThen (readStore (orderById i)) (\<lambda>looked.
       case looked of
         None \<Rightarrow> returns None
       | Some found \<Rightarrow>
           if scope \<noteq> None \<and> scope \<noteq> Some (saleMerchant found) then returns None
           else
             andThen (change found) (\<lambda>decided.
             andThen
               (forEach (\<lambda>write arrivals.
                   andThen (takeWithTheOrder write) (\<lambda>arrival. returns (arrivals @ [arrival])))
                 (sort_key rankOf (alongside decided)) []) (\<lambda>arrivals.
             andThen (writeOrder i found (saving decided)) (\<lambda>_.
             andThen (forEach (\<lambda>arrival _. tellQueue arrival) arrivals ()) (\<lambda>_.
             returns (Some (deciding decided)))))))"

lemma withOrder_code [code]:
  "withOrder i change scope w =
     (case orderById i (worldStore w) of
        None \<Rightarrow> (Inr None, w)
      | Some found \<Rightarrow>
          if scope \<noteq> None \<and> scope \<noteq> Some (saleMerchant found) then (Inr None, w)
          else
            andThen (change found) (\<lambda>decided.
            andThen
              (forEach (\<lambda>write arrivals.
                  andThen (takeWithTheOrder write) (\<lambda>arrival. returns (arrivals @ [arrival])))
                (sort_key rankOf (alongside decided)) []) (\<lambda>arrivals.
            andThen (writeOrder i found (saving decided)) (\<lambda>_.
            andThen (forEach (\<lambda>arrival _. tellQueue arrival) arrivals ()) (\<lambda>_.
            returns (Some (deciding decided)))))) w)"
  by (simp add: withOrder_def flow_defs split: option.split)

text \<open>\<open>runAlone\<close>: the name is let go however the work ended.\<close>

definition runAlone :: "string \<Rightarrow> 'a flow \<Rightarrow> 'a option flow" where
  "runAlone name work =
     andThen (onStore (beginAlone name)) (\<lambda>took.
       if \<not> took then returns None
       else
         andThen (attempt work) (\<lambda>came.
         andThen (onStore (\<lambda>s. ((), endAlone name s))) (\<lambda>_.
           case came of Inl thrown \<Rightarrow> throws thrown | Inr x \<Rightarrow> returns (Some x))))"

end
