(* ===== verification/Gateway_Runner.thy ===== *)
theory Gateway_Runner
  imports Gateway_World Order_Money
begin

text \<open>
  \<^verbatim>\<open>apps/gateway/src/app/runner.ts\<close>: the interpreter between the order machine and the
  world. Every decision about an order is made inside the store's hold (\<open>applyHold\<close>,
  \<open>presentHold\<close>), which writes the order together with the envelopes and the receipt its
  effects ask for; what must not run under the hold runs afterwards (\<open>runEffects\<close>). Lines
  written to a log are left out.
\<close>

section \<open>What is told and what is answered\<close>

record OrderFacts =
  factDelivery :: "Delivery option"
  factSettlement :: "string option"
  factPaymentWord :: "PaymentWord option"
  factPriceId :: "string option"
  factOpenDeliveryId :: "string option option"

definition noFacts :: OrderFacts where
  "noFacts =
     \<lparr>factDelivery = None, factSettlement = None, factPaymentWord = None, factPriceId = None,
      factOpenDeliveryId = None\<rparr>"

datatype PresentResult =
    PresentTook StoredOrder "MerchantAnswer option"
  | PresentAlreadyYours OrderState
  | PresentNotOwner OrderState
  | PresentRefused TransitionRejection
  | PresentNoSuchOrder

datatype Decided = DecidedBy TransitionResult StoredOrder | DecidedMovedOn

datatype PresentDecided =
    TookPayment StoredOrder "Effect list"
  | AlreadyYours OrderState
  | NotOwner OrderState
  | RefusedPayment TransitionRejection

datatype Applied =
    AppliedMoved StoredOrder "Effect list" "MerchantAnswer option"
  | AppliedRefused TransitionRejection
  | AppliedMovedOn
  | AppliedNoSuchOrder

record Swept =
  sweptDispatched :: nat
  sweptReceipted :: nat
  sweptRearmed :: nat
  sweptRefused :: nat

fun carriedOutAfterwards :: "Effect \<Rightarrow> bool" where
  "carriedOutAfterwards DispatchOrder = False"
| "carriedOutAfterwards (RedeliverOrder n d) = False"
| "carriedOutAfterwards (EmitMerchantEvent e) = False"
| "carriedOutAfterwards IssueReceipt = False"
| "carriedOutAfterwards RequestQuote = True"
| "carriedOutAfterwards VerifyPayment = True"
| "carriedOutAfterwards ExecutePayment = True"
| "carriedOutAfterwards InvitePayment = True"
| "carriedOutAfterwards DispatchConfirmationRequest = True"
| "carriedOutAfterwards ReleaseGoodsToAgent = True"
| "carriedOutAfterwards HoldFulfillment = True"
| "carriedOutAfterwards (MarkRefundDue c) = True"
| "carriedOutAfterwards (AnswerMerchant a) = True"

fun effectKindName :: "Effect \<Rightarrow> string" where
  "effectKindName RequestQuote = ''request_quote''"
| "effectKindName VerifyPayment = ''verify_payment''"
| "effectKindName ExecutePayment = ''execute_payment''"
| "effectKindName InvitePayment = ''invite_payment''"
| "effectKindName DispatchConfirmationRequest = ''dispatch_confirmation_request''"
| "effectKindName DispatchOrder = ''dispatch_order''"
| "effectKindName (RedeliverOrder n d) = ''redeliver_order''"
| "effectKindName ReleaseGoodsToAgent = ''release_goods_to_agent''"
| "effectKindName IssueReceipt = ''issue_receipt''"
| "effectKindName HoldFulfillment = ''hold_fulfillment''"
| "effectKindName (MarkRefundDue c) = ''mark_refund_due''"
| "effectKindName (EmitMerchantEvent e) = ''emit_merchant_event''"
| "effectKindName (AnswerMerchant a) = ''answer_merchant''"

fun eventAt :: "OrderEvent \<Rightarrow> int" where
  "eventAt (Happened (QuoteAnswered t p)) = t"
| "eventAt (Happened (QuoteAnsweredUnavailable t)) = t"
| "eventAt (Happened (QuoteSilent t)) = t"
| "eventAt (Happened (PaymentVerified t)) = t"
| "eventAt (Happened (PaymentVerificationFailed t r)) = t"
| "eventAt (Happened (PaymentSettled t)) = t"
| "eventAt (Happened (PaymentSettleFailed t)) = t"
| "eventAt (Happened (PurchaseRepeated t)) = t"
| "eventAt (Happened (ConfirmationDispatched t)) = t"
| "eventAt (Happened (OrderDispatched t)) = t"
| "eventAt (Happened (HandlerAccepted t)) = t"
| "eventAt (Happened (HandlerDelivered t)) = t"
| "eventAt (Happened (HandlerRefused t c m)) = t"
| "eventAt (Happened (HandlerUndelivered t)) = t"
| "eventAt (Happened (DeliverCalled t)) = t"
| "eventAt (Happened (RefuseCalled t c m)) = t"
| "eventAt (Happened (RefundSettled t)) = t"
| "eventAt (Happened (MerchantDeparted t)) = t"
| "eventAt (DeadlineExpired t d) = t"

section \<open>Documents\<close>

definition salePriceOf :: "StoredOrder \<Rightarrow> SalePrice option" where
  "salePriceOf record =
     (case price (theOrder record) of
        None \<Rightarrow> None
      | Some p \<Rightarrow>
          (let ts = timestamps (theOrder record) in
           Some \<lparr>saleAmount = amount p, saleCurrency = currency p,
                 saleAt = asTimestamp (case quotedAt ts of None \<Rightarrow> createdAt ts | Some q \<Rightarrow> q),
                 saleAsOf = asTimestamp (asOf p)\<rparr>))"

record AgentOrderStatus =
  statusOrderId :: string
  statusOutcome :: OrderOutcome
  statusPrice :: "SalePrice option"
  statusDelivered :: "Delivery option"
  statusTest :: bool
  statusRefusal :: "(string \<times> string) option" \<comment> \<open>\<open>code\<close> and \<open>message\<close>\<close>

fun refusalOf :: "Closure option \<Rightarrow> (string \<times> string) option" where
  "refusalOf (Some (MerchantRefusedClosure code message)) = Some (code, message)"
| "refusalOf _ = None"

definition agentOrderStatusOf :: "StoredOrder \<Rightarrow> AgentOrderStatus" where
  "agentOrderStatusOf record =
     (let status = outcomeFor (theOrder record) in
      \<lparr>statusOrderId = orderId (theOrder record), statusOutcome = status,
       statusPrice = salePriceOf record,
       statusDelivered = (if status = OutcomeDelivered then saleDelivery record else None),
       statusTest = test (theOrder record),
       statusRefusal = refusalOf (closure (theOrder record))\<rparr>)"

definition orderDocumentOf :: "StoredOrder \<Rightarrow> OrderDocument flow" where
  "orderDocumentOf record =
     (case salePriceOf record of
        None \<Rightarrow>
          throws (''the order '' @ orderId (theOrder record)
                  @ '' was sent to a merchant with no price on it'')
      | Some p \<Rightarrow>
          returns
            \<lparr>documentId = orderId (theOrder record),
             documentMerchantItemId = saleMerchantItem record, documentParams = saleParams record,
             documentPrice = p, documentPriceId = salePriceId record,
             documentTest = test (theOrder record)\<rparr>)"

definition receiptOutcomeOf :: "Order \<Rightarrow> ReceiptOutcome flow" where
  "receiptOutcomeOf order =
     (if state order \<noteq> Delivered then
        throws (''a receipt was asked for on an order in '' @ stateName (state order)
                @ '', and this gateway has no word for that'')
      else returns ReceiptDelivered)"

fun closureCauseName :: "Closure \<Rightarrow> string" where
  "closureCauseName UnavailableClosure = ''unavailable''"
| "closureCauseName QuoteSilentClosure = ''quote_silent''"
| "closureCauseName (PaymentNotVerifiedClosure r) = ''payment_not_verified''"
| "closureCauseName PaymentNotSettledClosure = ''payment_not_settled''"
| "closureCauseName PaymentOutcomeUnknownClosure = ''payment_outcome_unknown''"
| "closureCauseName (MerchantRefusedClosure c m) = ''merchant_refused''"
| "closureCauseName (DeadlineExpiredClosure k) = ''deadline_expired''"
| "closureCauseName MerchantDepartedClosure = ''merchant_departed''"

definition refundReasonOf :: "Order \<Rightarrow> RefundDueReason flow" where
  "refundReasonOf order =
     (case closure order of
        None \<Rightarrow>
          throws (''a refund fell due on '' @ orderId order @ '' with nothing recording why'')
      | Some c \<Rightarrow>
          (case c of
             MerchantRefusedClosure code message \<Rightarrow> returns ReasonRefused
           | MerchantDepartedClosure \<Rightarrow> returns ReasonMerchantLeft
           | DeadlineExpiredClosure kind \<Rightarrow> returns ReasonDeadlinePassed
           | PaymentOutcomeUnknownClosure \<Rightarrow> returns ReasonDeadlinePassed
           | _ \<Rightarrow>
               throws (''a refund fell due on '' @ orderId order @ '' closed as ''
                       @ closureCauseName c @ '', which takes no money and so owes none'')))"

definition receiptFor :: "Runtime \<Rightarrow> StoredOrder \<Rightarrow> Order \<Rightarrow> int \<Rightarrow> Receipt flow" where
  "receiptFor rt record before t =
     (case price (theOrder record) of
        None \<Rightarrow>
          throws (''a receipt was asked for on '' @ orderId (theOrder record)
                  @ '', which has no price'')
      | Some p \<Rightarrow>
          (let moneyMovedNow =
                 payment before \<noteq> PaySettled \<and> payment (theOrder record) = PaySettled;
               ts = timestamps (theOrder record);
               paid = (if moneyMovedNow then t
                       else (case paidAt ts of None \<Rightarrow> t | Some s \<Rightarrow> s)) in
           andThen (drawId rt ''rcp'') (\<lambda>i.
           andThen (receiptOutcomeOf (theOrder record)) (\<lambda>outcome.
           returns
             \<lparr>receiptId = i, receiptOrderId = orderId (theOrder record),
              receiptItemId = saleItem record,
              receiptPrice =
                \<lparr>saleAmount = amount p, saleCurrency = currency p,
                 saleAt = asTimestamp (case quotedAt ts of None \<Rightarrow> createdAt ts | Some q \<Rightarrow> q),
                 saleAsOf = asTimestamp (asOf p)\<rparr>,
              receiptPriceId = salePriceId record, receiptPaidAt = asTimestamp paid,
              receiptOutcome = outcome, receiptTest = test (theOrder record)\<rparr>))))"

definition orderEnvelope :: "Runtime \<Rightarrow> StoredOrder \<Rightarrow> int \<Rightarrow> WorkerEnvelope flow" where
  "orderEnvelope rt record t =
     andThen (drawId rt ''env'') (\<lambda>i.
     andThen (orderDocumentOf record) (\<lambda>document.
     returns (OrderEnvelope i (asTimestamp t) document)))"

definition eventEnvelope ::
  "Runtime \<Rightarrow> StoredOrder \<Rightarrow> MerchantEvent \<Rightarrow> int \<Rightarrow> WorkerEnvelope flow" where
  "eventEnvelope rt record event t =
     (let i = orderId (theOrder record); sent = asTimestamp t in
      case event of
        RefundDueEvent \<Rightarrow>
          (case price (theOrder record) of
             None \<Rightarrow>
               throws (''a refund fell due on '' @ i
                       @ '' and the order carries no price, so there is no sum to name'')
           | Some p \<Rightarrow>
               andThen (drawId rt ''env'') (\<lambda>e.
               andThen (refundReasonOf (theOrder record)) (\<lambda>reason.
               returns (EventEnvelope e sent
                 (RefundDueDocument i sent
                   \<lparr>moneyAmount = amount p, moneyCurrency = currency p\<rparr> reason)))))
      | UnpaidAfterConfirmationEvent \<Rightarrow>
          andThen (drawId rt ''env'') (\<lambda>e.
          returns (EventEnvelope e sent (UnpaidAfterConfirmationDocument i sent)))
      | PaymentFailedAfterDeliveryEvent \<Rightarrow>
          andThen (drawId rt ''env'') (\<lambda>e.
          returns (EventEnvelope e sent (PaymentFailedAfterDeliveryDocument i sent))))"

section \<open>The writes that go with the order\<close>

definition writeFor ::
  "Runtime \<Rightarrow> StoredOrder \<Rightarrow> Order \<Rightarrow> int \<Rightarrow> Effect \<Rightarrow> WithTheOrder list
   \<Rightarrow> WithTheOrder list flow" where
  "writeFor rt record before t effect writes =
     (case effect of
        DispatchOrder \<Rightarrow>
          andThen (orderEnvelope rt record t) (\<lambda>e.
          returns (writes @ [EnvelopeWrite (saleMerchant record) e None]))
      | RedeliverOrder n delayMs \<Rightarrow>
          andThen (orderEnvelope rt record t) (\<lambda>e.
          returns (writes @ [EnvelopeWrite (saleMerchant record) e (Some delayMs)]))
      | EmitMerchantEvent event \<Rightarrow>
          andThen (eventEnvelope rt record event t) (\<lambda>e.
          returns (writes @ [EnvelopeWrite (saleMerchant record) e None]))
      | IssueReceipt \<Rightarrow>
          andThen (receiptFor rt record before t) (\<lambda>r.
          returns (writes @ [ReceiptWrite (saleMerchant record) r]))
      | _ \<Rightarrow>
          if \<not> carriedOutAfterwards effect then
            throws (effectKindName effect @ '' on '' @ orderId (theOrder record)
              @ '' is written down with the order and this does not know how to write it'')
          else returns writes)"

definition writesWithTheOrder ::
  "Runtime \<Rightarrow> StoredOrder \<Rightarrow> Order \<Rightarrow> Effect list \<Rightarrow> int \<Rightarrow> WithTheOrder list flow" where
  "writesWithTheOrder rt record before effects t =
     forEach (writeFor rt record before t) effects []"

section \<open>Clocks\<close>

definition arm :: "Runtime \<Rightarrow> Deadline list \<Rightarrow> Deadline list \<Rightarrow> string \<Rightarrow> unit flow" where
  "arm rt before after i =
     andThen (readClock rt) (\<lambda>now.
       forEach (\<lambda>deadline _.
           if deadline \<in> set before then returns ()
           else
             tellQueue (remind (DeadlineReminder i (deadlineKind deadline) (dueAt deadline))
               (of_int (max (dueAt deadline - now) 0))))
         after ())"

section \<open>What is kept of a call\<close>

definition joinWith :: "string \<Rightarrow> string list \<Rightarrow> string" where
  "joinWith sep ss =
     (case ss of [] \<Rightarrow> [] | s # rest \<Rightarrow> s @ concat (map (\<lambda>r. sep @ r) rest))"

definition refuseToWriteAnImpossibleOrder :: "Order \<Rightarrow> unit flow" where
  "refuseToWriteAnImpossibleOrder order =
     (let violations = moneyInvariantViolations order in
      if violations \<noteq> [] then
        throws (''the order '' @ orderId order
          @ '' breaks what must be true about money and will not be written down ''
          @ emDash @ '' '' @ joinWith ''; '' violations)
      else returns ())"

fun turnsAway :: "Effect \<Rightarrow> bool" where
  "turnsAway (AnswerMerchant (AnswerError e r)) = True"
| "turnsAway _ = False"

definition goodsToKeep ::
  "StoredOrder \<Rightarrow> Delivery option \<Rightarrow> Effect list \<Rightarrow> StoredOrder \<Rightarrow> StoredOrder" where
  "goodsToKeep found delivery effects known =
     (if delivery = None \<or> saleDelivery found \<noteq> None then known
      else if list_ex turnsAway effects then known
      else known\<lparr>saleDelivery := delivery\<rparr>)"

definition alsoSaid :: "Runtime \<Rightarrow> StoredOrder \<Rightarrow> PaymentWord \<Rightarrow> StoredOrder \<Rightarrow> StoredOrder" where
  "alsoSaid rt record word known =
     (let said = salePaymentWords record @ [word];
          dropped = length said - cfgPaymentWordsKept (config rt) in
      known\<lparr>salePaymentWords := (if dropped = 0 then said else drop dropped said),
            salePaymentWordsDropped := salePaymentWordsDropped record + dropped\<rparr>)"

definition knownWith :: "Runtime \<Rightarrow> StoredOrder \<Rightarrow> OrderFacts \<Rightarrow> StoredOrder" where
  "knownWith rt found facts =
     (let a = (case factSettlement facts of
                 None \<Rightarrow> found
               | Some transaction \<Rightarrow> found\<lparr>saleSettlement := Some transaction\<rparr>);
          b = (case factPaymentWord facts of
                 None \<Rightarrow> a
               | Some word \<Rightarrow> alsoSaid rt found word a);
          c = (case factPriceId facts of None \<Rightarrow> b | Some i \<Rightarrow> b\<lparr>salePriceId := Some i\<rparr>) in
      case factOpenDeliveryId facts of
        None \<Rightarrow> c
      | Some handOver \<Rightarrow> c\<lparr>saleOpenDelivery := handOver\<rparr>)"

section \<open>One decision about an order\<close>

text \<open>What the hold of \<open>apply\<close> decides, and the hold itself.\<close>

definition decideEvent ::
  "Runtime \<Rightarrow> string \<Rightarrow> OrderEvent \<Rightarrow> OrderFacts \<Rightarrow> string option \<Rightarrow> StoredOrder
   \<Rightarrow> Decided OrderChange flow" where
  "decideEvent rt i event facts whileWaitingOn found =
     (if whileWaitingOn \<noteq> None \<and> saleOpenDelivery found \<noteq> whileWaitingOn then
        returns \<lparr>saving = None, alongside = [], deciding = DecidedMovedOn\<rparr>
      else
        (let known = knownWith rt found facts in
         case transition (theOrder known) event of
           Refused rejection \<Rightarrow>
             returns \<lparr>saving = None, alongside = [],
                      deciding = DecidedBy (Refused rejection) known\<rparr>
         | Moved order effects \<Rightarrow>
             andThen (refuseToWriteAnImpossibleOrder order) (\<lambda>_.
               let next = goodsToKeep found (factDelivery facts) effects
                            (known\<lparr>theOrder := order\<rparr>) in
               andThen (arm rt (deadlines (theOrder known)) (deadlines (theOrder next)) i) (\<lambda>_.
               andThen (writesWithTheOrder rt next (theOrder known) effects (eventAt event))
                 (\<lambda>writes.
               returns \<lparr>saving = Some next, alongside = writes,
                        deciding = DecidedBy (Moved order effects) next\<rparr>)))))"

lemma decideEvent_code [code]:
  "decideEvent rt i event facts whileWaitingOn found w =
     (if whileWaitingOn \<noteq> None \<and> saleOpenDelivery found \<noteq> whileWaitingOn then
        (Inr \<lparr>saving = None, alongside = [], deciding = DecidedMovedOn\<rparr>, w)
      else
        (let known = knownWith rt found facts in
         case transition (theOrder known) event of
           Refused rejection \<Rightarrow>
             (Inr \<lparr>saving = None, alongside = [],
                deciding = DecidedBy (Refused rejection) known\<rparr>, w)
         | Moved order effects \<Rightarrow>
             andThen (refuseToWriteAnImpossibleOrder order) (\<lambda>_.
               let next = goodsToKeep found (factDelivery facts) effects
                            (known\<lparr>theOrder := order\<rparr>) in
               andThen (arm rt (deadlines (theOrder known)) (deadlines (theOrder next)) i) (\<lambda>_.
               andThen (writesWithTheOrder rt next (theOrder known) effects (eventAt event))
                 (\<lambda>writes.
               returns \<lparr>saving = Some next, alongside = writes,
                        deciding = DecidedBy (Moved order effects) next\<rparr>))) w))"
  by (simp add: decideEvent_def Let_def returns_def split: TransitionResult.split)

definition applyHold ::
  "Runtime \<Rightarrow> string \<Rightarrow> OrderEvent \<Rightarrow> OrderFacts \<Rightarrow> string option \<Rightarrow> string option
   \<Rightarrow> Decided option flow" where
  "applyHold rt i event facts scope whileWaitingOn =
     withOrder i (decideEvent rt i event facts whileWaitingOn) scope"

text \<open>What a verified payment drives an order home with, and the hold it is presented in.\<close>

definition eventsForVerifiedPayment :: "Order \<Rightarrow> int \<Rightarrow> StateEvent list" where
  "eventsForVerifiedPayment order t =
     (case state order of
        Quoted \<Rightarrow> [PaymentVerified t]
      | Confirmed \<Rightarrow> [PaymentVerified t]
      | DeliveredUnpaid \<Rightarrow> [PurchaseRepeated t, PaymentVerified t]
      | Expired \<Rightarrow>
          if heldFulfillment order then [PurchaseRepeated t, PaymentVerified t] else []
      | _ \<Rightarrow> [])"

primrec driveHome ::
  "StateEvent list \<Rightarrow> Order \<Rightarrow> Effect list
   \<Rightarrow> (TransitionRejection + Order \<times> Effect list) flow" where
  "driveHome [] order effects = returns (Inr (order, effects))"
| "driveHome (event # rest) order effects =
     (case transition order (Happened event) of
        Refused rejection \<Rightarrow> returns (Inl rejection)
      | Moved order' extra \<Rightarrow>
          andThen (refuseToWriteAnImpossibleOrder order') (\<lambda>_.
          driveHome rest order' (effects @ extra)))"

definition decidePayment ::
  "Runtime \<Rightarrow> string \<Rightarrow> string \<Rightarrow> string \<Rightarrow> string option \<Rightarrow> int \<Rightarrow> StoredOrder
   \<Rightarrow> PresentDecided OrderChange flow" where
  "decidePayment rt i owner presented payTo t found =
     (if salePaidBy found \<noteq> None \<and> salePaidBy found \<noteq> Some owner then
        returns \<lparr>saving = None, alongside = [],
                 deciding = NotOwner (state (theOrder found))\<rparr>
      else
        (let events = eventsForVerifiedPayment (theOrder found) t in
         if events = [] then
           returns \<lparr>saving = None, alongside = [],
                    deciding = AlreadyYours (state (theOrder found))\<rparr>
         else
           andThen (driveHome events (theOrder found) []) (\<lambda>driven.
             case driven of
               Inl rejection \<Rightarrow>
                 returns \<lparr>saving = None, alongside = [], deciding = RefusedPayment rejection\<rparr>
             | Inr (order, effects) \<Rightarrow>
                 (let word = \<lparr>wordAt = t, wordAbout = AboutVerify,
                              wordSaid = ''checked out, paid by '' @ owner\<rparr>;
                      next = alsoSaid rt found word
                        (found\<lparr>theOrder := order, salePayment := Some presented,
                               salePayTo := payTo, salePaidBy := Some owner\<rparr>) in
                  andThen (arm rt (deadlines (theOrder found)) (deadlines order) i) (\<lambda>_.
                  andThen (writesWithTheOrder rt next (theOrder found) effects t) (\<lambda>writes.
                  returns \<lparr>saving = Some next, alongside = writes,
                           deciding = TookPayment next effects\<rparr>))))))"

definition presentHold ::
  "Runtime \<Rightarrow> string \<Rightarrow> string \<Rightarrow> string \<Rightarrow> string option \<Rightarrow> int
   \<Rightarrow> PresentDecided option flow" where
  "presentHold rt i owner presented payTo t =
     withOrder i (decidePayment rt i owner presented payTo t) None"

definition writeDown :: "Runtime \<Rightarrow> string \<Rightarrow> PaymentWord \<Rightarrow> unit flow" where
  "writeDown rt i word =
     andThen
       (withOrder i (\<lambda>found.
          returns \<lparr>saving = Some (alsoSaid rt found word found), alongside = [],
                   deciding = ()\<rparr>) None)
       (\<lambda>_. returns ())"

section \<open>What runs after the hold\<close>

definition wakeTheAgent :: "StoredOrder \<Rightarrow> unit flow" where
  "wakeTheAgent record =
     (case salePaidBy record of
        None \<Rightarrow> returns ()
      | Some owner \<Rightarrow>
          if outcomeFor (theOrder record) = OutcomeInProgress then returns ()
          else (\<lambda>w. (Inr (),
            w\<lparr>worldPurchases := snd (answerWaiting (purchaseOf (orderId (theOrder record)) owner)
                                      record (worldPurchases w))\<rparr>)))"

definition sendCharge :: "Runtime \<Rightarrow> ChargeRequest \<Rightarrow> SettleOutcome flow" where
  "sendCharge rt request =
     (\<lambda>w. (Inr (facilitatorSettle rt (chargesSent w) request),
           w\<lparr>chargesSent := chargesSent w @ [request]\<rparr>))"

type_synonym Apply =
  "string \<Rightarrow> OrderEvent \<Rightarrow> OrderFacts \<Rightarrow> string option \<Rightarrow> string option \<Rightarrow> Applied flow"

text \<open>\<open>apply\<close>, \<open>#run\<close> and \<open>#settle\<close> call each other; the inner \<open>apply\<close> is an argument.\<close>

definition settleCharge :: "Apply \<Rightarrow> Runtime \<Rightarrow> StoredOrder \<Rightarrow> int \<Rightarrow> unit flow" where
  "settleCharge applyIn rt record t =
     (let i = orderId (theOrder record) in
      case (salePayment record, price (theOrder record)) of
        (Some presented, Some p) \<Rightarrow>
          andThen
            (sendCharge rt
              \<lparr>chargeOrderId = i, chargeAmount = amount p, chargeCurrency = currency p,
               chargePayment = presented, chargePayTo = salePayTo record\<rparr>)
            (\<lambda>outcome. case outcome of
               SettledAs transaction \<Rightarrow>
                 andThen
                   (applyIn i (Happened (PaymentSettled t))
                     (noFacts\<lparr>factSettlement := Some transaction,
                       factPaymentWord := Some \<lparr>wordAt = t, wordAbout = AboutSettle,
                         wordSaid = ''went through as '' @ transaction\<rparr>\<rparr>) None None)
                   (\<lambda>_. returns ())
             | NotSettled reason \<Rightarrow>
                 andThen
                   (applyIn i (Happened (PaymentSettleFailed t))
                     (noFacts\<lparr>factPaymentWord := Some \<lparr>wordAt = t, wordAbout = AboutSettle,
                       wordSaid = reason\<rparr>\<rparr>) None None)
                   (\<lambda>_. returns ())
             | SettleUnknown reason \<Rightarrow>
                 writeDown rt i \<lparr>wordAt = t, wordAbout = AboutSettle, wordSaid = reason\<rparr>)
      | _ \<Rightarrow>
          throws (''the machine asked for the charge on '' @ i
                  @ '' to be executed and there is nothing to execute''))"

definition runEffect ::
  "Apply \<Rightarrow> Runtime \<Rightarrow> StoredOrder \<Rightarrow> int \<Rightarrow> Effect \<Rightarrow> MerchantAnswer option
   \<Rightarrow> MerchantAnswer option flow" where
  "runEffect applyIn rt record t effect said =
     (case effect of
        RequestQuote \<Rightarrow> returns said
      | VerifyPayment \<Rightarrow> returns said
      | ExecutePayment \<Rightarrow>
          andThen (settleCharge applyIn rt record t) (\<lambda>_. returns said)
      | MarkRefundDue c \<Rightarrow> returns said
      | AnswerMerchant a \<Rightarrow> returns (Some a)
      | ReleaseGoodsToAgent \<Rightarrow> returns said
      | HoldFulfillment \<Rightarrow> returns said
      | InvitePayment \<Rightarrow>
          throws (effectKindName effect
            @ '' belongs to the confirmation mode, which has no shape on the wire yet'')
      | DispatchConfirmationRequest \<Rightarrow>
          throws (effectKindName effect
            @ '' belongs to the confirmation mode, which has no shape on the wire yet'')
      | _ \<Rightarrow>
          throws (effectKindName effect @ '' on '' @ orderId (theOrder record)
            @ '' was written down with the order and must not be carried out again''))"

definition runEffects ::
  "Apply \<Rightarrow> Runtime \<Rightarrow> StoredOrder \<Rightarrow> Effect list \<Rightarrow> int \<Rightarrow> MerchantAnswer option flow" where
  "runEffects applyIn rt record effects t =
     forEach (runEffect applyIn rt record t) effects None"

definition applyOnce :: "Runtime \<Rightarrow> Apply \<Rightarrow> Apply" where
  "applyOnce rt applyIn i event facts scope whileWaitingOn =
     andThen (applyHold rt i event facts scope whileWaitingOn) (\<lambda>decided.
       case decided of
         None \<Rightarrow> returns AppliedNoSuchOrder
       | Some DecidedMovedOn \<Rightarrow> returns AppliedMovedOn
       | Some (DecidedBy (Refused rejection) known) \<Rightarrow> returns (AppliedRefused rejection)
       | Some (DecidedBy (Moved order effects) known) \<Rightarrow>
           andThen
             (runEffects applyIn rt known (filter carriedOutAfterwards effects) (eventAt event))
             (\<lambda>said.
           andThen (wakeTheAgent known) (\<lambda>_.
           returns (AppliedMoved known effects said))))"

text \<open>
  The recursion is two calls deep and no deeper, since the outcome of a charge never asks
  for another charge; \<^verbatim>\<open>Gateway_Runner_Laws\<close> says that the fuel is enough.
\<close>

primrec applyWithin :: "nat \<Rightarrow> Runtime \<Rightarrow> Apply" where
  "applyWithin 0 rt = (\<lambda>i event facts scope whileWaitingOn. throws ''out of fuel'')"
| "applyWithin (Suc n) rt = applyOnce rt (applyWithin n rt)"

definition applyEvent :: "Runtime \<Rightarrow> Apply" where
  "applyEvent rt = applyWithin 2 rt"

definition presentVerifiedPayment ::
  "Runtime \<Rightarrow> string \<Rightarrow> string \<Rightarrow> string \<Rightarrow> string option \<Rightarrow> int \<Rightarrow> PresentResult flow" where
  "presentVerifiedPayment rt i owner presented payTo t =
     andThen (presentHold rt i owner presented payTo t) (\<lambda>decided.
       case decided of
         None \<Rightarrow> returns PresentNoSuchOrder
       | Some (AlreadyYours s) \<Rightarrow> returns (PresentAlreadyYours s)
       | Some (NotOwner s) \<Rightarrow> returns (PresentNotOwner s)
       | Some (RefusedPayment rejection) \<Rightarrow> returns (PresentRefused rejection)
       | Some (TookPayment known effects) \<Rightarrow>
           andThen
             (runEffects (applyEvent rt) rt known
               (filter (\<lambda>effect. effect \<noteq> VerifyPayment \<and> carriedOutAfterwards effect) effects) t)
             (\<lambda>said.
           andThen (wakeTheAgent known) (\<lambda>_.
           returns (PresentTook known said))))"

section \<open>The birth of an order\<close>

definition createRecord ::
  "Runtime \<Rightarrow> StoredOrder \<Rightarrow> Effect list \<Rightarrow> int \<Rightarrow> StoredOrder flow" where
  "createRecord rt record effects t =
     andThen (refuseToWriteAnImpossibleOrder (theOrder record)) (\<lambda>_.
     andThen (arm rt [] (deadlines (theOrder record)) (orderId (theOrder record))) (\<lambda>_.
     andThen (writesWithTheOrder rt record (theOrder record) effects t) (\<lambda>written.
       if written \<noteq> [] then
         throws (''creating '' @ orderId (theOrder record) @ '' asked for ''
           @ show_nat (length written)
           @ '' thing(s) to be written down with it, and the birth of an order has nowhere to write them'')
       else
         andThen
           (\<lambda>w. case addOrder record (worldStore w) of
                 Inl thrown \<Rightarrow> (Inl thrown, w)
               | Inr s \<Rightarrow> (Inr (), w\<lparr>worldStore := s\<rparr>)) (\<lambda>_.
         andThen (runEffects (applyEvent rt) rt record effects t) (\<lambda>_.
         returns record)))))"

section \<open>The daily sweep\<close>

definition SWEEP_EFFECTS :: string where
  "SWEEP_EFFECTS = ''coinslot_sweep_effects''"

definition sweepTheDispatch :: "Runtime \<Rightarrow> StoredOrder \<Rightarrow> int \<Rightarrow> nat flow" where
  "sweepTheDispatch rt record now =
     (case paidAt (timestamps (theOrder record)) of
        None \<Rightarrow> returns 0
      | Some paid \<Rightarrow>
          if state (theOrder record) \<noteq> Paid then returns 0
          else if paid + cfgSweepDispatchGraceMs (config rt) > now then returns 0
          else
            andThen (onQueue (holdsOrder (saleMerchant record) (orderId (theOrder record)))) (\<lambda>holds.
              if holds then returns 0
              else
                andThen (orderEnvelope rt record now) (\<lambda>e.
                andThen (tellQueue (publish (saleMerchant record) e None)) (\<lambda>_.
                returns 1))))"

definition sweepTheClocks :: "StoredOrder \<Rightarrow> int \<Rightarrow> nat flow" where
  "sweepTheClocks record now =
     forEach (\<lambda>deadline rearmed.
         if dueAt deadline > now then returns rearmed
         else
           andThen
             (tellQueue (remind (DeadlineReminder (orderId (theOrder record))
               (deadlineKind deadline) (dueAt deadline)) 0))
             (\<lambda>_. returns (rearmed + 1)))
       (deadlines (theOrder record)) 0"

definition sweepOne :: "Runtime \<Rightarrow> int \<Rightarrow> StoredOrder \<Rightarrow> Swept \<Rightarrow> Swept flow" where
  "sweepOne rt now record swept =
     andThen (attempt (sweepTheDispatch rt record now)) (\<lambda>sent.
       case sent of
         Inl thrown \<Rightarrow> returns (swept\<lparr>sweptRefused := sweptRefused swept + 1\<rparr>)
       | Inr n \<Rightarrow>
           (let swept' = swept\<lparr>sweptDispatched := sweptDispatched swept + n\<rparr> in
            andThen (attempt (sweepTheClocks record now)) (\<lambda>started.
              case started of
                Inl thrown \<Rightarrow> returns (swept'\<lparr>sweptRefused := sweptRefused swept' + 1\<rparr>)
              | Inr k \<Rightarrow> returns (swept'\<lparr>sweptRearmed := sweptRearmed swept' + k\<rparr>))))"

definition sweepReceipt :: "Runtime \<Rightarrow> int \<Rightarrow> StoredOrder \<Rightarrow> Swept \<Rightarrow> Swept flow" where
  "sweepReceipt rt now record swept =
     andThen
       (attempt
         (andThen (receiptFor rt record (theOrder record) now) (\<lambda>r.
          onStore (\<lambda>s. ((), putReceipt (saleMerchant record) r s)))))
       (\<lambda>came. case came of
          Inl thrown \<Rightarrow> returns (swept\<lparr>sweptRefused := sweptRefused swept + 1\<rparr>)
        | Inr _ \<Rightarrow> returns (swept\<lparr>sweptReceipted := sweptReceipted swept + 1\<rparr>))"

definition sweepAlone :: "Runtime \<Rightarrow> Swept flow" where
  "sweepAlone rt =
     andThen (readClock rt) (\<lambda>now.
     andThen (readStore openOrders) (\<lambda>records.
     andThen
       (forEach (sweepOne rt now) records
         \<lparr>sweptDispatched = 0, sweptReceipted = 0, sweptRearmed = 0, sweptRefused = 0\<rparr>)
       (\<lambda>swept.
     andThen (readStore deliveredWithoutReceipt) (\<lambda>unreceipted.
     forEach (sweepReceipt rt now) unreceipted swept))))"

definition sweep :: "Runtime \<Rightarrow> Swept option flow" where
  "sweep rt = runAlone SWEEP_EFFECTS (sweepAlone rt)"

end
