(* ===== verification/Gateway_Purchase.thy ===== *)
theory Gateway_Purchase
  imports Gateway_Runner
begin

text \<open>
  The flows of \<^verbatim>\<open>apps/gateway/src/app/gateway.ts\<close> that move orders: a purchase opened and
  paid for, the merchant's stream polled, his answers, and the reminders. Where the code
  waits on a parked promise a flow ends and another takes up what follows:
  \<open>beginPurchase\<close> and \<open>purchaseAnswered\<close>, \<open>payPurchase\<close> and \<open>wherePurchaseStands\<close>, \<open>poll\<close>
  and \<open>handOut\<close>.
\<close>

section \<open>What a purchase attempt comes to\<close>

datatype PurchaseAttempt =
    StepPay StoredOrder
  | StepSettled StoredOrder "Delivery option"
  | StepUnderWay StoredOrder
  | StepNoSuchItem
  | StepParamsRejected "Problem list"
  | StepNotSelling string
  | StepPaymentAlreadySpent string bool
  | StepPaymentNotTaken string bool
  | StepPaymentNotVerified string bool
  | StepNotThisPurchase

definition wherePurchaseStands :: "string \<Rightarrow> PurchaseAttempt flow" where
  "wherePurchaseStands i =
     readStore (\<lambda>s. case orderById i s of
       None \<Rightarrow> StepNoSuchItem
     | Some record \<Rightarrow>
         if outcomeFor (theOrder record) \<noteq> OutcomeInProgress
         then StepSettled record (saleDelivery record)
         else if price (theOrder record) \<noteq> None \<and> payment (theOrder record) = PayNone
         then StepPay record
         else StepUnderWay record)"

section \<open>Opening an order\<close>

definition howTheySell :: "Runtime \<Rightarrow> string \<Rightarrow> (MerchantSelling \<times> bool) flow" where
  "howTheySell rt merchantId =
     andThen (readStore (merchantById merchantId)) (\<lambda>row.
       case row of
         None \<Rightarrow>
           throws (''there is no merchant '' @ merchantId
                   @ '', so there is no word for their selling'')
       | Some m \<Rightarrow>
           returns (merchantSelling m,
             sellableBy (merchantPayoutWallet m) (merchantServiceName m) (config rt)))"

text \<open>The order's own record as a purchase opens it.\<close>

definition openedRecord :: "Order \<Rightarrow> StoredCard \<Rightarrow> Params \<Rightarrow> StoredOrder" where
  "openedRecord order stored params =
     \<lparr>theOrder = order, saleMerchant = storedCardMerchantId stored,
      saleItem = storedCardId stored,
      saleMerchantItem = cardMerchantItemId (storedCard stored), saleParams = params,
      salePriceId = None, saleDelivery = None, salePayment = None, salePayTo = None,
      salePaidBy = None, saleSettlement = None, salePaymentWords = [],
      salePaymentWordsDropped = 0, saleOpenDelivery = None\<rparr>"

definition creationInput ::
  "Runtime \<Rightarrow> StoredCard \<Rightarrow> string \<Rightarrow> int \<Rightarrow> MerchantSelling \<times> bool \<Rightarrow> CreateOrderInput" where
  "creationInput rt stored i t theirs =
     \<lparr>inputId = i, inputAt = t, inputMode = modeForCard (storedCard stored),
      inputPolicy = policyFor (storedCard stored) (config rt),
      inputPriceCheck = priceCheckOf (storedCard stored),
      inputCardPrice =
        \<lparr>amount = moneyAmount (cardMoney (storedCard stored)),
         currency = moneyCurrency (cardMoney (storedCard stored)), asOf = storedCardAsOf stored\<rparr>,
      inputTest = (cfgEnvironment (config rt) = EnvTest),
      inputSelling = sellingFor (fst theirs) stored (snd theirs)\<rparr>"

datatype Opened =
    NotOpened PurchaseAttempt
  | OpenedAs StoredOrder StoredCard "Effect list" int

definition openOrder :: "Runtime \<Rightarrow> string \<Rightarrow> Params \<Rightarrow> Opened flow" where
  "openOrder rt itemId params =
     andThen (readStore (cardById itemId)) (\<lambda>looked.
       case looked of
         None \<Rightarrow> returns (NotOpened StepNoSuchItem)
       | Some stored \<Rightarrow>
           (let problems = purchaseCheck rt (storedCard stored) params in
            if problems \<noteq> [] then returns (NotOpened (StepParamsRejected problems))
            else
              andThen (readClock rt) (\<lambda>t.
              andThen (howTheySell rt (storedCardMerchantId stored)) (\<lambda>theirs.
              andThen (drawId rt ''ord'') (\<lambda>i.
                case createOrder (creationInput rt stored i t theirs) of
                  NotBorn reason message \<Rightarrow> returns (NotOpened (StepNotSelling message))
                | Born order effects \<Rightarrow>
                    (let record = openedRecord order stored params in
                     andThen (createRecord rt record effects t) (\<lambda>_.
                     returns (OpenedAs record stored effects t))))))))"

section \<open>Asking the price\<close>

datatype Asked = AskedNobody | AskedUnder string nat \<comment> \<open>the question and the parked caller\<close>

definition parkOnQuote :: "string \<Rightarrow> nat flow" where
  "parkOnQuote priceId =
     (\<lambda>w. case wait priceId (worldQuotes w) of (n, qs) \<Rightarrow> (Inr n, w\<lparr>worldQuotes := qs\<rparr>))"

definition rememberQuestion :: "string \<Rightarrow> string \<Rightarrow> string \<Rightarrow> unit flow" where
  "rememberQuestion priceId i merchantId =
     (\<lambda>w. (Inr (), w\<lparr>worldQuestions := AList.update priceId (i, merchantId) (worldQuestions w)\<rparr>))"

definition forgetQuestion :: "string \<Rightarrow> unit flow" where
  "forgetQuestion priceId =
     (\<lambda>w. (Inr (), w\<lparr>worldQuestions := AList.delete priceId (worldQuestions w)\<rparr>))"

definition quoteSilence :: "Runtime \<Rightarrow> string \<Rightarrow> unit flow" where
  "quoteSilence rt i =
     andThen (readClock rt) (\<lambda>t.
     andThen (applyEvent rt i (Happened (QuoteSilent t)) noFacts None None) (\<lambda>_. returns ()))"

definition askThePrice :: "Runtime \<Rightarrow> StoredOrder \<Rightarrow> StoredCard \<Rightarrow> Asked flow" where
  "askThePrice rt record stored =
     (let i = orderId (theOrder record); d = cfgDeadlines (config rt) in
      if \<not> quoteReachesTheMerchant (storedCard stored) then
        andThen (quoteSilence rt i) (\<lambda>_. returns AskedNobody)
      else
        andThen (drawId rt ''prc'') (\<lambda>priceId.
        andThen (readClock rt) (\<lambda>askedAt.
        andThen (rememberQuestion priceId i (saleMerchant record)) (\<lambda>_.
        andThen (parkOnQuote priceId) (\<lambda>n.
        andThen (drawId rt ''env'') (\<lambda>e.
        andThen
          (tellQueue (publish (saleMerchant record)
            (QuoteEnvelope e (asTimestamp askedAt)
              \<lparr>quoteMerchantItemId = cardMerchantItemId (storedCard stored),
               quoteParams = Some (saleParams record), quotePriceId = priceId,
               quotePurpose = QuoteForPurchase,
               quoteExpiresAt =
                 asTimestamp (askedAt + cfgQuoteResponseMs d + cfgQuoteTtlMs d)\<rparr>) None))
          (\<lambda>_.
        returns (AskedUnder priceId n))))))))"

datatype Begun = BegunDone PurchaseAttempt | BegunAsking string string nat

definition beginPurchase :: "Runtime \<Rightarrow> string \<Rightarrow> Params \<Rightarrow> Begun flow" where
  "beginPurchase rt itemId params =
     andThen (openOrder rt itemId params) (\<lambda>opened.
       case opened of
         NotOpened came \<Rightarrow> returns (BegunDone came)
       | OpenedAs record stored effects t \<Rightarrow>
           (let i = orderId (theOrder record) in
            if RequestQuote \<in> set effects then
              andThen (askThePrice rt record stored) (\<lambda>asked.
                case asked of
                  AskedNobody \<Rightarrow>
                    andThen (wherePurchaseStands i) (\<lambda>came. returns (BegunDone came))
                | AskedUnder priceId n \<Rightarrow> returns (BegunAsking i priceId n))
            else andThen (wherePurchaseStands i) (\<lambda>came. returns (BegunDone came))))"

text \<open>The rest of \<open>beginPurchase\<close>, once the question was answered or the wait ran out.\<close>

definition purchaseAnswered ::
  "Runtime \<Rightarrow> string \<Rightarrow> string \<Rightarrow> QuoteResponse option \<Rightarrow> PurchaseAttempt flow" where
  "purchaseAnswered rt i priceId response =
     andThen (forgetQuestion priceId) (\<lambda>_.
     andThen (if response = None then quoteSilence rt i else returns ()) (\<lambda>_.
     wherePurchaseStands i))"

definition answerQuote ::
  "Runtime \<Rightarrow> string \<Rightarrow> string \<Rightarrow> QuoteResponse \<Rightarrow> bool flow" where
  "answerQuote rt merchantId priceId response =
     andThen (\<lambda>w. (Inr (map_of (worldQuestions w) priceId), w)) (\<lambda>asked.
       case asked of
         None \<Rightarrow> returns False
       | Some (i, holder) \<Rightarrow>
           if holder \<noteq> merchantId then returns False
           else
             andThen (readClock rt) (\<lambda>t.
             andThen
               (applyEvent rt i
                 (Happened
                   (case response of
                      QuoteAvailable m asof \<Rightarrow>
                        QuoteAnswered t
                          \<lparr>amount = moneyAmount m, currency = moneyCurrency m, asOf = asof\<rparr>
                    | QuoteUnavailable \<Rightarrow> QuoteAnsweredUnavailable t))
                 (noFacts\<lparr>factPriceId := Some priceId\<rparr>) (Some merchantId) None) (\<lambda>applied.
             andThen (forgetQuestion priceId) (\<lambda>_.
             andThen
               (\<lambda>w. (Inr (), w\<lparr>worldQuotes := snd (answerWaiting priceId response (worldQuotes w))\<rparr>))
               (\<lambda>_.
             returns (case applied of AppliedMoved r fx a \<Rightarrow> True | _ \<Rightarrow> False))))))"

section \<open>Paying\<close>

definition sendVerify :: "Runtime \<Rightarrow> ChargeRequest \<Rightarrow> VerifyOutcome flow" where
  "sendVerify rt request =
     (\<lambda>w. (Inr (facilitatorVerify rt (chargesVerified w) request),
           w\<lparr>chargesVerified := chargesVerified w @ [request]\<rparr>))"

text \<open>Wallet addresses are ASCII; a blank one names nobody.\<close>

definition toLowerCase :: "string \<Rightarrow> string" where
  "toLowerCase s =
     map (\<lambda>c. if CHR ''A'' \<le> c \<and> c \<le> CHR ''Z'' then char_of (of_char c + 32 :: nat) else c) s"

definition walletThatPaid :: "string option \<Rightarrow> string option" where
  "walletThatPaid payer =
     (let wallet = toLowerCase (case payer of None \<Rightarrow> '''' | Some p \<Rightarrow> p) in
      if wallet = '''' then None else Some wallet)"

text \<open>A claim is stamped by the store's clock, which is read only where one is made.\<close>

definition claimFor :: "Runtime \<Rightarrow> string \<Rightarrow> string \<Rightarrow> PaymentClaim flow" where
  "claimFor rt fingerprint i =
     andThen (readStore (\<lambda>s. map_of (paymentClaims s) fingerprint)) (\<lambda>held.
     andThen (if held = None then readClock rt else returns 0) (\<lambda>t.
     onStore (claimPayment fingerprint i t)))"

definition parkOnPurchase :: "string \<Rightarrow> nat flow" where
  "parkOnPurchase key =
     (\<lambda>w. case wait key (worldPurchases w) of (n, ps) \<Rightarrow> (Inr n, w\<lparr>worldPurchases := ps\<rparr>))"

definition giveUpPurchase :: "string \<Rightarrow> unit flow" where
  "giveUpPurchase key =
     (\<lambda>w. (Inr (), w\<lparr>worldPurchases := giveUp key (worldPurchases w)\<rparr>))"

datatype Paying = PayingDone PurchaseAttempt | PayingParked string nat

text \<open>
  What follows once the payment is the caller's to present: the park where the mode hands
  goods over at once, the presentation, and what each of its answers undoes.
\<close>

definition presentClaimed ::
  "Runtime \<Rightarrow> StoredOrder \<Rightarrow> string \<Rightarrow> string \<Rightarrow> string \<Rightarrow> string \<Rightarrow> string option \<Rightarrow> Paying flow" where
  "presentClaimed rt before i owner presented fingerprint payTo =
     (let key = purchaseOf i owner;
          waits = (settle (mode (theOrder before)) = AfterFulfillment) in
      andThen (readClock rt) (\<lambda>spentAt.
      andThen
        (if waits then andThen (parkOnPurchase key) (\<lambda>n. returns (Some n)) else returns None)
        (\<lambda>park.
      andThen (readClock rt) (\<lambda>t.
      andThen (presentVerifiedPayment rt i owner presented payTo t) (\<lambda>taken.
        case taken of
          PresentNoSuchOrder \<Rightarrow>
            andThen (giveUpPurchase key) (\<lambda>_.
            andThen (onStore (\<lambda>s. ((), releaseClaim fingerprint i s))) (\<lambda>_.
            returns (PayingDone StepNoSuchItem)))
        | PresentNotOwner s \<Rightarrow>
            andThen (giveUpPurchase key) (\<lambda>_.
            andThen (onStore (\<lambda>s. ((), releaseClaim fingerprint i s))) (\<lambda>_.
            returns (PayingDone StepNotThisPurchase)))
        | PresentRefused rejection \<Rightarrow>
            andThen (giveUpPurchase key) (\<lambda>_.
            returns (PayingDone
              (StepPaymentNotTaken (rejectionMessage rejection) (retryable rejection))))
        | _ \<Rightarrow>
            (case park of
               None \<Rightarrow>
                 andThen (wherePurchaseStands i) (\<lambda>came. returns (PayingDone came))
             | Some n \<Rightarrow>
                 andThen (readStore (orderById i)) (\<lambda>settled.
                 andThen
                   (case settled of
                      None \<Rightarrow> returns ()
                    | Some r \<Rightarrow>
                        if outcomeFor (theOrder r) \<noteq> OutcomeInProgress then giveUpPurchase key
                        else returns ())
                   (\<lambda>_. returns (PayingParked i n)))))))))"

definition payPurchase :: "Runtime \<Rightarrow> string \<Rightarrow> string \<Rightarrow> string \<Rightarrow> Paying flow" where
  "payPurchase rt i presented fingerprint =
     andThen (readStore (orderById i)) (\<lambda>looked.
       case looked of
         None \<Rightarrow> returns (PayingDone StepNoSuchItem)
       | Some before \<Rightarrow>
           (case price (theOrder before) of
              None \<Rightarrow>
                returns (PayingDone (StepPaymentNotVerified
                  ''this order has no price for a payment to be checked against'' False))
            | Some p \<Rightarrow>
                andThen (readStore (merchantById (saleMerchant before))) (\<lambda>row.
                let payTo = (case row of None \<Rightarrow> None | Some m \<Rightarrow> merchantPayoutWallet m) in
                andThen
                  (sendVerify rt
                    \<lparr>chargeOrderId = i, chargeAmount = amount p, chargeCurrency = currency p,
                     chargePayment = presented, chargePayTo = payTo\<rparr>) (\<lambda>verified.
                  case verified of
                    NotVerified reason message \<Rightarrow>
                      returns (PayingDone (StepPaymentNotVerified message False))
                  | VerifyUnknown message \<Rightarrow>
                      returns (PayingDone (StepPaymentNotVerified message True))
                  | VerifiedBy payer \<Rightarrow>
                      andThen (readClock rt) (\<lambda>checkedOutAt.
                      let owner = (case walletThatPaid payer of
                                     None \<Rightarrow> fingerprint
                                   | Some wallet \<Rightarrow> wallet) in
                      andThen (claimFor rt fingerprint i) (\<lambda>claim.
                        case claim of
                          HeldBy holder \<Rightarrow>
                            readStore (\<lambda>s. PayingDone (StepPaymentAlreadySpent holder
                              (case orderById holder s of
                                 None \<Rightarrow> False
                               | Some r \<Rightarrow> outcomeFor (theOrder r) = OutcomeInProgress)))
                        | Claimed \<Rightarrow>
                            presentClaimed rt before i owner presented fingerprint payTo))))))"

end
