(* ===== verification/Gateway_Stream.thy ===== *)
theory Gateway_Stream
  imports Gateway_Purchase
begin

text \<open>
  The merchant's side of \<^verbatim>\<open>apps/gateway/src/app/gateway.ts\<close>: his stream polled and every
  hand-over recorded, his answers to an order, the reminders that fire, and the claims on
  payments forgotten. A poll is drawing (\<open>pollDraw\<close>), which may park, and handing out what
  was drawn (\<open>handOut\<close>).
\<close>

section \<open>Handing out\<close>

fun sentNow :: "WorkerEnvelope \<Rightarrow> int \<Rightarrow> WorkerEnvelope" where
  "sentNow (OrderEnvelope i sent document) t = OrderEnvelope i (asTimestamp t) document"
| "sentNow (QuoteEnvelope i sent request) t = QuoteEnvelope i (asTimestamp t) request"
| "sentNow (EventEnvelope i sent event) t = EventEnvelope i (asTimestamp t) event"

definition remindMeIfNobodyAnswers ::
  "Runtime \<Rightarrow> StoredOrder \<Rightarrow> string \<Rightarrow> int \<Rightarrow> unit flow" where
  "remindMeIfNobodyAnswers rt record handOver t =
     (let patient = cfgHandlerAnswerMs (cfgDeadlines (config rt));
          waiting = (case fulfillmentDeadline (theOrder record) of
                       [] \<Rightarrow> patient
                     | deadline # _ \<Rightarrow> min patient (dueAt deadline - t)) in
      if waiting \<le> 0 then returns ()
      else
        tellQueue (remind (DeliveryUnansweredReminder (orderId (theOrder record)) handOver)
          (of_int waiting)))"

record Batch =
  handing :: "WorkerEnvelope list"
  finished :: "string list"

definition putBack ::
  "Runtime \<Rightarrow> string \<Rightarrow> WorkerEnvelope \<Rightarrow> string \<Rightarrow> int \<Rightarrow> Batch \<Rightarrow> Batch flow" where
  "putBack rt merchantId envelope handle t batch =
     andThen
       (tellQueue (publish merchantId (sentNow envelope t)
         (Some (of_int (cfgSettleInFlightRetryMs (config rt)))))) (\<lambda>_.
     returns (batch\<lparr>finished := finished batch @ [handle]\<rparr>))"

definition handOverOne ::
  "Runtime \<Rightarrow> string \<Rightarrow> WorkerEnvelope \<times> string \<Rightarrow> Batch \<Rightarrow> Batch flow" where
  "handOverOne rt merchantId delivery batch =
     (let envelope = fst delivery; handle = snd delivery;
          handed = batch\<lparr>handing := handing batch @ [envelope],
                         finished := finished batch @ [handle]\<rparr> in
      case envelope of
        OrderEnvelope e sent document \<Rightarrow>
          andThen (readClock rt) (\<lambda>t.
          andThen (drawId rt ''dlv'') (\<lambda>handOver.
          andThen
            (attempt
              (applyEvent rt (documentId document) (Happened (OrderDispatched t))
                (noFacts\<lparr>factOpenDeliveryId := Some (Some handOver)\<rparr>) (Some merchantId) None))
            (\<lambda>applied.
              case applied of
                Inl thrown \<Rightarrow> putBack rt merchantId envelope handle t batch
              | Inr (AppliedMoved record effects said) \<Rightarrow>
                  andThen (remindMeIfNobodyAnswers rt record handOver t) (\<lambda>_. returns handed)
              | Inr (AppliedRefused rejection) \<Rightarrow>
                  if retryable rejection then putBack rt merchantId envelope handle t batch
                  else returns (batch\<lparr>finished := finished batch @ [handle]\<rparr>)
              | Inr _ \<Rightarrow> returns (batch\<lparr>finished := finished batch @ [handle]\<rparr>))))
      | _ \<Rightarrow> returns handed)"

definition handOut ::
  "Runtime \<Rightarrow> string \<Rightarrow> (WorkerEnvelope \<times> string) list \<Rightarrow> WorkerEnvelope list flow" where
  "handOut rt merchantId drawn =
     andThen (forEach (handOverOne rt merchantId) drawn \<lparr>handing = [], finished = []\<rparr>) (\<lambda>batch.
     andThen (forEach (\<lambda>handle _. tellQueue (finish merchantId handle)) (finished batch) ()) (\<lambda>_.
     returns (handing batch)))"

definition pollDraw :: "Runtime \<Rightarrow> string \<Rightarrow> int \<Rightarrow> int \<Rightarrow> DrawResult flow" where
  "pollDraw rt merchantId wanted waitMs =
     onQueue (draw merchantId (min wanted (cfgPollMaxEnvelopes (cfgWorker (config rt))))
       (of_int (min waitMs (cfgPollWaitMs (cfgWorker (config rt))))))"

datatype Polled = PolledNow "WorkerEnvelope list" | PolledParked nat

definition poll :: "Runtime \<Rightarrow> string \<Rightarrow> int \<Rightarrow> int \<Rightarrow> Polled flow" where
  "poll rt merchantId wanted waitMs =
     andThen (pollDraw rt merchantId wanted waitMs) (\<lambda>came.
       case came of
         ParkedAs n \<Rightarrow> returns (PolledParked n)
       | Drawn drawn \<Rightarrow>
           andThen (handOut rt merchantId drawn) (\<lambda>envelopes. returns (PolledNow envelopes)))"

text \<open>The poll that was parked, woken.\<close>

definition pollWoken :: "Runtime \<Rightarrow> string \<Rightarrow> int \<Rightarrow> WorkerEnvelope list flow" where
  "pollWoken rt merchantId wanted =
     andThen
       (onQueue (resumeDraw merchantId (min wanted (cfgPollMaxEnvelopes (cfgWorker (config rt))))))
       (handOut rt merchantId)"

section \<open>The merchant's answers\<close>

fun rejectionCodeName :: "TransitionRejectionCode \<Rightarrow> string" where
  "rejectionCodeName EventNotApplicable = ''event_not_applicable''"
| "rejectionCodeName DeadlineNotArmed = ''deadline_not_armed''"
| "rejectionCodeName DeadlineNotYetDue = ''deadline_not_yet_due''"
| "rejectionCodeName DeliveryBeforePayment = ''delivery_before_payment''"
| "rejectionCodeName SettleInFlight = ''settle_in_flight''"
| "rejectionCodeName CurrencyChanged = ''currency_changed''"

definition refusedCall :: "TransitionRejection \<Rightarrow> CallError" where
  "refusedCall rejection =
     (let closed = \<not> isOpen (rejectedState rejection);
          where_it_was = stateName (rejectedState rejection) in
      \<lparr>callErrorCode =
         (if closed then ''order_already_closed''
          else rejectionCodeName (rejectionCode rejection)),
       callErrorMessage =
         (if closed then
            ''this order ended as '' @ where_it_was @ '', and ''
            @ eventKindName (rejectedEvent rejection) @ '' does not reopen it''
          else ''this order is in '' @ where_it_was @ '': '' @ rejectionMessage rejection),
       callErrorRetryable = retryable rejection, callErrorProblems = None\<rparr>)"

datatype Landed = LandedDelivered | LandedRefused | LandedAccepted

fun landedName :: "Landed \<Rightarrow> string" where
  "landedName LandedDelivered = ''delivered''"
| "landedName LandedRefused = ''refused''"
| "landedName LandedAccepted = ''accepted''"

definition answerFor :: "Applied \<Rightarrow> Landed \<Rightarrow> OrderCallResponse option flow" where
  "answerFor applied landed =
     (case applied of
        AppliedNoSuchOrder \<Rightarrow> returns None
      | AppliedRefused rejection \<Rightarrow> returns (Some (CallFailed (refusedCall rejection)))
      | AppliedMovedOn \<Rightarrow>
          throws (''a merchant's '' @ landedName landed
            @ '' was held to a hand-over, and there is no answer written for an order that moved on'')
      | AppliedMoved record effects None \<Rightarrow> returns (Some (CallOk (landedName landed)))
      | AppliedMoved record effects (Some said) \<Rightarrow>
          returns (Some (orderCallResponseOf said)))"

definition MISFITS_NAMED :: nat where "MISFITS_NAMED = 5"
definition LETTERS_PER_MISFIT :: nat where "LETTERS_PER_MISFIT = 160"

definition ellipsis :: string where
  "ellipsis = [CHR 0xE2, CHR 0x80, CHR 0xA6]"

definition cutShort :: "string \<Rightarrow> string" where
  "cutShort s =
     (if length s \<le> LETTERS_PER_MISFIT then s
      else take LETTERS_PER_MISFIT s @ ellipsis @ '' (cut short)'')"

definition misfitOf :: "Problem \<Rightarrow> string" where
  "misfitOf finding =
     cutShort
       (if problemPath finding = [] then problemMessage finding
        else joinWith ''.'' (problemPath finding) @ '': '' @ problemMessage finding)"

definition misfitsIn :: "Problem list \<Rightarrow> string" where
  "misfitsIn findings =
     (let named = joinWith ''; '' (map misfitOf (take MISFITS_NAMED findings)) in
      if length findings > MISFITS_NAMED then
        named @ '' (and '' @ show_nat (length findings - MISFITS_NAMED) @ '' more)''
      else named)"

definition goodsAgainstTheCard ::
  "Runtime \<Rightarrow> StoredOrder \<Rightarrow> Delivery \<Rightarrow> CallError option flow" where
  "goodsAgainstTheCard rt record delivery =
     andThen (readStore (cardById (saleItem record))) (\<lambda>looked.
       case looked of
         None \<Rightarrow>
           throws (''the order '' @ orderId (theOrder record) @ '' was sold against ''
             @ saleItem record @ '', and there is no such card to hold its goods to'')
       | Some stored \<Rightarrow>
           (let problems = deliveryCheck rt (storedCard stored) delivery;
                goods = ''these goods are not what the card \"''
                  @ cutShort (cardMerchantItemId (storedCard stored))
                  @ ''\" declares it delivers, so nothing was written down'' in
            if problems = [] then returns None
            else if \<not> isOpen (state (theOrder record)) then
              returns (Some
                \<lparr>callErrorCode = ''delivery_does_not_match_card'',
                 callErrorMessage = goods @ '' '' @ emDash @ '' and this order ended as ''
                   @ stateName (state (theOrder record))
                   @ '', so there is nothing left to deliver against '' @ emDash @ '' ''
                   @ misfitsIn problems,
                 callErrorRetryable = False, callErrorProblems = Some problems\<rparr>)
            else
              returns (Some
                \<lparr>callErrorCode = ''delivery_does_not_match_card'',
                 callErrorMessage = goods @ '' and this order still stands where it did ''
                   @ emDash @ '' '' @ misfitsIn problems,
                 callErrorRetryable = True, callErrorProblems = Some problems\<rparr>)))"

datatype AnsweredThrough = ThroughHandler | ThroughCall

definition putToMachine ::
  "Runtime \<Rightarrow> string \<Rightarrow> string \<Rightarrow> (int \<Rightarrow> StateEvent) \<Rightarrow> Delivery option \<Rightarrow> Landed
   \<Rightarrow> OrderCallResponse option flow" where
  "putToMachine rt merchantId i event delivery landed =
     andThen (readClock rt) (\<lambda>t.
     andThen
       (applyEvent rt i (Happened (event t))
         (noFacts\<lparr>factDelivery := delivery, factOpenDeliveryId := Some None\<rparr>)
         (Some merchantId) None)
       (\<lambda>applied. answerFor applied landed))"

definition deliverOrder ::
  "Runtime \<Rightarrow> string \<Rightarrow> string \<Rightarrow> Delivery \<Rightarrow> AnsweredThrough \<Rightarrow> OrderCallResponse option flow" where
  "deliverOrder rt merchantId i delivery through =
     andThen (readStore (merchantOrder merchantId i)) (\<lambda>looked.
       case looked of
         None \<Rightarrow> returns None
       | Some record \<Rightarrow>
           andThen
             (if saleDelivery record = None then goodsAgainstTheCard rt record delivery
              else returns None) (\<lambda>misfit.
             case misfit of
               Some e \<Rightarrow> returns (Some (CallFailed e))
             | None \<Rightarrow>
                 putToMachine rt merchantId i
                   (case through of
                      ThroughHandler \<Rightarrow> HandlerDelivered
                    | ThroughCall \<Rightarrow> DeliverCalled)
                   (Some delivery) LandedDelivered))"

definition refuseOrder ::
  "Runtime \<Rightarrow> string \<Rightarrow> string \<Rightarrow> string \<Rightarrow> string \<Rightarrow> AnsweredThrough
   \<Rightarrow> OrderCallResponse option flow" where
  "refuseOrder rt merchantId i code message through =
     putToMachine rt merchantId i
       (case through of
          ThroughHandler \<Rightarrow> (\<lambda>t. HandlerRefused t code message)
        | ThroughCall \<Rightarrow> (\<lambda>t. RefuseCalled t code message))
       None LandedRefused"

definition takeOrderOn :: "Runtime \<Rightarrow> string \<Rightarrow> string \<Rightarrow> OrderCallResponse option flow" where
  "takeOrderOn rt merchantId i = putToMachine rt merchantId i HandlerAccepted None LandedAccepted"

datatype HandlerAnswer =
    HandlerDelivers Delivery
  | HandlerRefuses string string
  | HandlerAccepts

fun answerOrder ::
  "Runtime \<Rightarrow> string \<Rightarrow> string \<Rightarrow> HandlerAnswer \<Rightarrow> OrderCallResponse option flow" where
  "answerOrder rt merchantId i (HandlerDelivers delivery) =
     deliverOrder rt merchantId i delivery ThroughHandler"
| "answerOrder rt merchantId i (HandlerRefuses code message) =
     refuseOrder rt merchantId i code message ThroughHandler"
| "answerOrder rt merchantId i HandlerAccepts = takeOrderOn rt merchantId i"

datatype OrderAcceptResponse = AcceptOk | AcceptFailed CallError

definition acceptOrder :: "Runtime \<Rightarrow> string \<Rightarrow> string \<Rightarrow> OrderAcceptResponse option flow" where
  "acceptOrder rt merchantId i =
     andThen (takeOrderOn rt merchantId i) (\<lambda>taken.
       returns (case taken of
         None \<Rightarrow> None
       | Some (CallFailed e) \<Rightarrow> Some (AcceptFailed e)
       | Some (CallOk word) \<Rightarrow> Some AcceptOk))"

section \<open>Reminders, claims and the end\<close>

fun reminded :: "Runtime \<Rightarrow> Reminder \<Rightarrow> unit flow" where
  "reminded rt (DeadlineReminder i kind due) =
     andThen (applyEvent rt i (DeadlineExpired due kind) noFacts None None) (\<lambda>_. returns ())"
| "reminded rt (DeliveryUnansweredReminder i handOver) =
     andThen (readClock rt) (\<lambda>t.
     andThen
       (applyEvent rt i (Happened (HandlerUndelivered t))
         (noFacts\<lparr>factOpenDeliveryId := Some None\<rparr>) None (Some handOver))
       (\<lambda>_. returns ()))"

definition forgetOldClaims :: "Runtime \<Rightarrow> nat flow" where
  "forgetOldClaims rt =
     andThen (readClock rt) (\<lambda>t.
     onStore (forgetClaimsBefore (t - cfgClaimRetentionMs (config rt))))"

definition startGateway :: "unit flow" where
  "startGateway =
     (\<lambda>w. case onReminder (worldQueue w) of
            Inl thrown \<Rightarrow> (Inl thrown, w)
          | Inr q \<Rightarrow>
              (case startQueue q of
                 Inl thrown \<Rightarrow> (Inl thrown, w\<lparr>worldQueue := q\<rparr>)
               | Inr q' \<Rightarrow> (Inr (), w\<lparr>worldQueue := q'\<rparr>)))"

definition stopGateway :: "unit flow" where
  "stopGateway =
     (\<lambda>w. (Inr (),
        w\<lparr>worldQueue := stopQueue (worldQueue w), worldQuotes := giveUpAll (worldQuotes w),
          worldPurchases := giveUpAll (worldPurchases w)\<rparr>))"

text \<open>
  A reminder's timer going off in a running gateway: the handler runs, and whether it threw
  is what the queue is told.
\<close>

definition reminderFires :: "Runtime \<Rightarrow> nat \<Rightarrow> unit flow" where
  "reminderFires rt n =
     andThen (\<lambda>w. (Inr (map_of (timers (worldQueue w)) n, fireSet (worldQueue w)), w)) (\<lambda>timer.
       case timer of
         (Some (after, ReminderTimer reminder k), True) \<Rightarrow>
           andThen (attempt (reminded rt reminder)) (\<lambda>came.
           tellQueue (fireTimer n (case came of Inl thrown \<Rightarrow> True | Inr _ \<Rightarrow> False)))
       | _ \<Rightarrow> tellQueue (fireTimer n False))"

end
