(* ===== verification/Evm_Address.thy ===== *)
theory Evm_Address
  imports Deployment_Environment "HOL-Library.Word"
begin

text \<open>
  The address of \<open>packages/contracts/src/evm-address.ts\<close>: the hand-written Keccak
  permutation, the checksum of EIP-55 it feeds, the two spellings the door accepts and the
  canonical one everything behind it keeps.

  The lanes are BigInts, hence \<^typ>\<open>int\<close>, cut to sixty-four bits with the mask \<open>LANE\<close> where
  the code cuts them. The array the permutation works on in place is a list updated by index.
  The second half states Keccak-f[1600] the way its standard does, over a five by five matrix
  of \<^typ>\<open>64 word\<close> with the rotation offsets, the places and the round constants computed from
  their definitions, and proves that the code's tables and loops compute it.
\<close>

unbundle bit_operations_syntax

section \<open>The permutation of the code\<close>

definition ADDRESS_LENGTH :: nat where
  "ADDRESS_LENGTH = 40"

definition BLOCK_BYTES :: nat where
  "BLOCK_BYTES = 136"

definition ROUND_CONSTANTS :: "int list" where
  "ROUND_CONSTANTS =
     [0x0000000000000001, 0x0000000000008082, 0x800000000000808a, 0x8000000080008000,
      0x000000000000808b, 0x0000000080000001, 0x8000000080008081, 0x8000000000008009,
      0x000000000000008a, 0x0000000000000088, 0x0000000080008009, 0x000000008000000a,
      0x000000008000808b, 0x800000000000008b, 0x8000000000008089, 0x8000000000008003,
      0x8000000000008002, 0x8000000000000080, 0x000000000000800a, 0x800000008000000a,
      0x8000000080008081, 0x8000000000008080, 0x0000000080000001, 0x8000000080008008]"

definition ROTATIONS :: "nat list" where
  "ROTATIONS =
     [1, 3, 6, 10, 15, 21, 28, 36, 45, 55, 2, 14, 27, 41, 56, 8, 25, 43, 62, 18, 39, 61, 20, 44]"

definition DESTINATIONS :: "nat list" where
  "DESTINATIONS =
     [10, 7, 11, 17, 18, 3, 5, 16, 8, 21, 24, 4, 15, 23, 19, 13, 12, 2, 20, 14, 22, 9, 6, 1]"

definition LANE :: int where
  "LANE = push_bit 64 1 - 1"

lemma LANE_eval [code]: "LANE = 0xffffffffffffffff"
  by (simp add: LANE_def)

lemma LANE_mask: "LANE = mask 64"
  by (simp add: LANE_def mask_eq_exp_minus_1)

text \<open>An index outside the array reads as undefined, and the code's fallback is zero.\<close>

definition laneAt :: "int list \<Rightarrow> nat \<Rightarrow> int" where
  "laneAt lanes index = (if index < length lanes then lanes ! index else 0)"

definition indexOr :: "nat list \<Rightarrow> nat \<Rightarrow> nat" where
  "indexOr table index = (if index < length table then table ! index else 0)"

definition rotated :: "int \<Rightarrow> nat \<Rightarrow> int" where
  "rotated lane by' = (push_bit by' lane OR drop_bit (64 - by') lane) AND LANE"

definition parities :: "int list \<Rightarrow> int list" where
  "parities lanes =
     map (\<lambda>column.
            laneAt lanes column XOR laneAt lanes (column + 5) XOR laneAt lanes (column + 10)
              XOR laneAt lanes (column + 15) XOR laneAt lanes (column + 20))
       [0..<5]"

definition columnChange :: "int list \<Rightarrow> nat \<Rightarrow> int" where
  "columnChange parity column =
     laneAt parity ((column + 4) mod 5) XOR rotated (laneAt parity ((column + 1) mod 5)) 1"

definition mixColumn :: "int list \<Rightarrow> nat \<Rightarrow> int list \<Rightarrow> int list" where
  "mixColumn parity column lanes =
     (let change = columnChange parity column
      in fold (\<lambda>row sofar. sofar[column + row := laneAt sofar (column + row) XOR change])
           [0, 5, 10, 15, 20] lanes)"

definition mixColumns :: "int list \<Rightarrow> int list" where
  "mixColumns lanes = fold (mixColumn (parities lanes)) [0..<5] lanes"

definition carryLane :: "nat \<Rightarrow> int \<times> int list \<Rightarrow> int \<times> int list" where
  "carryLane step = (\<lambda>(carried, lanes).
     let destination = indexOr DESTINATIONS step
     in (laneAt lanes destination,
         lanes[destination := rotated carried (indexOr ROTATIONS step)]))"

definition carryLanes :: "int list \<Rightarrow> int list" where
  "carryLanes lanes = snd (fold carryLane [0..<24] (laneAt lanes 1, lanes))"

definition mixRow :: "nat \<Rightarrow> int list \<Rightarrow> int list" where
  "mixRow row lanes =
     (let held = take 5 (drop row lanes)
      in fold (\<lambda>column sofar. sofar[row + column :=
                 laneAt held column
                   XOR (NOT (laneAt held ((column + 1) mod 5)) AND LANE
                          AND laneAt held ((column + 2) mod 5))])
           [0..<5] lanes)"

definition mixRows :: "int list \<Rightarrow> int list" where
  "mixRows lanes = fold mixRow [0, 5, 10, 15, 20] lanes"

definition keccakRound :: "int \<Rightarrow> int list \<Rightarrow> int list" where
  "keccakRound constant lanes =
     (let moved = mixRows (carryLanes (mixColumns lanes))
      in moved[0 := laneAt moved 0 XOR constant])"

definition permute :: "int list \<Rightarrow> int list" where
  "permute lanes = fold keccakRound ROUND_CONSTANTS lanes"

section \<open>The checksum\<close>

definition addressBlock :: "string \<Rightarrow> nat list" where
  "addressBlock body =
     ((fold (\<lambda>index block. block[index := of_char (body ! index)]) [0..<ADDRESS_LENGTH]
         (replicate BLOCK_BYTES 0))
        [ADDRESS_LENGTH := 0x01])[BLOCK_BYTES - 1 := 0x80]"

definition laneOfBlock :: "nat list \<Rightarrow> nat \<Rightarrow> int" where
  "laneOfBlock block lane =
     fold (\<lambda>byte value. push_bit 8 value OR int (indexOr block (lane * 8 + byte)))
       (rev [0..<8]) 0"

definition absorbed :: "string \<Rightarrow> int list" where
  "absorbed body =
     (let block = addressBlock body
      in fold (\<lambda>lane lanes. lanes[lane := laneOfBlock block lane])
           [0..<BLOCK_BYTES div 8] (replicate 25 0))"

text \<open>\<open>value.toString(16).padStart(2, "0")\<close> of a byte, and the eight bytes of one lane.\<close>

definition byteText :: "int \<Rightarrow> string" where
  "byteText b = [digitChar (nat (b div 16)), digitChar (nat (b mod 16))]"

primrec laneText :: "nat \<Rightarrow> int \<Rightarrow> string" where
  "laneText 0 value = []"
| "laneText (Suc bytes) value = byteText (value AND 0xff) @ laneText bytes (drop_bit 8 value)"

lemma length_laneText [simp]: "length (laneText n v) = 2 * n"
  by (induction n arbitrary: v) (simp_all add: byteText_def)

function squeezed :: "int list \<Rightarrow> nat \<Rightarrow> string \<Rightarrow> string" where
  "squeezed lanes lane digits =
     (if length digits < ADDRESS_LENGTH
      then squeezed lanes (lane + 1) (digits @ laneText 8 (laneAt lanes lane))
      else digits)"
  by pat_completeness auto
termination
  by (relation "measure (\<lambda>(lanes, lane, digits). ADDRESS_LENGTH - length digits)") auto

declare squeezed.simps [simp del]

definition checksumDigits :: "string \<Rightarrow> string" where
  "checksumDigits body = take ADDRESS_LENGTH (squeezed (permute (absorbed body)) 0 [])"

text \<open>Letters of the alphabet in the two cases; every other character is left alone.\<close>

definition upperLetter :: "char \<Rightarrow> char" where
  "upperLetter c =
     (if 97 \<le> (of_char c :: nat) \<and> (of_char c :: nat) \<le> 122
      then char_of ((of_char c :: nat) - 32) else c)"

definition lowerLetter :: "char \<Rightarrow> char" where
  "lowerLetter c =
     (if 65 \<le> (of_char c :: nat) \<and> (of_char c :: nat) \<le> 90
      then char_of ((of_char c :: nat) + 32) else c)"

text \<open>\<open>Number.parseInt(digit, 16)\<close> of one digit the digest is written with.\<close>

definition hexValue :: "char \<Rightarrow> nat" where
  "hexValue c = length (takeWhile (\<lambda>d. d \<noteq> c) ''0123456789abcdef'')"

definition checksummedBody :: "string \<Rightarrow> string" where
  "checksummedBody body =
     (let digits = checksumDigits body
      in map (\<lambda>index. if 8 \<le> hexValue (digits ! index) then upperLetter (body ! index)
                       else body ! index)
           [0..<ADDRESS_LENGTH])"

definition isHexDigit :: "char \<Rightarrow> bool" where
  "isHexDigit c \<longleftrightarrow> c \<in> set ''0123456789abcdefABCDEF''"

definition ADDRESS_SHAPE :: "string \<Rightarrow> bool" where
  "ADDRESS_SHAPE presented \<longleftrightarrow>
     take 2 presented = ''0x'' \<and> length presented = 42 \<and> list_all isHexDigit (drop 2 presented)"

definition carriesItsOwnChecksum :: "string \<Rightarrow> bool" where
  "carriesItsOwnChecksum presented =
     (if \<not> ADDRESS_SHAPE presented then True
      else
        let body = drop 2 presented; lowered = map lowerLetter body
        in body = lowered \<or> body = checksummedBody lowered)"

definition EvmAddressSchema :: "string \<Rightarrow> bool" where
  "EvmAddressSchema presented \<longleftrightarrow> ADDRESS_SHAPE presented \<and> carriesItsOwnChecksum presented"

definition checksummedAddressOf :: "string \<Rightarrow> string + string" where
  "checksummedAddressOf address =
     (if \<not> ADDRESS_SHAPE address \<or> \<not> carriesItsOwnChecksum address then
        Inl (jsonString address
             @ '' is not an address this can write out: it is either not an address at all, ''
             @ ''or its capital letters disagree with the rest of it'')
      else Inr (''0x'' @ checksummedBody (map lowerLetter (drop 2 address))))"

section \<open>The permutation of the standard\<close>

text \<open>
  The state of the standard is a matrix indexed by column \<open>x\<close> and row \<open>y\<close>; the code keeps
  lane \<open>(x, y)\<close> at index \<open>x + 5 y\<close>.
\<close>

type_synonym matrix = "nat \<Rightarrow> nat \<Rightarrow> 64 word"

definition lanesOf :: "matrix \<Rightarrow> int list" where
  "lanesOf A = map (\<lambda>i. uint (A (i mod 5) (i div 5))) [0..<25]"

definition columnParity :: "matrix \<Rightarrow> nat \<Rightarrow> 64 word" where
  "columnParity A x = A x 0 XOR A x 1 XOR A x 2 XOR A x 3 XOR A x 4"

definition theta :: "matrix \<Rightarrow> matrix" where
  "theta A x y =
     A x y XOR (columnParity A ((x + 4) mod 5)
                  XOR word_rotl 1 (columnParity A ((x + 1) mod 5)))"

text \<open>The walk the rotation offsets are read along, and the offset of the place it reaches.\<close>

primrec walked :: "nat \<Rightarrow> nat \<times> nat" where
  "walked 0 = (1, 0)"
| "walked (Suc t) = (case walked t of (x, y) \<Rightarrow> (y, (2 * x + 3 * y) mod 5))"

definition rhoOffset :: "nat \<Rightarrow> nat \<Rightarrow> nat" where
  "rhoOffset x y =
     (case find (\<lambda>t. walked t = (x, y)) [0..<24] of
        None \<Rightarrow> 0
      | Some t \<Rightarrow> (t + 1) * (t + 2) div 2 mod 64)"

definition rho :: "matrix \<Rightarrow> matrix" where
  "rho A x y = word_rotl (rhoOffset x y) (A x y)"

definition pi_step :: "matrix \<Rightarrow> matrix" where
  "pi_step A x y = A ((x + 3 * y) mod 5) x"

definition chi :: "matrix \<Rightarrow> matrix" where
  "chi A x y = A x y XOR (NOT (A ((x + 1) mod 5) y) AND A ((x + 2) mod 5) y)"

text \<open>The round constants come out of a linear feedback shift register.\<close>

fun shiftRegister :: "bool list \<Rightarrow> bool list" where
  "shiftRegister [b0, b1, b2, b3, b4, b5, b6, b7] =
     [b7, b0, b1, b2, b3 \<noteq> b7, b4 \<noteq> b7, b5 \<noteq> b7, b6]"
| "shiftRegister bits = bits"

definition registerBit :: "nat \<Rightarrow> bool" where
  "registerBit t = hd ((shiftRegister ^^ (t mod 255)) (True # replicate 7 False))"

definition roundConstant :: "nat \<Rightarrow> 64 word" where
  "roundConstant r =
     sum_list (map (\<lambda>j. if registerBit (j + 7 * r) then 2 ^ (2 ^ j - 1) else 0) [0..<7])"

definition iota :: "nat \<Rightarrow> matrix \<Rightarrow> matrix" where
  "iota r A x y = (if x = 0 \<and> y = 0 then A x y XOR roundConstant r else A x y)"

definition keccakF :: "matrix \<Rightarrow> matrix" where
  "keccakF A = fold (\<lambda>r A. iota r (chi (pi_step (rho (theta A))))) [0..<24] A"

section \<open>The code computes the standard\<close>

lemma rotated_uint: "n < 64 \<Longrightarrow> rotated (uint w) n = uint (word_rotl n w)" for w :: "64 word"
proof (rule bit_eqI)
  fix m
  assume n: "n < 64"
  show "bit (rotated (uint w) n) m \<longleftrightarrow> bit (uint (word_rotl n w)) m"
  proof (cases "m < n")
    case True
    then have "(m + (64 - n)) mod 64 = 64 + m - n" using n by simp
    moreover have "\<not> 64 \<le> 64 + m - n" using True n by simp
    ultimately show ?thesis
      using True n by (auto simp: rotated_def LANE_mask bit_simps bit_word_rotl_iff)
  next
    case False
    have "m < 64 \<Longrightarrow> (m + (64 - n)) mod 64 = m - n"
      using False n by (simp add: mod_if)
    moreover have "m < 64 \<Longrightarrow> \<not> bit w (64 + m - n)"
      using False n by (auto dest: bit_imp_le_length)
    ultimately show ?thesis
      using False n by (auto simp: rotated_def LANE_mask bit_simps bit_word_rotl_iff)
  qed
qed

lemma uint_xor64: "uint (a XOR b) = uint a XOR uint b" for a b :: "64 word"
  by (simp add: uint_xor)

lemma not_lane: "NOT (uint a) AND LANE AND uint b = uint (NOT a AND b)" for a b :: "64 word"
  by (rule bit_eqI) (auto simp: LANE_mask bit_simps)

lemma upto_literals:
  "[0..<5] = [0, 1, 2, 3, 4]"
  "[0..<24] = [0, 1, 2, 3, 4, 5, 6, 7, 8, 9, 10, 11, 12, 13, 14, 15, 16, 17, 18, 19, 20, 21, 22, 23]"
  "[0..<25] = [0, 1, 2, 3, 4, 5, 6, 7, 8, 9, 10, 11, 12, 13, 14, 15, 16, 17, 18, 19, 20, 21, 22, 23,
               24]"
  by (simp_all add: upt_rec numeral_eq_Suc)

lemma length_lanesOf [simp]: "length (lanesOf A) = 25"
  by (simp add: lanesOf_def)

lemma lanesOf_list:
  "lanesOf A =
     [uint (A 0 0), uint (A 1 0), uint (A 2 0), uint (A 3 0), uint (A 4 0),
      uint (A 0 1), uint (A 1 1), uint (A 2 1), uint (A 3 1), uint (A 4 1),
      uint (A 0 2), uint (A 1 2), uint (A 2 2), uint (A 3 2), uint (A 4 2),
      uint (A 0 3), uint (A 1 3), uint (A 2 3), uint (A 3 3), uint (A 4 3),
      uint (A 0 4), uint (A 1 4), uint (A 2 4), uint (A 3 4), uint (A 4 4)]"
  by (simp add: lanesOf_def upto_literals del: upt_rec_numeral)

lemma parities_lanesOf:
  "parities (lanesOf A) =
     [uint (columnParity A 0), uint (columnParity A 1), uint (columnParity A 2),
      uint (columnParity A 3), uint (columnParity A 4)]"
  by (simp add: parities_def lanesOf_list laneAt_def columnParity_def uint_xor64 upto_literals del: upt_rec_numeral)

lemma columnChange_lanesOf:
  assumes "column < 5"
  shows "columnChange (parities (lanesOf A)) column =
    uint (columnParity A ((column + 4) mod 5)
            XOR word_rotl 1 (columnParity A ((column + 1) mod 5)))"
proof -
  have "column \<in> {0, 1, 2, 3, 4}" using assms by auto
  then show ?thesis
    by (auto simp: columnChange_def parities_lanesOf laneAt_def rotated_uint uint_xor64
        numeral_2_eq_2)
qed

lemma length_mixColumn [simp]: "length (mixColumn parity column lanes) = length lanes"
  by (simp add: mixColumn_def Let_def)

lemma nth_mixColumn:
  assumes "length lanes = 25" "column < 5" "i < 25"
  shows "mixColumn parity column lanes ! i =
    (if i mod 5 = column then lanes ! i XOR columnChange parity column else lanes ! i)"
proof -
  have "i mod 5 = column \<longleftrightarrow>
      i = column \<or> i = column + 5 \<or> i = column + 10 \<or> i = column + 15 \<or> i = column + 20"
    using assms(2,3) by presburger
  then show ?thesis
    using assms by (auto simp: mixColumn_def Let_def laneAt_def nth_list_update)
qed

lemma mixColumns_theta: "mixColumns (lanesOf A) = lanesOf (theta A)"
proof (rule nth_equalityI)
  show "length (mixColumns (lanesOf A)) = length (lanesOf (theta A))"
    by (simp add: mixColumns_def upto_literals del: upt_rec_numeral)
next
  fix i
  assume "i < length (mixColumns (lanesOf A))"
  then have i: "i < 25" by (simp add: mixColumns_def upto_literals del: upt_rec_numeral)
  have "i mod 5 < 5" by simp
  then have "i mod 5 \<in> {0, 1, 2, 3, 4}" by auto
  then have "mixColumns (lanesOf A) ! i =
      lanesOf A ! i XOR columnChange (parities (lanesOf A)) (i mod 5)"
    using i by (auto simp: mixColumns_def upto_literals nth_mixColumn simp del: upt_rec_numeral)
  then show "mixColumns (lanesOf A) ! i = lanesOf (theta A) ! i"
    using i by (simp add: columnChange_lanesOf uint_xor64)
      (simp add: lanesOf_def theta_def uint_xor64)
qed

lemma rhoOffset_table:
  "rhoOffset 0 0 = 0" "rhoOffset 1 0 = 1" "rhoOffset 2 0 = 62" "rhoOffset 3 0 = 28" "rhoOffset 4
  0 = 27" "rhoOffset 0 1 = 36" "rhoOffset 1 1 = 44" "rhoOffset 2 1 = 6" "rhoOffset 3 1 = 55"
  "rhoOffset 4 1 = 20" "rhoOffset 0 2 = 3" "rhoOffset 1 2 = 10" "rhoOffset 2 2 = 43" "rhoOffset
  3 2 = 25" "rhoOffset 4 2 = 39" "rhoOffset 0 3 = 41" "rhoOffset 1 3 = 45" "rhoOffset 2 3 = 15"
  "rhoOffset 3 3 = 21" "rhoOffset 4 3 = 8" "rhoOffset 0 4 = 18" "rhoOffset 1 4 = 2" "rhoOffset 2
  4 = 61" "rhoOffset 3 4 = 56" "rhoOffset 4 4 = 14"
  by code_simp+

lemma word_rotl_zero: "word_rotl 0 w = w" for w :: "64 word"
  by (rule bit_eqI) (auto simp: bit_word_rotl_iff)

lemma carryLanes_rho_pi: "carryLanes (lanesOf A) = lanesOf (pi_step (rho A))"
  by (simp add: carryLanes_def carryLane_def lanesOf_list laneAt_def upto_literals rotated_uint
      indexOr_def DESTINATIONS_def ROTATIONS_def rho_def pi_step_def
      rhoOffset_table [unfolded One_nat_def] word_rotl_zero del: upt_rec_numeral)

lemma mixRows_chi: "mixRows (lanesOf A) = lanesOf (chi A)"
  by (simp add: mixRows_def mixRow_def lanesOf_list laneAt_def upto_literals chi_def uint_xor64
      not_lane numeral_2_eq_2 [symmetric] del: upt_rec_numeral)

lemma round_constants: "map (\<lambda>r. uint (roundConstant r)) [0..<24] = ROUND_CONSTANTS"
  by code_simp

lemma keccakRound_lanesOf:
  "keccakRound (uint (roundConstant r)) (lanesOf A) =
   lanesOf (iota r (chi (pi_step (rho (theta A)))))"
proof -
  have "(lanesOf B)[0 := laneAt (lanesOf B) 0 XOR uint (roundConstant r)] = lanesOf (iota r B)"
    for B by (simp add: lanesOf_list laneAt_def iota_def uint_xor64)
  then show ?thesis
    by (simp add: keccakRound_def mixColumns_theta carryLanes_rho_pi mixRows_chi)
qed

lemma keccakRounds_lanesOf:
  "fold keccakRound (map (\<lambda>r. uint (roundConstant r)) rs) (lanesOf A) =
   lanesOf (fold (\<lambda>r A. iota r (chi (pi_step (rho (theta A))))) rs A)"
  by (induction rs arbitrary: A) (simp_all add: keccakRound_lanesOf)

text \<open>C31: The twenty-four rounds of the code, with its tables of constants, rotations and
  destinations and its arrays of BigInts updated in place, compute the permutation
  Keccak-f[1600] of the standard, whose offsets, places and constants are derived here from
  their definitions.\<close>

theorem permute_is_keccak: "permute (lanesOf A) = lanesOf (keccakF A)"
  unfolding permute_def keccakF_def round_constants [symmetric] by (rule keccakRounds_lanesOf)

section \<open>The two spellings\<close>

lemma lowerLetter_upperLetter [simp]: "lowerLetter (upperLetter c) = lowerLetter c"
  by (auto simp: upperLetter_def lowerLetter_def)

lemma lowerLetter_idem [simp]: "lowerLetter (lowerLetter c) = lowerLetter c"
  by (auto simp: lowerLetter_def)

lemma hex_letters:
  "isHexDigit c \<Longrightarrow> isHexDigit (upperLetter c)"
  "isHexDigit c \<Longrightarrow> isHexDigit (lowerLetter c)"
proof -
  have "list_all (\<lambda>c. isHexDigit (upperLetter c) \<and> isHexDigit (lowerLetter c))
          ''0123456789abcdefABCDEF''"
    by code_simp
  then show "isHexDigit c \<Longrightarrow> isHexDigit (upperLetter c)"
    "isHexDigit c \<Longrightarrow> isHexDigit (lowerLetter c)"
    unfolding list_all_iff isHexDigit_def by blast+
qed

lemma length_checksummedBody [simp]: "length (checksummedBody body) = 40"
  by (simp add: checksummedBody_def Let_def ADDRESS_LENGTH_def del: upt_rec_numeral)

lemma lowered_checksummedBody:
  "length body = 40 \<Longrightarrow> map lowerLetter (checksummedBody body) = map lowerLetter body"
  by (rule nth_equalityI)
    (simp_all add: checksummedBody_def Let_def ADDRESS_LENGTH_def del: upt_rec_numeral)

lemma hex_checksummedBody:
  "length body = 40 \<Longrightarrow> list_all isHexDigit body \<Longrightarrow> list_all isHexDigit (checksummedBody body)"
  by (auto simp: checksummedBody_def Let_def ADDRESS_LENGTH_def list_all_length hex_letters
      simp del: upt_rec_numeral)

text \<open>The body an address stands for: its forty digits in lower case.\<close>

definition bodyOf :: "string \<Rightarrow> string" where
  "bodyOf address = map lowerLetter (drop 2 address)"

lemma shape_body:
  assumes "ADDRESS_SHAPE address"
  shows "length (bodyOf address) = 40" "list_all isHexDigit (bodyOf address)"
    "map lowerLetter (bodyOf address) = bodyOf address"
  using assms by (auto simp: ADDRESS_SHAPE_def bodyOf_def list_all_length hex_letters)

lemma shape_of_body:
  "length body = 40 \<Longrightarrow> list_all isHexDigit body \<Longrightarrow> ADDRESS_SHAPE (''0x'' @ body)"
  by (simp add: ADDRESS_SHAPE_def)

lemma bodyOf_spelled [simp]: "bodyOf (CHR ''0'' # CHR ''x'' # body) = map lowerLetter body"
  by (simp add: bodyOf_def)

lemma spelled_with_body:
  assumes "ADDRESS_SHAPE address"
  shows "address = ''0x'' @ body \<longleftrightarrow> drop 2 address = body"
  using assms append_take_drop_id [of 2 address] by (auto simp: ADDRESS_SHAPE_def)

lemma schema_spellings:
  "EvmAddressSchema address \<longleftrightarrow>
     ADDRESS_SHAPE address \<and>
     (address = ''0x'' @ bodyOf address \<or> address = ''0x'' @ checksummedBody (bodyOf address))"
  by (cases "ADDRESS_SHAPE address")
    (simp_all add: EvmAddressSchema_def carriesItsOwnChecksum_def bodyOf_def Let_def
      spelled_with_body del: append.simps)

lemma checksummedAddressOf_schema:
  "checksummedAddressOf address = Inr canon \<longleftrightarrow>
     EvmAddressSchema address \<and> canon = ''0x'' @ checksummedBody (bodyOf address)"
  by (auto simp: checksummedAddressOf_def EvmAddressSchema_def bodyOf_def)

text \<open>C32: Writing an address down is canonical. What comes out is accepted at the door,
  stands for the same forty digits, and is written down as itself; the lower case spelling
  of it is written down as it too; and any third spelling of the same digits, one whose
  capitals were lost or invented on the way, is refused.\<close>

theorem canonical_spelling:
  assumes "checksummedAddressOf address = Inr canon"
  shows "EvmAddressSchema canon \<and> bodyOf canon = bodyOf address
    \<and> (\<forall>other. bodyOf other = bodyOf address \<longrightarrow>
         (if other = canon \<or> other = ''0x'' @ bodyOf address
          then checksummedAddressOf other = Inr canon
          else \<exists>why. checksummedAddressOf other = Inl why))"
proof -
  let ?body = "bodyOf address"
  from assms have shape: "ADDRESS_SHAPE address"
    and canon: "canon = ''0x'' @ checksummedBody ?body"
    by (simp_all add: checksummedAddressOf_schema schema_spellings)
  note body = shape_body [OF shape]
  have lowered: "map lowerLetter (checksummedBody ?body) = ?body"
    using lowered_checksummedBody [OF body(1)] body(3) by simp
  have shapes: "ADDRESS_SHAPE canon" "ADDRESS_SHAPE (''0x'' @ ?body)"
    unfolding canon using body hex_checksummedBody [OF body(1,2)]
    by (intro shape_of_body; simp)+
  have takes: "checksummedAddressOf other = Inr canon"
    if "other = canon \<or> other = ''0x'' @ ?body" for other
    using that shapes lowered body(3)
    by (auto simp: checksummedAddressOf_schema schema_spellings canon)
  moreover have "\<exists>why. checksummedAddressOf other = Inl why"
    if "bodyOf other = ?body" "\<not> (other = canon \<or> other = ''0x'' @ ?body)" for other
  proof (cases "checksummedAddressOf other")
    case (Inr found)
    then have "other = ''0x'' @ ?body \<or> other = ''0x'' @ checksummedBody ?body"
      using that(1) by (auto simp: checksummedAddressOf_schema schema_spellings)
    with that(2) show ?thesis by (simp add: canon)
  qed simp
  moreover have "EvmAddressSchema canon"
    using takes [of canon] by (simp add: checksummedAddressOf_schema)
  moreover have "bodyOf canon = ?body" using lowered by (simp add: canon)
  ultimately show ?thesis by simp
qed

text \<open>The first address of the vectors EIP-55 publishes.\<close>

lemma published_vector:
  "checksummedAddressOf ''0x5aaeb6053f3e94c9b9a09f33669435e7ef1beaed'' =
     Inr ''0x5aAeb6053F3E94C9b9A09f33669435E7Ef1BeAed''"
  by code_simp

theorem canonical_spelling_witness:
  "checksummedAddressOf ''0x5aAeb6053F3E94C9b9A09f33669435E7Ef1BeAed'' =
     Inr ''0x5aAeb6053F3E94C9b9A09f33669435E7Ef1BeAed''
   \<and> (\<exists>why. checksummedAddressOf ''0x5AAEB6053F3E94C9B9A09F33669435E7EF1BEAED'' = Inl why)"
proof -
  have bodies: "bodyOf ''0x5aaeb6053f3e94c9b9a09f33669435e7ef1beaed'' =
      ''5aaeb6053f3e94c9b9a09f33669435e7ef1beaed''"
    "bodyOf ''0x5aAeb6053F3E94C9b9A09f33669435E7Ef1BeAed'' =
      ''5aaeb6053f3e94c9b9a09f33669435e7ef1beaed''"
    "bodyOf ''0x5AAEB6053F3E94C9B9A09F33669435E7EF1BEAED'' =
      ''5aaeb6053f3e94c9b9a09f33669435e7ef1beaed''"
    by code_simp+
  note law = canonical_spelling [OF published_vector, unfolded bodies, THEN conjunct2,
      THEN conjunct2, rule_format]
  from law [of "''0x5aAeb6053F3E94C9b9A09f33669435E7Ef1BeAed''"]
    law [of "''0x5AAEB6053F3E94C9B9A09F33669435E7EF1BEAED''"] bodies
  show ?thesis by simp
qed

end
