(* ===== verification/Gateway_Merchants.thy ===== *)
theory Gateway_Merchants
  imports Gateway_World Evm_Address
begin

text \<open>
  \<^verbatim>\<open>apps/gateway/src/app/merchants.ts\<close>: making a merchant, naming and paying one, issuing
  the two kinds of key, registering by invitation and seeding the sandbox. The digest of a
  secret (\<open>sha256\<close> in hexadecimal) and the text drawn at random for one are arguments, since
  they come from the platform's cryptography. A schema that refuses a value throws; its own
  words are the library's, and the thrown text here is the schema's name.
\<close>

section \<open>Reaching the store from a flow\<close>

definition tryStore :: "(MemoryStore \<Rightarrow> string + 'a \<times> MemoryStore) \<Rightarrow> 'a flow" where
  "tryStore f =
     (\<lambda>w. case f (worldStore w) of
            Inl thrown \<Rightarrow> (Inl thrown, w)
          | Inr (x, s) \<Rightarrow> (Inr x, w\<lparr>worldStore := s\<rparr>))"

lemma tryStore_code [code]:
  "tryStore f w =
     (case f (worldStore w) of
        Inl thrown \<Rightarrow> (Inl thrown, w)
      | Inr (x, s) \<Rightarrow> (Inr x, w\<lparr>worldStore := s\<rparr>))"
  by (simp add: tryStore_def)

section \<open>Secrets\<close>

definition newKeySecret :: "Environment \<Rightarrow> string \<Rightarrow> string" where
  "newKeySecret environment drawn = keyPrefixFor environment @ drawn"

text \<open>What a key is issued as: its row, and the secret, once.\<close>

record IssuedKey =
  issuedRow :: StoredKey
  issuedSecret :: string

section \<open>Naming and paying\<close>

text \<open>
  \<open>ServiceNameSchema\<close> of \<^verbatim>\<open>packages/contracts/src/card.ts\<close>: one to 32 characters of printable
  ASCII with no space at either end.
\<close>

definition isPrintable :: "char \<Rightarrow> bool" where
  "isPrintable c = (0x20 \<le> (of_char c :: nat) \<and> (of_char c :: nat) \<le> 0x7e)"

definition LISTED_TEXT_MAX :: nat where "LISTED_TEXT_MAX = 32"

definition listedText :: "string \<Rightarrow> bool" where
  "listedText s =
     (s \<noteq> [] \<and> length s \<le> LISTED_TEXT_MAX \<and> list_all isPrintable s
      \<and> hd s \<noteq> CHR '' '' \<and> last s \<noteq> CHR '' '')"

definition ServiceNameSchema :: "string \<Rightarrow> bool" where
  "ServiceNameSchema = listedText"

definition nameMerchant :: "string \<Rightarrow> string option \<Rightarrow> StoredMerchant option flow" where
  "nameMerchant merchantId serviceName =
     (if (case serviceName of None \<Rightarrow> False | Some name \<Rightarrow> \<not> ServiceNameSchema name) then
        throws ''ServiceNameSchema''
      else onStore (setServiceName merchantId serviceName))"

definition payMerchantAt :: "string \<Rightarrow> string \<Rightarrow> StoredMerchant option flow" where
  "payMerchantAt merchantId wallet =
     (if \<not> EvmAddressSchema wallet then throws ''EvmAddressSchema''
      else
        (case checksummedAddressOf wallet of
           Inl thrown \<Rightarrow> throws thrown
         | Inr address \<Rightarrow> onStore (setPayoutWallet merchantId address)))"

section \<open>Making merchants and issuing keys\<close>

definition CABINET_KEY_LABEL :: string where
  "CABINET_KEY_LABEL = ''the key a cabinet signs this merchant in with''"

definition REGISTERED_MERCHANT_NAME :: string where
  "REGISTERED_MERCHANT_NAME = ''registered with an invitation''"

text \<open>The identifier is drawn where none is given.\<close>

definition makeMerchant :: "Runtime \<Rightarrow> string \<Rightarrow> int \<Rightarrow> string option \<Rightarrow> StoredMerchant option flow" where
  "makeMerchant rt name t given =
     andThen (case given of None \<Rightarrow> drawId rt ''mch'' | Some i \<Rightarrow> returns i) (\<lambda>i.
     onStore (addMerchant i name t))"

definition issueKeyFor ::
  "(string \<Rightarrow> string) \<Rightarrow> Runtime \<Rightarrow> string \<Rightarrow> string \<Rightarrow> KeyPurpose \<Rightarrow> int \<Rightarrow> Environment \<Rightarrow> string
   \<Rightarrow> IssuedKey flow" where
  "issueKeyFor digest rt merchantId label purpose t environment drawn =
     (let secret = newKeySecret environment drawn in
      andThen (drawId rt ''mk'') (\<lambda>i.
      andThen (tryStore (addKey i merchantId label (digest secret) purpose t)) (\<lambda>key.
      returns \<lparr>issuedRow = key, issuedSecret = secret\<rparr>)))"

definition issueKey ::
  "(string \<Rightarrow> string) \<Rightarrow> Runtime \<Rightarrow> string \<Rightarrow> string \<Rightarrow> int \<Rightarrow> Environment \<Rightarrow> string
   \<Rightarrow> IssuedKey flow" where
  "issueKey digest rt merchantId label t environment drawn =
     issueKeyFor digest rt merchantId label KeyForMerchantCode t environment drawn"

definition issueCabinetKey ::
  "(string \<Rightarrow> string) \<Rightarrow> Runtime \<Rightarrow> string \<Rightarrow> int \<Rightarrow> Environment \<Rightarrow> string \<Rightarrow> IssuedKey flow" where
  "issueCabinetKey digest rt merchantId t environment drawn =
     issueKeyFor digest rt merchantId CABINET_KEY_LABEL KeyForCabinet t environment drawn"

section \<open>Registering by invitation\<close>

text \<open>\<open>decoy\<close> is the value compared against where no invitation is configured.\<close>

definition invitationAccepted ::
  "(string \<Rightarrow> string) \<Rightarrow> string \<Rightarrow> string option \<Rightarrow> string \<Rightarrow> bool" where
  "invitationAccepted digest decoy expected presented =
     (digest (case expected of None \<Rightarrow> decoy | Some code \<Rightarrow> code) = digest presented
      \<and> expected \<noteq> None)"

record Registration =
  registeredRow :: StoredMerchant
  registeredKey :: StoredKey
  registeredSecret :: string

definition registerWithKey ::
  "(string \<Rightarrow> string) \<Rightarrow> Runtime \<Rightarrow> int \<Rightarrow> Environment \<Rightarrow> string \<Rightarrow> Registration option flow" where
  "registerWithKey digest rt t environment drawn =
     (let secret = newKeySecret environment drawn in
      andThen (drawId rt ''mch'') (\<lambda>i.
      andThen (drawId rt ''mk'') (\<lambda>k.
      andThen
        (\<lambda>w. case registerMerchant i REGISTERED_MERCHANT_NAME k CABINET_KEY_LABEL (digest secret) t
                (worldStore w) of
               (came, s) \<Rightarrow> (came, w\<lparr>worldStore := s\<rparr>)) (\<lambda>written.
      returns (case written of
          None \<Rightarrow> None
        | Some (row, key) \<Rightarrow>
            Some \<lparr>registeredRow = row, registeredKey = key, registeredSecret = secret\<rparr>)))))"

section \<open>The sandbox's own merchant\<close>

definition SEEDED_MERCHANT_ID :: string where "SEEDED_MERCHANT_ID = ''the_merchant''"
definition SEEDED_MERCHANT_NAME :: string where "SEEDED_MERCHANT_NAME = ''The pilot merchant''"

fun seededServiceNameFor :: "SurfaceMode \<Rightarrow> string option" where
  "seededServiceNameFor SurfaceSandbox = Some ''Coinslot sandbox''"
| "seededServiceNameFor SurfaceTest = Some ''Coinslot test site''"
| "seededServiceNameFor SurfaceLive = None"

datatype SeedOutcome = SeedIssued string "string option" | SeedAlreadyThere | SeedDisabled

definition standingOf :: "int option \<Rightarrow> SeedOutcome" where
  "standingOf disabledAt = (case disabledAt of None \<Rightarrow> SeedAlreadyThere | Some _ \<Rightarrow> SeedDisabled)"

definition SEEDED_KEY_LABEL :: string where
  "SEEDED_KEY_LABEL = ''the sandbox key from the compose file''"

text \<open>
  The two halves of \<open>seedSandboxKey\<close>: up to the look for the key, and from the writing of it
  on. Another process may have run in between.
\<close>

definition seedLook :: "(string \<Rightarrow> string) \<Rightarrow> string \<Rightarrow> int \<Rightarrow> SeedOutcome option flow" where
  "seedLook digest secret t =
     andThen (onStore (addMerchant SEEDED_MERCHANT_ID SEEDED_MERCHANT_NAME t)) (\<lambda>_.
     andThen (readStore (keyByDigest (digest secret))) (\<lambda>found.
     returns (map_option (\<lambda>key. standingOf (keyDisabledAt key)) found)))"

definition listSeeded :: "SurfaceMode \<Rightarrow> SeedOutcome flow" where
  "listSeeded surface =
     andThen (readStore (merchantById SEEDED_MERCHANT_ID)) (\<lambda>merchant.
       let wanted = seededServiceNameFor surface;
           listedAs = (case merchant of
                         None \<Rightarrow> None
                       | Some row \<Rightarrow> if merchantServiceName row = None then wanted else None)
       in if listedAs = None then returns (SeedIssued SEEDED_MERCHANT_ID listedAs)
          else
            andThen (nameMerchant SEEDED_MERCHANT_ID listedAs) (\<lambda>_.
            returns (SeedIssued SEEDED_MERCHANT_ID listedAs)))"

definition seedWrite ::
  "(string \<Rightarrow> string) \<Rightarrow> Runtime \<Rightarrow> string \<Rightarrow> int \<Rightarrow> SurfaceMode \<Rightarrow> SeedOutcome flow" where
  "seedWrite digest rt secret t surface =
     andThen (drawId rt ''mk'') (\<lambda>i.
     andThen
       (attempt (tryStore
         (addKey i SEEDED_MERCHANT_ID SEEDED_KEY_LABEL (digest secret) KeyForMerchantCode t)))
       (\<lambda>came.
         case came of
           Inl thrown \<Rightarrow>
             andThen (readStore (keyByDigest (digest secret))) (\<lambda>raced.
               case raced of
                 None \<Rightarrow> throws thrown
               | Some key \<Rightarrow> returns (standingOf (keyDisabledAt key)))
         | Inr key \<Rightarrow> listSeeded surface))"

definition seedSandboxKey ::
  "(string \<Rightarrow> string) \<Rightarrow> Runtime \<Rightarrow> string \<Rightarrow> int \<Rightarrow> SurfaceMode \<Rightarrow> SeedOutcome flow" where
  "seedSandboxKey digest rt secret t surface =
     andThen (seedLook digest secret t) (\<lambda>found.
       case found of
         Some outcome \<Rightarrow> returns outcome
       | None \<Rightarrow> seedWrite digest rt secret t surface)"

lemmas merchant_defs =
  tryStore_def nameMerchant_def payMerchantAt_def issueKeyFor_def issueKey_def
  issueCabinetKey_def registerWithKey_def seedLook_def seedWrite_def listSeeded_def
  seedSandboxKey_def standingOf_def

end
