(* ===== verification/Gateway_Shop.thy ===== *)
theory Gateway_Shop
  imports Gateway_Stream Gateway_Merchants
begin

text \<open>
  The rest of \<^verbatim>\<open>apps/gateway/src/app/gateway.ts\<close>: publishing and the catalog an agent reads,
  the merchant's own catalog, receipts and settings, and his keys. Whether a body is a card
  is decided by the contract's schema, an argument here (\<open>cardCheck\<close>) that answers with the
  findings or the card; \<open>digest\<close> and the drawn secrets are arguments as in
  \<^verbatim>\<open>Gateway_Merchants\<close>. Log lines are left out.
\<close>

section \<open>Publishing\<close>

definition NO_SELLER_NAME :: Problem where
  "NO_SELLER_NAME =
     \<lparr>problemPath = [], problemCode = ''no_seller_name'',
      problemMessage =
        ''this merchant has not set the name their products are sold under, and a card published''
        @ '' without one is offered for sale through a payment request that names no seller at all;''
        @ '' set a name with POST /v0/seller-name and publish this card again''\<rparr>"

definition NO_PAYOUT_WALLET :: Problem where
  "NO_PAYOUT_WALLET =
     \<lparr>problemPath = [], problemCode = ''no_payout_wallet'',
      problemMessage =
        ''this merchant has not set a wallet to be paid at, so the money from sales of this card''
        @ '' would have nowhere to go '' @ emDash
        @ '' a buyer's agent pays the merchant's own address directly and''
        @ '' nothing of it is held here; set one with POST /v0/payout-wallet and publish this card''
        @ '' again''\<rparr>"

datatype PublishResult = Published string | NotPublished CallError

definition cardRejected :: "Problem list \<Rightarrow> PublishResult flow" where
  "cardRejected problems =
     (case problems of
        [] \<Rightarrow> throws ''a card was refused with nothing named as standing in its way''
      | first # _ \<Rightarrow>
          (let counted = (if length problems = 1 then ''one thing stands''
                          else show_nat (length problems) @ '' things stand'')
           in returns (NotPublished
                \<lparr>callErrorCode = ''card_rejected'',
                 callErrorMessage =
                   ''this card was not published: '' @ counted
                   @ '' between it and the catalog, and the first of them is '' @ misfitOf first,
                 callErrorRetryable = False, callErrorProblems = Some problems\<rparr>)))"

text \<open>What stands in the way besides the card itself.\<close>

definition missingOf :: "Runtime \<Rightarrow> StoredMerchant option \<Rightarrow> Problem list" where
  "missingOf rt merchant =
     (if merchant = None \<or> \<not> listedUnder (Option.bind merchant merchantServiceName)
      then [NO_SELLER_NAME] else [])
     @ (if \<not> payableTo (Option.bind merchant merchantPayoutWallet) (config rt)
        then [NO_PAYOUT_WALLET] else [])"

text \<open>The store's \<open>publishCard\<close>, which draws an identifier only for a card it does not hold.\<close>

definition storeCard :: "Runtime \<Rightarrow> string \<Rightarrow> Card \<Rightarrow> int \<Rightarrow> StoredCard flow" where
  "storeCard rt merchantId c t =
     andThen (readStore (\<lambda>s. map_of (cardIdByMerchantKey s)
                (catalogKey merchantId (cardMerchantItemId c)))) (\<lambda>existing.
     andThen (case existing of None \<Rightarrow> drawId rt ''item'' | Some i \<Rightarrow> returns i) (\<lambda>i.
     onStore (publishCard merchantId c t i)))"

definition publishToCatalog ::
  "('b \<Rightarrow> Problem list + Card) \<Rightarrow> Runtime \<Rightarrow> string \<Rightarrow> 'b \<Rightarrow> PublishResult flow" where
  "publishToCatalog cardCheck rt merchantId body =
     andThen (readStore (merchantById merchantId)) (\<lambda>merchant.
       let missing = missingOf rt merchant in
       case cardCheck body of
         Inl findings \<Rightarrow> cardRejected (missing @ findings)
       | Inr c \<Rightarrow>
           if missing \<noteq> [] then cardRejected missing
           else
             andThen (readClock rt) (\<lambda>t.
             andThen (storeCard rt merchantId c t) (\<lambda>stored.
             returns (Published (storedCardId stored)))))"

section \<open>The catalog an agent reads\<close>

record PublicCard =
  publicId :: string
  publicAsOf :: string
  publicMoney :: Money
  publicFulfillment :: FulfillmentMode
  publicConfirmSeconds :: "int option"
  publicFulfillSeconds :: "int option"
  publicPriceChecked :: bool
  publicRest :: Params

text \<open>
  \<open>publicCardOf\<close> of \<^verbatim>\<open>packages/contracts/src/card.ts\<close>: of the fields that travel as they were
  parsed, the title, the description, the parameters and the result are shown, and the tags
  are not.
\<close>

definition PUBLIC_FIELDS :: "string list" where
  "PUBLIC_FIELDS = [''title'', ''description'', ''params'', ''result'']"

definition publicCardOf :: "Card \<Rightarrow> string \<Rightarrow> string \<Rightarrow> PublicCard" where
  "publicCardOf c i asOfText =
     \<lparr>publicId = i, publicAsOf = asOfText, publicMoney = cardMoney c,
      publicFulfillment = cardFulfillment c,
      publicConfirmSeconds =
        (case cardFulfillment c of Confirm \<Rightarrow> cardConfirmDeadlineSeconds c | _ \<Rightarrow> None),
      publicFulfillSeconds =
        (case cardFulfillment c of Sync \<Rightarrow> None | _ \<Rightarrow> cardFulfillDeadlineSeconds c),
      publicPriceChecked = (cardPriceCheck c \<noteq> None),
      publicRest = filter (\<lambda>(field, v). field \<in> set PUBLIC_FIELDS) (cardRest c)\<rparr>"

definition catalog :: "Runtime \<Rightarrow> PublicCard list flow" where
  "catalog rt =
     andThen (\<lambda>w. (catalogEntries (worldStore w), w)) (\<lambda>entries.
     returns
       (map (\<lambda>entry. publicCardOf (storedCard (entryCard entry)) (storedCardId (entryCard entry))
                (asTimestamp (storedCardAsOf (entryCard entry))))
         (filter (\<lambda>entry. sellingFor (entryMerchant entry) (entryCard entry)
                     (sellableBy (entryPayoutWallet entry) (entryServiceName entry) (config rt))
                   = SellingOpen)
           entries)))"

record PaidResource =
  paidStored :: StoredCard
  paidSelling :: MerchantSelling
  paidServiceName :: "string option"
  paidPayoutWallet :: "string option"

definition paidResource :: "Runtime \<Rightarrow> string \<Rightarrow> PaidResource option flow" where
  "paidResource rt itemId =
     andThen (readStore (cardById itemId)) (\<lambda>looked.
       case looked of
         None \<Rightarrow> returns None
       | Some stored \<Rightarrow>
           andThen (readStore (merchantById (storedCardMerchantId stored))) (\<lambda>merchant.
           returns (Some
             \<lparr>paidStored = stored,
              paidSelling =
                (case merchant of
                   None \<Rightarrow> SellingPaused
                 | Some m \<Rightarrow>
                     sellingFor (merchantSelling m) stored
                       (sellableBy (merchantPayoutWallet m) (merchantServiceName m) (config rt))),
              paidServiceName = Option.bind merchant merchantServiceName,
              paidPayoutWallet = Option.bind merchant merchantPayoutWallet\<rparr>)))"

section \<open>The merchant's own catalog\<close>

record MerchantCard =
  cardViewId :: string
  cardViewAsOf :: string
  cardViewCard :: Card
  cardViewSelling :: MerchantSelling
  cardViewPaused :: bool

definition merchantCardOf :: "StoredCard \<Rightarrow> MerchantSelling \<Rightarrow> bool \<Rightarrow> MerchantCard" where
  "merchantCardOf stored word sellable =
     \<lparr>cardViewId = storedCardId stored, cardViewAsOf = asTimestamp (storedCardAsOf stored),
      cardViewCard = storedCard stored, cardViewSelling = sellingFor word stored sellable,
      cardViewPaused = storedCardPaused stored\<rparr>"

record MerchantCardList =
  listSelling :: MerchantSelling
  listCards :: "MerchantCard list"

definition merchantCards :: "Runtime \<Rightarrow> string \<Rightarrow> MerchantCardList flow" where
  "merchantCards rt merchantId =
     andThen (howTheySell rt merchantId) (\<lambda>(word, sellable).
     andThen (readStore (cards merchantId)) (\<lambda>mine.
     returns \<lparr>listSelling = word,
              listCards = map (\<lambda>stored. merchantCardOf stored word sellable) mine\<rparr>))"

definition pauseCard :: "Runtime \<Rightarrow> string \<Rightarrow> string \<Rightarrow> bool \<Rightarrow> MerchantCard option flow" where
  "pauseCard rt merchantId itemId paused =
     andThen (onStore (setCardPaused merchantId itemId paused)) (\<lambda>stored.
       case stored of
         None \<Rightarrow> returns None
       | Some c \<Rightarrow>
           andThen (howTheySell rt merchantId) (\<lambda>(word, sellable).
           returns (Some (merchantCardOf c word sellable))))"

datatype SellingChange = SellingChanged MerchantCardList | SellingNotChanged string

definition switchSelling :: "Runtime \<Rightarrow> string \<Rightarrow> MerchantSelling \<Rightarrow> SellingChange flow" where
  "switchSelling rt merchantId word =
     andThen (\<lambda>w. (sellingOf merchantId (worldStore w), w)) (\<lambda>now.
       if now = SellingDeparted then
         returns (SellingNotChanged
           ''this merchant has left, and selling is not resumed by a switch'')
       else
         andThen
           (tryStore (\<lambda>s. case setSelling merchantId word s of
                            Inl thrown \<Rightarrow> Inl thrown | Inr s' \<Rightarrow> Inr ((), s'))) (\<lambda>_.
         andThen (merchantCards rt merchantId) (\<lambda>list.
         returns (SellingChanged list))))"

definition receiptsOf :: "string \<Rightarrow> Receipt list flow" where
  "receiptsOf merchantId = readStore (receipts merchantId)"

definition orderRead :: "string \<Rightarrow> StoredOrder option flow" where
  "orderRead i = readStore (orderById i)"

definition merchantOrderRead :: "string \<Rightarrow> string \<Rightarrow> StoredOrder option flow" where
  "merchantOrderRead merchantId i = readStore (merchantOrder merchantId i)"

text \<open>\<open>open\<close> is undefined, true or false; false narrows nothing, as in the store.\<close>

definition ordersOf :: "string \<Rightarrow> bool option \<Rightarrow> StoredOrder list flow" where
  "ordersOf merchantId onlyOpen = readStore (orders merchantId (onlyOpen = Some True))"

section \<open>Registering and the settings\<close>

record RegisteredMerchant =
  newMerchantId :: string
  newMerchantSecret :: string

definition registerByInvitation ::
  "(string \<Rightarrow> string) \<Rightarrow> string \<Rightarrow> Runtime \<Rightarrow> string \<Rightarrow> string \<Rightarrow> RegisteredMerchant option flow" where
  "registerByInvitation digest decoy rt drawn invitation =
     (if \<not> invitationAccepted digest decoy (cfgRegistrationInvitation (config rt)) invitation
      then returns None
      else
        andThen (readClock rt) (\<lambda>t.
        andThen (registerWithKey digest rt t (cfgEnvironment (config rt)) drawn) (\<lambda>registered.
          case registered of
            None \<Rightarrow>
              throws ''registering made no merchant: the identifier it generated was already taken''
          | Some made \<Rightarrow>
              returns (Some \<lparr>newMerchantId = merchantRowId (registeredRow made),
                             newMerchantSecret = registeredSecret made\<rparr>))))"

definition keyWithoutMerchant :: "string \<Rightarrow> string" where
  "keyWithoutMerchant merchantId =
     ''the key on this call resolved to '' @ merchantId @ '', and there is no such merchant''"

definition sellerName :: "string \<Rightarrow> string option flow" where
  "sellerName merchantId =
     andThen (readStore (merchantById merchantId)) (\<lambda>merchant.
       case merchant of
         None \<Rightarrow> throws (keyWithoutMerchant merchantId)
       | Some m \<Rightarrow> returns (merchantServiceName m))"

definition setSellerName :: "Runtime \<Rightarrow> string \<Rightarrow> string \<Rightarrow> string option flow" where
  "setSellerName rt merchantId name =
     andThen (readClock rt) (\<lambda>t.
     andThen (nameMerchant merchantId (Some name)) (\<lambda>named.
       case named of
         None \<Rightarrow> throws (keyWithoutMerchant merchantId)
       | Some m \<Rightarrow> returns (merchantServiceName m)))"

definition payoutWallet :: "string \<Rightarrow> string option flow" where
  "payoutWallet merchantId =
     andThen (readStore (merchantById merchantId)) (\<lambda>merchant.
       case merchant of
         None \<Rightarrow> throws (keyWithoutMerchant merchantId)
       | Some m \<Rightarrow> returns (merchantPayoutWallet m))"

definition setWallet :: "Runtime \<Rightarrow> string \<Rightarrow> string \<Rightarrow> string option flow" where
  "setWallet rt merchantId wallet =
     andThen (readClock rt) (\<lambda>t.
     andThen (payMerchantAt merchantId wallet) (\<lambda>paid.
       case paid of
         None \<Rightarrow> throws (keyWithoutMerchant merchantId)
       | Some m \<Rightarrow> returns (merchantPayoutWallet m)))"

section \<open>A merchant's keys\<close>

record MerchantKey =
  keyViewId :: string
  keyViewLabel :: string
  keyViewCreatedAt :: string
  keyViewLastUsedAt :: "string option"
  keyViewDisabledAt :: "string option"

definition merchantKeyOf :: "StoredKey \<Rightarrow> MerchantKey" where
  "merchantKeyOf stored =
     \<lparr>keyViewId = keyId stored, keyViewLabel = keyLabel stored,
      keyViewCreatedAt = asTimestamp (keyCreatedAt stored),
      keyViewLastUsedAt = map_option asTimestamp (keyLastUsedAt stored),
      keyViewDisabledAt = map_option asTimestamp (keyDisabledAt stored)\<rparr>"

definition merchantKeys :: "string \<Rightarrow> string \<Rightarrow> (MerchantKey list \<times> string) flow" where
  "merchantKeys merchantId thisCall =
     andThen (readStore (codeKeysOf merchantId)) (\<lambda>keys.
     returns (map merchantKeyOf keys, thisCall))"

definition issueMerchantKey ::
  "(string \<Rightarrow> string) \<Rightarrow> Runtime \<Rightarrow> string \<Rightarrow> string \<Rightarrow> string \<Rightarrow> (MerchantKey \<times> string) flow" where
  "issueMerchantKey digest rt drawn merchantId label =
     andThen (readClock rt) (\<lambda>t.
     andThen (issueKey digest rt merchantId label t (cfgEnvironment (config rt)) drawn) (\<lambda>issued.
     returns (merchantKeyOf (issuedRow issued), issuedSecret issued)))"

text \<open>\<open>None\<close> is the answer \<open>not_a_cabinet_key\<close>.\<close>

definition issueForCabinet ::
  "(string \<Rightarrow> string) \<Rightarrow> Runtime \<Rightarrow> string \<Rightarrow> string \<Rightarrow> KeyPurpose \<Rightarrow> string option flow" where
  "issueForCabinet digest rt drawn merchantId madeWith =
     (if madeWith \<noteq> KeyForCabinet then returns None
      else
        andThen (readClock rt) (\<lambda>t.
        andThen (issueCabinetKey digest rt merchantId t (cfgEnvironment (config rt)) drawn)
          (\<lambda>issued. returns (Some (issuedSecret issued)))))"

definition forgetThisCabinetKey :: "string \<Rightarrow> KeyPurpose \<Rightarrow> unit option flow" where
  "forgetThisCabinetKey thisCall madeWith =
     (if madeWith \<noteq> KeyForCabinet then returns None
      else andThen (onStore (forgetCabinetKey thisCall)) (\<lambda>_. returns (Some ())))"

datatype DisableCall = LockedOut | DisableRefused | DisableNoSuchKey | DisableDone MerchantKey

definition disableMerchantKey ::
  "Runtime \<Rightarrow> string \<Rightarrow> string \<Rightarrow> string \<Rightarrow> DisableCall flow" where
  "disableMerchantKey rt merchantId i thisCall =
     (if i = thisCall then returns LockedOut
      else
        andThen (readClock rt) (\<lambda>t.
        andThen (onStore (disableKeyOf merchantId i t)) (\<lambda>came.
        returns (case came of
            NoSuchKey \<Rightarrow> DisableNoSuchKey
          | MadeForACabinet \<Rightarrow> DisableRefused
          | KeyDisabled stored \<Rightarrow> DisableDone (merchantKeyOf stored)))))"

section \<open>The door\<close>

definition KEY_USE_WRITTEN_EVERY_MS :: int where
  "KEY_USE_WRITTEN_EVERY_MS = 5 * 60000"

definition noteUse :: "Runtime \<Rightarrow> StoredKey \<Rightarrow> unit flow" where
  "noteUse rt key =
     andThen (readClock rt) (\<lambda>t.
       if (case keyLastUsedAt key of
             None \<Rightarrow> False | Some seen \<Rightarrow> t - seen < KEY_USE_WRITTEN_EVERY_MS)
       then returns ()
       else onStore (\<lambda>s. ((), noteKeyUse (keyId key) t s)))"

definition keyBehind ::
  "(string \<Rightarrow> string) \<Rightarrow> Runtime \<Rightarrow> string \<Rightarrow> StoredKey option flow" where
  "keyBehind digest rt presented =
     andThen (readStore (workingKey (digest presented))) (\<lambda>key.
       case key of
         None \<Rightarrow> returns None
       | Some k \<Rightarrow> andThen (noteUse rt k) (\<lambda>_. returns (Some k)))"

lemmas shop_defs =
  publishToCatalog_def cardRejected_def storeCard_def catalog_def paidResource_def merchantCards_def
  pauseCard_def switchSelling_def receiptsOf_def ordersOf_def registerByInvitation_def
  sellerName_def setSellerName_def payoutWallet_def setWallet_def merchantKeys_def
  issueMerchantKey_def issueForCabinet_def forgetThisCabinetKey_def disableMerchantKey_def
  noteUse_def keyBehind_def howTheySell_def

end
