(* ===== verification/Gateway_Store_Laws.thy ===== *)
theory Gateway_Store_Laws
  imports Gateway_Store
begin

text \<open>
  What the store promises its callers, over any sequence of its operations. Three contracts
  are stated as locales over an arbitrary state and interpreted on \<open>storeStep\<close>: a claim
  on a payment is held until it is let go of, what belongs to a merchant never changes
  hands, and a revoked key stays revoked.
\<close>

section \<open>The contracts\<close>

text \<open>Whether a run contains a step that frees \<open>p\<close>, and whether every step of it is allowed.\<close>

primrec freedBy ::
  "('op \<Rightarrow> 's \<Rightarrow> 's) \<Rightarrow> ('op \<Rightarrow> 's \<Rightarrow> 'p \<Rightarrow> bool) \<Rightarrow> 'op list \<Rightarrow> 's \<Rightarrow> 'p \<Rightarrow> bool" where
  "freedBy step frees [] s p = False"
| "freedBy step frees (op # ops) s p = (frees op s p \<or> freedBy step frees ops (step op s) p)"

primrec allAllowed ::
  "('op \<Rightarrow> 's \<Rightarrow> 's) \<Rightarrow> ('op \<Rightarrow> 's \<Rightarrow> bool) \<Rightarrow> 'op list \<Rightarrow> 's \<Rightarrow> bool" where
  "allAllowed step allowed [] s = True"
| "allAllowed step allowed (op # ops) s = (allowed op s \<and> allAllowed step allowed ops (step op s))"

text \<open>A ledger of claims: who holds what, when a claim is granted, which steps free it.\<close>

locale claim_ledger =
  fixes step :: "'op \<Rightarrow> 's \<Rightarrow> 's"
    and inv :: "'s \<Rightarrow> bool"
    and holder :: "'s \<Rightarrow> 'p \<Rightarrow> 'h option"
    and grants :: "'s \<Rightarrow> 'p \<Rightarrow> 'h \<Rightarrow> bool"
    and frees :: "'op \<Rightarrow> 's \<Rightarrow> 'p \<Rightarrow> bool"
  assumes keeps: "inv s \<Longrightarrow> inv (step op s)"
    and granted: "inv s \<Longrightarrow> grants s p h \<longleftrightarrow> holder s p = None \<or> holder s p = Some h"
    and held: "inv s \<Longrightarrow> holder s p = Some h \<Longrightarrow> \<not> frees op s p \<Longrightarrow> holder (step op s) p = Some h"
begin

lemma inv_run: "inv s \<Longrightarrow> inv (fold step ops s)"
  by (induction ops arbitrary: s) (simp_all add: keeps)

lemma held_run:
  "inv s \<Longrightarrow> holder s p = Some h \<Longrightarrow> \<not> freedBy step frees ops s p \<Longrightarrow> holder (fold step ops s) p = Some h"
  by (induction ops arbitrary: s) (simp_all add: keeps held)

lemma nobody_else:
  assumes "inv s" and "holder s p = Some h" and "\<not> freedBy step frees ops s p" and "h' \<noteq> h"
  shows "\<not> grants (fold step ops s) p h'"
  using held_run [OF assms(1-3)] granted [OF inv_run [OF assms(1)]] assms(4) by auto

end

text \<open>Property of things: a thing has an owner, and no step that is allowed changes who that is.\<close>

locale owned_things =
  fixes step :: "'op \<Rightarrow> 's \<Rightarrow> 's"
    and inv :: "'s \<Rightarrow> bool"
    and allowed :: "'op \<Rightarrow> 's \<Rightarrow> bool"
    and owner :: "'s \<Rightarrow> 'x \<Rightarrow> 'm option"
  assumes keeps: "inv s \<Longrightarrow> allowed op s \<Longrightarrow> inv (step op s)"
    and owned: "inv s \<Longrightarrow> allowed op s \<Longrightarrow> owner s x = Some m \<Longrightarrow> owner (step op s) x = Some m"
begin

lemma owned_run:
  "inv s \<Longrightarrow> allAllowed step allowed ops s \<Longrightarrow> owner s x = Some m \<Longrightarrow> owner (fold step ops s) x = Some m"
  by (induction ops arbitrary: s) (simp_all add: keeps owned)

lemma inv_run: "inv s \<Longrightarrow> allAllowed step allowed ops s \<Longrightarrow> inv (fold step ops s)"
  by (induction ops arbitrary: s) (simp_all add: keeps)

end

section \<open>The invariant of the store\<close>

lemma map_of_filter:
  "distinct (map fst al) \<Longrightarrow>
   map_of (filter P al) k =
     (case map_of al k of None \<Rightarrow> None | Some v \<Rightarrow> if P (k, v) then Some v else None)"
  by (induction al) (auto simp: map_of_eq_None_iff split: option.splits)

lemma distinct_filter_keys: "distinct (map fst al) \<Longrightarrow> distinct (map fst (filter P al))"
  by (induction al) auto

definition keyedRight :: "MemoryStore \<Rightarrow> bool" where
  "keyedRight s =
     (distinct (map fst (keysByDigest s)) \<and> distinct (map fst (paymentClaims s))
      \<and> (\<forall>i k. map_of (keysMap s) i = Some k \<longrightarrow> keyId k = i)
      \<and> (\<forall>i c. map_of (cardsMap s) i = Some c \<longrightarrow> storedCardId c = i))"

lemma keyedRight_empty: "keyedRight emptyStore"
  by (simp add: keyedRight_def emptyStore_def)

text \<open>Each part of the store changes only through its own operations.\<close>

lemma storeStep_claims:
  "paymentClaims (storeStep op s) =
     (case op of
        OpClaimPayment f h t \<Rightarrow> paymentClaims (snd (claimPayment f h t s))
      | OpReleaseClaim f h \<Rightarrow> paymentClaims (releaseClaim f h s)
      | OpForgetClaimsBefore t \<Rightarrow> paymentClaims (snd (forgetClaimsBefore t s))
      | _ \<Rightarrow> paymentClaims s)"
  by (cases op) (simp_all add: store_defs split: option.split sum.split)

lemma storeStep_keys:
  "keysMap (storeStep op s) =
     (case op of
        OpRegisterMerchant i n k l d t \<Rightarrow> keysMap (snd (registerMerchant i n k l d t s))
      | OpAddKey i m l d p t \<Rightarrow> keysMap (afterwards s (addKey i m l d p t s))
      | OpNoteKeyUse i t \<Rightarrow> keysMap (noteKeyUse i t s)
      | OpForgetCabinetKey i \<Rightarrow> keysMap (snd (forgetCabinetKey i s))
      | OpDisableKey i t \<Rightarrow> keysMap (snd (disableKey i t s))
      | OpDisableKeyOf m i t \<Rightarrow> keysMap (snd (disableKeyOf m i t s))
      | _ \<Rightarrow> keysMap s)"
  by (cases op) (simp_all add: store_defs split: option.split sum.split)

lemma storeStep_digests:
  "keysByDigest (storeStep op s) =
     (case op of
        OpRegisterMerchant i n k l d t \<Rightarrow> keysByDigest (snd (registerMerchant i n k l d t s))
      | OpAddKey i m l d p t \<Rightarrow> keysByDigest (afterwards s (addKey i m l d p t s))
      | OpForgetCabinetKey i \<Rightarrow> keysByDigest (snd (forgetCabinetKey i s))
      | _ \<Rightarrow> keysByDigest s)"
  by (cases op) (simp_all add: store_defs split: option.split sum.split)

lemma storeStep_cards:
  "cardsMap (storeStep op s) =
     (case op of
        OpPublishCard m c t f \<Rightarrow> cardsMap (snd (publishCard m c t f s))
      | OpSetCardPaused m i p \<Rightarrow> cardsMap (snd (setCardPaused m i p s))
      | _ \<Rightarrow> cardsMap s)"
  by (cases op) (simp_all add: store_defs split: option.split sum.split)

lemma storeStep_cardKeys:
  "cardIdByMerchantKey (storeStep op s) =
     (case op of
        OpPublishCard m c t f \<Rightarrow> cardIdByMerchantKey (snd (publishCard m c t f s))
      | _ \<Rightarrow> cardIdByMerchantKey s)"
  by (cases op) (simp_all add: store_defs split: option.split sum.split)

lemma storeStep_orders:
  "ordersMap (storeStep op s) =
     (case op of
        OpAddOrder r \<Rightarrow> (case addOrder r s of Inl e \<Rightarrow> ordersMap s | Inr s' \<Rightarrow> ordersMap s')
      | OpSaveHeld i r \<Rightarrow>
          (case map_of (ordersMap s) i of
             None \<Rightarrow> ordersMap s
           | Some found \<Rightarrow> ordersMap (saveHeld i found r s))
      | _ \<Rightarrow> ordersMap s)"
  by (cases op) (simp_all add: store_defs split: option.split sum.split)

lemma storeStep_receipts:
  "receiptsMap (storeStep op s) =
     (case op of
        OpPutReceipt m r \<Rightarrow> receiptsMap (putReceipt m r s)
      | _ \<Rightarrow> receiptsMap s)"
  by (cases op) (simp_all add: store_defs split: option.split sum.split)

lemma keyedRight_step: "keyedRight s \<Longrightarrow> keyedRight (storeStep op s)"
proof -
  assume inv: "keyedRight s"
  have "distinct (map fst (paymentClaims (storeStep op s)))"
    using inv unfolding storeStep_claims
    by (cases op) (auto simp: keyedRight_def store_defs distinct_update distinct_delete
        distinct_filter_keys split: option.split)
  moreover have "distinct (map fst (keysByDigest (storeStep op s)))"
    using inv unfolding storeStep_digests
    by (cases op) (auto simp: keyedRight_def store_defs distinct_update distinct_filter_keys
        split: option.split sum.split)
  moreover have "\<forall>i k. map_of (keysMap (storeStep op s)) i = Some k \<longrightarrow> keyId k = i"
    using inv unfolding storeStep_keys
    by (cases op) (auto simp: keyedRight_def store_defs update_conv' delete_conv'
        split: option.split sum.split if_splits)
  moreover have "\<forall>i c. map_of (cardsMap (storeStep op s)) i = Some c \<longrightarrow> storedCardId c = i"
    using inv unfolding storeStep_cards
    by (cases op) (auto simp: keyedRight_def store_defs update_conv' split: option.split if_splits)
  ultimately show "keyedRight (storeStep op s)" by (simp add: keyedRight_def)
qed

section \<open>Claims\<close>

definition claimHolder :: "MemoryStore \<Rightarrow> string \<Rightarrow> (string \<times> int) option" where
  "claimHolder s fingerprint = map_of (paymentClaims s) fingerprint"

definition claimGranted :: "MemoryStore \<Rightarrow> string \<Rightarrow> string \<Rightarrow> bool" where
  "claimGranted s fingerprint claimer = (fst (claimPayment fingerprint claimer 0 s) = Claimed)"

text \<open>What lets a claim go: its own holder, or the forgetting of claims older than an instant.\<close>

fun letsGo :: "StoreOp \<Rightarrow> MemoryStore \<Rightarrow> string \<Rightarrow> bool" where
  "letsGo (OpReleaseClaim f h) s p = (f = p \<and> map_option fst (claimHolder s p) = Some h)"
| "letsGo (OpForgetClaimsBefore t) s p =
     (case claimHolder s p of None \<Rightarrow> False | Some (h, since) \<Rightarrow> since < t)"
| "letsGo _ s p = False"

lemma claim_kept:
  assumes "keyedRight s" and "claimHolder s p = Some h" and "\<not> letsGo op s p"
  shows "claimHolder (storeStep op s) p = Some h"
  using assms unfolding claimHolder_def storeStep_claims
  by (cases op)
    (auto simp: keyedRight_def store_defs claimHolder_def update_conv' delete_conv' map_of_filter
      simp del: map_of_eq_Some_iff Some_eq_map_of_iff split: option.splits)

interpretation claims: claim_ledger storeStep keyedRight
    "\<lambda>s p. map_option fst (claimHolder s p)" claimGranted letsGo
proof
  fix s :: MemoryStore and op p h
  show "keyedRight s \<Longrightarrow> keyedRight (storeStep op s)" by (rule keyedRight_step)
  show "claimGranted s p h \<longleftrightarrow>
      map_option fst (claimHolder s p) = None \<or> map_option fst (claimHolder s p) = Some h"
    by (auto simp: claimGranted_def claimHolder_def claimPayment_def split: option.split)
  assume "keyedRight s" and "map_option fst (claimHolder s p) = Some h" and "\<not> letsGo op s p"
  then show "map_option fst (claimHolder (storeStep op s) p) = Some h"
    using claim_kept [of s p _ op] by auto
qed

text \<open>C20: A payment is one order's to spend: once a claim on it is granted, whatever else happens
  to the store, no other order is granted it until the holder lets go or the claim is
  forgotten as older than an instant.\<close>

theorem payment_is_spent_on_one_order:
  assumes "keyedRight s" and "claimPayment fingerprint claimer t s = (Claimed, s')"
    and "\<not> freedBy storeStep letsGo ops s' fingerprint" and "other \<noteq> claimer"
  shows "\<exists>holder. fst (claimPayment fingerprint other t' (fold storeStep ops s')) = HeldBy holder"
proof -
  have s': "s' = storeStep (OpClaimPayment fingerprint claimer t) s"
    using assms(2) by simp
  have "map_option fst (claimHolder s' fingerprint) = Some claimer"
    using assms(2)
    by (auto simp: claimPayment_def claimHolder_def update_conv' split: option.splits if_splits)
  moreover have "keyedRight s'" unfolding s' by (rule keyedRight_step [OF assms(1)])
  ultimately have "\<not> claimGranted (fold storeStep ops s') fingerprint other"
    by (intro claims.nobody_else [OF _ _ assms(3,4)])
  then show ?thesis
    by (auto simp: claimGranted_def claimPayment_def split: option.splits if_splits)
qed

theorem payment_is_spent_on_one_order_witness:
  "\<exists>holder. fst (claimPayment ''sig'' ''ord_2'' 9
     (fold storeStep [OpReleaseClaim ''sig'' ''ord_2'', OpForgetClaimsBefore 5]
        (snd (claimPayment ''sig'' ''ord_1'' 5 emptyStore)))) = HeldBy holder"
proof (rule payment_is_spent_on_one_order [OF keyedRight_empty])
  show "claimPayment ''sig'' ''ord_1'' 5 emptyStore
      = (Claimed, snd (claimPayment ''sig'' ''ord_1'' 5 emptyStore))"
    by (simp add: claimPayment_def emptyStore_def)
  show "\<not> freedBy storeStep letsGo [OpReleaseClaim ''sig'' ''ord_2'', OpForgetClaimsBefore 5]
      (snd (claimPayment ''sig'' ''ord_1'' 5 emptyStore)) ''sig''"
    by (simp add: claimPayment_def emptyStore_def claimHolder_def releaseClaim_def)
qed simp

section \<open>Keys\<close>

text \<open>A key of the merchant's own that was revoked, under the digest it was written with.\<close>

definition revokedKey :: "string \<Rightarrow> string \<Rightarrow> MemoryStore \<Rightarrow> bool" where
  "revokedKey digest i s =
     (map_of (keysByDigest s) digest = Some i
      \<and> (\<exists>k. map_of (keysMap s) i = Some k \<and> keyPurpose k = KeyForMerchantCode
           \<and> keyDisabledAt k \<noteq> None))"

lemma revokedKey_closed: "revokedKey digest i s \<Longrightarrow> workingKey digest s = None"
  by (auto simp: revokedKey_def workingKey_def)

lemma revokedKey_stays:
  assumes inv: "keyedRight s" and "revokedKey digest i s"
  shows "revokedKey digest i (storeStep op s)"
proof -
  obtain k where k: "map_of (keysMap s) i = Some k" "keyPurpose k = KeyForMerchantCode"
    "keyDisabledAt k \<noteq> None" and d: "map_of (keysByDigest s) digest = Some i"
    using assms(2) by (auto simp: revokedKey_def)
  have ids: "map_of (keysMap s) j = Some l \<Longrightarrow> keyId l = j" for j l
    using inv by (simp add: keyedRight_def)
  have "map_of (keysByDigest (storeStep op s)) digest = Some i"
    using d k ids inv unfolding storeStep_digests
    by (cases op)
      (auto simp: keyedRight_def store_defs update_conv' map_of_filter
        split: option.splits sum.splits)
  moreover have "\<exists>k'. map_of (keysMap (storeStep op s)) i = Some k'
      \<and> keyPurpose k' = KeyForMerchantCode \<and> keyDisabledAt k' \<noteq> None"
    using d k ids unfolding storeStep_keys
    by (cases op)
      (auto simp: store_defs update_conv' delete_conv' split: option.splits sum.splits)
  ultimately show ?thesis by (simp add: revokedKey_def)
qed

interpretation revocations: preserved_machine
    "\<lambda>s op. Some (storeStep op s, [] :: unit list)"
    "\<lambda>s. keyedRight s \<and> revokedKey digest i s" for digest i
  by unfold_locales (auto simp: keyedRight_step revokedKey_stays)

lemma run_machine_fold:
  "fst (run_machine (\<lambda>s op. Some (storeStep op s, [] :: unit list)) s ops) = fold storeStep ops s"
  by (induction ops arbitrary: s) (simp_all add: case_prod_beta)

text \<open>C21: A key its merchant has revoked never opens the door again, whatever happens to the
  store afterwards: not by a second revocation, a use noted late, another key under the same
  digest or identifier, or the forgetting of cabinet keys.\<close>

theorem revoked_key_never_works_again:
  assumes "keyedRight s" and "workingKey digest s = Some key"
    and "disableKeyOf merchantId (keyId key) t s = (KeyDisabled stored, s')"
  shows "workingKey digest (fold storeStep ops s') = None"
proof -
  obtain j where j: "map_of (keysByDigest s) digest = Some j" "map_of (keysMap s) j = Some key"
    using assms(2) by (auto simp: workingKey_def bind_eq_Some_conv split: option.splits if_splits)
  then have "keyId key = j" using assms(1) by (simp add: keyedRight_def)
  with j assms(3) have "revokedKey digest j s'"
    by (auto simp: disableKeyOf_def revoke_def revokedKey_def update_conv' Let_def
        split: option.splits if_splits)
  moreover have "keyedRight s'"
    using keyedRight_step [OF assms(1), of "OpDisableKeyOf merchantId (keyId key) t"] assms(3)
    by simp
  ultimately show ?thesis
    using revocations.run_keeps [of s' digest j ops] revokedKey_closed [of digest j]
    by (simp add: run_machine_fold)
qed

definition keyStore :: MemoryStore where
  "keyStore =
     fold storeStep
       [OpAddMerchant ''mer_1'' ''Shop'' 1,
        OpAddKey ''key_1'' ''mer_1'' ''mine'' ''digest'' KeyForMerchantCode 2] emptyStore"

theorem revoked_key_never_works_again_witness:
  "workingKey ''digest'' keyStore \<noteq> None
    \<and> workingKey ''digest'' (fold storeStep [OpNoteKeyUse ''key_1'' 9, OpForgetCabinetKey ''key_1'']
         (snd (disableKeyOf ''mer_1'' ''key_1'' 5 keyStore))) = None"
proof -
  let ?key = "\<lparr>keyId = ''key_1'', keyMerchantId = ''mer_1'', keyLabel = ''mine'',
    keyPurpose = KeyForMerchantCode, keyCreatedAt = 2, keyDisabledAt = None,
    keyLastUsedAt = None\<rparr>"
  have inv: "keyedRight keyStore"
    unfolding keyStore_def by (rule claims.inv_run) (rule keyedRight_empty)
  have works: "workingKey ''digest'' keyStore = Some ?key"
    by (simp add: keyStore_def emptyStore_def store_defs workingKey_def)
  obtain stored s' where off: "disableKeyOf ''mer_1'' (keyId ?key) 5 keyStore = (KeyDisabled stored, s')"
    by (simp add: keyStore_def emptyStore_def store_defs)
  from revoked_key_never_works_again
    [OF inv works off, of "[OpNoteKeyUse ''key_1'' 9, OpForgetCabinetKey ''key_1'']"] works off
  show ?thesis by simp
qed

section \<open>Whose is it\<close>

datatype OwnedThing = OrderThing string | ReceiptThing string | CardThing string

fun ownerOf :: "MemoryStore \<Rightarrow> OwnedThing \<Rightarrow> string option" where
  "ownerOf s (OrderThing i) = map_option saleMerchant (map_of (ordersMap s) i)"
| "ownerOf s (ReceiptThing i) = map_option fst (map_of (receiptsMap s) i)"
| "ownerOf s (CardThing i) = map_option storedCardMerchantId (map_of (cardsMap s) i)"

text \<open>
  What publishing relies on: the identifier drawn for a new card is new, and a merchant's
  identifier does not carry the separator of the catalog keys.
\<close>

fun opAllowed :: "StoreOp \<Rightarrow> MemoryStore \<Rightarrow> bool" where
  "opAllowed (OpPublishCard m c t fresh) s =
     (CHR 0x00 \<notin> set m \<and> map_of (cardsMap s) fresh = None)"
| "opAllowed _ s = True"

lemma catalogKey_inject:
  assumes "CHR 0x00 \<notin> set m" and "CHR 0x00 \<notin> set m'" and "catalogKey m x = catalogKey m' x'"
  shows "m = m' \<and> x = x'"
proof -
  have "takeWhile (\<lambda>a. a \<noteq> CHR 0x00) (catalogKey m x) = m"
    "takeWhile (\<lambda>a. a \<noteq> CHR 0x00) (catalogKey m' x') = m'"
    using assms(1,2) by (auto simp: catalogKey_def takeWhile_append)
  with assms(3) show ?thesis by (auto simp: catalogKey_def)
qed

definition cardKeysRight :: "MemoryStore \<Rightarrow> bool" where
  "cardKeysRight s =
     (\<forall>k i. map_of (cardIdByMerchantKey s) k = Some i \<longrightarrow>
        (\<exists>c. map_of (cardsMap s) i = Some c \<and> CHR 0x00 \<notin> set (storedCardMerchantId c)
           \<and> k = catalogKey (storedCardMerchantId c) (cardMerchantItemId (storedCard c))))"

lemma cardKeysRightD:
  assumes "cardKeysRight s" and "map_of (cardIdByMerchantKey s) k = Some i"
  obtains c where "map_of (cardsMap s) i = Some c" "CHR 0x00 \<notin> set (storedCardMerchantId c)"
    "k = catalogKey (storedCardMerchantId c) (cardMerchantItemId (storedCard c))"
  using assms by (auto simp: cardKeysRight_def)

lemma publishCard_owner:
  assumes inv: "cardKeysRight s" and m: "CHR 0x00 \<notin> set m" and fresh: "map_of (cardsMap s) f = None"
    and there: "map_of (cardsMap s) i = Some was"
  shows "\<exists>c'. map_of (cardsMap (snd (publishCard m c t f s))) i = Some c'
    \<and> storedCardMerchantId c' = storedCardMerchantId was"
proof (cases "map_of (cardIdByMerchantKey s) (catalogKey m (cardMerchantItemId c))")
  case None
  with fresh there show ?thesis
    by (auto simp: publishCard_def update_conv' Let_def)
next
  case (Some known)
  then obtain k where k: "map_of (cardsMap s) known = Some k"
    "CHR 0x00 \<notin> set (storedCardMerchantId k)"
    "catalogKey m (cardMerchantItemId c)
      = catalogKey (storedCardMerchantId k) (cardMerchantItemId (storedCard k))"
    by (rule cardKeysRightD [OF inv])
  with m have "storedCardMerchantId k = m" by (auto dest: catalogKey_inject)
  with Some there k(1) show ?thesis by (auto simp: publishCard_def update_conv' Let_def)
qed

lemma publishCard_keysRight:
  assumes inv: "cardKeysRight s" and m: "CHR 0x00 \<notin> set m" and fresh: "map_of (cardsMap s) f = None"
  shows "cardKeysRight (snd (publishCard m c t f s))"
  unfolding cardKeysRight_def
proof (intro allI impI)
  fix k i
  let ?owned = "catalogKey m (cardMerchantItemId c)"
  assume k: "map_of (cardIdByMerchantKey (snd (publishCard m c t f s))) k = Some i"
  show "\<exists>c'. map_of (cardsMap (snd (publishCard m c t f s))) i = Some c'
      \<and> CHR 0x00 \<notin> set (storedCardMerchantId c')
      \<and> k = catalogKey (storedCardMerchantId c') (cardMerchantItemId (storedCard c'))"
  proof (cases "k = ?owned")
    case True
    with k m show ?thesis
      by (auto simp: publishCard_def update_conv' Let_def split: option.splits)
  next
    case False
    then have "map_of (cardIdByMerchantKey s) k = Some i"
      using k by (simp add: publishCard_def update_conv' Let_def)
    then obtain c0 where c0: "map_of (cardsMap s) i = Some c0"
      "CHR 0x00 \<notin> set (storedCardMerchantId c0)"
      "k = catalogKey (storedCardMerchantId c0) (cardMerchantItemId (storedCard c0))"
      by (rule cardKeysRightD [OF inv])
    have "map_of (cardIdByMerchantKey s) ?owned \<noteq> Some i"
      using False c0 by (auto elim: cardKeysRightD [OF inv])
    moreover have "i \<noteq> f" using c0(1) fresh by auto
    ultimately show ?thesis
      using c0 by (auto simp: publishCard_def update_conv' Let_def split: option.splits)
  qed
qed

lemma setCardPaused_card:
  "map_of (cardsMap s) i = Some c \<Longrightarrow>
   \<exists>c'. map_of (cardsMap (snd (setCardPaused m j p s))) i = Some c'
     \<and> storedCardMerchantId c' = storedCardMerchantId c \<and> storedCard c' = storedCard c"
  by (auto simp: setCardPaused_def update_conv' Let_def split: option.split)

lemma cardKeysRight_step:
  assumes inv: "cardKeysRight s" and ok: "opAllowed op s"
  shows "cardKeysRight (storeStep op s)"
proof (cases op)
  case (OpPublishCard m c t f)
  with ok show ?thesis by (simp add: publishCard_keysRight [OF inv])
next
  case (OpSetCardPaused m i p)
  have keys: "cardIdByMerchantKey (storeStep op s) = cardIdByMerchantKey s"
    unfolding storeStep_cardKeys OpSetCardPaused by simp
  have "\<exists>c'. map_of (cardsMap (storeStep op s)) j = Some c'
      \<and> storedCardMerchantId c' = storedCardMerchantId c \<and> storedCard c' = storedCard c"
    if "map_of (cardsMap s) j = Some c" for j c
    using setCardPaused_card [OF that, of m i p] by (simp add: OpSetCardPaused)
  with inv show ?thesis unfolding cardKeysRight_def keys by metis
qed (use inv in \<open>simp_all only: cardKeysRight_def storeStep_cards storeStep_cardKeys
      StoreOp.case\<close>)

lemma ownerOf_step:
  assumes inv: "cardKeysRight s" and ok: "opAllowed op s" and mine: "ownerOf s x = Some m"
  shows "ownerOf (storeStep op s) x = Some m"
proof (cases x)
  case (OrderThing i)
  with mine show ?thesis
    by (cases op) (auto simp: storeStep_orders addOrder_def saveHeld_def update_conv'
        simp del: storeStep.simps split: option.splits sum.splits)
next
  case (ReceiptThing i)
  with mine show ?thesis
    by (cases op) (auto simp: storeStep_receipts putReceipt_def update_conv'
        simp del: storeStep.simps split: option.splits)
next
  case (CardThing i)
  with mine obtain was where was: "map_of (cardsMap s) i = Some was"
    and m: "storedCardMerchantId was = m"
    by auto
  show ?thesis
  proof (cases op)
    case (OpPublishCard k c t f)
    with ok publishCard_owner [OF inv _ _ was, of k f c t] m CardThing show ?thesis by auto
  next
    case (OpSetCardPaused k j p)
    with setCardPaused_card [OF was, of k j p] m CardThing show ?thesis by auto
  qed (use was m CardThing in \<open>simp_all add: storeStep_cards del: storeStep.simps\<close>)
qed

interpretation ownership: owned_things storeStep cardKeysRight opAllowed ownerOf
  by unfold_locales (auto intro: cardKeysRight_step ownerOf_step)

text \<open>What belongs to a merchant never changes hands: an order, a receipt or a card keeps its
  merchant through any sequence of the store's operations, a held decision that saves a
  record naming another merchant included, and an order is never found by another
  merchant's key.\<close>

theorem ownership_never_changes_hands:
  assumes "cardKeysRight s" and "allAllowed storeStep opAllowed ops s" and "ownerOf s x = Some m"
  shows "ownerOf (fold storeStep ops s) x = Some m
    \<and> (\<forall>i stranger. x = OrderThing i \<and> stranger \<noteq> m \<longrightarrow>
          merchantOrder stranger i (fold storeStep ops s) = None)"
proof -
  have kept: "ownerOf (fold storeStep ops s) x = Some m"
    by (rule ownership.owned_run [OF assms])
  then have "merchantOrder stranger i (fold storeStep ops s) = None"
    if "x = OrderThing i" "stranger \<noteq> m" for i stranger
    using that by (auto simp: merchantOrder_def split: option.splits)
  with kept show ?thesis by blast
qed

definition sampleCard :: Card where
  "sampleCard =
     \<lparr>cardMerchantItemId = ''SKU 100/1'', cardFulfillment = Sync,
      cardMoney = \<lparr>moneyAmount = ''5.00'', moneyCurrency = ''USD''\<rparr>, cardPriceCheck = None,
      cardConfirmDeadlineSeconds = None, cardFulfillDeadlineSeconds = None, cardRest = []\<rparr>"

theorem ownership_never_changes_hands_witness:
  "ownerOf (fold storeStep
       [OpPublishCard ''mer_2'' sampleCard 3 ''item_2'', OpSetCardPaused ''mer_2'' ''item_1'' True]
       (snd (publishCard ''mer_1'' sampleCard 1 ''item_1'' emptyStore))) (CardThing ''item_1'')
     = Some ''mer_1''"
proof -
  let ?s = "snd (publishCard ''mer_1'' sampleCard 1 ''item_1'' emptyStore)"
  have "cardKeysRight ?s"
    by (rule publishCard_keysRight) (simp_all add: cardKeysRight_def emptyStore_def)
  moreover have cards: "map fst (cardsMap ?s) = [''item_1'']"
    and owner: "ownerOf ?s (CardThing ''item_1'') = Some ''mer_1''"
    by (simp_all add: publishCard_def emptyStore_def Let_def)
  moreover have "map_of (cardsMap ?s) ''item_2'' = None"
    using cards by (auto simp: map_of_eq_None_iff)
  then have "allAllowed storeStep opAllowed
      [OpPublishCard ''mer_2'' sampleCard 3 ''item_2'', OpSetCardPaused ''mer_2'' ''item_1'' True] ?s"
    by simp
  ultimately show ?thesis using ownership_never_changes_hands by blast
qed

section \<open>Publishing and registering\<close>

text \<open>Publishing a product again under the merchant's own identifier edits the card that is
  there: it keeps its catalog identifier and its pause, adds no second card, and is what a
  buyer then reads.\<close>

theorem republishing_edits_the_card:
  assumes "publishCard m c t f s = (was, sa)"
    and "setCardPaused m (storedCardId was) paused sa = (held, sb)"
    and "cardMerchantItemId c' = cardMerchantItemId c"
    and "publishCard m c' t' f' sb = (now, sc)"
  shows "storedCardId now = storedCardId was \<and> storedCardPaused now = paused
    \<and> storedCard now = c' \<and> cardById (storedCardId was) sc = Some now
    \<and> fst ` set (cardsMap sc) = fst ` set (cardsMap sa)"
proof -
  let ?owned = "catalogKey m (cardMerchantItemId c)" and ?i = "storedCardId was"
  have one: "map_of (cardIdByMerchantKey sa) ?owned = Some ?i"
    "map_of (cardsMap sa) ?i = Some was" "storedCardMerchantId was = m"
    using assms(1) by (auto simp: publishCard_def update_conv' Let_def)
  with assms(2) have two: "cardIdByMerchantKey sb = cardIdByMerchantKey sa"
    "map_of (cardsMap sb) ?i = Some (was\<lparr>storedCardPaused := paused\<rparr>)"
    "cardsMap sb = AList.update ?i (was\<lparr>storedCardPaused := paused\<rparr>) (cardsMap sa)"
    by (auto simp: setCardPaused_def update_conv' Let_def)
  then have there: "?i \<in> fst ` set (cardsMap sb)"
    by (metis map_of_SomeD fst_conv image_eqI)
  have three: "storedCardId now = ?i \<and> storedCardPaused now = paused \<and> storedCard now = c'"
    "cardsMap sc = AList.update ?i now (cardsMap sb)"
    using assms(3,4) one(1) two(1,2) by (auto simp: publishCard_def Let_def)
  have "fst ` set (cardsMap sc) = fst ` set (cardsMap sb)"
    using there by (simp add: three(2) dom_update insert_absorb)
  also have "\<dots> = fst ` set (cardsMap sa)"
    using map_of_SomeD [OF one(2)] by (force simp: two(3) dom_update)
  finally show ?thesis using three by (simp add: cardById_def update_conv')
qed

theorem republishing_edits_the_card_witness:
  "storedCardPaused (fst (publishCard ''mer_1'' sampleCard 9 ''item_2''
     (snd (setCardPaused ''mer_1'' ''item_1'' True
        (snd (publishCard ''mer_1'' sampleCard 1 ''item_1'' emptyStore))))))"
proof -
  let ?p1 = "publishCard ''mer_1'' sampleCard 1 ''item_1'' emptyStore"
  have i: "storedCardId (fst ?p1) = ''item_1''"
    by (simp add: publishCard_def emptyStore_def Let_def)
  show ?thesis
    using republishing_edits_the_card
      [where was = "fst ?p1" and paused = True and t' = 9 and f' = "''item_2''", unfolded i,
       OF prod.collapse [symmetric] prod.collapse [symmetric] refl prod.collapse [symmetric]]
    by (simp add: i)
qed

text \<open>Registering writes a merchant and their cabinet's key together or not at all: it is
  refused exactly where the identifier is taken, a key that cannot be written leaves the
  store as it was, and otherwise the key works and belongs to the new merchant, who is
  open, unnamed and paid nowhere.\<close>

theorem registering_is_all_or_nothing:
  "case registerMerchant i name k label digest t s of
     (Inr (Some (merchant, key)), s') \<Rightarrow>
       workingKey digest s' = Some key \<and> keyMerchantId key = i
       \<and> merchantById i s' = Some merchant \<and> merchantSelling merchant = SellingOpen
       \<and> \<not> listedUnder (merchantServiceName merchant) \<and> merchantPayoutWallet merchant = None
   | (Inr None, s') \<Rightarrow> s' = s \<and> merchantById i s \<noteq> None
   | (Inl thrown, s') \<Rightarrow> s' = s \<and> merchantById i s = None"
proof -
  have undo: "AList.delete i (AList.update i row m) = m" if "map_of m i = None"
    for row :: StoredMerchant and m
    using that by (simp add: delete_update_same map_of_eq_None_iff)
  show ?thesis
    by (auto simp: registerMerchant_def writeKey_def undo merchantById_def workingKey_def
        newMerchant_def listedUnder_def update_conv' Let_def split: option.split)
qed

end
