(* ===== verification/Gateway_Tenants.thy ===== *)
theory Gateway_Tenants
  imports Gateway_Shop Gateway_Store_Laws
begin

text \<open>
  The merchants of one gateway kept apart. The contract is the locale \<open>kept_apart\<close>: whatever
  is done in somebody else's name leaves one's own view as it was. It is interpreted on
  the store's operations, each of which is done in some merchant's name, and on the calls of
  \<^verbatim>\<open>Gateway_Shop\<close>, each of which is an operation of the store at most.
\<close>

section \<open>The contract\<close>

primrec othersOnly ::
  "('op \<Rightarrow> 's \<Rightarrow> 's) \<Rightarrow> ('op \<Rightarrow> 's \<Rightarrow> 'm option) \<Rightarrow> 'm \<Rightarrow> 'op list \<Rightarrow> 's \<Rightarrow> bool" where
  "othersOnly step whose m [] s = True"
| "othersOnly step whose m (op # ops) s = (whose op s \<noteq> Some m \<and> othersOnly step whose m ops (step op s))"

locale kept_apart =
  fixes step :: "'op \<Rightarrow> 's \<Rightarrow> 's"
    and inv :: "'s \<Rightarrow> bool"
    and allowed :: "'op \<Rightarrow> 's \<Rightarrow> bool"
    and whose :: "'op \<Rightarrow> 's \<Rightarrow> 'm option"
    and view :: "'m \<Rightarrow> 's \<Rightarrow> 'v"
  assumes keeps: "inv s \<Longrightarrow> allowed op s \<Longrightarrow> inv (step op s)"
    and apart: "inv s \<Longrightarrow> allowed op s \<Longrightarrow> whose op s \<noteq> Some m \<Longrightarrow> view m (step op s) = view m s"
begin

lemma run_apart:
  "inv s \<Longrightarrow> allAllowed step allowed ops s \<Longrightarrow> othersOnly step whose m ops s
   \<Longrightarrow> view m (fold step ops s) = view m s"
  by (induction ops arbitrary: s) (simp_all add: keeps apart)

lemma run_keeps: "inv s \<Longrightarrow> allAllowed step allowed ops s \<Longrightarrow> inv (fold step ops s)"
  by (induction ops arbitrary: s) (simp_all add: keeps)

end

section \<open>What one merchant sees of the store\<close>

record TenantView =
  seesHimself :: "StoredMerchant option"
  seesKeys :: "StoredKey list"
  seesCards :: "StoredCard list"
  seesOrders :: "StoredOrder list"
  seesReceipts :: "Receipt list"
  seesOrder :: "string \<Rightarrow> StoredOrder option"

definition tenantView :: "string \<Rightarrow> MemoryStore \<Rightarrow> TenantView" where
  "tenantView m s =
     \<lparr>seesHimself = map_of (merchantsMap s) m,
      seesKeys = filter (\<lambda>k. keyMerchantId k = m) (mapValues (keysMap s)),
      seesCards = cards m s, seesOrders = orders m False s, seesReceipts = receipts m s,
      seesOrder = (\<lambda>i. merchantOrder m i s)\<rparr>"

definition tenantsRight :: "MemoryStore \<Rightarrow> bool" where
  "tenantsRight s \<longleftrightarrow>
     keyedRight s \<and> cardKeysRight s \<and> distinct (map fst (keysMap s))"

definition keyHolder :: "MemoryStore \<Rightarrow> string \<Rightarrow> string option" where
  "keyHolder s i = map_option keyMerchantId (map_of (keysMap s) i)"

text \<open>In whose name an operation of the store is done.\<close>

fun doneFor :: "StoreOp \<Rightarrow> MemoryStore \<Rightarrow> string option" where
  "doneFor (OpAddMerchant i name t) s = Some i"
| "doneFor (OpRegisterMerchant i name k label digest t) s = Some i"
| "doneFor (OpSetServiceName i name) s = Some i"
| "doneFor (OpSetPayoutWallet i wallet) s = Some i"
| "doneFor (OpAddKey i m label digest purpose t) s = Some m"
| "doneFor (OpNoteKeyUse i t) s = keyHolder s i"
| "doneFor (OpForgetCabinetKey i) s = keyHolder s i"
| "doneFor (OpDisableKey i t) s = keyHolder s i"
| "doneFor (OpDisableKeyOf m i t) s = Some m"
| "doneFor (OpPublishCard m c t fresh) s = Some m"
| "doneFor (OpSetCardPaused m i paused) s = Some m"
| "doneFor (OpSetSelling m word) s = Some m"
| "doneFor (OpAddOrder r) s = Some (saleMerchant r)"
| "doneFor (OpSaveHeld i save) s = map_option saleMerchant (map_of (ordersMap s) i)"
| "doneFor (OpPutReceipt m receipt) s =
     Some (case map_of (receiptsMap s) (receiptOrderId receipt) of
             None \<Rightarrow> m | Some (holder, was) \<Rightarrow> holder)"
| "doneFor _ s = None"

lemma filter_values_update:
  assumes "\<And>old. map_of al k = Some old \<Longrightarrow> \<not> P old" and "\<not> P v"
  shows "filter P (map snd (AList.update k v al)) = filter P (map snd al)"
  using assms by (induction al) (auto split: if_splits)

lemma filter_values_delete:
  assumes "distinct (map fst al)" and "\<And>old. map_of al k = Some old \<Longrightarrow> \<not> P old"
  shows "filter P (map snd (AList.delete k al)) = filter P (map snd al)"
  using assms
proof (induction al)
  case Nil
  then show ?case by simp
next
  case (Cons a al)
  obtain k' v where a: "a = (k', v)" by (cases a)
  show ?case
  proof (cases "k' = k")
    case True
    then have "k \<notin> fst ` set al" using Cons.prems(1) a by simp
    then have "AList.delete k al = al" by (simp add: delete_id)
    then show ?thesis using Cons.prems(2) True a by simp
  next
    case False
    then show ?thesis using Cons a by simp
  qed
qed

lemma merchantsMap_apart:
  "doneFor op s \<noteq> Some m \<Longrightarrow> map_of (merchantsMap (storeStep op s)) m = map_of (merchantsMap s) m"
  by (cases op) (auto simp: store_defs update_conv' delete_conv' split: option.split sum.split)

lemma keys_apart:
  assumes inv: "tenantsRight s" and others: "doneFor op s \<noteq> Some m"
  shows "filter (\<lambda>k. keyMerchantId k = m) (map snd (keysMap (storeStep op s)))
    = filter (\<lambda>k. keyMerchantId k = m) (map snd (keysMap s))"
proof -
  have ids: "map_of (keysMap s) i = Some k \<Longrightarrow> keyId k = i" for i k
    using inv by (simp add: tenantsRight_def keyedRight_def)
  let ?mine = "\<lambda>k. keyMerchantId k = m"
  have dist: "distinct (map fst (keysMap s))" using inv by (simp add: tenantsRight_def)
  have written: "filter ?mine (map snd (AList.update (keyId k) v (keysMap s)))
      = filter ?mine (map snd (keysMap s))"
    if "map_of (keysMap s) i = Some k" "keyMerchantId k \<noteq> m" "keyMerchantId v \<noteq> m" for i k v
    using that ids [OF that(1)] by (intro filter_values_update) auto
  have added: "filter ?mine (map snd (AList.update i v (keysMap s))) = filter ?mine (map snd (keysMap s))"
    if "map_of (keysMap s) i = None" "keyMerchantId v \<noteq> m" for i v
    using that by (intro filter_values_update) auto
  have gone: "filter ?mine (map snd (AList.delete (keyId k) (keysMap s)))
      = filter ?mine (map snd (keysMap s))"
    if "map_of (keysMap s) i = Some k" "keyMerchantId k \<noteq> m" for i k
    using that ids [OF that(1)] by (intro filter_values_delete [OF dist]) auto
  show ?thesis
    unfolding storeStep_keys
    using others
    by (cases op)
      (auto simp: store_defs keyHolder_def intro: written added gone split: option.splits sum.splits)
qed

lemma cards_apart:
  assumes inv: "tenantsRight s" and ok: "opAllowed op s" and others: "doneFor op s \<noteq> Some m"
  shows "filter (\<lambda>c. storedCardMerchantId c = m) (map snd (cardsMap (storeStep op s)))
    = filter (\<lambda>c. storedCardMerchantId c = m) (map snd (cardsMap s))"
proof (cases op)
  case (OpPublishCard m' c t fresh)
  let ?owned = "catalogKey m' (cardMerchantItemId c)"
  have right: "cardKeysRight s" using inv by (simp add: tenantsRight_def)
  have m': "CHR 0x00 \<notin> set m'" "map_of (cardsMap s) fresh = None" "m' \<noteq> m"
    using ok others OpPublishCard by auto
  have mine: "storedCardMerchantId was = m'"
    if "map_of (cardIdByMerchantKey s) ?owned = Some i" "map_of (cardsMap s) i = Some was" for i was
    using cardKeysRightD [OF right that(1)] that(2) m'(1) catalogKey_inject by (metis option.inject)
  show ?thesis
    unfolding storeStep_cards OpPublishCard
    using m' mine
    by (auto simp: publishCard_def Let_def intro!: filter_values_update split: option.splits)
next
  case (OpSetCardPaused m' i paused)
  then show ?thesis
    unfolding storeStep_cards using others
    by (auto simp: setCardPaused_def Let_def intro!: filter_values_update split: option.splits)
qed (simp_all add: storeStep_cards del: storeStep.simps)

lemma orders_apart:
  assumes "doneFor op s \<noteq> Some m"
  shows "filter (\<lambda>r. saleMerchant r = m) (map snd (ordersMap (storeStep op s)))
      = filter (\<lambda>r. saleMerchant r = m) (map snd (ordersMap s))"
    and "merchantOrder m i (storeStep op s) = merchantOrder m i s"
  unfolding merchantOrder_def storeStep_orders using assms
  by (cases op; auto simp: addOrder_def saveHeld_def update_conv'
        intro!: filter_values_update split: option.splits sum.splits)+

lemma receipts_apart:
  assumes "doneFor op s \<noteq> Some m"
  shows "filter (\<lambda>held. fst held = m) (map snd (receiptsMap (storeStep op s)))
      = filter (\<lambda>held. fst held = m) (map snd (receiptsMap s))"
  unfolding storeStep_receipts using assms
  by (cases op) (auto simp: putReceipt_def intro!: filter_values_update split: option.splits)

lemma tenantsRight_step:
  assumes "tenantsRight s" and "opAllowed op s"
  shows "tenantsRight (storeStep op s)"
proof -
  have "distinct (map fst (keysMap (storeStep op s)))"
    using assms(1) unfolding storeStep_keys
    by (cases op) (auto simp: tenantsRight_def store_defs distinct_update distinct_delete
        split: option.split sum.split)
  then show ?thesis
    using assms keyedRight_step cardKeysRight_step unfolding tenantsRight_def by blast
qed

interpretation tenants: kept_apart storeStep tenantsRight opAllowed doneFor tenantView
proof
  fix s op
  assume inv: "tenantsRight s" and ok: "opAllowed op s"
  show "tenantsRight (storeStep op s)" by (rule tenantsRight_step [OF inv ok])
  fix m
  assume others: "doneFor op s \<noteq> Some m"
  show "tenantView m (storeStep op s) = tenantView m s"
    unfolding tenantView_def cards_def orders_def receipts_def mapValues_def
    using merchantsMap_apart [OF others] keys_apart [OF inv others] cards_apart [OF inv ok others]
      orders_apart [OF others] receipts_apart [OF others]
    by simp
qed

section \<open>The calls of a merchant\<close>

text \<open>
  Everything a merchant, or a cabinet for him, can have changed through \<^verbatim>\<open>Gateway_Shop\<close>. The
  body of a publication comes with what the schema said of it.
\<close>

datatype ShopCall =
    CallPublish string "Problem list + Card"
  | CallPause string string bool
  | CallSwitch string MerchantSelling
  | CallName string string
  | CallWallet string string
  | CallIssueKey string string string
  | CallIssueCabinetKey string KeyPurpose string
  | CallForgetKey string KeyPurpose
  | CallDisableKey string string string

definition quietly :: "'a flow \<Rightarrow> unit flow" where
  "quietly m = andThen m (\<lambda>_. returns ())"

fun shopCall :: "(string \<Rightarrow> string) \<Rightarrow> Runtime \<Rightarrow> ShopCall \<Rightarrow> unit flow" where
  "shopCall digest rt (CallPublish m body) = quietly (publishToCatalog (\<lambda>b. b) rt m body)"
| "shopCall digest rt (CallPause m item paused) = quietly (pauseCard rt m item paused)"
| "shopCall digest rt (CallSwitch m word) = quietly (switchSelling rt m word)"
| "shopCall digest rt (CallName m name) = quietly (setSellerName rt m name)"
| "shopCall digest rt (CallWallet m wallet) = quietly (setWallet rt m wallet)"
| "shopCall digest rt (CallIssueKey m label drawn) = quietly (issueMerchantKey digest rt drawn m label)"
| "shopCall digest rt (CallIssueCabinetKey m purpose drawn) =
     quietly (issueForCabinet digest rt drawn m purpose)"
| "shopCall digest rt (CallForgetKey thisCall purpose) = quietly (forgetThisCabinetKey thisCall purpose)"
| "shopCall digest rt (CallDisableKey m i thisCall) = quietly (disableMerchantKey rt m i thisCall)"

definition afterCall :: "(string \<Rightarrow> string) \<Rightarrow> Runtime \<Rightarrow> ShopCall \<Rightarrow> World \<Rightarrow> World" where
  "afterCall digest rt c w = snd (shopCall digest rt c w)"

fun callFor :: "ShopCall \<Rightarrow> World \<Rightarrow> string option" where
  "callFor (CallPublish m body) w = Some m"
| "callFor (CallPause m item paused) w = Some m"
| "callFor (CallSwitch m word) w = Some m"
| "callFor (CallName m name) w = Some m"
| "callFor (CallWallet m wallet) w = Some m"
| "callFor (CallIssueKey m label drawn) w = Some m"
| "callFor (CallIssueCabinetKey m purpose drawn) w = Some m"
| "callFor (CallForgetKey thisCall purpose) w = keyHolder (worldStore w) thisCall"
| "callFor (CallDisableKey m i thisCall) w = Some m"

text \<open>Publishing relies on a new identifier and on a merchant's name without the separator.\<close>

fun callAllowed :: "Runtime \<Rightarrow> ShopCall \<Rightarrow> World \<Rightarrow> bool" where
  "callAllowed rt (CallPublish m body) w \<longleftrightarrow>
     CHR 0x00 \<notin> set m \<and> map_of (cardsMap (worldStore w)) (idAt rt ''item'' (idsDrawn w)) = None"
| "callAllowed rt _ w \<longleftrightarrow> True"

definition doneAs :: "string option \<Rightarrow> MemoryStore \<Rightarrow> MemoryStore \<Rightarrow> bool" where
  "doneAs who s s' \<longleftrightarrow>
     s' = s \<or> (\<exists>op. opAllowed op s \<and> doneFor op s = who \<and> s' = storeStep op s)"

lemma doneAs_same [simp]: "doneAs who s s"
  by (simp add: doneAs_def)

lemma doneAsI: "opAllowed op s \<Longrightarrow> doneFor op s = who \<Longrightarrow> s' = storeStep op s \<Longrightarrow> doneAs who s s'"
  by (auto simp: doneAs_def)

lemma storeCard_done:
  assumes "CHR 0x00 \<notin> set m" and "map_of (cardsMap (worldStore w)) (idAt rt ''item'' (idsDrawn w)) = None"
  shows "doneAs (Some m) (worldStore w) (worldStore (snd (storeCard rt m c t w)))"
proof (rule doneAsI [of "OpPublishCard m c t (idAt rt ''item'' (idsDrawn w))"])
  show "worldStore (snd (storeCard rt m c t w)) =
      storeStep (OpPublishCard m c t (idAt rt ''item'' (idsDrawn w))) (worldStore w)"
    by (auto simp: storeCard_def flow_defs publishCard_def Let_def split: option.split)
qed (use assms in simp_all)

lemma publish_done:
  assumes "callAllowed rt (CallPublish m body) w"
  shows "doneAs (Some m) (worldStore w) (worldStore (snd (publishToCatalog (\<lambda>b. b) rt m body w)))"
proof -
  have stored: "doneAs (Some m) (worldStore w) (worldStore (snd (andThen (storeCard rt m c t)
      (\<lambda>stored. returns (Published (storedCardId stored))) (w\<lparr>clockReads := n\<rparr>))))" for c t n
    using storeCard_done [of m "w\<lparr>clockReads := n\<rparr>" rt c t] assms
    by (auto simp: flow_defs split: sum.split prod.split)
  show ?thesis
    using stored
    by (auto simp: publishToCatalog_def cardRejected_def andThen_def readStore_def readClock_def
        returns_def throws_def Let_def split: sum.split list.split)
qed

lemma issue_done:
  "doneAs (Some m) (worldStore w) (worldStore (snd (issueKeyFor digest rt m label purpose t e drawn w)))"
proof -
  let ?op = "OpAddKey (idAt rt ''mk'' (idsDrawn w)) m label (digest (newKeySecret e drawn)) purpose t"
  have "worldStore (snd (issueKeyFor digest rt m label purpose t e drawn w)) = storeStep ?op (worldStore w)"
    by (simp add: issueKeyFor_def tryStore_def flow_defs afterwards_def Let_def
        split: sum.split prod.split)
  then show ?thesis by (intro doneAsI [of ?op]) simp_all
qed

lemma quietly_world [simp]: "snd (quietly m w) = snd (m w)"
  by (simp add: quietly_def flow_defs split: prod.split sum.split)

lemma andThen_kept:
  assumes "\<And>x w'. worldStore (snd (f x w')) = worldStore w'"
  shows "worldStore (snd (andThen m f w)) = worldStore (snd (m w))"
  using assms by (simp add: andThen_def split: prod.split sum.split)

lemma howTheySell_kept [simp]: "snd (howTheySell rt m w) = w"
  by (simp add: howTheySell_def flow_defs split: option.split)

lemma merchantCards_kept [simp]: "snd (merchantCards rt m w) = w"
  by (auto simp: merchantCards_def howTheySell_def flow_defs split: option.split)

lemma merchantCards_world: "merchantCards rt m w = (r, w') \<Longrightarrow> w' = w"
  using merchantCards_kept [of rt m w] by simp

lemma call_done:
  assumes "callAllowed rt c w"
  shows "doneAs (callFor c w) (worldStore w) (worldStore (afterCall digest rt c w))"
proof (cases c)
  case (CallPublish m body)
  then show ?thesis using publish_done [of rt m body w] assms by (simp add: afterCall_def)
next
  case (CallPause m item paused)
  have "worldStore (snd (pauseCard rt m item paused w)) = storeStep (OpSetCardPaused m item paused) (worldStore w)"
    by (auto simp: pauseCard_def howTheySell_def flow_defs split: option.split prod.split)
  with CallPause show ?thesis
    by (auto simp: afterCall_def intro!: doneAsI [of "OpSetCardPaused m item paused"])
next
  case (CallSwitch m word)
  have "doneAs (Some m) (worldStore w) (storeStep (OpSetSelling m word) (worldStore w))"
    by (rule doneAsI [of "OpSetSelling m word"]) simp_all
  with CallSwitch show ?thesis
    by (auto simp: afterCall_def switchSelling_def tryStore_def andThen_def returns_def sellingOf_def
        dest!: merchantCards_world split: option.split sum.split prod.split)
next
  case (CallName m name)
  have "doneAs (Some m) (worldStore w) (storeStep (OpSetServiceName m (Some name)) (worldStore w))"
    by (rule doneAsI [of "OpSetServiceName m (Some name)"]) simp_all
  with CallName show ?thesis
    by (auto simp: afterCall_def setSellerName_def nameMerchant_def flow_defs
        split: option.split sum.split prod.split)
next
  case (CallWallet m wallet)
  have "doneAs (Some m) (worldStore w) s'" if "setPayoutWallet m address (worldStore w) = (r, s')"
    for address r s'
    using that by (intro doneAsI [of "OpSetPayoutWallet m address"]) simp_all
  with CallWallet show ?thesis
    by (auto simp: afterCall_def setWallet_def payMerchantAt_def flow_defs
        split: option.split sum.split prod.split)
next
  case (CallIssueKey m label drawn)
  have "worldStore (snd (issueMerchantKey digest rt drawn m label w)) =
      worldStore (snd (issueKeyFor digest rt m label KeyForMerchantCode (clockAt rt (clockReads w))
        (cfgEnvironment (config rt)) drawn (w\<lparr>clockReads := clockReads w + 1\<rparr>)))"
    by (simp add: issueMerchantKey_def issueKey_def flow_defs split: prod.split sum.split)
  with CallIssueKey show ?thesis
    using issue_done [of m "w\<lparr>clockReads := clockReads w + 1\<rparr>"] by (simp add: afterCall_def)
next
  case (CallIssueCabinetKey m purpose drawn)
  have "worldStore (snd (issueForCabinet digest rt drawn m purpose w)) =
      (if purpose = KeyForCabinet then
         worldStore (snd (issueKeyFor digest rt m CABINET_KEY_LABEL KeyForCabinet
           (clockAt rt (clockReads w)) (cfgEnvironment (config rt)) drawn
           (w\<lparr>clockReads := clockReads w + 1\<rparr>)))
       else worldStore w)"
    by (simp add: issueForCabinet_def issueCabinetKey_def flow_defs split: prod.split sum.split)
  with CallIssueCabinetKey show ?thesis
    using issue_done [of m "w\<lparr>clockReads := clockReads w + 1\<rparr>"] by (simp add: afterCall_def)
next
  case (CallForgetKey thisCall purpose)
  have "doneAs (keyHolder (worldStore w) thisCall) (worldStore w)
      (storeStep (OpForgetCabinetKey thisCall) (worldStore w))"
    by (rule doneAsI [of "OpForgetCabinetKey thisCall"]) simp_all
  with CallForgetKey show ?thesis
    by (auto simp: afterCall_def forgetThisCabinetKey_def flow_defs split: prod.split)
next
  case (CallDisableKey m i thisCall)
  have "doneAs (Some m) (worldStore w) s'" if "disableKeyOf m i t (worldStore w) = (r, s')" for t r s'
    using that by (intro doneAsI [of "OpDisableKeyOf m i t"]) simp_all
  with CallDisableKey show ?thesis
    by (auto simp: afterCall_def disableMerchantKey_def flow_defs split: prod.split)
qed

interpretation shop: kept_apart "afterCall digest rt" "\<lambda>w. tenantsRight (worldStore w)"
    "callAllowed rt" callFor "\<lambda>m w. tenantView m (worldStore w)" for digest rt
proof
  fix w c
  assume inv: "tenantsRight (worldStore w)" and ok: "callAllowed rt c w"
  note did = call_done [OF ok, of digest]
  show "tenantsRight (worldStore (afterCall digest rt c w))"
    using did tenants.keeps [OF inv] inv by (auto simp: doneAs_def)
  fix m
  assume others: "callFor c w \<noteq> Some m"
  show "tenantView m (worldStore (afterCall digest rt c w)) = tenantView m (worldStore w)"
    using did tenants.apart [OF inv] others by (auto simp: doneAs_def)
qed

section \<open>What a merchant reads\<close>

text \<open>The answers of his own calls that read: catalog, receipts, orders, one order, keys, settings.\<close>

definition merchantReads ::
  "Runtime \<Rightarrow> string \<Rightarrow> bool option \<Rightarrow> string \<Rightarrow> string \<Rightarrow> World
   \<Rightarrow> (string + MerchantCardList) \<times> (string + Receipt list) \<times> (string + StoredOrder list)
     \<times> (string + StoredOrder option) \<times> (string + MerchantKey list \<times> string)
     \<times> (string + string option) \<times> (string + string option)" where
  "merchantReads rt m onlyOpen i thisCall w =
     (fst (merchantCards rt m w), fst (receiptsOf m w), fst (ordersOf m onlyOpen w),
      fst (merchantOrderRead m i w), fst (merchantKeys m thisCall w), fst (sellerName m w),
      fst (payoutWallet m w))"

lemma reads_from_view:
  assumes "tenantView m (worldStore w) = tenantView m (worldStore w')"
  shows "merchantReads rt m onlyOpen i thisCall w = merchantReads rt m onlyOpen i thisCall w'"
proof -
  have same: "map_of (merchantsMap (worldStore w)) m = map_of (merchantsMap (worldStore w')) m"
    "filter (\<lambda>k. keyMerchantId k = m) (mapValues (keysMap (worldStore w)))
      = filter (\<lambda>k. keyMerchantId k = m) (mapValues (keysMap (worldStore w')))"
    "cards m (worldStore w) = cards m (worldStore w')"
    "orders m False (worldStore w) = orders m False (worldStore w')"
    "receipts m (worldStore w) = receipts m (worldStore w')"
    "merchantOrder m i (worldStore w) = merchantOrder m i (worldStore w')" for i
    using assms by (simp_all add: tenantView_def fun_eq_iff)
  have all: "orders m b s = (if b then filter (\<lambda>r. isOpen (state (theOrder r))) (orders m False s)
      else orders m False s)" for b s
    by (simp add: orders_def Let_def)
  have "orders m b (worldStore w) = orders m b (worldStore w')" for b
    by (simp only: all [of b] same)
  then show ?thesis
    by (simp add: merchantReads_def merchantCards_def howTheySell_def receiptsOf_def ordersOf_def
        merchantOrderRead_def merchantKeys_def codeKeysOf_def keysOf_def sellerName_def
        payoutWallet_def merchantById_def flow_defs same split: option.split)
qed

end
