(* ===== verification/Gateway_Queue_Laws.thy ===== *)
theory Gateway_Queue_Laws
  imports Gateway_Queue
begin

text \<open>
  What the queue promises: no envelope is lost, doubled or carried to another merchant,
  whatever the order of publishing, polling, finishing and timers; a poll takes what came
  first; and a reminder whose handler keeps failing is delivered a bounded number of times.
\<close>

section \<open>The contract of a carrier\<close>

text \<open>What goes in under a name is either still carried under it or has come out.\<close>

locale carrier =
  fixes step :: "'op \<Rightarrow> 's \<Rightarrow> 's"
    and inv :: "'s \<Rightarrow> bool"
    and cargo :: "'s \<Rightarrow> 'n \<Rightarrow> 'x multiset"
    and inn :: "'op \<Rightarrow> 'n \<Rightarrow> 'x multiset"
    and out :: "'op \<Rightarrow> 's \<Rightarrow> 'n \<Rightarrow> 'x multiset"
  assumes keeps: "inv s \<Longrightarrow> inv (step op s)"
    and moves: "inv s \<Longrightarrow> cargo (step op s) n + out op s n = cargo s n + inn op n"
begin

primrec out_of :: "'op list \<Rightarrow> 's \<Rightarrow> 'n \<Rightarrow> 'x multiset" where
  "out_of [] s n = {#}"
| "out_of (op # ops) s n = out op s n + out_of ops (step op s) n"

lemma run_moves:
  "inv s \<Longrightarrow>
   cargo (fold step ops s) n + out_of ops s n = cargo s n + sum_list (map (\<lambda>op. inn op n) ops)"
proof (induction ops arbitrary: s)
  case (Cons op ops)
  have "cargo (fold step ops (step op s)) n + out_of ops (step op s) n
      = cargo (step op s) n + sum_list (map (\<lambda>op. inn op n) ops)"
    by (rule Cons.IH [OF keeps [OF Cons.prems]])
  with moves [OF Cons.prems, of op n] show ?case
    by (simp add: ac_simps)
qed simp

end

section \<open>Every way the queue changes\<close>

datatype QueueOp =
    QPublish string WorkerEnvelope "rat option"
  | QDraw string int rat
  | QResume string int
  | QFinish string string
  | QHoldsOrder string string
  | QRemind Reminder rat
  | QOnReminder
  | QStart
  | QStop
  | QFire nat bool

fun queueStep :: "QueueOp \<Rightarrow> MemoryQueue \<Rightarrow> MemoryQueue" where
  "queueStep (QPublish m e after) q = publish m e after q"
| "queueStep (QDraw m n waitMs) q = snd (draw m n waitMs q)"
| "queueStep (QResume m n) q = snd (resumeDraw m n q)"
| "queueStep (QFinish m h) q = finish m h q"
| "queueStep (QHoldsOrder m i) q = snd (holdsOrder m i q)"
| "queueStep (QRemind r after) q = remind r after q"
| "queueStep QOnReminder q = (case onReminder q of Inl thrown \<Rightarrow> q | Inr q' \<Rightarrow> q')"
| "queueStep QStart q = (case startQueue q of Inl thrown \<Rightarrow> q | Inr q' \<Rightarrow> q')"
| "queueStep QStop q = stopQueue q"
| "queueStep (QFire n threw) q = fireTimer n threw q"

section \<open>What a merchant's envelopes are\<close>

definition onStream :: "Stream \<Rightarrow> WorkerEnvelope multiset" where
  "onStream s = mset (ready s) + mset (map snd (heldBack s))"

definition outWith :: "MemoryQueue \<Rightarrow> string \<Rightarrow> WorkerEnvelope multiset" where
  "outWith q m = mset (map (snd \<circ> snd) (filter (\<lambda>(h, m', e). m' = m) (inFlight q)))"

definition carried :: "MemoryQueue \<Rightarrow> string \<Rightarrow> WorkerEnvelope multiset" where
  "carried q m = onStream (streamAt q m) + outWith q m"

definition queueInv :: "MemoryQueue \<Rightarrow> bool" where
  "queueInv q =
     ((\<forall>m. distinct (map fst (heldBack (streamAt q m))))
      \<and> (\<forall>m n e. (n, e) \<in> set (heldBack (streamAt q m)) \<longrightarrow> n < nextTimer q)
      \<and> distinct (map fst (timers q))
      \<and> (\<forall>n after action. (n, after, action) \<in> set (timers q) \<longrightarrow> n < nextTimer q)
      \<and> (\<forall>n after m e. (n, after, ArriveTimer m e) \<in> set (timers q)
            \<longrightarrow> (n, e) \<in> set (heldBack (streamAt q m)))
      \<and> distinct (map fst (inFlight q))
      \<and> (\<forall>h \<in> fst ` set (inFlight q). \<exists>k \<le> handles q. h = handleName k))"

lemma streamAt_setStream [simp]:
  "streamAt (setStream m s q) m' = (if m' = m then s else streamAt q m')"
  by (simp add: streamAt_def setStream_def update_conv')

lemma setStream_frame [simp]:
  "inFlight (setStream m s q) = inFlight q" "timers (setStream m s q) = timers q"
  "nextTimer (setStream m s q) = nextTimer q" "handles (setStream m s q) = handles q"
  "patience (setStream m s q) = patience q" "fireSet (setStream m s q) = fireSet q"
  "firedReminders (setStream m s q) = firedReminders q" "woken (setStream m s q) = woken q"
  by (simp_all add: setStream_def)

lemma streamAt_frame [simp]:
  "streamAt (q\<lparr>timers := ts\<rparr>) m = streamAt q m" "streamAt (q\<lparr>nextTimer := n\<rparr>) m = streamAt q m"
  "streamAt (q\<lparr>woken := w\<rparr>) m = streamAt q m" "streamAt (q\<lparr>inFlight := f\<rparr>) m = streamAt q m"
  "streamAt (q\<lparr>handles := k\<rparr>) m = streamAt q m" "streamAt (q\<lparr>fireSet := b\<rparr>) m = streamAt q m"
  "streamAt (q\<lparr>queueRunning := b\<rparr>) m = streamAt q m"
  "streamAt (q\<lparr>firedReminders := fr\<rparr>) m = streamAt q m"
  by (simp_all add: streamAt_def)

lemma streamOf_same [simp]: "streamAt (streamOf m q) m' = streamAt q m'"
  by (simp add: streamOf_def)

lemma streamOf_frame [simp]:
  "inFlight (streamOf m q) = inFlight q" "timers (streamOf m q) = timers q"
  "nextTimer (streamOf m q) = nextTimer q" "handles (streamOf m q) = handles q"
  by (simp_all add: streamOf_def)

lemma queueInvD:
  assumes "queueInv q"
  shows "distinct (map fst (heldBack (streamAt q m)))"
    and "(n, e) \<in> set (heldBack (streamAt q m)) \<Longrightarrow> n < nextTimer q"
    and "distinct (map fst (timers q))" and "(n, a, action) \<in> set (timers q) \<Longrightarrow> n < nextTimer q"
    and "(n, a, ArriveTimer m e) \<in> set (timers q) \<Longrightarrow> (n, e) \<in> set (heldBack (streamAt q m))"
    and "distinct (map fst (inFlight q))"
    and "h \<in> fst ` set (inFlight q) \<Longrightarrow> \<exists>k \<le> handles q. h = handleName k"
  using assms by (simp_all add: queueInv_def, blast+)

lemma queueInvI:
  assumes "\<And>m. distinct (map fst (heldBack (streamAt q m)))"
    and "\<And>m n e. (n, e) \<in> set (heldBack (streamAt q m)) \<Longrightarrow> n < nextTimer q"
    and "distinct (map fst (timers q))" and "\<And>n a action. (n, a, action) \<in> set (timers q) \<Longrightarrow> n < nextTimer q"
    and "\<And>n a m e. (n, a, ArriveTimer m e) \<in> set (timers q)
      \<Longrightarrow> (n, e) \<in> set (heldBack (streamAt q m))"
    and "distinct (map fst (inFlight q))"
    and "\<And>h. h \<in> fst ` set (inFlight q) \<Longrightarrow> \<exists>k \<le> handles q. h = handleName k"
  shows "queueInv q"
  unfolding queueInv_def using assms by simp

lemma newQueue_inv: "queueInv (newQueue p)" "carried (newQueue p) m = {#}"
  by (simp_all add: queueInv_def newQueue_def streamAt_def emptyStream_def carried_def
      onStream_def outWith_def)

section \<open>The parts the steps are made of\<close>

text \<open>Steps that touch no stream's content, no delivery and no arrival still to come.\<close>

definition sameCargo :: "MemoryQueue \<Rightarrow> MemoryQueue \<Rightarrow> bool" where
  "sameCargo q q' =
     ((\<forall>m. ready (streamAt q' m) = ready (streamAt q m)
           \<and> heldBack (streamAt q' m) = heldBack (streamAt q m))
      \<and> inFlight q' = inFlight q \<and> handles q' = handles q \<and> nextTimer q \<le> nextTimer q'
      \<and> distinct (map fst (timers q'))
      \<and> (\<forall>(n, a, action) \<in> set (timers q'). n < nextTimer q'
           \<and> (\<forall>m e. action = ArriveTimer m e \<longrightarrow> (n, a, action) \<in> set (timers q))))"

lemma sameCargo_keeps:
  assumes inv: "queueInv q" and same: "sameCargo q q'"
  shows "queueInv q'" and "carried q' m = carried q m"
proof -
  have cargo: "ready (streamAt q' m) = ready (streamAt q m)"
    "heldBack (streamAt q' m) = heldBack (streamAt q m)" for m
    using same by (simp_all add: sameCargo_def)
  have rest: "inFlight q' = inFlight q" "handles q' = handles q" "nextTimer q \<le> nextTimer q'"
    "distinct (map fst (timers q'))"
    using same by (simp_all add: sameCargo_def)
  show "carried q' m = carried q m"
    by (simp add: carried_def onStream_def outWith_def cargo rest)
  show "queueInv q'"
  proof (rule queueInvI)
    show "n < nextTimer q'" if "(n, e) \<in> set (heldBack (streamAt q' m))" for m n e
      using that queueInvD(2) [OF inv, of n e m] rest(3) by (simp add: cargo)
    show "n < nextTimer q'" if "(n, a, action) \<in> set (timers q')" for n a action
      using that same by (auto simp: sameCargo_def)
    show "(n, e) \<in> set (heldBack (streamAt q' m))"
      if "(n, a, ArriveTimer m e) \<in> set (timers q')" for n a m e
      using that same queueInvD(5) [OF inv, of n a m e] by (auto simp: sameCargo_def cargo)
  qed (use inv in \<open>simp_all add: cargo rest queueInvD\<close>)
qed

lemma distinct_filter_fst: "distinct (map fst al) \<Longrightarrow> distinct (map fst (filter P al))"
  by (induction al) auto

lemma clearTimers_same:
  assumes "queueInv q"
  shows "sameCargo q (clearTimers ns q)"
  using queueInvD(3,4) [OF assms]
  by (auto simp: sameCargo_def clearTimers_def distinct_filter_fst)

lemma later_same:
  assumes "queueInv q" and "\<And>m e. action \<noteq> ArriveTimer m e"
  shows "sameCargo q (later action after q)"
  using queueInvD(3) [OF assms(1)] queueInvD(4) [OF assms(1)] assms(2)
  by (fastforce simp: sameCargo_def later_def)

lemma waiters_same:
  assumes "queueInv q"
  shows "sameCargo q (setStream m ((streamAt q m)\<lparr>waiters := ws\<rparr>) q)"
  using queueInvD(3,4) [OF assms] by (auto simp: sameCargo_def)

lemma sameCargo_trans: "sameCargo q q' \<Longrightarrow> sameCargo q' q'' \<Longrightarrow> sameCargo q q''"
  unfolding sameCargo_def by (auto simp: split_beta) (metis fst_conv snd_conv)+

lemma wakeWaiters_same:
  assumes "queueInv q"
  shows "sameCargo q (wakeWaiters m q)"
proof -
  let ?ws = "waiters (streamAt q m)"
  have cleared: "sameCargo q (clearTimers ?ws q)" by (rule clearTimers_same [OF assms])
  have "streamAt (clearTimers ?ws q) m = streamAt q m" by (simp add: clearTimers_def)
  then have "sameCargo (clearTimers ?ws q)
      (setStream m ((streamAt q m)\<lparr>waiters := []\<rparr>) (clearTimers ?ws q))"
    using waiters_same [OF sameCargo_keeps(1) [OF assms cleared], of m "[]"] by simp
  from sameCargo_trans [OF cleared this] show ?thesis
    by (simp add: wakeWaiters_def Let_def sameCargo_def)
qed

section \<open>Steps that move an envelope\<close>

lemma outWith_setStream [simp]: "outWith (setStream m s q) m' = outWith q m'"
  by (simp add: outWith_def)

lemma carried_setStream:
  "carried (setStream m s q) m' =
     (if m' = m then onStream s + outWith q m else carried q m')"
  by (simp add: carried_def outWith_def)

lemma setReady_inv:
  assumes "queueInv q" and "heldBack s = heldBack (streamAt q m)"
  shows "queueInv (setStream m s q)"
  by (rule queueInvI) (use assms in \<open>auto simp: queueInvD split: if_splits\<close>)

lemma arrive_moves:
  assumes inv: "queueInv q"
  shows "queueInv (arrive m e q)"
    and "carried (arrive m e q) m' = carried q m' + (if m' = m then {#e#} else {#})"
proof -
  let ?q = "setStream m ((streamAt q m)\<lparr>ready := ready (streamAt q m) @ [e]\<rparr>) q"
  have inv': "queueInv ?q" by (rule setReady_inv [OF inv]) simp
  note woke = sameCargo_keeps [OF inv' wakeWaiters_same [OF inv']]
  show "queueInv (arrive m e q)" unfolding arrive_def by (rule woke(1))
  show "carried (arrive m e q) m' = carried q m' + (if m' = m then {#e#} else {#})"
    unfolding arrive_def woke(2) by (simp add: carried_setStream carried_def onStream_def)
qed

lemma hold_moves:
  assumes inv: "queueInv q"
  shows "queueInv (hold m e ms q)"
    and "carried (hold m e ms q) m' = carried q m' + (if m' = m then {#e#} else {#})"
proof -
  let ?q = "hold m e ms q"
  have at: "heldBack (streamAt ?q k)
      = heldBack (streamAt q k) @ (if k = m then [(nextTimer q, e)] else [])" for k
    by (simp add: hold_def later_def)
  have rest: "timers ?q = timers q @ [(nextTimer q, ms, ArriveTimer m e)]"
    "nextTimer ?q = nextTimer q + 1" "inFlight ?q = inFlight q" "handles ?q = handles q"
    by (simp_all add: hold_def later_def)
  have fresh: "nextTimer q \<notin> fst ` set (heldBack (streamAt q k))"
    "nextTimer q \<notin> fst ` set (timers q)" for k
    using queueInvD(2,4) [OF inv] by fastforce+
  show "queueInv ?q"
  proof (rule queueInvI)
    show "distinct (map fst (heldBack (streamAt ?q k)))" for k
      using queueInvD(1) [OF inv] fresh(1) by (simp add: at)
    show "n < nextTimer ?q" if "(n, e') \<in> set (heldBack (streamAt ?q k))" for k n e'
      using that queueInvD(2) [OF inv, of n e' k] by (auto simp: at rest split: if_splits)
    show "distinct (map fst (timers ?q))"
      using queueInvD(3) [OF inv] fresh(2) by (simp add: rest)
    show "n < nextTimer ?q" if "(n, a, action) \<in> set (timers ?q)" for n a action
      using that queueInvD(4) [OF inv, of n a action] by (auto simp: rest)
    show "(n, e') \<in> set (heldBack (streamAt ?q k))"
      if "(n, a, ArriveTimer k e') \<in> set (timers ?q)" for n a k e'
      using that queueInvD(5) [OF inv, of n a k e'] by (auto simp: rest at)
  qed (use queueInvD(6,7) [OF inv] in \<open>simp_all add: rest\<close>)
  have "ready (streamAt ?q k) = ready (streamAt q k)" for k
    by (simp add: hold_def later_def)
  then show "carried ?q m' = carried q m' + (if m' = m then {#e#} else {#})"
    by (simp add: carried_def onStream_def outWith_def at rest)
qed

lemma streamOf_same_cargo: "queueInv q \<Longrightarrow> sameCargo q (streamOf m q)"
  using queueInvD(3,4) by (fastforce simp: sameCargo_def)

lemma publish_moves:
  assumes inv: "queueInv q"
  shows "queueInv (publish m e after q)"
    and "carried (publish m e after q) m' = carried q m' + (if m' = m then {#e#} else {#})"
proof -
  note made = sameCargo_keeps [OF inv streamOf_same_cargo [OF inv, of m]]
  show "queueInv (publish m e after q)"
    by (simp add: publish_def putStaged_def stage_def arrive_moves(1) [OF made(1)]
        hold_moves(1) [OF made(1)] split: option.split)
  show "carried (publish m e after q) m' = carried q m' + (if m' = m then {#e#} else {#})"
    by (simp add: publish_def putStaged_def stage_def arrive_moves(2) [OF made(1)]
        hold_moves(2) [OF made(1)] made(2) split: option.split)
qed

text \<open>Drawing: the envelopes leave the stream in order and are out under fresh handles.\<close>

lemma handleName_inject [simp]: "handleName k = handleName l \<longleftrightarrow> k = l"
  by (simp add: handleName_def)

lemma update_fresh: "k \<notin> fst ` set al \<Longrightarrow> AList.update k v al = al @ [(k, v)]"
  by (induction al) auto

lemma takeOut_moves:
  assumes "queueInv q"
  shows "queueInv (snd (takeOut m es q))
    \<and> (\<forall>m'. streamAt (snd (takeOut m es q)) m' = streamAt q m')
    \<and> outWith (snd (takeOut m es q)) m' = outWith q m' + (if m' = m then mset es else {#})
    \<and> map fst (fst (takeOut m es q)) = es"
  using assms
proof (induction es arbitrary: q)
  case Nil
  then show ?case by simp
next
  case (Cons e es)
  let ?h = "handleName (handles q + 1)"
  let ?q = "q\<lparr>handles := handles q + 1, inFlight := AList.update ?h (m, e) (inFlight q)\<rparr>"
  have fresh: "?h \<notin> fst ` set (inFlight q)"
    using queueInvD(7) [OF Cons.prems] by fastforce
  then have out: "inFlight ?q = inFlight q @ [(?h, m, e)]"
    by (simp add: update_fresh)
  have "queueInv ?q"
  proof (rule queueInvI)
    show "\<exists>k \<le> handles ?q. h = handleName k" if "h \<in> fst ` set (inFlight ?q)" for h
      using that queueInvD(7) [OF Cons.prems, of h] unfolding out by fastforce
    show "distinct (map fst (inFlight ?q))"
      unfolding out using fresh queueInvD(6) [OF Cons.prems] by simp
  qed (use Cons.prems in \<open>simp_all add: queueInvD\<close>)
  moreover have "outWith ?q m' = outWith q m' + (if m' = m then {#e#} else {#})"
    using fresh by (simp add: outWith_def update_fresh)
  ultimately show ?case
    using Cons.IH [of ?q] by (simp add: case_prod_beta Let_def)
qed

lemma takeReady_moves:
  assumes inv: "queueInv q"
  shows "queueInv (snd (takeReady m n q))"
    and "carried (snd (takeReady m n q)) m' = carried q m'"
    and "map fst (fst (takeReady m n q)) = take (nat n) (ready (streamAt q m))"
    and "ready (streamAt (snd (takeReady m n q)) m) = drop (nat n) (ready (streamAt q m))"
    and "m' \<noteq> m \<Longrightarrow> streamAt (snd (takeReady m n q)) m' = streamAt q m'"
proof -
  let ?s = "streamAt q m"
  let ?q = "setStream m (?s\<lparr>ready := drop (nat n) (ready ?s)\<rparr>) q"
  have inv': "queueInv ?q" by (rule setReady_inv [OF inv]) simp
  note out = takeOut_moves [OF inv', of m "take (nat n) (ready ?s)"]
  have split: "mset (ready ?s) = mset (take (nat n) (ready ?s)) + mset (drop (nat n) (ready ?s))"
    by (metis append_take_drop_id mset_append)
  show "queueInv (snd (takeReady m n q))"
    and "map fst (fst (takeReady m n q)) = take (nat n) (ready ?s)"
    and "ready (streamAt (snd (takeReady m n q)) m) = drop (nat n) (ready ?s)"
    and "m' \<noteq> m \<Longrightarrow> streamAt (snd (takeReady m n q)) m' = streamAt q m'"
    using out by (simp_all add: takeReady_def Let_def)
  have "outWith ?q m' = outWith q m'" by (simp add: outWith_def)
  then show "carried (snd (takeReady m n q)) m' = carried q m'"
    using out [of m'] split by (simp add: takeReady_def Let_def carried_def onStream_def)
qed

lemma park_same: "queueInv q \<Longrightarrow> sameCargo q (park m waitMs q)"
proof -
  assume inv: "queueInv q"
  let ?q = "setStream m ((streamAt q m)\<lparr>waiters := waiters (streamAt q m) @ [nextTimer q]\<rparr>) q"
  have same: "sameCargo q ?q" by (rule waiters_same [OF inv])
  have "sameCargo ?q (later (WakeTimer m) waitMs ?q)"
    by (rule later_same [OF sameCargo_keeps(1) [OF inv same]]) simp
  from sameCargo_trans [OF same this] show ?thesis by (simp add: park_def)
qed

lemma draw_moves:
  assumes inv: "queueInv q"
  shows "queueInv (snd (draw m n waitMs q))" and "carried (snd (draw m n waitMs q)) m' = carried q m'"
  using takeReady_moves(1) [OF inv, of m n] takeReady_moves(2) [OF inv, of m n m']
    sameCargo_keeps [OF takeReady_moves(1) [OF inv, of m n] park_same [OF takeReady_moves(1) [OF inv, of m n]]]
  by (simp_all add: draw_def case_prod_beta)

text \<open>Finishing takes out the delivery named, if the merchant named has it out.\<close>

definition finished :: "QueueOp \<Rightarrow> MemoryQueue \<Rightarrow> string \<Rightarrow> WorkerEnvelope multiset" where
  "finished op q m =
     (case op of
        QFinish m' h \<Rightarrow>
          (case map_of (inFlight q) h of
             Some (m'', e) \<Rightarrow> if m' = m \<and> m'' = m then {#e#} else {#}
           | None \<Rightarrow> {#})
      | _ \<Rightarrow> {#})"

definition published :: "QueueOp \<Rightarrow> string \<Rightarrow> WorkerEnvelope multiset" where
  "published op m =
     (case op of QPublish m' e after \<Rightarrow> if m' = m then {#e#} else {#} | _ \<Rightarrow> {#})"

lemma outWith_delete:
  assumes "distinct (map fst out)" and "map_of out h = Some (m', e)"
  shows "mset (map (snd \<circ> snd) (filter (\<lambda>(h, m', e). m' = m) (AList.delete h out)))
      + (if m' = m then {#e#} else {#})
    = mset (map (snd \<circ> snd) (filter (\<lambda>(h, m', e). m' = m) out))"
  using assms
proof (induction out)
  case (Cons x out)
  then show ?case
    by (cases "fst x = h") (auto simp: rev_image_eqI)
qed simp

lemma finish_moves:
  assumes inv: "queueInv q"
  shows "queueInv (finish m' h q)"
    and "carried (finish m' h q) m + finished (QFinish m' h) q m = carried q m"
proof -
  have keys: "fst ` set (AList.delete h (inFlight q)) \<subseteq> fst ` set (inFlight q)"
    by (rule dom_delete_subset)
  have "queueInv (q\<lparr>inFlight := AList.delete h (inFlight q)\<rparr>)"
  proof (rule queueInvI)
    show "distinct (map fst (inFlight (q\<lparr>inFlight := AList.delete h (inFlight q)\<rparr>)))"
      using queueInvD(6) [OF inv] by (simp add: distinct_delete)
    show "\<exists>k \<le> handles (q\<lparr>inFlight := AList.delete h (inFlight q)\<rparr>). g = handleName k"
      if "g \<in> fst ` set (inFlight (q\<lparr>inFlight := AList.delete h (inFlight q)\<rparr>))" for g
      using that keys queueInvD(7) [OF inv, of g] by auto
  qed (use inv in \<open>simp_all add: queueInvD\<close>)
  with inv show "queueInv (finish m' h q)" by (simp add: finish_def)
  show "carried (finish m' h q) m + finished (QFinish m' h) q m = carried q m"
  proof (cases "map_of (inFlight q) h")
    case None
    then show ?thesis by (simp add: finish_def finished_def)
  next
    case (Some x)
    then show ?thesis
      using outWith_delete [OF queueInvD(6) [OF inv], of h "fst x" "snd x" m]
      by (auto simp: finish_def finished_def carried_def outWith_def split: prod.split)
  qed
qed

text \<open>Stopping forgets the timers and wakes every parked poll; what was held stays held.\<close>

lemma stop_same: "sameCargo q (stopQueue q)"
proof -
  have "map_of (map (\<lambda>(m, s). (m, s\<lparr>waiters := []\<rparr>)) al) k
      = map_option (\<lambda>s. s\<lparr>waiters := []\<rparr>) (map_of al k)" for al :: "(string \<times> Stream) list" and k
    by (induction al) auto
  then have "streamAt (stopQueue q) m = (streamAt q m)\<lparr>waiters := []\<rparr>" for m
    by (simp add: streamAt_def stopQueue_def Let_def emptyStream_def split: option.split)
  then show ?thesis by (simp add: sameCargo_def) (simp add: stopQueue_def Let_def)
qed

text \<open>A timer for a held envelope puts it on the stream it was held for.\<close>

lemma mset_remove_held:
  "distinct (map fst held) \<Longrightarrow> (n, e) \<in> set held \<Longrightarrow>
   add_mset e (mset (map snd (filter (\<lambda>(k, e'). k \<noteq> n) held))) = mset (map snd held)"
proof (induction held)
  case (Cons x held)
  show ?case
  proof (cases "fst x = n")
    case True
    with Cons.prems have "x = (n, e)" and "n \<notin> fst ` set held" by (auto simp: rev_image_eqI)
    then have "filter (\<lambda>(k, e'). k \<noteq> n) held = held"
      by (intro filter_True) (auto simp: rev_image_eqI)
    with \<open>x = (n, e)\<close> show ?thesis by simp
  next
    case False
    with Cons show ?thesis by (auto simp: case_prod_beta)
  qed
qed simp

lemma fireArrive_moves:
  assumes inv: "queueInv q" and timer: "(n, after, ArriveTimer m e) \<in> set (timers q)"
  defines "q1 \<equiv> clearTimers [n] q"
  defines "q2 \<equiv> setStream m ((streamAt q1 m)
      \<lparr>heldBack := filter (\<lambda>(k, e'). k \<noteq> n) (heldBack (streamAt q1 m))\<rparr>) q1"
  shows "queueInv (arrive m e q2)" and "carried (arrive m e q2) m' = carried q m'"
proof -
  have inv1: "queueInv q1" and same1: "carried q1 k = carried q k" for k
    using sameCargo_keeps [OF inv clearTimers_same [OF inv]] by (simp_all add: q1_def)
  have streams: "streamAt q1 k = streamAt q k" for k by (simp add: q1_def clearTimers_def)
  have others: "n' \<noteq> n" if "(n', a, action) \<in> set (timers q1)" for n' a action
    using that by (auto simp: q1_def clearTimers_def)
  have held: "(n, e) \<in> set (heldBack (streamAt q m))" by (rule queueInvD(5) [OF inv timer])
  have inv2: "queueInv q2"
  proof (rule queueInvI)
    show "distinct (map fst (heldBack (streamAt q2 k)))" for k
      using queueInvD(1) [OF inv1] by (simp add: q2_def distinct_filter_fst)
    show "n' < nextTimer q2" if "(n', e') \<in> set (heldBack (streamAt q2 k))" for k n' e'
      using that queueInvD(2) [OF inv1, of n' e' k] by (auto simp: q2_def split: if_splits)
    show "(n', e') \<in> set (heldBack (streamAt q2 k))"
      if "(n', a, ArriveTimer k e') \<in> set (timers q2)" for n' a k e'
      using that others [of n' a] queueInvD(5) [OF inv1, of n' a k e'] by (auto simp: q2_def)
  qed (use inv1 in \<open>simp_all add: q2_def queueInvD\<close>)
  show "queueInv (arrive m e q2)" by (rule arrive_moves(1) [OF inv2])
  have "add_mset e (onStream (streamAt q2 m)) = onStream (streamAt q m)"
    using mset_remove_held [OF queueInvD(1) [OF inv] held]
    by (simp add: q2_def streams onStream_def)
  then have "carried q2 m' + (if m' = m then {#e#} else {#}) = carried q1 m'"
    by (auto simp: q2_def carried_setStream streams carried_def)
  then show "carried (arrive m e q2) m' = carried q m'"
    using same1 [of m'] by (simp add: arrive_moves(2) [OF inv2])
qed

lemma fire_moves:
  assumes inv: "queueInv q"
  shows "queueInv (fireTimer n threw q) \<and> carried (fireTimer n threw q) m = carried q m"
proof (cases "map_of (timers q) n")
  case None
  with inv show ?thesis by (simp add: fireTimer_def)
next
  case (Some x)
  obtain after action where x: "x = (after, action)" by (cases x) simp
  let ?q1 = "clearTimers [n] q"
  have same1: "sameCargo q ?q1" by (rule clearTimers_same [OF inv])
  have inv1: "queueInv ?q1" by (rule sameCargo_keeps(1) [OF inv same1])
  show ?thesis
  proof (cases action)
    case (ArriveTimer k e)
    have "(n, after, ArriveTimer k e) \<in> set (timers q)"
      using Some x ArriveTimer map_of_SomeD by fastforce
    from fireArrive_moves(1) [OF inv this] fireArrive_moves(2) [OF inv this, of m] show ?thesis
      using Some x ArriveTimer by (simp add: fireTimer_def Let_def)
  next
    case (ReminderTimer r attempt)
    let ?q2 = "?q1\<lparr>firedReminders := firedReminders ?q1 @ [(r, attempt)]\<rparr>"
    have same2: "sameCargo q ?q2" using same1 by (simp add: sameCargo_def)
    have inv2: "queueInv ?q2" by (rule sameCargo_keeps(1) [OF inv same2])
    have "sameCargo ?q2 (deliverReminder r d (attempt + 1) ?q2)" for d
      unfolding deliverReminder_def by (rule later_same [OF inv2]) simp
    then have "sameCargo q (deliverReminder r d (attempt + 1) ?q2)" for d
      by (rule sameCargo_trans [OF same2])
    with same1 same2 have "sameCargo q (fireTimer n threw q)"
      using Some x ReminderTimer by (simp add: fireTimer_def Let_def)
    with sameCargo_keeps [OF inv] show ?thesis by blast
  next
    case (WakeTimer k)
    have "sameCargo ?q1 (setStream k ((streamAt ?q1 k)\<lparr>waiters := removeAll n (waiters (streamAt ?q1 k))\<rparr>) ?q1)"
      by (rule waiters_same [OF inv1])
    from sameCargo_trans [OF same1 this] have "sameCargo q (fireTimer n threw q)"
      using Some x WakeTimer by (simp add: fireTimer_def Let_def sameCargo_def)
    with sameCargo_keeps [OF inv] show ?thesis by blast
  qed
qed

section \<open>Conservation\<close>

lemma queueStep_moves:
  assumes inv: "queueInv q"
  shows "queueInv (queueStep op q)
    \<and> carried (queueStep op q) m + finished op q m = carried q m + published op m"
proof (cases op)
  case (QPublish m' e after)
  with publish_moves(1) [OF inv, of m' e after] publish_moves(2) [OF inv, of m' e after m]
  show ?thesis
    by (simp add: finished_def published_def)
next
  case (QDraw m' n w)
  with draw_moves(1) [OF inv, of m' n w] draw_moves(2) [OF inv, of m' n w m] show ?thesis
    by (simp add: finished_def published_def)
next
  case (QResume m' n)
  with takeReady_moves(1) [OF inv, of m' n] takeReady_moves(2) [OF inv, of m' n m] show ?thesis
    by (simp add: finished_def published_def resumeDraw_def)
next
  case (QFinish m' h)
  with finish_moves(1) [OF inv, of m' h] finish_moves(2) [OF inv, of m' h m] show ?thesis
    by (simp add: published_def)
next
  case (QHoldsOrder m' i)
  with sameCargo_keeps [OF inv streamOf_same_cargo [OF inv, of m']] show ?thesis
    by (simp add: holdsOrder_def finished_def published_def)
next
  case (QRemind r after)
  have "sameCargo q (remind r after q)"
    unfolding remind_def deliverReminder_def by (rule later_same [OF inv]) simp
  from sameCargo_keeps [OF inv this] QRemind show ?thesis
    by (simp add: finished_def published_def)
next
  case (QFire n threw)
  with fire_moves [OF inv, of n threw] show ?thesis by (simp add: finished_def published_def)
next
  case QStop
  with sameCargo_keeps [OF inv stop_same] show ?thesis by (simp add: finished_def published_def)
next
  case QOnReminder
  have "sameCargo q (q\<lparr>fireSet := True\<rparr>)"
    using queueInvD(3,4) [OF inv] by (auto simp: sameCargo_def)
  from sameCargo_keeps [OF inv this] inv QOnReminder show ?thesis
    by (simp add: onReminder_def finished_def published_def)
next
  case QStart
  have "sameCargo q (q\<lparr>queueRunning := True\<rparr>)"
    using queueInvD(3,4) [OF inv] by (auto simp: sameCargo_def)
  from sameCargo_keeps [OF inv this] inv QStart show ?thesis
    by (simp add: startQueue_def finished_def published_def)
qed

interpretation envelopes: carrier queueStep queueInv carried published finished
  by unfold_locales (simp_all add: queueStep_moves)

text \<open>What the merchant's workers have finished over a run.\<close>

primrec finishedAll :: "QueueOp list \<Rightarrow> MemoryQueue \<Rightarrow> string \<Rightarrow> WorkerEnvelope multiset" where
  "finishedAll [] q m = {#}"
| "finishedAll (op # ops) q m = finished op q m + finishedAll ops (queueStep op q) m"

lemma finishedAll_out: "finishedAll ops q m = envelopes.out_of ops q m"
  by (induction ops arbitrary: q) simp_all

text \<open>C24: Whatever is published, drawn, finished, reminded of or stopped, in whatever order and
  with whatever timers firing, every envelope published to a merchant is exactly once on
  that merchant's stream, held back for it, out with one of its workers, or finished by it:
  none is lost, doubled or carried to another merchant.\<close>

theorem no_envelope_lost_or_doubled:
  "carried (fold queueStep ops (newQueue p)) m + finishedAll ops (newQueue p) m
    = sum_list (map (\<lambda>op. published op m) ops)"
  using envelopes.run_moves [OF newQueue_inv(1)] by (simp add: finishedAll_out newQueue_inv(2))

text \<open>A poll takes the merchant's envelopes in the order they became ready, the first as many
  as it asked for, hands each out under a handle of its own, and touches no other
  merchant's stream; and a worker finishing a delivery can only finish his own merchant's.\<close>

theorem poll_takes_its_own_in_order:
  assumes "queueInv q" and "draw m n waitMs q = (Drawn drawn, q')"
  shows "map fst drawn = take (nat n) (ready (streamAt q m))
    \<and> ready (streamAt q' m) = drop (nat n) (ready (streamAt q m))
    \<and> (\<forall>m'. m' \<noteq> m \<longrightarrow> streamAt q' m' = streamAt q m' \<and> carried q' m' = carried q m')
    \<and> (\<forall>m' h. m' \<noteq> m \<longrightarrow> carried (finish m h q') m' = carried q m')"
proof -
  have q': "drawn = fst (takeReady m n q)" "q' = snd (takeReady m n q)"
    using assms(2) by (auto simp: draw_def case_prod_beta split: if_splits)
  have inv': "queueInv q'" unfolding q' by (rule takeReady_moves(1) [OF assms(1)])
  have "carried (finish m h q') m' = carried q m'" if "m' \<noteq> m" for m' h
    using finish_moves(2) [OF inv', of m h m'] takeReady_moves(2) [OF assms(1), of m n m'] that
    by (simp add: finished_def q' split: option.splits prod.splits)
  with takeReady_moves(2,5) [OF assms(1)] takeReady_moves(3,4) [OF assms(1), of m n]
  show ?thesis by (simp add: q')
qed

definition sampleQuote :: "string \<Rightarrow> WorkerEnvelope" where
  "sampleQuote i =
     QuoteEnvelope i ''2024-01-01T00:00:00.000Z''
       \<lparr>quoteMerchantItemId = ''sku'', quoteParams = None, quotePriceId = ''prc'',
        quotePurpose = QuoteForPurchase, quoteExpiresAt = ''2024-01-01T00:00:05.000Z''\<rparr>"

definition sampleQueue :: MemoryQueue where
  "sampleQueue =
     fold queueStep [QPublish ''mer_1'' (sampleQuote ''env_1'') None,
       QPublish ''mer_2'' (sampleQuote ''env_2'') None,
       QPublish ''mer_1'' (sampleQuote ''env_3'') None]
       (newQueue \<lparr>patienceAttempts = 3, patienceRetryDelayMs = 5\<rparr>)"

theorem poll_takes_its_own_in_order_witness:
  "map fst (fst (takeReady ''mer_1'' 1 sampleQueue)) = [sampleQuote ''env_1'']
    \<and> ready (streamAt sampleQueue ''mer_2'') = [sampleQuote ''env_2'']"
proof -
  have inv: "queueInv sampleQueue"
    unfolding sampleQueue_def
    by (simp only: fold_simps comp_apply id_apply) (intro conjunct1 [OF queueStep_moves] newQueue_inv)
  have on: "ready (streamAt sampleQueue ''mer_1'') = [sampleQuote ''env_1'', sampleQuote ''env_3'']"
    "ready (streamAt sampleQueue ''mer_2'') = [sampleQuote ''env_2'']"
    by (simp_all add: sampleQueue_def publish_def putStaged_def stage_def arrive_def
        wakeWaiters_def streamAt_def newQueue_def emptyStream_def setStream_def streamOf_def
        clearTimers_def Let_def update_conv')
  obtain drawn q' where d: "draw ''mer_1'' 1 0 sampleQueue = (Drawn drawn, q')"
    and q': "fst (takeReady ''mer_1'' 1 sampleQueue) = drawn"
    by (cases "takeReady ''mer_1'' 1 sampleQueue") (auto simp: draw_def)
  from poll_takes_its_own_in_order [OF inv d] on q' show ?thesis by simp
qed

section \<open>Reminders end\<close>

text \<open>How many more times a given reminder can be delivered on the timer.\<close>

fun deliveriesLeft :: "Reminder \<Rightarrow> nat \<Rightarrow> TimerAction \<Rightarrow> nat" where
  "deliveriesLeft who limit (ReminderTimer r attempt) = (if r = who then limit + 1 - attempt else 0)"
| "deliveriesLeft who limit _ = 0"

definition reminderLimit :: "MemoryQueue \<Rightarrow> nat" where
  "reminderLimit q = max 1 (patienceAttempts (patience q))"

definition reminderBudget :: "Reminder \<Rightarrow> nat \<Rightarrow> MemoryQueue \<Rightarrow> nat" where
  "reminderBudget who limit q =
     sum_list (map (\<lambda>(n, after, action). deliveriesLeft who limit action) (timers q))"

text \<open>The queue as a machine whose outputs are the reminders that went off.\<close>

definition reminderMachine :: "(MemoryQueue, QueueOp, Reminder \<times> nat) machine" where
  "reminderMachine q op =
     Some (queueStep op q,
       drop (length (firedReminders q)) (firedReminders (queueStep op q)))"

definition remindersInv :: "nat \<Rightarrow> MemoryQueue \<Rightarrow> bool" where
  "remindersInv limit q =
     (queueInv q \<and> reminderLimit q = limit
      \<and> (\<forall>(n, after, action) \<in> set (timers q). \<forall>r a. action = ReminderTimer r a \<longrightarrow> a \<le> limit))"

lemma sum_list_filter_le:
  "sum_list (map f (filter P xs)) \<le> sum_list (map f xs)" for f :: "'a \<Rightarrow> nat"
  by (induction xs) auto

lemma clearTimers_budget: "reminderBudget who limit (clearTimers ns q) \<le> reminderBudget who limit q"
  by (simp add: reminderBudget_def clearTimers_def sum_list_filter_le)

lemma clearTimers_one:
  assumes "distinct (map fst (timers q))" and "(n, after, action) \<in> set (timers q)"
  shows "reminderBudget who limit (clearTimers [n] q) + deliveriesLeft who limit action
    = reminderBudget who limit q"
proof -
  have "sum_list (map (\<lambda>(n, a, action). deliveriesLeft who limit action)
        (filter (\<lambda>(k, a, action). k \<notin> set [n]) ts)) + deliveriesLeft who limit action
      = sum_list (map (\<lambda>(n, a, action). deliveriesLeft who limit action) ts)"
    if "distinct (map fst ts)" "(n, after, action) \<in> set ts" for ts
    using that
  proof (induction ts)
    case (Cons x ts)
    show ?case
    proof (cases "fst x = n")
      case True
      with Cons.prems have x: "x = (n, after, action)" and "n \<notin> fst ` set ts"
        by (auto simp: rev_image_eqI)
      then have "filter (\<lambda>(k, a, action). k \<noteq> n) ts = ts"
        by (intro filter_True) (auto simp: rev_image_eqI)
      with x show ?thesis by (simp add: case_prod_unfold)
    next
      case False
      with Cons show ?thesis by (auto simp: case_prod_beta)
    qed
  qed simp
  from this [OF assms] show ?thesis by (simp add: reminderBudget_def clearTimers_def)
qed

lemma later_budget:
  "reminderBudget who limit (later action after q) = reminderBudget who limit q + deliveriesLeft who limit action"
  by (simp add: reminderBudget_def later_def)

text \<open>Every step but a reminder asked for and a timer firing leaves the reminders alone.\<close>

definition quiet :: "MemoryQueue \<Rightarrow> MemoryQueue \<Rightarrow> bool" where
  "quiet q q' =
     (firedReminders q' = firedReminders q \<and> patience q' = patience q
      \<and> (\<forall>who limit. reminderBudget who limit q' \<le> reminderBudget who limit q)
      \<and> (\<forall>n a r k. (n, a, ReminderTimer r k) \<in> set (timers q')
            \<longrightarrow> (n, a, ReminderTimer r k) \<in> set (timers q)))"

lemma quiet_trans: "quiet q q' \<Longrightarrow> quiet q' q'' \<Longrightarrow> quiet q q''"
  unfolding quiet_def by (metis order_trans)

lemma quiet_setStream: "quiet q (setStream m s q)"
  by (simp add: quiet_def reminderBudget_def)

lemma quiet_clear: "quiet q (clearTimers ns q)"
  using clearTimers_budget [of _ _ ns q] by (auto simp: quiet_def) (auto simp: clearTimers_def)

lemma quiet_later: "(\<And>r k. action \<noteq> ReminderTimer r k) \<Longrightarrow> quiet q (later action after q)"
  by (cases action) (auto simp: quiet_def later_budget, auto simp: later_def)

lemma quiet_woken: "quiet q (q\<lparr>woken := w\<rparr>)"
  by (simp add: quiet_def reminderBudget_def)

lemma quiet_wakeWaiters: "quiet q (wakeWaiters m q)"
  unfolding wakeWaiters_def Let_def
  by (rule quiet_trans [OF quiet_trans [OF quiet_clear quiet_setStream] quiet_woken])

lemma quiet_arrive: "quiet q (arrive m e q)"
  unfolding arrive_def by (rule quiet_trans [OF quiet_setStream quiet_wakeWaiters])

lemma quiet_publish: "quiet q (publish m e after q)"
proof -
  have made: "quiet q (streamOf m q)" unfolding streamOf_def by (rule quiet_setStream)
  have "quiet p (hold m e ms p)" for ms p
    unfolding hold_def by (rule quiet_trans [OF quiet_setStream quiet_later]) simp
  then have "quiet (streamOf m q) (putStaged m e after (streamOf m q))"
    by (simp add: putStaged_def quiet_arrive split: option.split)
  from quiet_trans [OF made this] show ?thesis by (simp add: publish_def stage_def)
qed

lemma quiet_takeOut: "quiet q (snd (takeOut m es q))"
proof (induction es arbitrary: q)
  case Nil
  show ?case by (simp add: quiet_def)
next
  case (Cons e es)
  let ?q = "q\<lparr>handles := handles q + 1,
    inFlight := AList.update (handleName (handles q + 1)) (m, e) (inFlight q)\<rparr>"
  have "quiet q ?q" by (simp add: quiet_def reminderBudget_def)
  from quiet_trans [OF this Cons.IH [of ?q]] show ?case by (simp add: case_prod_beta Let_def)
qed

lemma quiet_takeReady: "quiet q (snd (takeReady m n q))"
  unfolding takeReady_def Let_def by (rule quiet_trans [OF quiet_setStream quiet_takeOut])

lemma quiet_draw: "quiet q (snd (draw m n waitMs q))"
proof -
  have "quiet p (park m waitMs p)" for p
    unfolding park_def by (rule quiet_trans [OF quiet_setStream quiet_later]) simp
  from quiet_trans [OF quiet_takeReady this] quiet_takeReady [of q m n] show ?thesis
    by (simp add: draw_def case_prod_beta)
qed

lemma queueStep_quiet:
  assumes "\<forall>r after. op \<noteq> QRemind r after" and "\<forall>n threw. op \<noteq> QFire n threw"
  shows "quiet q (queueStep op q)"
proof (cases op)
  case (QPublish m e after)
  then show ?thesis by (simp add: quiet_publish)
next
  case (QDraw m n w)
  then show ?thesis by (simp add: quiet_draw)
next
  case (QResume m n)
  then show ?thesis by (simp add: resumeDraw_def quiet_takeReady)
next
  case (QHoldsOrder m i)
  then show ?thesis by (simp add: holdsOrder_def streamOf_def quiet_setStream)
next
  case QStop
  then show ?thesis by (simp add: stopQueue_def quiet_def reminderBudget_def Let_def)
qed (use assms in \<open>auto simp: quiet_def reminderBudget_def finish_def onReminder_def
      startQueue_def\<close>)

text \<open>A reminder going off spends one delivery of its own and leaves at most one fewer.\<close>

lemma deliveriesLeft_same [simp]: "deliveriesLeft r limit (ReminderTimer r k) = limit + 1 - k"
  by simp

lemma remind_budget:
  "reminderBudget who limit (remind r after q)
    = reminderBudget who limit q + (if r = who then limit else 0)"
  by (simp add: remind_def deliverReminder_def later_budget)

lemma remind_inv:
  assumes "remindersInv limit q" shows "remindersInv limit (remind r after q)"
  using assms queueStep_moves [of q "QRemind r after"]
  by (auto simp: remindersInv_def remind_def deliverReminder_def later_def reminderLimit_def)

lemma quiet_inv:
  assumes "remindersInv limit q" and "quiet q q'" and "queueInv q'"
  shows "remindersInv limit q'"
  using assms by (fastforce simp: remindersInv_def quiet_def reminderLimit_def)

definition spent :: "Reminder \<Rightarrow> MemoryQueue \<Rightarrow> MemoryQueue \<Rightarrow> nat" where
  "spent who q q' =
     length (filter (\<lambda>(r, k). r = who) (drop (length (firedReminders q)) (firedReminders q')))"

lemma fire_reminder:
  assumes inv: "remindersInv limit q" and on: "map_of (timers q) n = Some (after, ReminderTimer r k)"
  shows "spent who q (fireTimer n threw q) + reminderBudget who limit (fireTimer n threw q)
      \<le> reminderBudget who limit q \<and> remindersInv limit (fireTimer n threw q)"
proof -
  have inside: "(n, after, ReminderTimer r k) \<in> set (timers q)" by (rule map_of_SomeD [OF on])
  have budget: "reminderBudget who limit (clearTimers [n] q)
      + deliveriesLeft who limit (ReminderTimer r k) = reminderBudget who limit q" for who
    using inv inside by (intro clearTimers_one) (auto simp: remindersInv_def queueInv_def)
  have k: "k \<le> limit" "reminderLimit q = limit" "queueInv q"
    using inv inside by (auto simp: remindersInv_def)
  have keeps: "queueInv (fireTimer n threw q)"
    using queueStep_moves [OF k(3), of "QFire n threw"] by simp
  let ?q = "clearTimers [n] q"
  have frame: "firedReminders ?q = firedReminders q" "patience ?q = patience q"
    by (simp_all add: clearTimers_def)
  have extra: "reminderBudget who limit (p\<lparr>firedReminders := fr\<rparr>) = reminderBudget who limit p"
    for who p fr by (simp add: reminderBudget_def)
  have money: "spent who q (fireTimer n threw q) + reminderBudget who limit (fireTimer n threw q)
      \<le> reminderBudget who limit q"
    using budget [of who] k(1,2)
    by (auto simp: fireTimer_def on Let_def deliverReminder_def later_budget extra frame
        spent_def reminderLimit_def) (auto simp: later_def)
  have timers: "\<forall>(n, a, action) \<in> set (timers (fireTimer n threw q)).
      \<forall>r a. action = ReminderTimer r a \<longrightarrow> a \<le> limit"
    using inv k(2)
    by (auto simp: fireTimer_def on Let_def deliverReminder_def later_def clearTimers_def
        remindersInv_def reminderLimit_def)
  have "patience (fireTimer n threw q) = patience q"
    by (simp add: fireTimer_def on Let_def deliverReminder_def later_def clearTimers_def)
  with money timers keeps k(2) show ?thesis by (simp add: remindersInv_def reminderLimit_def)
qed

lemma fire_quiet:
  assumes "\<And>after r k. map_of (timers q) n \<noteq> Some (after, ReminderTimer r k)"
  shows "quiet q (fireTimer n threw q)"
proof (cases "map_of (timers q) n")
  case None
  then show ?thesis by (simp add: fireTimer_def quiet_def)
next
  case (Some x)
  then obtain after action where on: "map_of (timers q) n = Some (after, action)" by (cases x) simp
  show ?thesis
  proof (cases action)
    case (ArriveTimer m e)
    with on show ?thesis
      by (auto simp: fireTimer_def Let_def
          intro!: quiet_trans [OF quiet_trans [OF quiet_clear quiet_setStream] quiet_arrive])
  next
    case (WakeTimer m)
    with on show ?thesis
      by (auto simp: fireTimer_def Let_def
          intro!: quiet_trans [OF quiet_trans [OF quiet_clear quiet_setStream] quiet_woken])
  qed (use assms on in auto)
qed

lemma queueStep_budget:
  assumes inv: "remindersInv limit q"
  shows "spent who q (queueStep op q) + reminderBudget who limit (queueStep op q)
      \<le> reminderBudget who limit q
        + (case op of QRemind r after \<Rightarrow> if r = who then limit else 0 | _ \<Rightarrow> 0)
    \<and> remindersInv limit (queueStep op q)"
proof -
  have keeps: "queueInv (queueStep op q)"
    using inv queueStep_moves by (auto simp: remindersInv_def)
  have silent: ?thesis if "quiet q (queueStep op q)"
    using quiet_inv [OF inv that keeps] that by (simp add: quiet_def spent_def trans_le_add1)
  show ?thesis
  proof (cases op)
    case (QRemind r after)
    with remind_inv [OF inv] show ?thesis
      by (simp add: remind_budget spent_def) (simp add: remind_def deliverReminder_def later_def)
  next
    case (QFire n threw)
    show ?thesis
    proof (cases "\<exists>after r k. map_of (timers q) n = Some (after, ReminderTimer r k)")
      case True
      with fire_reminder [OF inv, of n] QFire show ?thesis by auto
    next
      case False
      then have "quiet q (fireTimer n threw q)" by (intro fire_quiet) auto
      with QFire show ?thesis by (intro silent) simp
    qed
  qed (intro silent queueStep_quiet; simp)+
qed

definition asksFor :: "Reminder \<Rightarrow> nat \<Rightarrow> QueueOp \<times> (Reminder \<times> nat) list \<Rightarrow> nat" where
  "asksFor who limit entry =
     (case fst entry of QRemind r after \<Rightarrow> if r = who then limit else 0 | _ \<Rightarrow> 0)"

definition timesFired :: "Reminder \<Rightarrow> QueueOp \<times> (Reminder \<times> nat) list \<Rightarrow> nat" where
  "timesFired who entry = length (filter (\<lambda>(r, k). r = who) (snd entry))"

interpretation reminders: budgeted_machine reminderMachine "remindersInv limit"
  "timesFired who" "asksFor who limit" "reminderBudget who limit"
  using queueStep_budget
  by unfold_locales (auto simp: reminderMachine_def timesFired_def asksFor_def spent_def)

lemma fired_grows:
  "firedReminders (queueStep op q)
    = firedReminders q @ drop (length (firedReminders q)) (firedReminders (queueStep op q))"
proof -
  have silent: ?thesis if "quiet q (queueStep op q)"
    using that by (simp add: quiet_def)
  show ?thesis
  proof (cases op)
    case (QRemind r after)
    then show ?thesis by (simp add: remind_def deliverReminder_def later_def)
  next
    case (QFire n threw)
    show ?thesis
    proof (cases "\<exists>after r k. map_of (timers q) n = Some (after, ReminderTimer r k)")
      case True
      with QFire show ?thesis
        by (auto simp: fireTimer_def Let_def clearTimers_def deliverReminder_def later_def)
    next
      case False
      then have "quiet q (fireTimer n threw q)" by (intro fire_quiet) auto
      with QFire show ?thesis by (intro silent) simp
    qed
  qed (intro silent queueStep_quiet; simp)+
qed

fun asks :: "Reminder \<Rightarrow> QueueOp \<Rightarrow> bool" where
  "asks who (QRemind r after) = (r = who)"
| "asks who _ = False"

lemma asksFor_asks: "asksFor who limit (op, outs) = (if asks who op then limit else 0)"
  by (cases op) (simp_all add: asksFor_def)

lemma reminder_run:
  "run_machine reminderMachine q ops = (t, entries) \<Longrightarrow>
   t = fold queueStep ops q
   \<and> logged (asksFor who limit) entries = limit * length (filter (asks who) ops)
   \<and> length (filter (\<lambda>(r, k). r = who) (firedReminders t))
     = length (filter (\<lambda>(r, k). r = who) (firedReminders q)) + logged (timesFired who) entries"
proof (induction ops arbitrary: q entries)
  case (Cons op ops)
  obtain rest where rest: "run_machine reminderMachine (queueStep op q) ops = (t, rest)"
    using Cons.prems
    by (cases "run_machine reminderMachine (queueStep op q) ops")
      (simp add: reminderMachine_def [of q op])
  with Cons.prems have entries: "entries
      = (op, drop (length (firedReminders q)) (firedReminders (queueStep op q))) # rest"
    by (simp add: reminderMachine_def [of q op])
  have "length (filter (\<lambda>(r, k). r = who) (firedReminders (queueStep op q)))
      = length (filter (\<lambda>(r, k). r = who) (firedReminders q))
        + timesFired who (op, drop (length (firedReminders q)) (firedReminders (queueStep op q)))"
    by (subst fired_grows) (simp add: timesFired_def)
  with Cons.IH [OF rest] entries show ?case by (auto simp add: asksFor_asks algebra_simps)
qed simp

text \<open>Reminders end. Whatever the order of operations and timers, and however often its
  handler throws, a reminder goes off at most as many times as the configured patience
  allows (once where it allows none) for each time it was asked for: a handler that always
  fails cannot keep the queue delivering for ever.\<close>

theorem reminders_end:
  "length (filter (\<lambda>(r, k). r = who) (firedReminders (fold queueStep ops (newQueue p))))
    \<le> max 1 (patienceAttempts p) * length (filter (asks who) ops)"
proof -
  let ?limit = "max 1 (patienceAttempts p)"
  obtain t entries where run: "run_machine reminderMachine (newQueue p) ops = (t, entries)"
    by (cases "run_machine reminderMachine (newQueue p) ops")
  have inv: "remindersInv ?limit (newQueue p)"
    using newQueue_inv(1) by (simp add: remindersInv_def reminderLimit_def newQueue_def)
  have "reminderBudget who ?limit (newQueue p) = 0" "firedReminders (newQueue p) = []"
    by (simp_all add: reminderBudget_def newQueue_def)
  with reminders.run_pays [OF inv run, of who]
    reminder_run [OF run, of who ?limit] show ?thesis by auto
qed

end
