(* ===== verification/Gateway_Flow_Laws.thy ===== *)
theory Gateway_Flow_Laws
  imports Gateway_Stream Gateway_Queue_Laws
begin

text \<open>
  Reasoning about flows. A law is a relation between the world before and after; the
  interface \<open>flow_law\<close> says that a reflexive and transitive law holds of a whole flow when it
  holds of its parts. The hold on an order is then computed: what it saves, which receipts it
  writes and which envelopes end up on which stream.
\<close>

section \<open>Laws of flows\<close>

definition obeys :: "(World \<Rightarrow> World \<Rightarrow> bool) \<Rightarrow> 'a flow \<Rightarrow> bool" where
  "obeys law m = (\<forall>w. law w (snd (m w)))"

lemma obeysI: "(\<And>w. law w (snd (m w))) \<Longrightarrow> obeys law m"
  by (simp add: obeys_def)

lemma obeysD: "obeys law m \<Longrightarrow> m w = (r, w') \<Longrightarrow> law w w'"
  by (metis obeys_def snd_conv)

lemma andThen_eq:
  "andThen m f w = (case m w of (Inl thrown, w') \<Rightarrow> (Inl thrown, w') | (Inr x, w') \<Rightarrow> f x w')"
  by (simp add: andThen_def)

lemma andThen_Inr [simp]: "m w = (Inr x, w') \<Longrightarrow> andThen m f w = f x w'"
  by (simp add: andThen_eq)

lemma returns_eq [simp]: "returns x w = (Inr x, w)"
  by (simp add: returns_def)

lemma readStore_eq [simp]: "readStore f w = (Inr (f (worldStore w)), w)"
  by (simp add: readStore_def)

locale flow_law =
  fixes law :: "World \<Rightarrow> World \<Rightarrow> bool"
  assumes refl: "law w w"
    and trans: "law u v \<Longrightarrow> law v w \<Longrightarrow> law u w"
begin

lemma obeys_returns: "obeys law (returns x)"
  by (simp add: obeys_def refl)

lemma obeys_throws: "obeys law (throws message)"
  by (simp add: obeys_def throws_def refl)

lemma obeys_readStore: "obeys law (readStore f)"
  by (simp add: obeys_def refl)

lemma obeys_look: "obeys law (\<lambda>w. (Inr (f w), w))"
  by (simp add: obeys_def refl)

lemma obeys_andThen:
  assumes "obeys law m" and "\<And>x. obeys law (f x)"
  shows "obeys law (andThen m f)"
proof (rule obeysI)
  fix w
  obtain r w' where m: "m w = (r, w')" by (cases "m w")
  then have "law w w'" by (rule obeysD [OF assms(1)])
  moreover have "law w' (snd (f x w'))" for x using assms(2) by (simp add: obeys_def)
  ultimately show "law w (snd (andThen m f w))"
    by (cases r) (auto simp: andThen_eq m intro: trans)
qed

lemma obeys_attempt: "obeys law m \<Longrightarrow> obeys law (attempt m)"
  by (simp add: obeys_def attempt_def case_prod_beta)

lemma obeys_forEach: "(\<And>x acc. obeys law (body x acc)) \<Longrightarrow> obeys law (forEach body xs acc)"
  by (induction xs arbitrary: acc) (simp_all add: obeys_returns obeys_andThen)

lemmas obeys_intros =
  obeys_returns obeys_throws obeys_readStore obeys_look obeys_andThen obeys_attempt obeys_forEach

end

section \<open>What a decision may do before anything is written\<close>

text \<open>Read the clock, draw identifiers and leave reminders.\<close>

definition arming :: "World \<Rightarrow> World \<Rightarrow> bool" where
  "arming w w' =
     (worldStore w' = worldStore w \<and> chargesSent w' = chargesSent w
      \<and> (\<exists>asked. worldQueue w' = fold (\<lambda>(r, after). remind r after) asked (worldQueue w)))"

lemma arming_queue:
  assumes "arming w w'" and "queueInv (worldQueue w)"
  shows "queueInv (worldQueue w')" and "carried (worldQueue w') m = carried (worldQueue w) m"
proof -
  from assms(1) obtain asked
    where q: "worldQueue w' = fold (\<lambda>(r, after). remind r after) asked (worldQueue w)"
    by (auto simp: arming_def)
  have "queueInv p \<Longrightarrow> queueInv (fold (\<lambda>(r, after). remind r after) asked p)
      \<and> carried (fold (\<lambda>(r, after). remind r after) asked p) m = carried p m" for p
  proof (induction asked arbitrary: p)
    case (Cons a asked)
    have "queueInv (remind (fst a) (snd a) p)" "carried (remind (fst a) (snd a) p) m = carried p m"
      using queueStep_moves [OF Cons.prems, of "QRemind (fst a) (snd a)" m]
      by (simp_all add: finished_def published_def)
    with Cons.IH [of "remind (fst a) (snd a) p"] show ?case by (simp add: case_prod_beta)
  qed simp
  from this [OF assms(2)] show "queueInv (worldQueue w')"
    "carried (worldQueue w') m = carried (worldQueue w) m" by (simp_all add: q)
qed

interpretation arms: flow_law arming
proof
  show "arming w w" for w by (auto simp: arming_def intro: exI [of _ "[]"])
  show "arming u v \<Longrightarrow> arming v w \<Longrightarrow> arming u w" for u v w
    by (auto simp: arming_def fold_append [symmetric] simp del: fold_append intro: exI)
      (metis comp_apply fold_append)
qed

lemma arms_drawId: "obeys arming (drawId rt kind)"
  by (auto simp: obeys_def drawId_def arming_def intro: exI [of _ "[]"])

lemma arms_readClock: "obeys arming (readClock rt)"
  by (auto simp: obeys_def readClock_def arming_def intro: exI [of _ "[]"])

lemma arms_remind: "obeys arming (tellQueue (remind r after))"
  by (auto simp: obeys_def tellQueue_def onQueue_def arming_def intro: exI [of _ "[(r, after)]"])

lemmas arms_intros = arms.obeys_intros arms_drawId arms_readClock arms_remind

lemma arms_arm: "obeys arming (arm rt before after i)"
  unfolding arm_def by (auto intro!: arms_intros split: if_split)

lemma arms_orderDocumentOf: "obeys arming (orderDocumentOf record)"
  unfolding orderDocumentOf_def by (auto intro!: arms_intros split: option.split)

lemma arms_refundReasonOf: "obeys arming (refundReasonOf order)"
  unfolding refundReasonOf_def by (auto intro!: arms_intros split: option.split Closure.split)

lemma arms_receiptFor: "obeys arming (receiptFor rt record before t)"
  unfolding receiptFor_def receiptOutcomeOf_def Let_def
  by (auto intro!: arms_intros split: option.split if_split)

lemma arms_orderEnvelope: "obeys arming (orderEnvelope rt record t)"
  unfolding orderEnvelope_def by (intro arms_intros arms_orderDocumentOf)

lemma arms_eventEnvelope: "obeys arming (eventEnvelope rt record event t)"
  unfolding eventEnvelope_def Let_def
  by (auto intro!: arms_intros arms_refundReasonOf split: option.split MerchantEvent.split)

lemma arms_writesWithTheOrder: "obeys arming (writesWithTheOrder rt record before effects t)"
proof -
  have "obeys arming (writeFor rt record before t effect writes)" for effect writes
    by (cases effect)
      (auto simp: writeFor_def
        intro!: arms_intros arms_orderEnvelope arms_eventEnvelope arms_receiptFor)
  then show ?thesis unfolding writesWithTheOrder_def by (rule arms.obeys_forEach)
qed

lemma arms_refuse: "obeys arming (refuseToWriteAnImpossibleOrder order)"
  unfolding refuseToWriteAnImpossibleOrder_def Let_def by (auto intro!: arms_intros)

lemmas arms_parts = arms_arm arms_writesWithTheOrder arms_refuse

lemma arms_decideEvent: "obeys arming (decideEvent rt i event facts whileWaitingOn found)"
  unfolding decideEvent_def Let_def
  by (auto intro!: arms_intros arms_parts split: TransitionResult.split)

lemma arms_driveHome: "obeys arming (driveHome events order effects)"
  by (induction events arbitrary: order effects)
    (auto intro!: arms_intros arms_parts split: TransitionResult.split)

lemma arms_decidePayment: "obeys arming (decidePayment rt i owner presented payTo t found)"
  unfolding decidePayment_def Let_def
  by (auto intro!: arms_intros arms_parts arms_driveHome split: sum.split)

section \<open>The hold, computed\<close>

fun storeWrite :: "WithTheOrder \<Rightarrow> MemoryStore \<Rightarrow> MemoryStore" where
  "storeWrite (ReceiptWrite m r) s = putReceipt m r s"
| "storeWrite (EnvelopeWrite m e after) s = s"

fun stageWrite :: "WithTheOrder \<Rightarrow> MemoryQueue \<Rightarrow> MemoryQueue" where
  "stageWrite (ReceiptWrite m r) q = q"
| "stageWrite (EnvelopeWrite m e after) q = stage m e after q"

fun arrivalOf :: "WithTheOrder \<Rightarrow> MemoryQueue \<Rightarrow> MemoryQueue" where
  "arrivalOf (ReceiptWrite m r) q = q"
| "arrivalOf (EnvelopeWrite m e after) q = putStaged m e after q"

lemma takes_eq:
  "forEach (\<lambda>write arrivals.
      andThen (takeWithTheOrder write) (\<lambda>arrival. returns (arrivals @ [arrival]))) ws acc w
    = (Inr (acc @ map arrivalOf ws),
       w\<lparr>worldStore := fold storeWrite ws (worldStore w),
         worldQueue := fold stageWrite ws (worldQueue w)\<rparr>)"
proof (induction ws arbitrary: acc w)
  case (Cons x ws)
  have "takeWithTheOrder x w
      = (Inr (arrivalOf x), w\<lparr>worldStore := storeWrite x (worldStore w),
           worldQueue := stageWrite x (worldQueue w)\<rparr>)"
    by (cases x) (simp_all add: onStore_def onQueue_def fun_eq_iff)
  then have "andThen (takeWithTheOrder x) (\<lambda>arrival. returns (acc @ [arrival])) w
      = (Inr (acc @ [arrivalOf x]), w\<lparr>worldStore := storeWrite x (worldStore w),
           worldQueue := stageWrite x (worldQueue w)\<rparr>)"
    by simp
  then show ?case by (simp only: forEach.simps andThen_Inr Cons.IH) simp
qed simp

lemma arrivals_eq:
  "forEach (\<lambda>arrival _. tellQueue arrival) arrivals () w
    = (Inr (), w\<lparr>worldQueue := fold (\<lambda>arrival q. arrival q) arrivals (worldQueue w)\<rparr>)"
  by (induction arrivals arbitrary: w) (simp_all add: tellQueue_def onQueue_def)

definition heldWrite :: "string \<Rightarrow> StoredOrder \<Rightarrow> 'a OrderChange \<Rightarrow> World \<Rightarrow> World" where
  "heldWrite i found d w =
     (let ws = sort_key rankOf (alongside d);
          s = fold storeWrite ws (worldStore w) in
      w\<lparr>worldStore := (case saving d of None \<Rightarrow> s | Some r \<Rightarrow> saveHeld i found r s),
        worldQueue := fold arrivalOf ws (fold stageWrite ws (worldQueue w))\<rparr>)"

lemma withOrder_decided:
  assumes "orderById i (worldStore w) = Some found"
    and "scope = None \<or> scope = Some (saleMerchant found)" and "change found w = (Inr d, w')"
  shows "withOrder i change scope w = (Inr (Some (deciding d)), heldWrite i found d w')"
proof -
  have w': "andThen (change found) f w = f d w'" for f :: "'a OrderChange \<Rightarrow> 'b flow"
    by (rule andThen_Inr) (rule assms(3))
  have seen: "fold (\<lambda>arrival q. arrival q) (map arrivalOf ws) q = fold arrivalOf ws q" for ws q
    by (simp add: fold_map comp_def)
  show ?thesis
    using assms(1,2)
    by (cases "saving d")
      (auto simp: withOrder_def w' takes_eq arrivals_eq writeOrder_def onStore_def heldWrite_def
        Let_def seen)
qed

lemma withOrder_cases:
  assumes "withOrder i change scope w = (r, w')"
  obtains (absent) "r = Inr None" "w' = w"
    | (threw) found thrown where "orderById i (worldStore w) = Some found"
        "change found w = (Inl thrown, w')" "r = Inl thrown"
    | (decided) found d v where "orderById i (worldStore w) = Some found"
        "scope = None \<or> scope = Some (saleMerchant found)" "change found w = (Inr d, v)"
        "r = Inr (Some (deciding d))" "w' = heldWrite i found d v"
proof (cases "orderById i (worldStore w)")
  case None
  with assms absent show thesis by (simp add: withOrder_def)
next
  case (Some found)
  show thesis
  proof (cases "scope = None \<or> scope = Some (saleMerchant found)")
    case False
    with Some assms absent show thesis by (simp add: withOrder_def)
  next
    case True
    obtain c v where c: "change found w = (c, v)" by (cases "change found w")
    show thesis
    proof (cases c)
      case (Inl thrown)
      with Some True assms c threw show thesis by (auto simp: withOrder_def andThen_eq)
    next
      case (Inr d)
      with withOrder_decided [OF Some True, of change d v] c assms decided [OF Some True]
      show thesis by simp
    qed
  qed
qed

text \<open>Where the envelopes of a hold end up.\<close>

definition envelopesTo :: "string \<Rightarrow> WithTheOrder list \<Rightarrow> WorkerEnvelope list" where
  "envelopesTo m ws =
     concat (map (\<lambda>w. case w of EnvelopeWrite m' e after \<Rightarrow> if m' = m then [e] else []
                               | ReceiptWrite m' r \<Rightarrow> []) ws)"

lemma envelopesTo_simps [simp]:
  "envelopesTo m [] = []"
  "envelopesTo m (EnvelopeWrite m' e after # ws)
    = (if m' = m then [e] else []) @ envelopesTo m ws"
  "envelopesTo m (ReceiptWrite m' r # ws) = envelopesTo m ws"
  "envelopesTo m (ws @ ws') = envelopesTo m ws @ envelopesTo m ws'"
  by (simp_all add: envelopesTo_def)

lemma envelopesTo_mset: "mset ws = mset ws' \<Longrightarrow> mset (envelopesTo m ws) = mset (envelopesTo m ws')"
proof -
  have "mset (envelopesTo m ws) = (\<Sum>w\<in>#mset ws. case w of
      EnvelopeWrite m' e after \<Rightarrow> if m' = m then {#e#} else {#} | ReceiptWrite m' r \<Rightarrow> {#})" for ws
    by (induction ws) (simp_all split: WithTheOrder.split)
  then show "mset ws = mset ws' \<Longrightarrow> ?thesis" by simp
qed

lemma putStaged_moves:
  assumes "queueInv q"
  shows "queueInv (putStaged m e after q)"
    and "carried (putStaged m e after q) m' = carried q m' + (if m' = m then {#e#} else {#})"
  using arrive_moves [OF assms] hold_moves [OF assms]
  by (simp_all add: putStaged_def split: option.split)

lemma heldWrite_queue:
  assumes inv: "queueInv (worldQueue w)"
  shows "queueInv (worldQueue (heldWrite i found d w))"
    and "carried (worldQueue (heldWrite i found d w)) m
      = carried (worldQueue w) m + mset (envelopesTo m (alongside d))"
proof -
  have staged: "queueInv q \<Longrightarrow> queueInv (fold stageWrite ws q)
      \<and> carried (fold stageWrite ws q) m = carried q m" for ws q
  proof (induction ws arbitrary: q)
    case (Cons x ws)
    have "queueInv (stageWrite x q)" "carried (stageWrite x q) m = carried q m"
      using sameCargo_keeps [OF Cons.prems streamOf_same_cargo [OF Cons.prems]] Cons.prems
      by (cases x; simp add: stage_def)+
    with Cons.IH show ?case by simp
  qed simp
  have arrived: "queueInv q \<Longrightarrow> queueInv (fold arrivalOf ws q)
      \<and> carried (fold arrivalOf ws q) m = carried q m + mset (envelopesTo m ws)" for ws q
  proof (induction ws arbitrary: q)
    case (Cons x ws)
    have "queueInv (arrivalOf x q)"
      "carried (arrivalOf x q) m = carried q m + mset (envelopesTo m [x])"
      using putStaged_moves [OF Cons.prems] Cons.prems by (cases x; simp)+
    moreover have "envelopesTo m (x # ws) = envelopesTo m [x] @ envelopesTo m ws"
      using envelopesTo_simps(4) [of m "[x]" ws] by simp
    ultimately show ?case using Cons.IH [of "arrivalOf x q"] by (simp add: ac_simps)
  qed simp
  let ?ws = "sort_key rankOf (alongside d)"
  note st = staged [OF inv, of ?ws]
  from st have "queueInv (fold stageWrite ?ws (worldQueue w))" by blast
  note ar = arrived [OF this, of ?ws]
  have "mset (envelopesTo m ?ws) = mset (envelopesTo m (alongside d))"
    by (rule envelopesTo_mset) simp
  with st ar show "queueInv (worldQueue (heldWrite i found d w))"
    "carried (worldQueue (heldWrite i found d w)) m
      = carried (worldQueue w) m + mset (envelopesTo m (alongside d))"
    by (simp_all add: heldWrite_def Let_def)
qed

end
