(* ===== verification/Gateway_Order_Laws.thy ===== *)
theory Gateway_Order_Laws
  imports Gateway_Flow_Laws Order_Answers Order_Runs
begin

text \<open>
  What one decision about an order comes to. On an order of the machine a decision never
  throws: its order breaks no money rule, and every document its effects ask for can be
  written. The record it saves follows from the record it found, and the writes that go with
  it are exactly those its effects name.
\<close>

section \<open>Every document can be written\<close>

fun needsPrice :: "Effect \<Rightarrow> bool" where
  "needsPrice DispatchOrder = True"
| "needsPrice (RedeliverOrder n d) = True"
| "needsPrice (EmitMerchantEvent RefundDueEvent) = True"
| "needsPrice IssueReceipt = True"
| "needsPrice _ = False"

definition writable :: "Order \<Rightarrow> Effect list \<Rightarrow> bool" where
  "writable y fx =
     ((\<forall>e \<in> set fx. needsPrice e \<longrightarrow> price y \<noteq> None)
      \<and> (IssueReceipt \<in> set fx \<longrightarrow> state y = Delivered)
      \<and> (EmitMerchantEvent RefundDueEvent \<in> set fx
           \<longrightarrow> (\<exists>c. closure y = Some c \<and> debtClosure c)))"

lemma writableD:
  assumes "writable y fx"
  shows "e \<in> set fx \<Longrightarrow> needsPrice e \<Longrightarrow> price y \<noteq> None"
    and "IssueReceipt \<in> set fx \<Longrightarrow> state y = Delivered"
    and "EmitMerchantEvent RefundDueEvent \<in> set fx \<Longrightarrow> \<exists>c. closure y = Some c \<and> debtClosure c"
  using assms unfolding writable_def by blast+

lemma orderInv_priced:
  "orderInv y \<Longrightarrow> state y \<notin> {Created, Rejected, Cancelled} \<Longrightarrow> price y \<noteq> None"
  by (auto simp: orderInv_def priceFits_def split: option.splits)

lemma expiry_never_redelivers:
  assumes "transition x (DeadlineExpired t k) = Moved y fx"
  shows "RedeliverOrder a w \<notin> set fx"
proof -
  from assms have "expireArmed x t k = Moved y fx" by (auto simp: onDeadline_Moved_iff)
  then show ?thesis
    by (cases k)
      (auto simp: expireArmed_def onQuoteSilence_def enterQuoted_def onSilentSettle_def ok_def
        resolveFulfillmentFailure_def effectsOnQuoted_def Let_def split: if_splits OrderState.splits)
qed

lemma redelivery_priced:
  assumes inv: "orderInv x" and moved: "transition x e = Moved y fx"
    and asked: "RedeliverOrder a w \<in> set fx"
  shows "price y \<noteq> None"
proof (cases e)
  case (DeadlineExpired t k)
  with moved asked expiry_never_redelivers show ?thesis by blast
next
  case (Happened s)
  with moved have "stateTransition x s = Moved y fx" using transition_Happened_Moved by blast
  from no_redelivery_elsewhere [OF this asked]
  have st: "state x \<in> {AwaitingConfirmation, Paid, Dispatched}" .
  then have "price x \<noteq> None" by (intro orderInv_priced [OF inv]) auto
  moreover have "price y = price x"
    using transition_sound [OF inv moved] st by (auto simp: stepSound_def recordsKept_def)
  ultimately show ?thesis by simp
qed

lemma moved_writable:
  assumes inv: "orderInv x" and moved: "transition x e = Moved y fx"
  shows "writable y fx"
proof -
  have y: "orderInv y" by (rule transition_keeps_orderInv [OF inv moved])
  have fit: "effectsFit x y fx" using transition_sound [OF inv moved] by (simp add: stepSound_def)
  have "price y \<noteq> None" if "effect \<in> set fx" and "needsPrice effect" for effect
  proof (cases "\<exists>n d. effect = RedeliverOrder n d")
    case True
    with that redelivery_priced [OF inv moved] show ?thesis by blast
  next
    case False
    with that have "effect \<in> {DispatchOrder, IssueReceipt, EmitMerchantEvent RefundDueEvent}"
      by (auto elim: needsPrice.elims)
    with fit that(1) have "state y \<in> {Paid, Delivered, RefundDue}"
      by (auto simp: effectsFit_def entersPaid_def entersDelivered_def entersRefundDue_def)
    then show ?thesis by (intro orderInv_priced [OF y]) auto
  qed
  with fit orderInv_after_goods(3) [of y] y show ?thesis
    by (auto simp: writable_def effectsFit_def entersDelivered_def entersRefundDue_def)
qed

text \<open>What a write looks like for the effect it is for.\<close>

fun aboutEvent :: "OrderEventDocument \<Rightarrow> MerchantEvent \<Rightarrow> string \<Rightarrow> bool" where
  "aboutEvent (RefundDueDocument i t m reason) e j = (e = RefundDueEvent \<and> i = j)"
| "aboutEvent (UnpaidAfterConfirmationDocument i t) e j =
     (e = UnpaidAfterConfirmationEvent \<and> i = j)"
| "aboutEvent (PaymentFailedAfterDeliveryDocument i t) e j =
     (e = PaymentFailedAfterDeliveryEvent \<and> i = j)"

definition receiptFits :: "StoredOrder \<Rightarrow> Receipt \<Rightarrow> bool" where
  "receiptFits record r =
     (receiptOrderId r = orderId (theOrder record) \<and> receiptItemId r = saleItem record
      \<and> receiptOutcome r = ReceiptDelivered \<and> receiptTest r = test (theOrder record)
      \<and> (\<exists>p. price (theOrder record) = Some p \<and> saleAmount (receiptPrice r) = amount p
           \<and> saleCurrency (receiptPrice r) = currency p))"

definition writeFits :: "StoredOrder \<Rightarrow> Effect \<Rightarrow> WithTheOrder \<Rightarrow> bool" where
  "writeFits record effect write =
     (case effect of
        DispatchOrder \<Rightarrow>
          (\<exists>e t doc. write = EnvelopeWrite (saleMerchant record) (OrderEnvelope e t doc) None
             \<and> documentId doc = orderId (theOrder record)
             \<and> Some (documentPrice doc) = salePriceOf record)
      | RedeliverOrder n d \<Rightarrow>
          (\<exists>e t doc. write = EnvelopeWrite (saleMerchant record) (OrderEnvelope e t doc) (Some d)
             \<and> documentId doc = orderId (theOrder record)
             \<and> Some (documentPrice doc) = salePriceOf record)
      | EmitMerchantEvent event \<Rightarrow>
          (\<exists>e t doc. write = EnvelopeWrite (saleMerchant record) (EventEnvelope e t doc) None
             \<and> aboutEvent doc event (orderId (theOrder record)))
      | IssueReceipt \<Rightarrow>
          (\<exists>r. write = ReceiptWrite (saleMerchant record) r \<and> receiptFits record r)
      | _ \<Rightarrow> False)"

lemma orderEnvelope_ok:
  assumes "price (theOrder record) \<noteq> None"
  shows "\<exists>e doc w'. orderEnvelope rt record t w = (Inr (OrderEnvelope e (asTimestamp t) doc), w')
    \<and> documentId doc = orderId (theOrder record) \<and> Some (documentPrice doc) = salePriceOf record"
  using assms
  by (auto simp: orderEnvelope_def drawId_def andThen_eq orderDocumentOf_def salePriceOf_def Let_def)

lemma refundReasonOf_ok:
  "closure order = Some c \<Longrightarrow> debtClosure c \<Longrightarrow> \<exists>reason. refundReasonOf order w = (Inr reason, w)"
  by (cases c) (auto simp: refundReasonOf_def)

lemma eventEnvelope_ok:
  assumes "event = RefundDueEvent \<Longrightarrow> price (theOrder record) \<noteq> None
      \<and> (\<exists>c. closure (theOrder record) = Some c \<and> debtClosure c)"
  shows "\<exists>e s doc w'. eventEnvelope rt record event t w = (Inr (EventEnvelope e s doc), w')
    \<and> aboutEvent doc event (orderId (theOrder record))"
proof (cases event)
  case RefundDueEvent
  with assms obtain p c where "price (theOrder record) = Some p"
    and c: "closure (theOrder record) = Some c" "debtClosure c" by auto
  moreover obtain reason where "\<forall>w. refundReasonOf (theOrder record) w = (Inr reason, w)"
    using c by (cases c rule: debtClosure.cases) (auto simp: refundReasonOf_def)
  ultimately show ?thesis
    using RefundDueEvent by (auto simp: eventEnvelope_def drawId_def andThen_eq Let_def)
qed (auto simp: eventEnvelope_def drawId_def andThen_eq Let_def)

lemma receiptFor_ok:
  assumes "price (theOrder record) \<noteq> None" and "state (theOrder record) = Delivered"
  shows "\<exists>r w'. receiptFor rt record before t w = (Inr r, w') \<and> receiptFits record r"
  using assms
  by (auto simp: receiptFor_def receiptOutcomeOf_def drawId_def andThen_eq Let_def receiptFits_def)

lemma writeFor_ok:
  assumes "writable (theOrder record) fx" and "effect \<in> set fx"
  shows "if carriedOutAfterwards effect
    then writeFor rt record before t effect writes w = (Inr writes, w)
    else \<exists>x w'. writeFor rt record before t effect writes w = (Inr (writes @ [x]), w')
           \<and> writeFits record effect x"
proof (cases effect)
  case DispatchOrder
  with assms have "price (theOrder record) \<noteq> None" using writableD(1) by fastforce
  from orderEnvelope_ok [OF this, of rt t w] DispatchOrder show ?thesis
    by (auto simp: writeFor_def andThen_eq writeFits_def)
next
  case (RedeliverOrder n d)
  with assms have "price (theOrder record) \<noteq> None" using writableD(1) by fastforce
  from orderEnvelope_ok [OF this, of rt t w] RedeliverOrder show ?thesis
    by (auto simp: writeFor_def andThen_eq writeFits_def)
next
  case (EmitMerchantEvent event)
  with assms have "event = RefundDueEvent \<Longrightarrow> price (theOrder record) \<noteq> None
      \<and> (\<exists>c. closure (theOrder record) = Some c \<and> debtClosure c)"
    using writableD(1,3) [OF assms(1)] by fastforce
  from eventEnvelope_ok [OF this, of event rt t w] EmitMerchantEvent show ?thesis
    by (auto simp: writeFor_def andThen_eq writeFits_def)
next
  case IssueReceipt
  with assms have "price (theOrder record) \<noteq> None" "state (theOrder record) = Delivered"
    using writableD(1,2) by fastforce+
  from receiptFor_ok [OF this, of rt before t w] IssueReceipt show ?thesis
    by (auto simp: writeFor_def andThen_eq writeFits_def)
qed (simp_all add: writeFor_def)

lemma writes_ok:
  assumes "writable (theOrder record) fx"
  shows "\<exists>ws w'. writesWithTheOrder rt record before fx t w = (Inr ws, w')
    \<and> list_all2 (writeFits record) (filter (\<lambda>e. \<not> carriedOutAfterwards e) fx) ws"
proof -
  have "set gx \<subseteq> set fx \<Longrightarrow>
      \<exists>ws w'. forEach (writeFor rt record before t) gx acc w = (Inr (acc @ ws), w')
        \<and> list_all2 (writeFits record) (filter (\<lambda>e. \<not> carriedOutAfterwards e) gx) ws" for gx acc w
  proof (induction gx arbitrary: acc w)
    case (Cons g gx)
    then have g: "g \<in> set fx" and gx: "set gx \<subseteq> set fx" by simp_all
    show ?case
    proof (cases "carriedOutAfterwards g")
      case True
      with writeFor_ok [OF assms g, of rt before t acc w] Cons.IH [OF gx, of acc w]
      show ?thesis by simp
    next
      case False
      with writeFor_ok [OF assms g, of rt before t acc w] obtain x w'
        where x: "writeFor rt record before t g acc w = (Inr (acc @ [x]), w')"
          "writeFits record g x" by auto
      from Cons.IH [OF gx, of "acc @ [x]" w'] obtain ws w''
        where "forEach (writeFor rt record before t) gx (acc @ [x]) w' = (Inr (acc @ x # ws), w'')"
          "list_all2 (writeFits record) (filter (\<lambda>e. \<not> carriedOutAfterwards e) gx) ws" by auto
      with x False show ?thesis by (auto intro!: exI [of _ "x # ws"])
    qed
  qed simp
  from this [of fx "[]" w] show ?thesis by (auto simp: writesWithTheOrder_def)
qed

section \<open>What a decision keeps of the record it found\<close>

text \<open>
  The order moves by transitions of the machine, here with the effects they asked for in
  order. Whose sale it is, what was bought, who paid first and the goods of the first delivery
  are settled for good; what the payment layer said is kept in order, the oldest dropped and
  counted.
\<close>

inductive leadsBy :: "Order \<Rightarrow> Effect list \<Rightarrow> Order \<Rightarrow> bool" where
  stays: "leadsBy x [] x"
| moves: "leadsBy x fx y \<Longrightarrow> transition y e = Moved z gx \<Longrightarrow> leadsBy x (fx @ gx) z"

lemma leadsBy_once: "transition x e = Moved y fx \<Longrightarrow> leadsBy x fx y"
  using leadsBy.moves [OF leadsBy.stays] by fastforce

lemma leadsBy_reachable: "leadsBy x fx y \<Longrightarrow> reachable x \<Longrightarrow> reachable y"
  by (induction rule: leadsBy.induct) (auto intro: reachable.moved)

lemma leadsBy_orderInv: "leadsBy x fx y \<Longrightarrow> orderInv x \<Longrightarrow> orderInv y"
  by (induction rule: leadsBy.induct) (auto intro: transition_keeps_orderInv)

lemma leadsBy_trans: "leadsBy y gx z \<Longrightarrow> leadsBy x fx y \<Longrightarrow> leadsBy x (fx @ gx) z"
proof (induction rule: leadsBy.induct)
  case (moves y gx z e u hx)
  then show ?case using leadsBy.moves [of x "fx @ gx" z e u hx] by simp
qed simp

definition wordsHeard :: "StoredOrder \<Rightarrow> StoredOrder \<Rightarrow> bool" where
  "wordsHeard r r' =
     (\<exists>new gone. gone \<le> length (salePaymentWords r @ new)
        \<and> salePaymentWords r' = drop gone (salePaymentWords r @ new)
        \<and> salePaymentWordsDropped r' = salePaymentWordsDropped r + gone)"

definition sameFacts :: "StoredOrder \<Rightarrow> StoredOrder \<Rightarrow> bool" where
  "sameFacts r r' =
     (saleMerchant r' = saleMerchant r \<and> saleItem r' = saleItem r
      \<and> saleMerchantItem r' = saleMerchantItem r \<and> saleParams r' = saleParams r
      \<and> (salePaidBy r \<noteq> None \<longrightarrow> salePaidBy r' = salePaidBy r)
      \<and> (saleDelivery r \<noteq> None \<longrightarrow> saleDelivery r' = saleDelivery r)
      \<and> wordsHeard r r')"

lemma wordsHeard_refl: "wordsHeard r r"
  by (auto simp: wordsHeard_def intro: exI [of _ "[]"])

lemma wordsHeard_trans:
  assumes "wordsHeard a b" and "wordsHeard b c"
  shows "wordsHeard a c"
proof -
  from assms obtain new gone new' gone' where
    b: "gone \<le> length (salePaymentWords a @ new)"
      "salePaymentWords b = drop gone (salePaymentWords a @ new)"
      "salePaymentWordsDropped b = salePaymentWordsDropped a + gone"
    and c: "gone' \<le> length (salePaymentWords b @ new')"
      "salePaymentWords c = drop gone' (salePaymentWords b @ new')"
      "salePaymentWordsDropped c = salePaymentWordsDropped b + gone'"
    unfolding wordsHeard_def by blast
  have "drop gone (salePaymentWords a @ new) @ new' = drop gone (salePaymentWords a @ new @ new')"
    using b(1) by simp
  then have "salePaymentWords c = drop (gone + gone') (salePaymentWords a @ new @ new')"
    using b(2) c(2) by (simp add: add.commute del: drop_append)
  moreover have "gone + gone' \<le> length (salePaymentWords a @ new @ new')"
    using b(1,2) c(1) by simp
  ultimately show ?thesis
    unfolding wordsHeard_def using b(3) c(3)
    by (intro exI [of _ "new @ new'"] exI [of _ "gone + gone'"]) simp
qed

lemma sameFacts_refl: "sameFacts r r"
  by (simp add: sameFacts_def wordsHeard_refl)

lemma sameFacts_trans: "sameFacts a b \<Longrightarrow> sameFacts b c \<Longrightarrow> sameFacts a c"
  by (auto simp: sameFacts_def intro: wordsHeard_trans)

lemma alsoSaid_facts:
  assumes "salePaymentWords known = salePaymentWords found"
    and "salePaymentWordsDropped known = salePaymentWordsDropped found"
  shows "wordsHeard known (alsoSaid rt found word known)"
    and "length (salePaymentWords (alsoSaid rt found word known))
      \<le> max (cfgPaymentWordsKept (config rt)) 0"
    and "theOrder (alsoSaid rt found word known) = theOrder known"
  using assms
  by (auto simp: alsoSaid_def wordsHeard_def Let_def
      intro!: exI [of _ "[word]"] exI [of _ "Suc (length (salePaymentWords found))
        - cfgPaymentWordsKept (config rt)"])

lemma alsoSaid_frame [simp]:
  "saleMerchant (alsoSaid rt found word known) = saleMerchant known"
  "saleItem (alsoSaid rt found word known) = saleItem known"
  "saleMerchantItem (alsoSaid rt found word known) = saleMerchantItem known"
  "saleParams (alsoSaid rt found word known) = saleParams known"
  "salePaidBy (alsoSaid rt found word known) = salePaidBy known"
  "saleDelivery (alsoSaid rt found word known) = saleDelivery known"
  "theOrder (alsoSaid rt found word known) = theOrder known"
  by (simp_all add: alsoSaid_def Let_def)

lemma knownWith_facts:
  "sameFacts found (knownWith rt found facts)" "theOrder (knownWith rt found facts) = theOrder found"
  "saleDelivery (knownWith rt found facts) = saleDelivery found"
  "length (salePaymentWords found) \<le> cfgPaymentWordsKept (config rt)
   \<Longrightarrow> length (salePaymentWords (knownWith rt found facts)) \<le> cfgPaymentWordsKept (config rt)"
proof -
  have words: "wordsHeard found (r\<lparr>salePriceId := p\<rparr>) = wordsHeard found r"
    "wordsHeard found (r\<lparr>saleOpenDelivery := q\<rparr>) = wordsHeard found r" for r p q
    by (simp_all add: wordsHeard_def)
  note said = alsoSaid_facts [of "found\<lparr>saleSettlement := s\<rparr>" found rt word for s word]
    alsoSaid_facts [of found found rt word for word]
  show "sameFacts found (knownWith rt found facts)"
    "length (salePaymentWords found) \<le> cfgPaymentWordsKept (config rt)
     \<Longrightarrow> length (salePaymentWords (knownWith rt found facts)) \<le> cfgPaymentWordsKept (config rt)"
    using said wordsHeard_refl [of found]
    by (auto simp: knownWith_def sameFacts_def Let_def words split: option.split)
      (simp_all add: wordsHeard_def)
  show "theOrder (knownWith rt found facts) = theOrder found"
    "saleDelivery (knownWith rt found facts) = saleDelivery found"
    by (auto simp: knownWith_def Let_def split: option.split)
qed

text \<open>A change is sound when it saves nothing or saves what follows, with its effects' writes.\<close>

definition soundChange :: "Runtime \<Rightarrow> StoredOrder \<Rightarrow> 'a OrderChange \<Rightarrow> bool" where
  "soundChange rt found d =
     (case saving d of
        None \<Rightarrow> alongside d = []
      | Some next' \<Rightarrow>
          sameFacts found next'
          \<and> (length (salePaymentWords found) \<le> cfgPaymentWordsKept (config rt)
               \<longrightarrow> length (salePaymentWords next') \<le> cfgPaymentWordsKept (config rt))
          \<and> (\<exists>fx. leadsBy (theOrder found) fx (theOrder next')
               \<and> list_all2 (writeFits next') (filter (\<lambda>e. \<not> carriedOutAfterwards e) fx)
                   (alongside d)))"

lemma refuse_ok: "orderInv order \<Longrightarrow> refuseToWriteAnImpossibleOrder order w = (Inr (), w)"
  by (simp add: refuseToWriteAnImpossibleOrder_def orderInv_no_violations)

lemma arm_ok: "\<exists>w'. arm rt before after i w = (Inr (), w')"
proof -
  have "\<exists>w'. forEach (\<lambda>deadline _.
      if deadline \<in> set before then returns ()
      else tellQueue (remind (DeadlineReminder i (deadlineKind deadline) (dueAt deadline))
        (of_int (max (dueAt deadline - now) 0)))) after () w = (Inr (), w')" for now w
    by (induction after arbitrary: w) (auto simp: andThen_eq tellQueue_def onQueue_def)
  then show ?thesis by (simp add: arm_def andThen_eq readClock_def)
qed

lemma goodsToKeep_facts:
  "sameFacts r known \<Longrightarrow> saleDelivery found = saleDelivery r
   \<Longrightarrow> sameFacts r (goodsToKeep found delivery fx known)"
  "theOrder (goodsToKeep found delivery fx known) = theOrder known"
  "salePaymentWords (goodsToKeep found delivery fx known) = salePaymentWords known"
  by (auto simp: goodsToKeep_def sameFacts_def wordsHeard_def)

lemma decideEvent_sound:
  assumes inv: "orderInv (theOrder found)"
  shows "\<exists>d w'. decideEvent rt i event facts wo found w = (Inr d, w') \<and> soundChange rt found d"
proof (cases "wo \<noteq> None \<and> saleOpenDelivery found \<noteq> wo")
  case True
  then show ?thesis by (auto simp: decideEvent_def soundChange_def)
next
  case False
  let ?known = "knownWith rt found facts"
  note known = knownWith_facts [where found = found and rt = rt and facts = facts]
  show ?thesis
  proof (cases "transition (theOrder found) event")
    case (Refused rejection)
    with False known(2) show ?thesis by (auto simp: decideEvent_def soundChange_def Let_def)
  next
    case (Moved y fx)
    let ?next = "goodsToKeep found (factDelivery facts) fx (?known\<lparr>theOrder := y\<rparr>)"
    have y: "orderInv y" by (rule transition_keeps_orderInv [OF inv Moved])
    have "sameFacts found (?known\<lparr>theOrder := y\<rparr>)"
      using known(1) by (simp add: sameFacts_def wordsHeard_def)
    then have kept: "sameFacts found ?next" by (rule goodsToKeep_facts(1)) simp
    have order: "theOrder ?next = y" by (simp add: goodsToKeep_facts)
    obtain v where arm: "arm rt (deadlines (theOrder ?known)) (deadlines (theOrder ?next)) i w
        = (Inr (), v)" using arm_ok by blast
    have "writable (theOrder ?next) fx"
      unfolding order by (rule moved_writable [OF inv Moved])
    then obtain ws w' where writes: "writesWithTheOrder rt ?next (theOrder ?known) fx (eventAt event) v
          = (Inr ws, w')"
      and fit: "list_all2 (writeFits ?next) (filter (\<lambda>e. \<not> carriedOutAfterwards e) fx) ws"
      using writes_ok by blast
    have "decideEvent rt i event facts wo found w
        = (Inr \<lparr>saving = Some ?next, alongside = ws, deciding = DecidedBy (Moved y fx) ?next\<rparr>, w')"
      using False Moved known(2) refuse_ok [OF y, of w] arm writes
      by (simp add: decideEvent_def Let_def)
    moreover have "soundChange rt found
        \<lparr>saving = Some ?next, alongside = ws, deciding = DecidedBy (Moved y fx) ?next\<rparr>"
      using kept fit known(4) leadsBy_once [OF Moved]
      by (auto simp: soundChange_def order goodsToKeep_facts)
    ultimately show ?thesis by blast
  qed
qed

text \<open>A verified payment: the events it drives the order with, and the change they make.\<close>

lemma purchase_repeated_writes_nothing:
  assumes "transition x (Happened (PurchaseRepeated t)) = Moved y fx" and "e \<in> set fx"
  shows "carriedOutAfterwards e"
proof -
  from assms(1) have "stateTransition x (PurchaseRepeated t) = Moved y fx"
    using transition_Happened_Moved by blast
  then have "set fx \<subseteq> {VerifyPayment}"
    by (cases "state x") (auto simp: stateTransition_def machine_defs split: if_splits)
  with assms(2) show ?thesis by auto
qed

lemma events_for_payment:
  "eventsForVerifiedPayment order t \<in>
     {[], [PaymentVerified t], [PurchaseRepeated t, PaymentVerified t]}"
  by (auto simp: eventsForVerifiedPayment_def split: OrderState.split)

lemma writable_append:
  assumes "writable y gx" and "\<And>e. e \<in> set fx \<Longrightarrow> carriedOutAfterwards e"
  shows "writable y (fx @ gx)"
proof -
  have "\<not> needsPrice e \<and> e \<noteq> IssueReceipt \<and> e \<noteq> EmitMerchantEvent RefundDueEvent"
    if "e \<in> set fx" for e
    using assms(2) [OF that] by (cases e) auto
  with assms(1) show ?thesis by (auto simp: writable_def)
qed

lemma driveHome_sound:
  assumes inv: "orderInv x" and events: "events = eventsForVerifiedPayment x t"
  shows "(\<exists>rejection. driveHome events x [] w = (Inr (Inl rejection), w))
    \<or> (\<exists>y fx. driveHome events x [] w = (Inr (Inr (y, fx)), w) \<and> leadsBy x fx y \<and> writable y fx)"
proof -
  have one: "(\<exists>rejection. driveHome [PaymentVerified t] z hx w = (Inr (Inl rejection), w))
    \<or> (\<exists>y gx. driveHome [PaymentVerified t] z hx w = (Inr (Inr (y, hx @ gx)), w)
         \<and> transition z (Happened (PaymentVerified t)) = Moved y gx)"
    if "orderInv z" for z hx
    using refuse_ok [OF transition_keeps_orderInv [OF that]]
    by (auto split: TransitionResult.split simp del: transition.simps)
  from events_for_payment [of x t] show ?thesis
  proof (elim insertE emptyE)
    assume "eventsForVerifiedPayment x t = []"
    with events show ?thesis using leadsBy.stays by (auto simp: writable_def)
  next
    assume "eventsForVerifiedPayment x t = [PaymentVerified t]"
    with events one [OF inv, of "[]"] moved_writable [OF inv] leadsBy_once show ?thesis
      by (auto simp del: transition.simps driveHome.simps)
  next
    assume both: "eventsForVerifiedPayment x t = [PurchaseRepeated t, PaymentVerified t]"
    show ?thesis
    proof (cases "transition x (Happened (PurchaseRepeated t))")
      case (Refused rejection)
      with both events show ?thesis by simp
    next
      case (Moved z hx)
      have z: "orderInv z" by (rule transition_keeps_orderInv [OF inv Moved])
      have "driveHome events x [] w = driveHome [PaymentVerified t] z hx w"
        using both events Moved refuse_ok [OF z, of w] by (simp del: transition.simps)
      moreover have "writable y (hx @ gx)" if "transition z (Happened (PaymentVerified t)) = Moved y gx"
        for y gx
        using moved_writable [OF z that] purchase_repeated_writes_nothing [OF Moved]
        by (rule writable_append)
      moreover have "leadsBy x (hx @ gx) y"
        if "transition z (Happened (PaymentVerified t)) = Moved y gx" for y gx
        by (rule leadsBy.moves [OF leadsBy_once [OF Moved] that])
      ultimately show ?thesis
        using one [OF z, of hx] by (auto simp del: transition.simps driveHome.simps)
    qed
  qed
qed

lemma decidePayment_sound:
  assumes inv: "orderInv (theOrder found)"
  shows "\<exists>d w'. decidePayment rt i owner presented payTo t found w = (Inr d, w')
    \<and> soundChange rt found d"
proof -
  let ?events = "eventsForVerifiedPayment (theOrder found) t"
  show ?thesis
  proof (cases "salePaidBy found \<noteq> None \<and> salePaidBy found \<noteq> Some owner \<or> ?events = []")
    case True
    then show ?thesis by (auto simp: decidePayment_def soundChange_def Let_def)
  next
    case False
    from driveHome_sound [OF inv refl, of t w] show ?thesis
    proof (elim disjE exE conjE)
      fix rejection assume "driveHome ?events (theOrder found) [] w = (Inr (Inl rejection), w)"
      with False show ?thesis by (auto simp: decidePayment_def soundChange_def Let_def)
    next
      fix y fx
      assume driven: "driveHome ?events (theOrder found) [] w = (Inr (Inr (y, fx)), w)"
        and leads: "leadsBy (theOrder found) fx y" and able: "writable y fx"
      define taken where "taken = found\<lparr>theOrder := y, salePayment := Some presented,
        salePayTo := payTo, salePaidBy := Some owner\<rparr>"
      define next' where "next' = alsoSaid rt found
        \<lparr>wordAt = t, wordAbout = AboutVerify, wordSaid = ''checked out, paid by '' @ owner\<rparr> taken"
      have "sameFacts found taken" using False
        by (auto simp: sameFacts_def taken_def wordsHeard_def intro: exI [of _ "[]"])
      moreover note said = alsoSaid_facts [of taken found rt]
      ultimately have kept: "sameFacts found next'"
        "length (salePaymentWords next') \<le> cfgPaymentWordsKept (config rt)"
        unfolding next'_def
        by (auto simp: sameFacts_def taken_def intro: wordsHeard_trans)
      have order: "theOrder next' = y" by (simp add: next'_def taken_def)
      obtain v where arm: "arm rt (deadlines (theOrder found)) (deadlines y) i w = (Inr (), v)"
        using arm_ok by blast
      obtain ws w' where writes: "writesWithTheOrder rt next' (theOrder found) fx t v = (Inr ws, w')"
        and fit: "list_all2 (writeFits next') (filter (\<lambda>e. \<not> carriedOutAfterwards e) fx) ws"
        using writes_ok [of next' fx rt "theOrder found" t v] able by (auto simp: order)
      have "decidePayment rt i owner presented payTo t found w
          = (Inr \<lparr>saving = Some next', alongside = ws, deciding = TookPayment next' fx\<rparr>, w')"
        using False driven arm writes
        by (auto simp: decidePayment_def Let_def next'_def taken_def)
      moreover have "soundChange rt found
          \<lparr>saving = Some next', alongside = ws, deciding = TookPayment next' fx\<rparr>"
        using kept fit leads by (auto simp: soundChange_def order)
      ultimately show ?thesis by blast
    qed
  qed
qed

lemma writeDown_sound:
  "soundChange rt found
     \<lparr>saving = Some (alsoSaid rt found word found), alongside = [], deciding = ()\<rparr>"
  using alsoSaid_facts [of found found rt word] leadsBy.stays [of "theOrder found"]
  by (auto simp: soundChange_def sameFacts_def intro!: exI [of _ "[]"])

end
