(* ===== verification/Gateway_Laws.thy ===== *)
theory Gateway_Laws
  imports Gateway_Order_Laws
begin

text \<open>
  What the gateway keeps, whatever it is asked and in whatever order. The law of the gateway
  (\<open>gatewayLaw\<close>) is proved of every hold on an order, of every other step a flow takes and so
  of every flow; it says that the invariant of the store and the queue is kept, that every
  order follows from what it was, and that no debt is announced twice.
\<close>

section \<open>Along several transitions of the machine\<close>

lemma leadsBy_stepSound:
  "leadsBy x fx y \<Longrightarrow> transition y e = Moved z gx \<Longrightarrow> orderInv x \<Longrightarrow> stepSound y z gx"
  by (blast intro: transition_sound leadsBy_orderInv)

lemma leadsBy_sameSale: "leadsBy x fx y \<Longrightarrow> orderInv x \<Longrightarrow> sameSale x y"
proof (induction rule: leadsBy.induct)
  case (moves x fx y e z gx)
  then show ?case using leadsBy_stepSound [OF moves.hyps] by (simp add: stepSound_def sameSale_def)
qed (simp add: sameSale_def)

lemma legalEdge_not_Created: "legalEdge s s' \<Longrightarrow> s \<noteq> Created \<Longrightarrow> s' \<noteq> Created"
  by (auto simp: legalEdge_def STATE_EDGES_def)

lemma leadsBy_price:
  "leadsBy x fx y \<Longrightarrow> orderInv x \<Longrightarrow> state x \<noteq> Created
   \<Longrightarrow> price y = price x \<and> state y \<noteq> Created"
proof (induction rule: leadsBy.induct)
  case (moves x fx y e z gx)
  then show ?case using leadsBy_stepSound [OF moves.hyps] legalEdge_not_Created
    by (auto simp: stepSound_def recordsKept_def)
qed simp

lemma leadsBy_Delivered:
  "leadsBy x fx y \<Longrightarrow> orderInv x \<Longrightarrow> state x = Delivered \<Longrightarrow> state y = Delivered"
proof (induction rule: leadsBy.induct)
  case (moves x fx y e z gx)
  then show ?case using leadsBy_stepSound [OF moves.hyps] legalEdge_stays(1)
    by (auto simp: stepSound_def)
qed simp

lemma leadsBy_receipt:
  "leadsBy x fx y \<Longrightarrow> orderInv x
   \<Longrightarrow> IssueReceipt \<in> set fx \<longleftrightarrow> state x \<noteq> Delivered \<and> state y = Delivered"
proof (induction rule: leadsBy.induct)
  case (moves x fx y e z gx)
  have "IssueReceipt \<in> set gx \<longleftrightarrow> state y \<noteq> Delivered \<and> state z = Delivered"
    "state y = Delivered \<longrightarrow> state z = Delivered"
    using leadsBy_stepSound [OF moves.hyps moves.prems]
      legalEdge_stays(1) [of "state y" "state z"]
    by (simp_all add: stepSound_def effectsFit_def entersDelivered_def)
  with moves leadsBy_Delivered [OF moves.hyps(1) moves.prems] show ?case by auto
qed simp

lemma leadsBy_debts:
  "leadsBy x fx y \<Longrightarrow> orderInv x
   \<Longrightarrow> count_list fx (EmitMerchantEvent RefundDueEvent) + beforeEntry canStillOwe y
     \<le> beforeEntry canStillOwe x"
proof (induction rule: leadsBy.induct)
  case (moves x fx y e z gx)
  have "count_list gx (EmitMerchantEvent RefundDueEvent) + beforeEntry canStillOwe z
      \<le> beforeEntry canStillOwe y"
    using debts_pay [OF leadsBy_stepSound [OF moves.hyps moves.prems]] by (simp add: asks_def)
  with moves show ?case by simp
qed simp

section \<open>The invariant\<close>

text \<open>A record is stored under its own identifier, and has a receipt exactly when delivered.\<close>

definition recordFits :: "Runtime \<Rightarrow> (string \<times> Receipt) option \<Rightarrow> string \<Rightarrow> StoredOrder \<Rightarrow> bool" where
  "recordFits rt receipt i r =
     (orderId (theOrder r) = i \<and> reachable (theOrder r)
      \<and> length (salePaymentWords r) \<le> cfgPaymentWordsKept (config rt)
      \<and> (case receipt of
           None \<Rightarrow> state (theOrder r) \<noteq> Delivered
         | Some (m, rc) \<Rightarrow>
             state (theOrder r) = Delivered \<and> m = saleMerchant r \<and> receiptFits r rc))"

definition storeInv :: "Runtime \<Rightarrow> MemoryStore \<Rightarrow> bool" where
  "storeInv rt s =
     (distinct (map fst (ordersMap s))
      \<and> (\<forall>i. case map_of (ordersMap s) i of
               None \<Rightarrow> map_of (receiptsMap s) i = None
             | Some r \<Rightarrow> recordFits rt (map_of (receiptsMap s) i) i r))"

fun debtAbout :: "string \<Rightarrow> WorkerEnvelope \<Rightarrow> bool" where
  "debtAbout i (EventEnvelope e sent (RefundDueDocument j t m reason)) = (j = i)"
| "debtAbout i _ = False"

definition debtsAmong :: "string \<Rightarrow> WorkerEnvelope multiset \<Rightarrow> nat" where
  "debtsAmong i es = size (filter_mset (debtAbout i) es)"

definition debtsOn :: "string \<Rightarrow> string \<Rightarrow> World \<Rightarrow> nat" where
  "debtsOn m i w = debtsAmong i (carried (worldQueue w) m)"

definition stillOwes :: "StoredOrder \<Rightarrow> nat" where
  "stillOwes r = beforeEntry canStillOwe (theOrder r)"

definition debtsFit :: "World \<Rightarrow> bool" where
  "debtsFit w =
     (\<forall>m i. debtsOn m i w \<le>
        (case orderById i (worldStore w) of
           None \<Rightarrow> 0
         | Some r \<Rightarrow> if saleMerchant r = m then 1 - stillOwes r else 0))"

definition worldInv :: "Runtime \<Rightarrow> World \<Rightarrow> bool" where
  "worldInv rt w = (storeInv rt (worldStore w) \<and> queueInv (worldQueue w) \<and> debtsFit w)"

text \<open>What becomes of every order, and what may be added to a stream about it.\<close>

definition follows :: "World \<Rightarrow> World \<Rightarrow> bool" where
  "follows w w' =
     (\<forall>i r. orderById i (worldStore w) = Some r \<longrightarrow>
        (\<exists>r' fx. orderById i (worldStore w') = Some r' \<and> sameFacts r r'
           \<and> leadsBy (theOrder r) fx (theOrder r')
           \<and> (\<forall>m. debtsOn m i w' + stillOwes r' \<le> debtsOn m i w + stillOwes r)))"

definition gatewayLaw :: "Runtime \<Rightarrow> World \<Rightarrow> World \<Rightarrow> bool" where
  "gatewayLaw rt w w' = (worldInv rt w \<longrightarrow> worldInv rt w' \<and> follows w w')"

lemma follows_refl: "follows w w"
  using leadsBy.stays sameFacts_refl by (fastforce simp: follows_def)

lemma follows_trans: "follows u v \<Longrightarrow> follows v w \<Longrightarrow> follows u w"
  unfolding follows_def by (meson leadsBy_trans order_trans sameFacts_trans)

interpretation gateway: flow_law "gatewayLaw rt" for rt
proof
  show "gatewayLaw rt w w" for w by (simp add: gatewayLaw_def follows_refl)
  show "gatewayLaw rt u v \<Longrightarrow> gatewayLaw rt v w \<Longrightarrow> gatewayLaw rt u w" for u v w
    using follows_trans by (auto simp: gatewayLaw_def)
qed

lemma obeys_gateway:
  "(\<And>w. worldInv rt w \<Longrightarrow> gatewayLaw rt w (snd (m w))) \<Longrightarrow> obeys (gatewayLaw rt) m"
  by (auto simp: obeys_def gatewayLaw_def)

section \<open>Steps that leave orders alone\<close>

lemma gatewayLaw_frame:
  assumes "ordersMap (worldStore w') = ordersMap (worldStore w)"
    and "receiptsMap (worldStore w') = receiptsMap (worldStore w)"
    and "queueInv (worldQueue w) \<Longrightarrow> queueInv (worldQueue w')"
    and "\<And>m i. queueInv (worldQueue w) \<Longrightarrow> debtsOn m i w' \<le> debtsOn m i w"
  shows "gatewayLaw rt w w'"
proof -
  have same: "orderById i (worldStore w') = orderById i (worldStore w)" for i
    using assms(1) by (simp add: orderById_def)
  have "storeInv rt (worldStore w') = storeInv rt (worldStore w)"
    by (simp only: storeInv_def assms(1,2))
  moreover have "debtsFit w'" if "queueInv (worldQueue w)" "debtsFit w"
    unfolding debtsFit_def same using that(2) assms(4) [OF that(1)] le_trans
    unfolding debtsFit_def by blast
  moreover have "follows w w'" if "queueInv (worldQueue w)"
    unfolding follows_def same using assms(4) [OF that] leadsBy.stays sameFacts_refl by fastforce
  ultimately show ?thesis using assms(3) by (auto simp: gatewayLaw_def worldInv_def)
qed

lemma debtsAmong_union [simp]: "debtsAmong i (A + B) = debtsAmong i A + debtsAmong i B"
  by (simp add: debtsAmong_def)

lemma debtsAmong_empty [simp]: "debtsAmong i {#} = 0"
  by (simp add: debtsAmong_def)

lemma debtsAmong_single [simp]: "debtsAmong i {#e#} = (if debtAbout i e then 1 else 0)"
  by (simp add: debtsAmong_def)

lemma gatewayLaw_queue:
  assumes "worldStore w' = worldStore w" and "worldQueue w' = queueStep op (worldQueue w)"
    and "\<And>m i. debtsAmong i (published op m) = 0"
  shows "gatewayLaw rt w w'"
proof (rule gatewayLaw_frame)
  fix m i
  assume q: "queueInv (worldQueue w)"
  note moves = queueStep_moves [OF q, of op m]
  then have "debtsAmong i (carried (worldQueue w') m + finished op (worldQueue w) m)
      = debtsAmong i (carried (worldQueue w) m + published op m)" by (simp add: assms(2))
  then show "debtsOn m i w' \<le> debtsOn m i w" by (simp add: debtsOn_def assms(3))
qed (use assms queueStep_moves in auto)

lemma gateway_same:
  "(\<And>w. worldStore (snd (m w)) = worldStore w \<and> worldQueue (snd (m w)) = worldQueue w)
   \<Longrightarrow> obeys (gatewayLaw rt) m"
  by (rule obeysI, rule gatewayLaw_frame) (simp_all add: debtsOn_def)

lemma gateway_onStore:
  assumes "\<And>s. ordersMap (snd (f s)) = ordersMap s" and "\<And>s. receiptsMap (snd (f s)) = receiptsMap s"
  shows "obeys (gatewayLaw rt) (onStore f)"
  by (rule obeysI, rule gatewayLaw_frame)
    (simp_all add: onStore_def case_prod_beta assms debtsOn_def)

lemma gateway_onQueue:
  assumes "\<And>q. snd (f q) = queueStep op q" and "\<And>m i. debtsAmong i (published op m) = 0"
  shows "obeys (gatewayLaw rt) (onQueue f)"
  by (rule obeysI, rule gatewayLaw_queue [where op = op])
    (simp_all add: onQueue_def case_prod_beta assms)

section \<open>The hold\<close>

text \<open>What the writes of a hold do to the store: nothing but receipts, all for one order.\<close>

definition receiptsFor :: "string \<Rightarrow> string \<Rightarrow> (Receipt \<Rightarrow> bool) \<Rightarrow> WithTheOrder list \<Rightarrow> bool" where
  "receiptsFor m i P ws =
     (\<forall>m' rc. ReceiptWrite m' rc \<in> set ws \<longrightarrow> m' = m \<and> receiptOrderId rc = i \<and> P rc)"

lemma receiptsFor_Cons:
  "receiptsFor m i P (x # ws) \<longleftrightarrow>
     (\<forall>m' rc. x = ReceiptWrite m' rc \<longrightarrow> m' = m \<and> receiptOrderId rc = i \<and> P rc)
     \<and> receiptsFor m i P ws"
  unfolding receiptsFor_def by auto

lemma putReceipt_at:
  "receiptOrderId rc = i
   \<Longrightarrow> map_of (receiptsMap (putReceipt m rc s)) i
     = Some (case map_of (receiptsMap s) i of None \<Rightarrow> m | Some (h, _) \<Rightarrow> h, rc)"
  "receiptOrderId rc = i \<Longrightarrow> j \<noteq> i
   \<Longrightarrow> map_of (receiptsMap (putReceipt m rc s)) j = map_of (receiptsMap s) j"
  "ordersMap (putReceipt m rc s) = ordersMap s"
  by (simp_all add: putReceipt_def update_conv')

lemma fold_storeWrite_frame:
  assumes "receiptsFor m i P ws"
  shows "ordersMap (fold storeWrite ws s) = ordersMap s"
    and "j \<noteq> i \<Longrightarrow> map_of (receiptsMap (fold storeWrite ws s)) j = map_of (receiptsMap s) j"
proof -
  have "receiptsFor m i P ws \<Longrightarrow> ordersMap (fold storeWrite ws s) = ordersMap s
      \<and> (j \<noteq> i \<longrightarrow> map_of (receiptsMap (fold storeWrite ws s)) j = map_of (receiptsMap s) j)"
  proof (induction ws arbitrary: s)
    case (Cons x ws)
    then show ?case using putReceipt_at by (cases x) (auto simp: receiptsFor_Cons)
  qed simp
  with assms show "ordersMap (fold storeWrite ws s) = ordersMap s"
    and "j \<noteq> i \<Longrightarrow> map_of (receiptsMap (fold storeWrite ws s)) j = map_of (receiptsMap s) j"
    by blast+
qed

lemma fold_no_receipt: "(\<And>m rc. ReceiptWrite m rc \<notin> set ws) \<Longrightarrow> fold storeWrite ws s = s"
proof (induction ws)
  case (Cons x ws)
  then show ?case by (cases x) auto
qed simp

lemma fold_receipt_kept:
  "receiptsFor m i P ws \<Longrightarrow> map_of (receiptsMap s) i = Some (h, rc) \<Longrightarrow> P rc
   \<Longrightarrow> \<exists>rc'. map_of (receiptsMap (fold storeWrite ws s)) i = Some (h, rc') \<and> P rc'"
proof (induction ws arbitrary: s rc)
  case (Cons x ws)
  show ?case
  proof (cases x)
    case (EnvelopeWrite m' e after)
    with Cons show ?thesis by (simp add: receiptsFor_Cons)
  next
    case (ReceiptWrite m' rc')
    with Cons.prems have "receiptOrderId rc' = i" "P rc'" and ws: "receiptsFor m i P ws"
      by (simp_all add: receiptsFor_Cons)
    with Cons.IH [OF ws, of "putReceipt m' rc' s" rc'] Cons.prems(2) ReceiptWrite show ?thesis
      by (simp add: putReceipt_at)
  qed
qed simp

lemma fold_receipt_written:
  "receiptsFor m i P ws \<Longrightarrow> map_of (receiptsMap s) i = None \<Longrightarrow> ReceiptWrite m' rc \<in> set ws
   \<Longrightarrow> \<exists>rc'. map_of (receiptsMap (fold storeWrite ws s)) i = Some (m, rc') \<and> P rc'"
proof (induction ws arbitrary: s)
  case (Cons x ws)
  show ?case
  proof (cases x)
    case (EnvelopeWrite m' e after)
    with Cons show ?thesis by (auto simp: receiptsFor_Cons)
  next
    case (ReceiptWrite m'' rc'')
    with Cons.prems(1) have "m'' = m" "receiptOrderId rc'' = i" "P rc''" "receiptsFor m i P ws"
      by (simp_all add: receiptsFor_Cons)
    with fold_receipt_kept [of m i P ws "putReceipt m rc'' s" m rc''] Cons.prems(2) ReceiptWrite
    show ?thesis by (simp add: putReceipt_at)
  qed
qed simp

text \<open>The writes that fit the effects of a record: its merchant's receipts and envelopes.\<close>

lemma writeFits_receipt:
  "writeFits r e (ReceiptWrite m rc) \<Longrightarrow> e = IssueReceipt \<and> m = saleMerchant r \<and> receiptFits r rc"
  by (cases e) (auto simp: writeFits_def)

lemma aboutEvent_debt:
  "aboutEvent doc event j \<Longrightarrow> debtAbout i (EventEnvelope n t doc) \<longleftrightarrow> event = RefundDueEvent \<and> i = j"
  by (cases doc) auto

lemma writeFits_debt:
  assumes "writeFits r e x"
  shows "debtsAmong i (mset (envelopesTo m [x]))
    = (if e = EmitMerchantEvent RefundDueEvent \<and> m = saleMerchant r \<and> i = orderId (theOrder r)
       then 1 else 0)"
proof (cases "\<exists>event. e = EmitMerchantEvent event")
  case True
  then obtain event where e: "e = EmitMerchantEvent event" by blast
  with assms obtain n t doc
    where "x = EnvelopeWrite (saleMerchant r) (EventEnvelope n t doc) None"
      "aboutEvent doc event (orderId (theOrder r))" by (auto simp: writeFits_def)
  with e show ?thesis by (simp add: aboutEvent_debt)
next
  case False
  with assms show ?thesis by (cases e) (auto simp: writeFits_def)
qed

lemma envelopesTo_Cons: "envelopesTo m (x # ws) = envelopesTo m [x] @ envelopesTo m ws"
  using envelopesTo_simps(4) [of m "[x]" ws] by simp

lemma writeFits_is_receipt:
  "writeFits r e x \<Longrightarrow> (\<exists>m rc. x = ReceiptWrite m rc) \<longleftrightarrow> e = IssueReceipt"
  by (cases e) (auto simp: writeFits_def)

lemma writes_receipts:
  assumes "list_all2 (writeFits r) fx ws"
  shows "(\<exists>m rc. ReceiptWrite m rc \<in> set ws) \<longleftrightarrow> IssueReceipt \<in> set fx"
    and "ReceiptWrite m rc \<in> set ws \<Longrightarrow> m = saleMerchant r \<and> receiptFits r rc"
  using assms
proof (induction rule: list_all2_induct)
  case (Cons e fx x ws)
  {
    case 1
    from writeFits_is_receipt [OF Cons(1)] Cons(3) show ?case by (auto simp: eq_commute)
  next
    case 2
    with Cons(1,4) writeFits_receipt show ?case by auto
  }
qed simp_all

lemma writes_debts:
  assumes "list_all2 (writeFits r) fx ws"
  shows "debtsAmong i (mset (envelopesTo m ws))
    = (if m = saleMerchant r \<and> i = orderId (theOrder r)
       then count_list fx (EmitMerchantEvent RefundDueEvent) else 0)"
  using assms
proof (induction rule: list_all2_induct)
  case (Cons e fx x ws)
  then show ?case using writeFits_debt [OF Cons(1), of i m]
    by (subst envelopesTo_Cons) simp
qed simp

lemma count_filter: "P x \<Longrightarrow> count_list (filter P xs) x = count_list xs x"
  by (induction xs) auto

lemma storeInvD:
  assumes "storeInv rt s"
  shows "map_of (ordersMap s) i = Some r \<Longrightarrow> recordFits rt (map_of (receiptsMap s) i) i r"
    and "map_of (ordersMap s) i = None \<Longrightarrow> map_of (receiptsMap s) i = None"
    and "distinct (map fst (ordersMap s))"
proof -
  have "distinct (map fst (ordersMap s)) \<and> (case map_of (ordersMap s) i of
      None \<Rightarrow> map_of (receiptsMap s) i = None
    | Some r \<Rightarrow> recordFits rt (map_of (receiptsMap s) i) i r)"
    using assms by (simp only: storeInv_def)
  then show "map_of (ordersMap s) i = Some r \<Longrightarrow> recordFits rt (map_of (receiptsMap s) i) i r"
    and "map_of (ordersMap s) i = None \<Longrightarrow> map_of (receiptsMap s) i = None"
    and "distinct (map fst (ordersMap s))" by (simp_all del: map_of_eq_Some_iff)
qed

lemma receiptFits_kept:
  assumes "receiptFits r rc" and "leadsBy (theOrder r) fx (theOrder r')" and "sameFacts r r'"
    and "orderInv (theOrder r)" and "state (theOrder r) = Delivered"
  shows "receiptFits r' rc"
  using assms leadsBy_sameSale [OF assms(2,4)] leadsBy_price [OF assms(2,4)]
  by (auto simp: receiptFits_def sameFacts_def sameSale_def)

text \<open>A receipt is written exactly when the order is delivered, and it fits.\<close>

lemma recordFits_moves:
  assumes fits: "recordFits rt (map_of (receiptsMap s) i) i found" and same: "sameFacts found r'"
    and words: "length (salePaymentWords r') \<le> cfgPaymentWordsKept (config rt)"
    and leads: "leadsBy (theOrder found) fx (theOrder r')"
    and receipts: "receiptsFor (saleMerchant found) i (receiptFits r') ws"
    and asked: "(\<exists>m rc. ReceiptWrite m rc \<in> set ws) \<longleftrightarrow> IssueReceipt \<in> set fx"
  shows "recordFits rt (map_of (receiptsMap (fold storeWrite ws s)) i) i r'"
proof -
  have inv: "orderInv (theOrder found)"
    using fits by (simp add: recordFits_def reachable_orderInv)
  have kept: "orderId (theOrder r') = i" "reachable (theOrder r')"
    "saleMerchant r' = saleMerchant found"
    using fits leadsBy_sameSale [OF leads inv] leadsBy_reachable [OF leads] same
    by (auto simp: recordFits_def sameSale_def sameFacts_def)
  note issued = leadsBy_receipt [OF leads inv]
  show ?thesis
  proof (cases "map_of (receiptsMap s) i")
    case (Some held)
    obtain m rc where held: "held = (m, rc)" by (cases held)
    with Some fits have was: "state (theOrder found) = Delivered" "m = saleMerchant found"
      "receiptFits found rc" by (simp_all add: recordFits_def)
    have "receiptFits r' rc" using receiptFits_kept [OF was(3) leads same inv was(1)] .
    from fold_receipt_kept [OF receipts _ this, of s m] Some held
    obtain rc' where "map_of (receiptsMap (fold storeWrite ws s)) i = Some (m, rc')"
      "receiptFits r' rc'" by auto
    with kept words was leadsBy_Delivered [OF leads inv] show ?thesis by (simp add: recordFits_def)
  next
    case None
    with fits have was: "state (theOrder found) \<noteq> Delivered" by (simp add: recordFits_def)
    show ?thesis
    proof (cases "IssueReceipt \<in> set fx")
      case True
      with asked obtain m' rc where "ReceiptWrite m' rc \<in> set ws" by blast
      from fold_receipt_written [OF receipts None this] obtain rc'
        where "map_of (receiptsMap (fold storeWrite ws s)) i = Some (saleMerchant found, rc')"
          "receiptFits r' rc'" by blast
      with kept words True issued show ?thesis by (simp add: recordFits_def)
    next
      case False
      with asked have "fold storeWrite ws s = s" using fold_no_receipt by blast
      with None kept words False issued was show ?thesis by (simp add: recordFits_def)
    qed
  qed
qed

lemma heldWrite_store:
  assumes inv: "storeInv rt (worldStore w)" and at_i: "orderById i (worldStore w) = Some found"
    and sound: "soundChange rt found d"
  obtains r' fx where "storeInv rt (worldStore (heldWrite i found d w))"
    and "orderById i (worldStore (heldWrite i found d w)) = Some r'"
    and "sameFacts found r'" and "leadsBy (theOrder found) fx (theOrder r')"
    and "\<And>j. j \<noteq> i \<Longrightarrow> orderById j (worldStore (heldWrite i found d w)) = orderById j (worldStore w)"
    and "\<And>m j. debtsAmong j (mset (envelopesTo m (alongside d)))
      = (if m = saleMerchant found \<and> j = i
         then count_list fx (EmitMerchantEvent RefundDueEvent) else 0)"
proof (cases "saving d")
  case None
  with sound have "alongside d = []" by (simp add: soundChange_def)
  with None have "worldStore (heldWrite i found d w) = worldStore w" by (simp add: heldWrite_def)
  moreover have "debtsAmong j (mset (envelopesTo m (alongside d))) = 0" for m j
    using \<open>alongside d = []\<close> by simp
  ultimately show thesis
    using that [of found "[]"] inv at_i sameFacts_refl leadsBy.stays by auto
next
  case (Some r')
  let ?s = "worldStore w" and ?ws = "sort_key rankOf (alongside d)"
  have on: "map_of (ordersMap ?s) i = Some found" using at_i by (simp add: orderById_def)
  note fits = storeInvD(1) [OF inv on]
  from sound Some obtain fx where same: "sameFacts found r'"
    and words: "length (salePaymentWords r') \<le> cfgPaymentWordsKept (config rt)"
    and leads: "leadsBy (theOrder found) fx (theOrder r')"
    and fx: "list_all2 (writeFits r') (filter (\<lambda>e. \<not> carriedOutAfterwards e) fx) (alongside d)"
    using fits by (auto simp: soundChange_def recordFits_def)
  have m: "saleMerchant r' = saleMerchant found" and i: "orderId (theOrder r') = i"
    using same fits leadsBy_sameSale [OF leads] reachable_orderInv
    by (auto simp: sameFacts_def recordFits_def sameSale_def)
  have receipts: "receiptsFor (saleMerchant found) i (receiptFits r') ?ws"
    using writes_receipts(2) [OF fx] m i by (auto simp: receiptsFor_def receiptFits_def)
  have asked: "(\<exists>m rc. ReceiptWrite m rc \<in> set ?ws) \<longleftrightarrow> IssueReceipt \<in> set fx"
    using writes_receipts(1) [OF fx] by simp
  note frame = fold_storeWrite_frame [OF receipts, where s = ?s]
  have now: "worldStore (heldWrite i found d w) = saveHeld i found r' (fold storeWrite ?ws ?s)"
    using Some by (simp add: heldWrite_def Let_def)
  have orders: "ordersMap (saveHeld i found r' (fold storeWrite ?ws ?s))
      = AList.update i r' (ordersMap ?s)"
  proof -
    have "r'\<lparr>saleMerchant := saleMerchant found\<rparr> = r'" using m by (cases r') simp
    with frame(1) show ?thesis by (simp add: saveHeld_def)
  qed
  have held: "receiptsMap (saveHeld i found r' s) = receiptsMap s" for s
    by (simp add: saveHeld_def)
  have "recordFits rt (map_of (receiptsMap (fold storeWrite ?ws ?s)) i) i r'"
    by (rule recordFits_moves [OF fits same words leads receipts asked])
  then have "storeInv rt (worldStore (heldWrite i found d w))"
    using storeInvD [OF inv] frame(2)
    by (auto simp: storeInv_def now orders held update_conv' distinct_update split: option.split)
  moreover have "orderById j (worldStore (heldWrite i found d w))
      = (if j = i then Some r' else orderById j ?s)" for j
    by (simp add: now orderById_def orders update_conv')
  moreover have "debtsAmong j (mset (envelopesTo m (alongside d)))
      = (if m = saleMerchant found \<and> j = i
         then count_list fx (EmitMerchantEvent RefundDueEvent) else 0)" for m j
    using writes_debts [OF fx, of j m] m i by (simp add: count_filter)
  ultimately show thesis using that [of r' fx] same leads by simp
qed

text \<open>Any decision that never throws and is sound keeps the law of the gateway.\<close>

lemma debtsOn_arming: "arming w v \<Longrightarrow> queueInv (worldQueue w) \<Longrightarrow> debtsOn m i v = debtsOn m i w"
  by (simp add: debtsOn_def arming_queue)

lemma heldWrite_law:
  assumes inv: "worldInv rt w" and at_i: "orderById i (worldStore w) = Some found"
    and sound: "soundChange rt found d"
  shows "gatewayLaw rt w (heldWrite i found d w)"
proof -
  let ?w' = "heldWrite i found d w"
  from inv have s: "storeInv rt (worldStore w)" and q: "queueInv (worldQueue w)" and fit: "debtsFit w"
    by (simp_all add: worldInv_def)
  obtain r' fx where store: "storeInv rt (worldStore ?w')"
    and r': "orderById i (worldStore ?w') = Some r'" "sameFacts found r'"
      "leadsBy (theOrder found) fx (theOrder r')"
    and others: "\<And>j. j \<noteq> i \<Longrightarrow> orderById j (worldStore ?w') = orderById j (worldStore w)"
    and debts: "\<And>m j. debtsAmong j (mset (envelopesTo m (alongside d)))
      = (if m = saleMerchant found \<and> j = i
         then count_list fx (EmitMerchantEvent RefundDueEvent) else 0)"
    by (rule heldWrite_store [OF s at_i sound]) (rule that; assumption)
  have on: "debtsOn m j ?w' = debtsOn m j w + (if m = saleMerchant found \<and> j = i
      then count_list fx (EmitMerchantEvent RefundDueEvent) else 0)" for m j
    by (simp add: debtsOn_def heldWrite_queue(2) [OF q] debts)
  have "recordFits rt (map_of (receiptsMap (worldStore w)) i) i found"
    using storeInvD(1) [OF s] at_i by (simp add: orderById_def)
  then have "orderInv (theOrder found)" by (simp add: recordFits_def reachable_orderInv)
  from leadsBy_debts [OF r'(3) this]
  have pays: "count_list fx (EmitMerchantEvent RefundDueEvent) + stillOwes r' \<le> stillOwes found"
    by (simp add: stillOwes_def)
  have merchant: "saleMerchant r' = saleMerchant found" using r'(2) by (simp add: sameFacts_def)
  have "debtsOn m j ?w' \<le> (case orderById j (worldStore ?w') of None \<Rightarrow> 0
      | Some r \<Rightarrow> if saleMerchant r = m then 1 - stillOwes r else 0)" for m j
  proof (cases "j = i")
    case True
    have "stillOwes found \<le> 1" by (simp add: stillOwes_def beforeEntry_def)
    moreover have "debtsOn m i w \<le> (if saleMerchant found = m then 1 - stillOwes found else 0)"
      using fit [unfolded debtsFit_def, rule_format, of m i] at_i by simp
    ultimately show ?thesis using True r'(1) merchant pays by (auto simp: on)
  next
    case False
    with others fit [unfolded debtsFit_def, rule_format, of m j] show ?thesis by (simp add: on)
  qed
  then have "debtsFit ?w'" by (simp add: debtsFit_def)
  moreover have "follows w ?w'"
    unfolding follows_def
  proof (intro allI impI)
    fix j r
    assume r: "orderById j (worldStore w) = Some r"
    show "\<exists>r' fx. orderById j (worldStore ?w') = Some r' \<and> sameFacts r r'
        \<and> leadsBy (theOrder r) fx (theOrder r')
        \<and> (\<forall>m. debtsOn m j ?w' + stillOwes r' \<le> debtsOn m j w + stillOwes r)"
    proof (cases "j = i")
      case True
      have "r = found" using r at_i True by simp
      show ?thesis
        unfolding True \<open>r = found\<close> using r' pays
        by (intro exI [of _ r'] exI [of _ fx]) (simp add: on)
    next
      case False
      with r others show ?thesis
        using sameFacts_refl leadsBy.stays by (auto simp: on intro!: exI [of _ "[]"])
    qed
  qed
  ultimately show ?thesis using store heldWrite_queue(1) [OF q, of i found d] by (simp add: gatewayLaw_def worldInv_def)
qed

lemma arming_law: "arming w v \<Longrightarrow> gatewayLaw rt w v"
  by (rule gatewayLaw_frame) (simp_all add: arming_queue debtsOn_arming, simp_all add: arming_def)

lemma hold_law:
  assumes arms: "\<And>found. obeys arming (change found)"
    and sound: "\<And>found w. orderInv (theOrder found)
      \<Longrightarrow> \<exists>d w'. change found w = (Inr d, w') \<and> soundChange rt found d"
  shows "obeys (gatewayLaw rt) (withOrder i change scope)"
proof (rule obeys_gateway)
  fix w
  assume inv: "worldInv rt w"
  obtain r w' where out: "withOrder i change scope w = (r, w')" by (cases "withOrder i change scope w")
  have known: "orderInv (theOrder found)" if "orderById i (worldStore w) = Some found" for found
    using inv that storeInvD(1) [of rt "worldStore w" i found]
    by (simp add: worldInv_def orderById_def recordFits_def reachable_orderInv)
  from out show "gatewayLaw rt w (snd (withOrder i change scope w))"
  proof (cases rule: withOrder_cases)
    case absent
    with out show ?thesis by (simp add: gateway.refl)
  next
    case (threw found thrown)
    with sound [OF known, of found w] show ?thesis by auto
  next
    case (decided found d v)
    with sound [OF known, of found w] have d: "soundChange rt found d" by auto
    have v: "arming w v" using arms decided(3) by (rule obeysD)
    then have "gatewayLaw rt w v" by (rule arming_law)
    moreover have "gatewayLaw rt v (heldWrite i found d v)"
    proof (rule heldWrite_law [OF _ _ d])
      show "worldInv rt v" using \<open>gatewayLaw rt w v\<close> inv by (simp add: gatewayLaw_def)
      show "orderById i (worldStore v) = Some found" using v decided(1) by (simp add: arming_def)
    qed
    ultimately show ?thesis using out decided(5) gateway.trans by simp
  qed
qed

end
