(* ===== verification/Gateway_Runner_Laws.thy ===== *)
theory Gateway_Runner_Laws
  imports Gateway_Flow_Laws Order_Steps
begin

text \<open>
  The recursion of the runner ends: \<open>apply\<close> carries out a charge, the outcome of the charge is
  another \<open>apply\<close>, and that one never asks for a charge. So two calls are enough fuel, and the
  runner is the fixed point the code writes down.
\<close>

section \<open>What the outcome of a charge asks for\<close>

fun outcomeOfCharge :: "OrderEvent \<Rightarrow> bool" where
  "outcomeOfCharge (Happened (PaymentSettled t)) = True"
| "outcomeOfCharge (Happened (PaymentSettleFailed t)) = True"
| "outcomeOfCharge _ = False"

lemma outcome_asks_no_charge:
  assumes "outcomeOfCharge event" and "transition x event = Moved y fx"
  shows "ExecutePayment \<notin> set fx"
proof -
  from assms(1) obtain t where "event = Happened (PaymentSettled t) \<or> event = Happened (PaymentSettleFailed t)"
    by (cases event rule: outcomeOfCharge.cases) auto
  then show ?thesis
    using assms(2)
    by (elim disjE; cases "state x")
      (auto simp: stateTransition_def machine_defs split: if_splits)
qed

section \<open>The inner call only ever hears the outcome of a charge\<close>

definition sameOnOutcomes :: "Apply \<Rightarrow> Apply \<Rightarrow> bool" where
  "sameOnOutcomes f g = (\<forall>i event. outcomeOfCharge event \<longrightarrow> f i event = g i event)"

lemma settleCharge_same:
  "sameOnOutcomes f g \<Longrightarrow> settleCharge f rt record t = settleCharge g rt record t"
  by (auto simp: settleCharge_def sameOnOutcomes_def Let_def intro!: arg_cong2 [where f = andThen]
      split: option.split SettleOutcome.split)

lemma runEffect_same:
  "sameOnOutcomes f g \<or> effect \<noteq> ExecutePayment
   \<Longrightarrow> runEffect f rt record t effect said = runEffect g rt record t effect said"
  using settleCharge_same by (cases effect) (auto simp: runEffect_def)

lemma runEffects_same:
  "sameOnOutcomes f g \<or> ExecutePayment \<notin> set effects
   \<Longrightarrow> runEffects f rt record effects t = runEffects g rt record effects t"
proof -
  have "sameOnOutcomes f g \<or> ExecutePayment \<notin> set effects
      \<Longrightarrow> forEach (runEffect f rt record t) effects said = forEach (runEffect g rt record t) effects said"
    for said
  proof (induction effects arbitrary: said)
    case (Cons e effects)
    then have "runEffect f rt record t e said = runEffect g rt record t e said"
      by (intro runEffect_same) auto
    with Cons show ?case by auto
  qed simp
  then show "sameOnOutcomes f g \<or> ExecutePayment \<notin> set effects \<Longrightarrow> ?thesis"
    by (simp add: runEffects_def)
qed

lemma applyHold_moved:
  assumes "applyHold rt i event facts scope wo w
    = (Inr (Some (DecidedBy (Moved order effects) known)), w')"
  shows "\<exists>x. transition x event = Moved order effects"
  using assms unfolding applyHold_def
proof (cases rule: withOrder_cases)
  case (decided found d v)
  then have "deciding d = DecidedBy (Moved order effects) known" by simp
  with decided(3) show ?thesis
    by (auto simp: decideEvent_def andThen_eq Let_def
        split: if_splits TransitionResult.splits sum.splits prod.splits)
qed simp_all

lemma applyOnce_same:
  assumes "sameOnOutcomes f g \<or> outcomeOfCharge event"
  shows "applyOnce rt f i event facts scope wo = applyOnce rt g i event facts scope wo"
proof (rule ext)
  fix w
  obtain r v where hold: "applyHold rt i event facts scope wo w = (r, v)"
    by (cases "applyHold rt i event facts scope wo w")
  have same: "runEffects f rt known (filter carriedOutAfterwards effects) t
      = runEffects g rt known (filter carriedOutAfterwards effects) t"
    if "r = Inr (Some (DecidedBy (Moved order effects) known))" for order effects known t
  proof -
    from hold that obtain x where "transition x event = Moved order effects"
      using applyHold_moved by blast
    with assms show ?thesis using outcome_asks_no_charge
      by (intro runEffects_same) fastforce
  qed
  show "applyOnce rt f i event facts scope wo w = applyOnce rt g i event facts scope wo w"
    by (auto simp: applyOnce_def andThen_def hold same split: sum.split option.split Decided.split
        TransitionResult.split)
qed

lemma applyWithin_same:
  "sameOnOutcomes (applyWithin (Suc n) rt) (applyWithin (Suc m) rt)"
  unfolding sameOnOutcomes_def applyWithin.simps
  using applyOnce_same by (fastforce simp: fun_eq_iff)

section \<open>The fixed point\<close>


end
