(* ===== verification/Gateway_Flows.thy ===== *)
theory Gateway_Flows
  imports Gateway_Laws Gateway_Runner_Laws
begin

text \<open>
  Every flow of the gateway obeys a law as soon as its parts do: \<open>gateway_law\<close> says what the
  parts are (steps that leave orders alone, steps of the queue, decisions, births, receipts)
  and carries a law from them to the purchase, the merchant's stream and answers, the
  reminders and the daily work. Then the law of the gateway is shown of each part.
\<close>

lemma debtAbout_sentNow [simp]: "debtAbout i (sentNow e t) = debtAbout i e"
proof (cases e)
  case (EventEnvelope n sent doc)
  then show ?thesis by (cases doc) simp_all
qed simp_all

section \<open>From the parts to the flows\<close>

text \<open>A law of the steps that leave the orders alone.\<close>

locale quiet_law = flow_law law for law :: "World \<Rightarrow> World \<Rightarrow> bool" +
  assumes elsewhere: "ordersMap (worldStore w') = ordersMap (worldStore w)
      \<Longrightarrow> receiptsMap (worldStore w') = receiptsMap (worldStore w)
      \<Longrightarrow> worldQueue w' = worldQueue w \<Longrightarrow> chargesSent w' = chargesSent w \<Longrightarrow> law w w'"
    and queued: "worldStore w' = worldStore w \<Longrightarrow> worldQueue w' = queueStep op (worldQueue w)
      \<Longrightarrow> chargesSent w' = chargesSent w \<Longrightarrow> (\<And>m i. debtsAmong i (published op m) = 0)
      \<Longrightarrow> law w w'"
begin

lemma obeys_aside:
  "(\<And>w. worldStore (snd (m w)) = worldStore w \<and> worldQueue (snd (m w)) = worldQueue w
     \<and> chargesSent (snd (m w)) = chargesSent w) \<Longrightarrow> obeys law m"
  by (rule obeysI, rule elsewhere) simp_all

lemma arming_obeys:
  assumes "arming w v" shows "law w v"
proof -
  from assms obtain asked
    where q: "worldQueue v = fold (\<lambda>(r, after). remind r after) asked (worldQueue w)"
      and same: "worldStore v = worldStore w" "chargesSent v = chargesSent w"
    by (auto simp: arming_def)
  have "law u (u\<lparr>worldQueue := fold (\<lambda>(r, after). remind r after) asked (worldQueue u)\<rparr>)" for u
  proof (induction asked arbitrary: u)
    case (Cons a asked)
    let ?u = "u\<lparr>worldQueue := remind (fst a) (snd a) (worldQueue u)\<rparr>"
    have "law u ?u" by (rule queued [where op = "QRemind (fst a) (snd a)"]) (simp_all add: published_def)
    from trans [OF this Cons.IH] show ?case by (simp add: case_prod_beta)
  qed (simp add: refl)
  then have "law w (w\<lparr>worldQueue := worldQueue v\<rparr>)" unfolding q .
  moreover have "law (w\<lparr>worldQueue := worldQueue v\<rparr>) v" by (rule elsewhere) (simp_all add: same)
  ultimately show ?thesis by (rule trans)
qed

lemma obeys_arming: "obeys arming m \<Longrightarrow> obeys law m"
  by (simp add: obeys_def arming_obeys)

lemma obeys_onStore:
  assumes "\<And>s. ordersMap (snd (f s)) = ordersMap s" and "\<And>s. receiptsMap (snd (f s)) = receiptsMap s"
  shows "obeys law (onStore f)"
  by (rule obeysI, rule elsewhere) (simp_all add: onStore_def case_prod_beta assms)

lemma obeys_onQueue:
  assumes "\<And>q. snd (f q) = queueStep op q" and "\<And>m i. debtsAmong i (published op m) = 0"
  shows "obeys law (onQueue f)"
  by (rule obeysI, rule queued [where op = op])
    (simp_all add: onQueue_def case_prod_beta assms)

lemma flow_drawId: "obeys law (drawId rt' kind)"
  by (rule obeys_aside) (simp add: drawId_def)

lemma flow_readClock: "obeys law (readClock rt')"
  by (rule obeys_aside) (simp add: readClock_def)

lemma flow_remind: "obeys law (tellQueue (remind r after))"
  unfolding tellQueue_def
  by (rule obeys_onQueue [where op = "QRemind r after"]) (simp_all add: published_def)

lemma flow_finish: "obeys law (tellQueue (finish m h))"
  unfolding tellQueue_def
  by (rule obeys_onQueue [where op = "QFinish m h"]) (simp_all add: published_def)

lemma flow_fireTimer: "obeys law (tellQueue (fireTimer n threw))"
  unfolding tellQueue_def
  by (rule obeys_onQueue [where op = "QFire n threw"]) (simp_all add: published_def)

lemma flow_publish:
  "(\<And>i. \<not> debtAbout i e) \<Longrightarrow> obeys law (tellQueue (publish m e after))"
  unfolding tellQueue_def
  by (rule obeys_onQueue [where op = "QPublish m e after"]) (simp_all add: published_def)

lemma flow_draw: "obeys law (onQueue (draw m n waitMs))"
  by (rule obeys_onQueue [where op = "QDraw m n waitMs"]) (simp_all add: published_def)

lemma flow_resumeDraw: "obeys law (onQueue (resumeDraw m n))"
  by (rule obeys_onQueue [where op = "QResume m n"]) (simp_all add: published_def)

lemma flow_holdsOrder: "obeys law (onQueue (holdsOrder m i))"
  by (rule obeys_onQueue [where op = "QHoldsOrder m i"]) (simp_all add: published_def)

lemmas step_intros =
  obeys_intros flow_drawId flow_readClock flow_remind flow_finish
  flow_fireTimer flow_draw flow_resumeDraw flow_holdsOrder

end

text \<open>
  A law of the decisions too. The outcome of a charge is told by the runner itself, never by
  a flow.
\<close>

locale gateway_law = quiet_law law for law :: "World \<Rightarrow> World \<Rightarrow> bool" +
  fixes rt :: Runtime
  assumes applied: "\<not> outcomeOfCharge event
      \<Longrightarrow> obeys law (applyEvent rt i event facts scope wo)"
    and presented: "obeys law (presentVerifiedPayment rt i owner payload payTo t)"
    and opened: "createOrder input = Born order fx
      \<Longrightarrow> obeys law (createRecord rt (openedRecord order stored params) fx t)"
    and receipted: "obeys law (andThen (readStore deliveredWithoutReceipt)
      (\<lambda>rs. forEach (sweepReceipt rt now) rs swept))"
begin

text \<open>A purchase.\<close>

lemma flow_wherePurchaseStands: "obeys law (wherePurchaseStands i)"
  unfolding wherePurchaseStands_def by (intro step_intros)

lemma flow_quoteSilence: "obeys law (quoteSilence rt i)"
  unfolding quoteSilence_def by (auto intro!: step_intros applied)

lemma flow_openOrder: "obeys law (openOrder rt itemId params)"
  unfolding openOrder_def howTheySell_def Let_def
  by (auto intro!: step_intros split: option.split CreateOrderResult.split) (rule opened)

lemma flow_aside:
  "obeys law (parkOnQuote priceId)"
  "obeys law (rememberQuestion priceId i m)"
  "obeys law (forgetQuestion priceId)"
  "obeys law (sendVerify rt' request)"
  "obeys law (parkOnPurchase key)"
  "obeys law (giveUpPurchase key)"
  by (rule obeys_aside; simp add: parkOnQuote_def rememberQuestion_def forgetQuestion_def
      sendVerify_def parkOnPurchase_def giveUpPurchase_def split: prod.split)+

lemma flow_askThePrice: "obeys law (askThePrice rt record stored)"
  unfolding askThePrice_def Let_def
  by (auto intro!: step_intros flow_aside flow_quoteSilence flow_publish)

lemma flow_beginPurchase: "obeys law (beginPurchase rt itemId params)"
  unfolding beginPurchase_def Let_def
  by (auto intro!: step_intros flow_openOrder flow_askThePrice flow_wherePurchaseStands
      split: Opened.split Asked.split)

lemma flow_purchaseAnswered: "obeys law (purchaseAnswered rt i priceId response)"
  unfolding purchaseAnswered_def
  by (auto intro!: step_intros flow_aside flow_quoteSilence flow_wherePurchaseStands)

lemma flow_answerQuote: "obeys law (answerQuote rt m priceId response)"
proof -
  have wake: "obeys law (\<lambda>w. (Inr (),
      w\<lparr>worldQuotes := snd (answerWaiting priceId response (worldQuotes w))\<rparr>))"
    by (rule obeys_aside) simp
  then show ?thesis
    unfolding answerQuote_def
    by (cases response) (auto intro!: step_intros flow_aside applied wake split: option.split)
qed

lemma flow_claims:
  "obeys law (onStore (claimPayment fingerprint i t))"
  "obeys law (onStore (\<lambda>s. ((), releaseClaim fingerprint i s)))"
  "obeys law (onStore (forgetClaimsBefore t))"
  by (rule obeys_onStore; simp add: claimPayment_def releaseClaim_def forgetClaimsBefore_def
      split: option.split)+

lemma flow_presentClaimed:
  "obeys law (presentClaimed rt before i owner presented fingerprint payTo)"
  unfolding presentClaimed_def Let_def
  by (auto intro!: step_intros flow_aside flow_claims presented
      flow_wherePurchaseStands split: PresentResult.split option.split)

lemma flow_payPurchase: "obeys law (payPurchase rt i presented fingerprint)"
  unfolding payPurchase_def claimFor_def Let_def
  by (auto intro!: step_intros flow_aside flow_claims flow_presentClaimed
      split: option.split VerifyOutcome.split PaymentClaim.split)

text \<open>The merchant's stream and answers.\<close>

lemma flow_putBack:
  "(\<And>i. \<not> debtAbout i e) \<Longrightarrow> obeys law (putBack rt' m e handle t batch)"
  unfolding putBack_def by (intro step_intros flow_publish) simp

lemma flow_handOverOne: "obeys law (handOverOne rt m delivery batch)"
proof (cases "fst delivery")
  case (OrderEnvelope e sent document)
  then show ?thesis
    by (simp add: handOverOne_def remindMeIfNobodyAnswers_def Let_def)
      (auto intro!: step_intros applied flow_putBack
        split: sum.split Applied.split)
qed (simp_all add: handOverOne_def Let_def obeys_returns)

lemma flow_handOut: "obeys law (handOut rt m drawn)"
  unfolding handOut_def by (intro step_intros flow_handOverOne)

lemma flow_poll: "obeys law (poll rt m wanted waitMs)"
  unfolding poll_def pollDraw_def
  by (auto intro!: step_intros flow_handOut split: DrawResult.split)

lemma flow_pollWoken: "obeys law (pollWoken rt m wanted)"
  unfolding pollWoken_def by (intro step_intros flow_handOut)

lemma flow_putToMachine:
  "(\<And>t. \<not> outcomeOfCharge (Happened (event t)))
   \<Longrightarrow> obeys law (putToMachine rt m i event delivery landed)"
  unfolding putToMachine_def answerFor_def
  by (auto intro!: step_intros applied split: Applied.split option.split)

lemma flow_deliverOrder: "obeys law (deliverOrder rt m i delivery through)"
  unfolding deliverOrder_def goodsAgainstTheCard_def Let_def
  by (cases through) (auto intro!: step_intros flow_putToMachine split: option.split)

lemma flow_refuseOrder: "obeys law (refuseOrder rt m i code message through)"
  unfolding refuseOrder_def by (cases through) (auto intro!: flow_putToMachine)

lemma flow_answerOrder: "obeys law (answerOrder rt m i handled)"
  by (cases handled)
    (simp_all add: flow_deliverOrder flow_refuseOrder takeOrderOn_def flow_putToMachine)

lemma flow_acceptOrder: "obeys law (acceptOrder rt m i)"
  unfolding acceptOrder_def takeOrderOn_def by (auto intro!: step_intros flow_putToMachine)

text \<open>Reminders and daily work.\<close>

lemma flow_reminded: "obeys law (reminded rt reminder)"
  by (cases reminder) (auto intro!: step_intros applied)

lemma flow_reminderFires: "obeys law (reminderFires rt n)"
  unfolding reminderFires_def
  by (auto intro!: step_intros flow_reminded
      split: option.split prod.split TimerAction.split bool.split)

lemma flow_forgetOldClaims: "obeys law (forgetOldClaims rt)"
  unfolding forgetOldClaims_def by (intro step_intros flow_claims)

lemma flow_startGateway: "obeys law startGateway"
proof (rule obeysI)
  fix w
  have "law w (w\<lparr>worldQueue := queueStep QOnReminder (worldQueue w)\<rparr>)" for w
    by (rule queued [where op = QOnReminder]) (simp_all add: published_def)
  moreover have "law w (w\<lparr>worldQueue := queueStep QStart (worldQueue w)\<rparr>)" for w
    by (rule queued [where op = QStart]) (simp_all add: published_def)
  ultimately show "law w (snd (startGateway w))"
    using trans [of w "w\<lparr>worldQueue := queueStep QOnReminder (worldQueue w)\<rparr>"]
      refl
    by (fastforce simp: startGateway_def split: sum.split)
qed

lemma flow_stopGateway: "obeys law stopGateway"
  by (rule obeysI, rule queued [where op = QStop])
    (simp_all add: stopGateway_def published_def)

text \<open>The daily sweep.\<close>

lemma flow_sweepOne: "obeys law (sweepOne rt now record swept)"
proof -
  have order: "obeys law
      (andThen (orderEnvelope rt record now) (\<lambda>e.
       andThen (tellQueue (publish m e None)) (\<lambda>_. returns n)))" for m and n :: nat
  proof -
    have "obeys law
        (andThen (drawId rt ''env'') (\<lambda>i. andThen (orderDocumentOf record) (\<lambda>document.
         andThen (tellQueue (publish m (OrderEnvelope i (asTimestamp now) document) None))
           (\<lambda>_. returns n))))"
      by (intro step_intros flow_publish obeys_arming arms_orderDocumentOf) simp
    moreover have "andThen (orderEnvelope rt record now) f
        = andThen (drawId rt ''env'') (\<lambda>i. andThen (orderDocumentOf record) (\<lambda>document.
            f (OrderEnvelope i (asTimestamp now) document)))" for f :: "WorkerEnvelope \<Rightarrow> nat flow"
      by (auto simp: orderEnvelope_def andThen_eq fun_eq_iff returns_def split: sum.split prod.split)
    ultimately show ?thesis by simp
  qed
  show ?thesis
    unfolding sweepOne_def sweepTheDispatch_def sweepTheClocks_def Let_def
    by (auto intro!: step_intros order split: sum.split option.split)
qed

lemma flow_sweep: "obeys law (sweep rt)"
  unfolding sweep_def runAlone_def sweepAlone_def
  by (auto intro!: step_intros receipted flow_sweepOne obeys_onStore split: sum.split)
    (auto simp: beginAlone_def endAlone_def)

end

section \<open>The law of the gateway\<close>

lemma gateway_drawId: "obeys (gatewayLaw rt) (drawId rt' kind)"
  by (rule gateway_same) (simp add: drawId_def)

lemma gateway_readClock: "obeys (gatewayLaw rt) (readClock rt')"
  by (rule gateway_same) (simp add: readClock_def)

lemmas gateway_intros = gateway.obeys_intros gateway_drawId gateway_readClock

lemma gateway_arming: "obeys arming m \<Longrightarrow> obeys (gatewayLaw rt) m"
  using arming_law by (auto simp: obeys_def)

lemma gateway_applyHold: "obeys (gatewayLaw rt) (applyHold rt i event facts scope wo)"
  unfolding applyHold_def by (rule hold_law) (rule arms_decideEvent, rule decideEvent_sound)

lemma gateway_presentHold: "obeys (gatewayLaw rt) (presentHold rt i owner presented payTo t)"
  unfolding presentHold_def
  by (rule hold_law) (rule arms_decidePayment, rule decidePayment_sound)

lemma gateway_writeDown: "obeys (gatewayLaw rt) (writeDown rt i word)"
  unfolding writeDown_def
  by (intro gateway_intros hold_law arms_intros) (simp add: writeDown_sound)

lemma gateway_wakeTheAgent: "obeys (gatewayLaw rt) (wakeTheAgent record)"
  unfolding wakeTheAgent_def
  by (auto intro!: gateway_intros intro: gateway_same split: option.split)

lemma gateway_sendCharge: "obeys (gatewayLaw rt) (sendCharge rt' request)"
  by (rule gateway_same) (simp add: sendCharge_def)

text \<open>The inner \<open>apply\<close> is whatever obeys the law.\<close>

definition obeying :: "Runtime \<Rightarrow> Apply \<Rightarrow> bool" where
  "obeying rt applyIn =
     (\<forall>i event facts scope wo. obeys (gatewayLaw rt) (applyIn i event facts scope wo))"

lemma gateway_runEffects:
  assumes "obeying rt applyIn"
  shows "obeys (gatewayLaw rt) (runEffects applyIn rt record effects t)"
proof -
  have inner: "obeys (gatewayLaw rt) (applyIn i event facts scope wo)" for i event facts scope wo
    using assms by (simp add: obeying_def)
  have settle: "obeys (gatewayLaw rt) (settleCharge applyIn rt record t)"
    unfolding settleCharge_def Let_def
    by (auto intro!: gateway_intros inner gateway_sendCharge gateway_writeDown
        split: option.split SettleOutcome.split)
  have "obeys (gatewayLaw rt) (runEffect applyIn rt record t effect said)" for effect said
    by (cases effect) (auto simp: runEffect_def intro!: gateway_intros settle)
  then show ?thesis unfolding runEffects_def by (rule gateway.obeys_forEach)
qed

lemma gateway_applyOnce:
  assumes "obeying rt applyIn"
  shows "obeys (gatewayLaw rt) (applyOnce rt applyIn i event facts scope wo)"
  unfolding applyOnce_def
  by (auto intro!: gateway_intros gateway_applyHold gateway_runEffects [OF assms] gateway_wakeTheAgent
      split: option.split Decided.split TransitionResult.split)

lemma applyWithin_obeying: "obeying rt (applyWithin n rt)"
  by (induction n) (simp_all add: obeying_def gateway_applyOnce gateway.obeys_throws)

lemma gateway_applyEvent: "obeys (gatewayLaw rt) (applyEvent rt i event facts scope wo)"
  using applyWithin_obeying by (simp add: applyEvent_def obeying_def)

lemma applyEvent_obeying: "obeying rt (applyEvent rt)"
  by (simp add: obeying_def gateway_applyEvent)

lemma gateway_presentVerifiedPayment:
  "obeys (gatewayLaw rt) (presentVerifiedPayment rt i owner presented payTo t)"
  unfolding presentVerifiedPayment_def
  by (auto intro!: gateway_intros gateway_presentHold gateway_wakeTheAgent
      gateway_runEffects [OF applyEvent_obeying] split: option.split PresentDecided.split)

text \<open>The birth: an order of the machine under an identifier nobody has.\<close>

lemma addOrder_law:
  assumes "createOrder input = Born order fx" and "theOrder record = order"
    and "salePaymentWords record = []" and added: "addOrder record (worldStore w) = Inr s"
  shows "gatewayLaw rt w (w\<lparr>worldStore := s\<rparr>)"
  unfolding gatewayLaw_def
proof
  assume inv: "worldInv rt w"
  let ?i = "orderId (theOrder record)" and ?s = "worldStore w" and ?w' = "w\<lparr>worldStore := s\<rparr>"
  have reach: "reachable (theOrder record)" using assms(1,2) by (simp add: reachable.born)
  have "state order \<in> {Created, Quoted}"
    using assms(1) by (auto elim!: createOrder_bornE simp: baseOrder_def)
  then have new: "recordFits rt None ?i record" "stillOwes record = 1"
    using assms reach by (auto simp: recordFits_def stillOwes_def beforeEntry_def canStill_sets)
  from added have none: "map_of (ordersMap ?s) ?i = None"
    and s: "s = ?s\<lparr>ordersMap := AList.update ?i record (ordersMap ?s)\<rparr>"
    by (auto simp: addOrder_def split: if_splits)
  from inv have store: "storeInv rt ?s" and fit: "debtsFit w" by (simp_all add: worldInv_def)
  have kept: "orderById j s = (if j = ?i then Some record else orderById j ?s)" for j
    by (simp add: s orderById_def update_conv')
  have on: "debtsOn m j ?w' = debtsOn m j w" for m j by (simp add: debtsOn_def)
  have "storeInv rt s"
    using storeInvD [OF store] none new(1)
    by (auto simp: s storeInv_def update_conv' distinct_update split: option.split)
  moreover have "debtsFit ?w'"
  proof -
    have "debtsOn m ?i w = 0" for m
      using fit [unfolded debtsFit_def, rule_format, of m ?i] none by (simp add: orderById_def)
    then show ?thesis using fit by (auto simp: debtsFit_def kept on)
  qed
  moreover have "follows w ?w'"
  proof -
    have "orderById ?i ?s = None" using none by (simp add: orderById_def)
    then show ?thesis
      using leadsBy.stays sameFacts_refl by (fastforce simp: follows_def kept on)
  qed
  ultimately show "worldInv rt ?w' \<and> follows w ?w'" using inv by (simp add: worldInv_def)
qed

lemma createRecord_law:
  assumes "createOrder input = Born order fx" and "theOrder record = order"
    and "salePaymentWords record = []"
  shows "obeys (gatewayLaw rt) (createRecord rt record effects t)"
proof -
  have add: "obeys (gatewayLaw rt) (\<lambda>w. case addOrder record (worldStore w) of
      Inl thrown \<Rightarrow> (Inl thrown, w) | Inr s \<Rightarrow> (Inr (), w\<lparr>worldStore := s\<rparr>))"
    by (rule obeysI) (auto simp: gateway.refl addOrder_law [OF assms] split: sum.split)
  show ?thesis
    unfolding createRecord_def
    by (auto intro!: gateway_intros add gateway_runEffects [OF applyEvent_obeying]
        arms_parts [THEN gateway_arming])
qed

text \<open>Every delivered order has its receipt, so the sweep finds none to write.\<close>

lemma receipts_complete: "storeInv rt s \<Longrightarrow> deliveredWithoutReceipt s = []"
proof -
  assume inv: "storeInv rt s"
  have "map_of (receiptsMap s) (orderId (theOrder r)) \<noteq> None"
    if "r \<in> set (mapValues (ordersMap s))" "state (theOrder r) = Delivered" for r
  proof -
    from that(1) obtain i where i: "(i, r) \<in> set (ordersMap s)" by (auto simp: mapValues_def)
    with storeInvD(3) [OF inv] have "map_of (ordersMap s) i = Some r" by simp
    from storeInvD(1) [OF inv this] that(2) show ?thesis
      by (auto simp: recordFits_def split: option.splits)
  qed
  then show ?thesis by (auto simp: deliveredWithoutReceipt_def filter_empty_conv)
qed

lemma gateway_receipted:
  "obeys (gatewayLaw rt)
     (andThen (readStore deliveredWithoutReceipt) (\<lambda>rs. forEach (sweepReceipt rt now) rs swept))"
proof (rule obeys_gateway)
  fix w assume "worldInv rt w"
  then have "deliveredWithoutReceipt (worldStore w) = []"
    by (intro receipts_complete [of rt]) (simp add: worldInv_def)
  then show "gatewayLaw rt w (snd (andThen (readStore deliveredWithoutReceipt)
      (\<lambda>rs. forEach (sweepReceipt rt now) rs swept) w))"
    by (simp add: gateway.refl)
qed

interpretation kept: gateway_law "gatewayLaw rt" rt for rt
proof
  show "gatewayLaw rt w w'" if "ordersMap (worldStore w') = ordersMap (worldStore w)"
    and "receiptsMap (worldStore w') = receiptsMap (worldStore w)"
    and "worldQueue w' = worldQueue w" for w w'
    using that by (intro gatewayLaw_frame) (simp_all add: debtsOn_def)
  show "gatewayLaw rt w w'" if "worldStore w' = worldStore w"
    and "worldQueue w' = queueStep op (worldQueue w)"
    and "\<And>m i. debtsAmong i (published op m) = 0" for w w' op
    using that by (rule gatewayLaw_queue)
  show "obeys (gatewayLaw rt) (applyEvent rt i event facts scope wo)" for i event facts scope wo
    by (rule gateway_applyEvent)
  show "obeys (gatewayLaw rt) (presentVerifiedPayment rt i owner payload payTo t)"
    for i owner payload payTo t by (rule gateway_presentVerifiedPayment)
  show "obeys (gatewayLaw rt) (createRecord rt (openedRecord order stored params) fx t)"
    if "createOrder input = Born order fx" for input order fx stored params t
    by (rule createRecord_law [OF that]) (simp_all add: openedRecord_def)
  show "obeys (gatewayLaw rt) (andThen (readStore deliveredWithoutReceipt)
      (\<lambda>rs. forEach (sweepReceipt rt now) rs swept))" for now swept
    by (rule gateway_receipted)
qed

end
