(* ===== verification/Gateway_Charges.thy ===== *)
theory Gateway_Charges
  imports Gateway_Flows Gateway_Runner_Laws
begin

text \<open>
  The buyer's money under overtaking. \<open>apply\<close> decides under the hold and only then goes to the
  payment layer, and other requests are served while it waits; so a decided charge is a task
  of its own, and so is telling the machine what came of it. \<open>interleaved\<close> is the step relation
  of the gateway with such tasks in flight, in any order and any number, and with tasks lost
  where a process dies. Every flow is a run of it, and along every run the payment layer is
  asked for the money of an order once, and once more only for each charge it turned down.
\<close>

section \<open>Tasks in flight\<close>

datatype Task =
    ToCharge StoredOrder int \<comment> \<open>a decided charge, not yet sent\<close>
  | ToHear string OrderEvent OrderFacts \<comment> \<open>what came of one, not yet told to the machine\<close>

definition requestFor :: "StoredOrder \<Rightarrow> string \<Rightarrow> Price \<Rightarrow> ChargeRequest" where
  "requestFor record presented p =
     \<lparr>chargeOrderId = orderId (theOrder record), chargeAmount = amount p,
      chargeCurrency = currency p, chargePayment = presented, chargePayTo = salePayTo record\<rparr>"

fun hearing :: "string \<Rightarrow> int \<Rightarrow> SettleOutcome \<Rightarrow> Task multiset" where
  "hearing i t (SettledAs transaction) =
     {#ToHear i (Happened (PaymentSettled t))
        (noFacts\<lparr>factSettlement := Some transaction,
          factPaymentWord := Some \<lparr>wordAt = t, wordAbout = AboutSettle,
            wordSaid = ''went through as '' @ transaction\<rparr>\<rparr>)#}"
| "hearing i t (NotSettled reason) =
     {#ToHear i (Happened (PaymentSettleFailed t))
        (noFacts\<lparr>factPaymentWord := Some \<lparr>wordAt = t, wordAbout = AboutSettle,
          wordSaid = reason\<rparr>\<rparr>)#}"
| "hearing i t (SettleUnknown reason) = {#}"

definition chargesIn :: "StoredOrder \<Rightarrow> int \<Rightarrow> Effect list \<Rightarrow> Task multiset" where
  "chargesIn record t effects = replicate_mset (count_list effects ExecutePayment) (ToCharge record t)"

fun decidedTasks :: "int \<Rightarrow> string + Decided option \<Rightarrow> Task multiset" where
  "decidedTasks t (Inr (Some (DecidedBy (Moved order effects) known))) = chargesIn known t effects"
| "decidedTasks t _ = {#}"

fun presentedTasks :: "int \<Rightarrow> string + PresentDecided option \<Rightarrow> Task multiset" where
  "presentedTasks t (Inr (Some (TookPayment known effects))) = chargesIn known t effects"
| "presentedTasks t _ = {#}"

type_synonym Office = "World \<times> Task multiset"

inductive interleaved :: "Runtime \<Rightarrow> Office \<Rightarrow> Office \<Rightarrow> bool" for rt :: Runtime where
  aside: "interleaved rt (w, M) (w', M)"
    if "ordersMap (worldStore w') = ordersMap (worldStore w)"
      and "receiptsMap (worldStore w') = receiptsMap (worldStore w)"
      and "worldQueue w' = worldQueue w" and "chargesSent w' = chargesSent w"
| queues: "interleaved rt (w, M) (w', M)"
    if "worldStore w' = worldStore w" and "worldQueue w' = queueStep op (worldQueue w)"
      and "chargesSent w' = chargesSent w" and "\<And>m i. debtsAmong i (published op m) = 0"
| opens: "interleaved rt (w, M) (w\<lparr>worldStore := s\<rparr>, M)"
    if "createOrder input = Born order fx"
      and "addOrder (openedRecord order stored params) (worldStore w) = Inr s"
| decides: "interleaved rt (w, M) (w', M + decidedTasks (eventAt event) r)"
    if "\<not> outcomeOfCharge event" and "applyHold rt i event facts scope wo w = (r, w')"
| presents: "interleaved rt (w, M) (w', M + presentedTasks t r)"
    if "presentHold rt i owner presented payTo t w = (r, w')"
| charges: "interleaved rt (w, add_mset (ToCharge record t) M)
      (w', M + hearing (orderId (theOrder record)) t outcome)"
    if "salePayment record = Some presented" and "price (theOrder record) = Some p"
      and "sendCharge rt (requestFor record presented p) w = (Inr outcome, w')"
| hears: "interleaved rt (w, add_mset (ToHear i event facts) M)
      (w', M + decidedTasks (eventAt event) r)"
    if "applyHold rt i event facts None None w = (r, w')"
| writes: "interleaved rt (w, M) (snd (writeDown rt i word w), M)"
| sweeps: "interleaved rt (w, M)
      (snd (forEach (sweepReceipt rt now) (deliveredWithoutReceipt (worldStore w)) swept w), M)"
| forgets: "interleaved rt (w, add_mset x M) (w, M)"

section \<open>What is owed an answer\<close>

definition sentAbout :: "string \<Rightarrow> ChargeRequest list \<Rightarrow> nat" where
  "sentAbout i sent = length (filter (\<lambda>c. chargeOrderId c = i) sent)"

fun turnedDown :: "SettleOutcome \<Rightarrow> bool" where
  "turnedDown (NotSettled reason) = True"
| "turnedDown _ = False"

text \<open>What came of a charge is what the payment layer answered on top of those before it.\<close>

definition turnedDownAbout :: "Runtime \<Rightarrow> string \<Rightarrow> ChargeRequest list \<Rightarrow> nat" where
  "turnedDownAbout rt i sent =
     length (filter (\<lambda>k. chargeOrderId (sent ! k) = i
       \<and> turnedDown (facilitatorSettle rt (take k sent) (sent ! k))) [0..<length sent])"

lemma sentAbout_append [simp]:
  "sentAbout i (sent @ [c]) = sentAbout i sent + (if chargeOrderId c = i then 1 else 0)"
  by (simp add: sentAbout_def)

lemma turnedDownAbout_append [simp]:
  "turnedDownAbout rt i (sent @ [c]) = turnedDownAbout rt i sent
     + (if chargeOrderId c = i \<and> turnedDown (facilitatorSettle rt sent c) then 1 else 0)"
proof -
  have "filter (\<lambda>k. chargeOrderId ((sent @ [c]) ! k) = i
        \<and> turnedDown (facilitatorSettle rt (take k (sent @ [c])) ((sent @ [c]) ! k))) [0..<length sent]
      = filter (\<lambda>k. chargeOrderId (sent ! k) = i
        \<and> turnedDown (facilitatorSettle rt (take k sent) (sent ! k))) [0..<length sent]"
    by (rule filter_cong) (simp_all add: nth_append)
  then show ?thesis by (simp add: turnedDownAbout_def nth_append)
qed

lemma turnedDownAbout_le: "turnedDownAbout rt i sent \<le> sentAbout i sent"
  by (induction sent rule: rev_induct) (simp_all add: sentAbout_def turnedDownAbout_def [of rt i "[]"])

fun mayCharge :: "string \<Rightarrow> Task \<Rightarrow> bool" where
  "mayCharge i (ToCharge record t) = (orderId (theOrder record) = i)"
| "mayCharge i (ToHear j event facts) = (j = i \<and> eventKind event = KPaymentSettleFailed)"

definition dueOn :: "string \<Rightarrow> Task multiset \<Rightarrow> nat" where
  "dueOn i M = size (filter_mset (mayCharge i) M)"

lemma dueOn_simps [simp]:
  "dueOn i {#} = 0" "dueOn i (M + N) = dueOn i M + dueOn i N"
  "dueOn i (add_mset x M) = (if mayCharge i x then 1 else 0) + dueOn i M"
  by (simp_all add: dueOn_def)

lemma dueOn_chargesIn:
  "dueOn i (chargesIn record t effects)
    = (if orderId (theOrder record) = i then count_list effects ExecutePayment else 0)"
proof -
  have "dueOn i (replicate_mset n x) = (if mayCharge i x then n else 0)" for n x
    by (induction n) simp_all
  then show ?thesis by (simp add: chargesIn_def)
qed

text \<open>An order whose charge is out or taken has used the one it has.\<close>

definition chargeUsed :: "Order \<Rightarrow> nat" where
  "chargeUsed x = 1 - chargesLeft (chargeOf (payment x))"

definition usedOn :: "string \<Rightarrow> World \<Rightarrow> nat" where
  "usedOn i w =
     (case orderById i (worldStore w) of None \<Rightarrow> 0 | Some r \<Rightarrow> chargeUsed (theOrder r))"

definition officeInv :: "Runtime \<Rightarrow> Office \<Rightarrow> bool" where
  "officeInv rt office =
     (worldInv rt (fst office)
      \<and> (\<forall>i. sentAbout i (chargesSent (fst office)) + dueOn i (snd office)
             \<le> turnedDownAbout rt i (chargesSent (fst office)) + usedOn i (fst office)))"

section \<open>Every step keeps the account\<close>

lemma transition_uses:
  assumes "orderInv x" and "transition x e = Moved y fx"
  shows "count_list fx ExecutePayment + chargeUsed x
    \<le> chargeUsed y + (if eventKind e = KPaymentSettleFailed then 1 else 0)"
proof -
  have "chargesLeft c \<le> 1" for c by (cases c) simp_all
  moreover have "asks ExecutePayment (e, fx) + chargesLeft (chargeOf (payment y))
      \<le> chargesLeft (chargeOf (payment x)) + accepts KPaymentSettleFailed (e, fx)"
    using charges.pays [of x e y fx] assms by simp
  ultimately show ?thesis
    by (auto simp: asks_def accepts_def chargeUsed_def split: if_splits)
qed

text \<open>A hold on the orders: what it saves, and nothing else.\<close>

lemma fold_storeWrite_orders: "ordersMap (fold storeWrite ws s) = ordersMap s"
proof (induction ws arbitrary: s)
  case (Cons x ws)
  then show ?case by (cases x) (simp_all add: putReceipt_at)
qed simp

lemma heldWrite_orders:
  "orderById j (worldStore (heldWrite i found d w))
    = (case saving d of
         None \<Rightarrow> orderById j (worldStore w)
       | Some r \<Rightarrow>
           if j = i then Some (r\<lparr>saleMerchant := saleMerchant found\<rparr>)
           else orderById j (worldStore w))"
  "chargesSent (heldWrite i found d w) = chargesSent w"
  by (simp_all add: heldWrite_def Let_def orderById_def saveHeld_def fold_storeWrite_orders
      update_conv' split: option.split)

lemma decideEvent_result:
  assumes "decideEvent rt i event facts wo found w = (Inr d, v)"
  shows "saving d = None \<and> decidedTasks t (Inr (Some (deciding d))) = {#}
    \<or> (\<exists>r fx. saving d = Some r \<and> transition (theOrder found) event = Moved (theOrder r) fx
         \<and> decidedTasks t (Inr (Some (deciding d))) = chargesIn r t fx)"
proof -
  have order: "theOrder (knownWith rt found facts) = theOrder found" by (rule knownWith_facts(2))
  show ?thesis
    using assms
    by (auto simp: decideEvent_def andThen_eq Let_def order goodsToKeep_facts
        split: if_splits TransitionResult.splits sum.splits prod.splits)
qed

text \<open>What a decision leaves: the orders as they were, or one of them moved.\<close>

definition movedOne :: "string \<Rightarrow> Effect list \<Rightarrow> (Order \<Rightarrow> Order \<Rightarrow> bool) \<Rightarrow> World \<Rightarrow> World \<Rightarrow> bool" where
  "movedOne i fx how w w' =
     (chargesSent w' = chargesSent w
      \<and> (\<exists>r r'. orderById i (worldStore w) = Some r \<and> orderById i (worldStore w') = Some r'
           \<and> how (theOrder r) (theOrder r'))
      \<and> (\<forall>j. j \<noteq> i \<longrightarrow> orderById j (worldStore w') = orderById j (worldStore w)))"

definition sameOrders :: "World \<Rightarrow> World \<Rightarrow> bool" where
  "sameOrders w w' =
     (chargesSent w' = chargesSent w
      \<and> (\<forall>j. orderById j (worldStore w') = orderById j (worldStore w)))"

lemma applyHold_tasks:
  assumes "applyHold rt i event facts scope wo w = (r, w')"
  shows "decidedTasks t r = {#} \<and> sameOrders w w'
    \<or> (\<exists>known fx. decidedTasks t r = chargesIn known t fx
         \<and> movedOne i fx (\<lambda>x y. transition x event = Moved y fx \<and> theOrder known = y) w w')"
  using assms unfolding applyHold_def
proof (cases rule: withOrder_cases)
  case (threw found thrown)
  then have "arming w w'" using arms_decideEvent by (blast intro: obeysD)
  with threw show ?thesis by (simp add: arming_def sameOrders_def)
next
  case (decided found d v)
  then have v: "arming w v" using arms_decideEvent by (blast intro: obeysD)
  from decideEvent_result [OF decided(3), of t] show ?thesis
  proof
    assume "saving d = None \<and> decidedTasks t (Inr (Some (deciding d))) = {#}"
    with decided v show ?thesis by (simp add: sameOrders_def heldWrite_orders arming_def)
  next
    assume "\<exists>r fx. saving d = Some r \<and> transition (theOrder found) event = Moved (theOrder r) fx
        \<and> decidedTasks t (Inr (Some (deciding d))) = chargesIn r t fx"
    with decided v show ?thesis
      by (auto simp: movedOne_def heldWrite_orders arming_def)
  qed
qed (simp add: sameOrders_def)

text \<open>A verified payment, which may take the order two transitions.\<close>

definition spends :: "nat \<Rightarrow> Effect list \<Rightarrow> Order \<Rightarrow> Order \<Rightarrow> bool" where
  "spends granted fx x y =
     (orderId y = orderId x
      \<and> count_list fx ExecutePayment + chargeUsed x \<le> chargeUsed y + granted)"

lemma transition_spends:
  "orderInv x \<Longrightarrow> transition x e = Moved y fx
   \<Longrightarrow> spends (if eventKind e = KPaymentSettleFailed then 1 else 0) fx x y"
  using transition_uses transition_sound
  by (auto simp: spends_def stepSound_def sameSale_def)

lemma driveHome_spends:
  "driveHome events x acc w = (Inr (Inr (y, fx)), v) \<Longrightarrow> orderInv x
   \<Longrightarrow> (\<And>e. e \<in> set events \<Longrightarrow> eventKind (Happened e) \<noteq> KPaymentSettleFailed)
   \<Longrightarrow> spends (count_list acc ExecutePayment) fx x y"
proof (induction events arbitrary: x acc w)
  case Nil
  then show ?case by (simp add: spends_def)
next
  case (Cons e events)
  show ?case
  proof (cases "transition x (Happened e)")
    case (Refused rejection)
    with Cons.prems(1) show ?thesis by (simp del: transition.simps)
  next
    case (Moved z gx)
    have z: "orderInv z" by (rule transition_keeps_orderInv [OF Cons.prems(2) Moved])
    have "driveHome events z (acc @ gx) w = (Inr (Inr (y, fx)), v)"
      using Cons.prems(1) Moved refuse_ok [OF z, of w] by (simp del: transition.simps)
    from Cons.IH [OF this z] Cons.prems(3) transition_spends [OF Cons.prems(2) Moved]
    show ?thesis by (auto simp: spends_def)
  qed
qed

lemma decidePayment_result:
  assumes "decidePayment rt i owner presented payTo t found w = (Inr d, v)"
  shows "saving d = None \<and> presentedTasks u (Inr (Some (deciding d))) = {#}
    \<or> (\<exists>r fx w'. saving d = Some r \<and> presentedTasks u (Inr (Some (deciding d))) = chargesIn r u fx
         \<and> driveHome (eventsForVerifiedPayment (theOrder found) t) (theOrder found) [] w
             = (Inr (Inr (theOrder r, fx)), w'))"
  using assms
  by (auto simp: decidePayment_def andThen_eq Let_def
      split: if_splits sum.splits prod.splits)

lemma presentHold_tasks:
  assumes "presentHold rt i owner presented payTo t w = (r, w')"
    and inv: "storeInv rt' (worldStore w)"
  shows "presentedTasks u r = {#} \<and> sameOrders w w'
    \<or> (\<exists>known fx. presentedTasks u r = chargesIn known u fx
         \<and> movedOne i fx (\<lambda>x y. spends 0 fx x y \<and> theOrder known = y) w w')"
  using assms(1) unfolding presentHold_def
proof (cases rule: withOrder_cases)
  case (threw found thrown)
  then have "arming w w'" using arms_decidePayment by (blast intro: obeysD)
  with threw show ?thesis by (simp add: arming_def sameOrders_def)
next
  case (decided found d v)
  then have v: "arming w v" using arms_decidePayment by (blast intro: obeysD)
  have known: "orderInv (theOrder found)"
    using storeInvD(1) [OF inv] decided(1)
    by (simp add: orderById_def recordFits_def reachable_orderInv)
  from decidePayment_result [OF decided(3), of u] show ?thesis
  proof (elim disjE conjE exE)
    assume "saving d = None" "presentedTasks u (Inr (Some (deciding d))) = {#}"
    with decided v show ?thesis by (simp add: sameOrders_def heldWrite_orders arming_def)
  next
    fix known fx v'
    assume saves: "saving d = Some known" "presentedTasks u (Inr (Some (deciding d))) = chargesIn known u fx"
      and driven: "driveHome (eventsForVerifiedPayment (theOrder found) t) (theOrder found) [] w
        = (Inr (Inr (theOrder known, fx)), v')"
    have "spends (count_list [] ExecutePayment) fx (theOrder found) (theOrder known)"
      by (rule driveHome_spends [OF driven known])
        (use events_for_payment [of "theOrder found" t] in auto)
    with saves decided v show ?thesis
      by (auto simp: movedOne_def heldWrite_orders arming_def)
  qed
qed (simp add: sameOrders_def)

text \<open>What is sent for a moved order: its own charges, and no more than it gives.\<close>

lemma moved_account:
  assumes inv: "storeInv rt (worldStore w)" and moved: "movedOne i fx how w w'"
    and how: "\<And>x y. how x y \<Longrightarrow> orderInv x \<Longrightarrow> spends granted fx x y \<and> theOrder known = y"
  shows "dueOn j (chargesIn known t fx) + usedOn j w
    \<le> usedOn j w' + (if j = i then granted else 0)"
proof -
  from moved obtain r r' where r: "orderById i (worldStore w) = Some r"
    and r': "orderById i (worldStore w') = Some r'" and step: "how (theOrder r) (theOrder r')"
    and others: "\<And>j. j \<noteq> i \<Longrightarrow> orderById j (worldStore w') = orderById j (worldStore w)"
    by (auto simp: movedOne_def)
  have "orderId (theOrder r) = i" "orderInv (theOrder r)"
    using storeInvD(1) [OF inv] r by (auto simp: orderById_def recordFits_def reachable_orderInv)
  with how [OF step] show ?thesis
    using others r r' by (auto simp: dueOn_chargesIn usedOn_def spends_def)
qed

lemma officeInvD:
  assumes "officeInv rt (w, M)"
  shows "worldInv rt w" and "storeInv rt (worldStore w)"
    and "sentAbout i (chargesSent w) + dueOn i M
      \<le> turnedDownAbout rt i (chargesSent w) + usedOn i w"
  using assms by (auto simp: officeInv_def worldInv_def)

lemma sameOrders_used: "sameOrders w w' \<Longrightarrow> usedOn i w' = usedOn i w"
  by (simp add: sameOrders_def usedOn_def)

text \<open>
  An account that a decision settles: what was due before and what the decision adds is
  covered by what the moved order has used.
\<close>

lemma decision_keeps:
  assumes inv: "officeInv rt (w, M)" and world: "worldInv rt w'"
    and sent: "chargesSent w' = chargesSent w"
    and pays: "\<And>j. dueOn j N + dueOn j M' + usedOn j w \<le> usedOn j w' + dueOn j M"
  shows "officeInv rt (w', M' + N)"
  unfolding officeInv_def
proof (intro conjI allI)
  show "worldInv rt (fst (w', M' + N))" using world by simp
  fix j
  show "sentAbout j (chargesSent (fst (w', M' + N))) + dueOn j (snd (w', M' + N))
      \<le> turnedDownAbout rt j (chargesSent (fst (w', M' + N))) + usedOn j (fst (w', M' + N))"
    using officeInvD(3) [OF inv, of j] pays [of j] sent by simp
qed

lemma decides_keeps:
  assumes inv: "officeInv rt (w, M)" and hold: "applyHold rt i event facts scope wo w = (r, w')"
    and due: "\<And>j. dueOn j M' + (if j = i \<and> eventKind event = KPaymentSettleFailed then 1 else 0)
      \<le> dueOn j M"
  shows "officeInv rt (w', M' + decidedTasks t r)"
proof -
  have "gatewayLaw rt w w'" using gateway_applyHold hold by (rule obeysD)
  then have world: "worldInv rt w'" using officeInvD(1) [OF inv] by (simp add: gatewayLaw_def)
  from applyHold_tasks [OF hold, of t] show ?thesis
  proof (elim disjE conjE exE)
    assume quiet: "decidedTasks t r = {#}" "sameOrders w w'"
    then have "chargesSent w' = chargesSent w" by (simp add: sameOrders_def)
    moreover have "dueOn j M' \<le> dueOn j M" for j using due [of j] by linarith
    ultimately show ?thesis
      using decision_keeps [OF inv world, of "{#}" M'] quiet(1) sameOrders_used [OF quiet(2)]
      by simp
  next
    fix known fx
    assume tasks: "decidedTasks t r = chargesIn known t fx"
      and moved: "movedOne i fx (\<lambda>x y. transition x event = Moved y fx \<and> theOrder known = y) w w'"
    have sent: "chargesSent w' = chargesSent w" using moved by (simp add: movedOne_def)
    have pays: "dueOn j (chargesIn known t fx) + usedOn j w \<le> usedOn j w'
        + (if j = i then if eventKind event = KPaymentSettleFailed then 1 else 0 else 0)" for j
      by (rule moved_account [OF officeInvD(2) [OF inv] moved]) (use transition_spends in blast)
    show ?thesis
      unfolding tasks
    proof (rule decision_keeps [OF inv world sent])
      show "dueOn j (chargesIn known t fx) + dueOn j M' + usedOn j w \<le> usedOn j w' + dueOn j M" for j
        using pays [of j] due [of j] by (auto split: if_splits)
    qed
  qed
qed

lemma presents_keeps:
  assumes inv: "officeInv rt (w, M)"
    and hold: "presentHold rt i owner presented payTo t w = (r, w')"
  shows "officeInv rt (w', M + presentedTasks t r)"
proof -
  have "gatewayLaw rt w w'" using gateway_presentHold hold by (rule obeysD)
  then have world: "worldInv rt w'" using officeInvD(1) [OF inv] by (simp add: gatewayLaw_def)
  from presentHold_tasks [OF hold officeInvD(2) [OF inv], of t] show ?thesis
  proof (elim disjE conjE exE)
    assume quiet: "presentedTasks t r = {#}" "sameOrders w w'"
    then have "chargesSent w' = chargesSent w" by (simp add: sameOrders_def)
    from decision_keeps [OF inv world this, of "{#}" M] show ?thesis
      using quiet sameOrders_used [OF quiet(2)] by simp
  next
    fix known fx
    assume tasks: "presentedTasks t r = chargesIn known t fx"
      and moved: "movedOne i fx (\<lambda>x y. spends 0 fx x y \<and> theOrder known = y) w w'"
    have sent: "chargesSent w' = chargesSent w" using moved by (simp add: movedOne_def)
    have pays: "dueOn j (chargesIn known t fx) + usedOn j w \<le> usedOn j w' + (if j = i then 0 else 0)" for j
      by (rule moved_account [OF officeInvD(2) [OF inv] moved]) blast
    show ?thesis
      unfolding tasks
    proof (rule decision_keeps [OF inv world sent])
      show "dueOn j (chargesIn known t fx) + dueOn j M + usedOn j w \<le> usedOn j w' + dueOn j M" for j
        using pays [of j] by simp
    qed
  qed
qed

lemma charges_keeps:
  assumes inv: "officeInv rt (w, add_mset (ToCharge record t) M)"
    and sent: "sendCharge rt (requestFor record presented p) w = (Inr outcome, w')"
  shows "officeInv rt (w', M + hearing (orderId (theOrder record)) t outcome)"
proof -
  let ?i = "orderId (theOrder record)" and ?c = "requestFor record presented p"
  from sent have out: "outcome = facilitatorSettle rt (chargesSent w) ?c"
    and w': "w' = w\<lparr>chargesSent := chargesSent w @ [?c]\<rparr>" by (auto simp: sendCharge_def)
  have "gatewayLaw rt w w'" using gateway_sendCharge sent by (rule obeysD)
  then have world: "worldInv rt w'" using officeInvD(1) [OF inv] by (simp add: gatewayLaw_def)
  have c: "chargeOrderId ?c = ?i" by (simp add: requestFor_def)
  have hears: "dueOn j (hearing ?i t outcome) = (if j = ?i \<and> turnedDown outcome then 1 else 0)" for j
    by (cases outcome) auto
  have used: "usedOn j w' = usedOn j w" for j by (simp add: w' usedOn_def)
  have "sentAbout j (chargesSent w') + (dueOn j M + dueOn j (hearing ?i t outcome))
      \<le> turnedDownAbout rt j (chargesSent w') + usedOn j w'" for j
    using officeInvD(3) [OF inv, of j] unfolding used hears
    by (auto simp: w' c out split: if_splits)
  with world show ?thesis by (simp add: officeInv_def)
qed

lemma officeInv_frame:
  assumes "officeInv rt (w, M)" and "gatewayLaw rt w w'" and "chargesSent w' = chargesSent w"
    and "\<And>i. usedOn i w' = usedOn i w"
  shows "officeInv rt (w', M)"
  using assms by (auto simp: officeInv_def gatewayLaw_def)

lemma writeDown_same: "usedOn j (snd (writeDown rt i word w)) = usedOn j w
    \<and> chargesSent (snd (writeDown rt i word w)) = chargesSent w"
proof -
  let ?change = "\<lambda>found :: StoredOrder. returns \<lparr>saving = Some (alsoSaid rt found word found),
    alongside = [], deciding = ()\<rparr>"
  obtain r w' where out: "withOrder i ?change None w = (r, w')" by (cases "withOrder i ?change None w")
  then have end': "snd (writeDown rt i word w) = w'"
    by (simp add: writeDown_def andThen_eq split: sum.split)
  from out show ?thesis
  proof (cases rule: withOrder_cases)
    case (decided found d v)
    then show ?thesis unfolding end' by (auto simp: usedOn_def heldWrite_orders)
  qed (simp_all add: end')
qed

lemma interleaved_keeps: "interleaved rt o1 o2 \<Longrightarrow> officeInv rt o1 \<Longrightarrow> officeInv rt o2"
proof (induction rule: interleaved.induct)
  case (aside w' w M)
  show ?case
    by (rule officeInv_frame [OF aside(5) kept.elsewhere [OF aside(1-4)] aside(4)])
      (simp add: usedOn_def orderById_def aside(1))
next
  case (queues w' w op M)
  show ?case
    by (rule officeInv_frame [OF queues(5) kept.queued [OF queues(1-4)] queues(3)])
      (simp add: usedOn_def queues(1))
next
  case (opens input order fx stored params w s M)
  have law: "gatewayLaw rt w (w\<lparr>worldStore := s\<rparr>)"
    by (rule addOrder_law [OF opens(1) _ _ opens(2)]) (simp_all add: openedRecord_def)
  have none: "map_of (ordersMap (worldStore w)) (orderId order) = None"
    and s: "s = (worldStore w)\<lparr>ordersMap := AList.update (orderId order)
      (openedRecord order stored params) (ordersMap (worldStore w))\<rparr>"
    using opens(2) by (auto simp: addOrder_def openedRecord_def split: if_splits)
  have "chargeUsed order = 0"
    using opens(1) by (auto elim!: createOrder_bornE simp: baseOrder_def chargeUsed_def)
  then have "usedOn i (w\<lparr>worldStore := s\<rparr>) = usedOn i w" for i
    using none by (simp add: usedOn_def s orderById_def update_conv' openedRecord_def)
  then show ?case by (intro officeInv_frame [OF opens(3) law]) simp_all
next
  case (decides event i facts scope wo w r w' M)
  from decides(1) have "eventKind event \<noteq> KPaymentSettleFailed"
    by (cases event rule: outcomeOfCharge.cases) auto
  then show ?case using decides by (intro decides_keeps) auto
next
  case (presents i owner presented payTo t w r w' M)
  then show ?case by (intro presents_keeps)
next
  case (charges sold presented p w outcome w' t M)
  then show ?case by (intro charges_keeps)
next
  case (hears i event facts w r w' M)
  then show ?case by (intro decides_keeps) auto
next
  case (writes w M i word)
  have "gatewayLaw rt w (snd (writeDown rt i word w))"
    using gateway_writeDown by (simp add: obeys_def)
  then show ?case by (rule officeInv_frame [OF writes]) (simp_all add: writeDown_same)
next
  case (forgets w x M)
  have "sentAbout i (chargesSent w) + dueOn i M
      \<le> turnedDownAbout rt i (chargesSent w) + usedOn i w" for i
    using officeInvD(3) [OF forgets, of i] by simp
  with officeInvD(1) [OF forgets] show ?case by (simp add: officeInv_def)
next
  case (sweeps w M now swept)
  have "gatewayLaw rt w (snd (andThen (readStore deliveredWithoutReceipt)
      (\<lambda>rs. forEach (sweepReceipt rt now) rs swept) w))"
    using gateway_receipted by (simp add: obeys_def)
  moreover have "deliveredWithoutReceipt (worldStore w) = []"
    by (rule receipts_complete [OF officeInvD(2) [OF sweeps]])
  ultimately show ?case using sweeps by simp
qed

section \<open>Every flow is a run with its tasks done\<close>

abbreviation runs :: "Runtime \<Rightarrow> Office \<Rightarrow> Office \<Rightarrow> bool" where
  "runs rt \<equiv> (interleaved rt)\<^sup>*\<^sup>*"

definition reaches :: "Runtime \<Rightarrow> World \<Rightarrow> World \<Rightarrow> bool" where
  "reaches rt w w' = (\<forall>M. runs rt (w, M) (w', M))"

lemma one_run: "interleaved rt a b \<Longrightarrow> runs rt a b"
  by (rule r_into_rtranclp)

lemma forgetting: "runs rt (w, M + N) (w, M)"
proof (induction N)
  case (add x N)
  have "interleaved rt (w, add_mset x (M + N)) (w, M + N)" by (rule forgets)
  with add show ?case by (simp add: converse_rtranclp_into_rtranclp)
qed simp

interpretation reaching: quiet_law "reaches rt" for rt
proof
  show "reaches rt w w" for w by (simp add: reaches_def)
  show "reaches rt u v \<Longrightarrow> reaches rt v w \<Longrightarrow> reaches rt u w" for u v w
    unfolding reaches_def by (blast intro: rtranclp_trans)
  show "reaches rt w w'" if "ordersMap (worldStore w') = ordersMap (worldStore w)"
    and "receiptsMap (worldStore w') = receiptsMap (worldStore w)"
    and "worldQueue w' = worldQueue w" and "chargesSent w' = chargesSent w" for w w'
    unfolding reaches_def using aside [OF that] one_run by blast
  show "reaches rt w w'" if "worldStore w' = worldStore w"
    and "worldQueue w' = queueStep op (worldQueue w)" and "chargesSent w' = chargesSent w"
    and "\<And>m i. debtsAmong i (published op m) = 0" for w w' op
    unfolding reaches_def using queues [OF that] one_run by blast
qed

text \<open>A flow that starts with tasks of its own in flight and leaves none behind.\<close>

definition clears :: "Runtime \<Rightarrow> Task multiset \<Rightarrow> 'a flow \<Rightarrow> bool" where
  "clears rt N m = (\<forall>w M. runs rt (w, M + N) (snd (m w), M))"

lemma clears_nothing: "clears rt {#} m \<longleftrightarrow> obeys (reaches rt) m"
  by (auto simp: clears_def obeys_def reaches_def)

lemma clears_andThen:
  assumes "clears rt N m" and "\<And>x. clears rt N' (f x)"
  shows "clears rt (N + N') (andThen m f)"
  unfolding clears_def
proof (intro allI)
  fix w M
  obtain r v where m: "m w = (r, v)" by (cases "m w")
  have "runs rt (w, M + N' + N) (v, M + N')"
    using assms(1) m unfolding clears_def by (metis snd_conv)
  then have first: "runs rt (w, M + (N + N')) (v, M + N')" by (simp add: ac_simps)
  show "runs rt (w, M + (N + N')) (snd (andThen m f w), M)"
  proof (cases r)
    case (Inl thrown)
    then show ?thesis using m first forgetting [of rt v M N'] by (simp add: andThen_eq)
  next
    case (Inr x)
    have "runs rt (v, M + N') (snd (f x v), M)" using assms(2) unfolding clears_def by blast
    with first Inr m show ?thesis by simp
  qed
qed

lemma clears_then:
  "clears rt N m \<Longrightarrow> (\<And>x. obeys (reaches rt) (f x)) \<Longrightarrow> clears rt N (andThen m f)"
  using clears_andThen [of rt N m "{#}" f] by (simp add: clears_nothing)

lemma clears_throws: "clears rt N (throws message)"
  by (simp add: clears_def throws_def forgetting)

definition hearing_ok :: "Runtime \<Rightarrow> Apply \<Rightarrow> bool" where
  "hearing_ok rt applyIn =
     (\<forall>i event facts. outcomeOfCharge event
        \<longrightarrow> clears rt {#ToHear i event facts#} (applyIn i event facts None None))"

lemma clears_settleCharge:
  assumes "hearing_ok rt applyIn"
  shows "clears rt {#ToCharge sold t#} (settleCharge applyIn rt sold t)"
proof (cases "(salePayment sold, price (theOrder sold))")
  case (Pair a b)
  show ?thesis
  proof (cases "a = None \<or> b = None")
    case True
    then have "settleCharge applyIn rt sold t = throws (''the machine asked for the charge on ''
        @ orderId (theOrder sold) @ '' to be executed and there is nothing to execute'')"
      using Pair by (auto simp: settleCharge_def Let_def split: option.split)
    then show ?thesis by (simp add: clears_throws)
  next
    case False
    with Pair obtain presented p
      where paid: "salePayment sold = Some presented" "price (theOrder sold) = Some p" by auto
    let ?i = "orderId (theOrder sold)"
    define rest where "rest outcome = (case outcome of
        SettledAs transaction \<Rightarrow>
          andThen (applyIn ?i (Happened (PaymentSettled t))
            (noFacts\<lparr>factSettlement := Some transaction,
              factPaymentWord := Some \<lparr>wordAt = t, wordAbout = AboutSettle,
                wordSaid = ''went through as '' @ transaction\<rparr>\<rparr>) None None) (\<lambda>_. returns ())
      | NotSettled reason \<Rightarrow>
          andThen (applyIn ?i (Happened (PaymentSettleFailed t))
            (noFacts\<lparr>factPaymentWord := Some \<lparr>wordAt = t, wordAbout = AboutSettle,
              wordSaid = reason\<rparr>\<rparr>) None None) (\<lambda>_. returns ())
      | SettleUnknown reason \<Rightarrow>
          writeDown rt ?i \<lparr>wordAt = t, wordAbout = AboutSettle, wordSaid = reason\<rparr>)" for outcome
    have whole: "settleCharge applyIn rt sold t
        = andThen (sendCharge rt (requestFor sold presented p)) rest"
      by (simp add: settleCharge_def paid Let_def requestFor_def)
        (rule arg_cong2 [where f = andThen], simp, rule ext, simp add: rest_def split: SettleOutcome.split)
    have told: "clears rt (hearing ?i t outcome) (rest outcome)" for outcome
    proof (cases outcome)
      case (SettledAs transaction)
      show ?thesis
        unfolding rest_def SettledAs hearing.simps SettleOutcome.case
        using assms by (intro clears_then reaching.obeys_returns) (simp add: hearing_ok_def)
    next
      case (NotSettled reason)
      show ?thesis
        unfolding rest_def NotSettled hearing.simps SettleOutcome.case
        using assms by (intro clears_then reaching.obeys_returns) (simp add: hearing_ok_def)
    next
      case (SettleUnknown reason)
      then show ?thesis using writes one_run
        by (auto simp: rest_def clears_nothing obeys_def reaches_def)
    qed
    show ?thesis
      unfolding clears_def whole
    proof (intro allI)
      fix w M
      obtain outcome v where sent: "sendCharge rt (requestFor sold presented p) w = (Inr outcome, v)"
        by (simp add: sendCharge_def)
      have "runs rt (w, M + {#ToCharge sold t#}) (v, M + hearing ?i t outcome)"
        using charges [OF paid sent, where M = M and t = t] one_run by simp
      also have "runs rt (v, M + hearing ?i t outcome) (snd (rest outcome v), M)"
        using told by (simp add: clears_def)
      finally show "runs rt (w, M + {#ToCharge sold t#})
          (snd (andThen (sendCharge rt (requestFor sold presented p)) rest w), M)"
        using sent by simp
    qed
  qed
qed

lemma clears_runEffects:
  assumes "hearing_ok rt applyIn"
  shows "clears rt (chargesIn sold t effects) (runEffects applyIn rt sold effects t)"
proof -
  have one: "clears rt (chargesIn sold t [effect]) (runEffect applyIn rt sold t effect said)"
    for effect said
  proof (cases "effect = ExecutePayment")
    case True
    have "clears rt {#ToCharge sold t#}
        (andThen (settleCharge applyIn rt sold t) (\<lambda>_. returns said))"
      by (intro clears_then clears_settleCharge [OF assms] reaching.obeys_returns)
    with True show ?thesis by (simp add: runEffect_def chargesIn_def)
  next
    case False
    then show ?thesis
      by (cases effect)
        (simp_all add: runEffect_def chargesIn_def clears_nothing reaching.obeys_returns
          reaching.obeys_throws)
  qed
  have "clears rt (chargesIn sold t effects) (forEach (runEffect applyIn rt sold t) effects said)"
    for said
  proof (induction effects arbitrary: said)
    case Nil
    then show ?case
      by (simp add: chargesIn_def clears_nothing reaching.obeys_returns del: returns_eq)
  next
    case (Cons e effects)
    have "chargesIn sold t (e # effects) = chargesIn sold t [e] + chargesIn sold t effects"
      by (simp add: chargesIn_def)
    with clears_andThen [OF one Cons.IH] show ?case by simp
  qed
  then show ?thesis by (simp add: runEffects_def)
qed

text \<open>One \<open>apply\<close>, told by a flow or hearing the outcome of a charge, and then the whole runner.\<close>

lemma reaches_wakeTheAgent: "obeys (reaches rt) (wakeTheAgent sold)"
  unfolding wakeTheAgent_def
  by (auto intro!: reaching.obeys_intros intro: reaching.obeys_aside split: option.split)

lemma carriedOut_count: "count_list (filter carriedOutAfterwards effects) ExecutePayment
    = count_list effects ExecutePayment"
  by (rule count_filter) simp

definition afterHold :: "Apply \<Rightarrow> Runtime \<Rightarrow> int \<Rightarrow> Decided option \<Rightarrow> Applied flow" where
  "afterHold applyIn rt t decided =
     (case decided of
        None \<Rightarrow> returns AppliedNoSuchOrder
      | Some DecidedMovedOn \<Rightarrow> returns AppliedMovedOn
      | Some (DecidedBy (Refused rejection) known) \<Rightarrow> returns (AppliedRefused rejection)
      | Some (DecidedBy (Moved order effects) known) \<Rightarrow>
          andThen (runEffects applyIn rt known (filter carriedOutAfterwards effects) t) (\<lambda>said.
          andThen (wakeTheAgent known) (\<lambda>_. returns (AppliedMoved known effects said))))"

lemma applyOnce_after:
  "applyOnce rt applyIn i event facts scope wo
    = andThen (applyHold rt i event facts scope wo) (afterHold applyIn rt (eventAt event))"
  unfolding applyOnce_def
  by (rule arg_cong2 [where f = andThen])
    (auto simp: afterHold_def fun_eq_iff split: option.split Decided.split TransitionResult.split)

lemma clears_afterHold:
  assumes "hearing_ok rt applyIn"
  shows "clears rt (decidedTasks t (Inr decided)) (afterHold applyIn rt t decided)"
proof (cases "\<exists>order effects known. decided = Some (DecidedBy (Moved order effects) known)")
  case True
  then obtain order effects known
    where decided: "decided = Some (DecidedBy (Moved order effects) known)" by blast
  have "clears rt (chargesIn known t (filter carriedOutAfterwards effects))
      (afterHold applyIn rt t decided)"
    unfolding afterHold_def decided option.case Decided.case TransitionResult.case
    by (intro clears_then clears_runEffects [OF assms] reaching.obeys_intros reaches_wakeTheAgent)
  then show ?thesis by (simp add: decided chargesIn_def carriedOut_count)
next
  case False
  then have "decidedTasks t (Inr decided) = {#}"
    by (cases "(t, Inr decided :: string + Decided option)" rule: decidedTasks.cases) auto
  moreover from False have "\<exists>x. afterHold applyIn rt t decided = returns x"
    by (auto simp: afterHold_def split: option.split Decided.split TransitionResult.split)
  ultimately show ?thesis by (auto simp: clears_nothing reaching.obeys_returns simp del: returns_eq)
qed

text \<open>A hold from any tasks, then what follows it.\<close>

lemma runs_applyOnce:
  assumes "hearing_ok rt applyIn"
    and hold: "\<And>r w'. applyHold rt i event facts scope wo w = (r, w')
      \<Longrightarrow> runs rt (w, N) (w', M + decidedTasks (eventAt event) r)"
  shows "runs rt (w, N) (snd (applyOnce rt applyIn i event facts scope wo w), M)"
proof -
  obtain r w' where out: "applyHold rt i event facts scope wo w = (r, w')"
    by (cases "applyHold rt i event facts scope wo w")
  note first = hold [OF out]
  show ?thesis
  proof (cases r)
    case (Inl thrown)
    with out first show ?thesis by (simp add: applyOnce_after andThen_eq)
  next
    case (Inr decided)
    have "runs rt (w', M + decidedTasks (eventAt event) r)
        (snd (afterHold applyIn rt (eventAt event) decided w'), M)"
      using clears_afterHold [OF assms(1)] Inr by (simp add: clears_def)
    with first out Inr show ?thesis by (simp add: applyOnce_after)
  qed
qed

lemma hearing_applyWithin: "hearing_ok rt (applyWithin n rt)"
proof (induction n)
  case 0
  then show ?case by (simp add: hearing_ok_def clears_throws)
next
  case (Suc n)
  show ?case
    unfolding hearing_ok_def clears_def applyWithin.simps
  proof (intro allI impI)
    fix i event facts w M
    show "runs rt (w, M + {#ToHear i event facts#})
        (snd (applyOnce rt (applyWithin n rt) i event facts None None w), M)"
    proof (rule runs_applyOnce [OF Suc])
      fix r w'
      assume "applyHold rt i event facts None None w = (r, w')"
      from one_run [OF hears [OF this, of M]]
      show "runs rt (w, M + {#ToHear i event facts#}) (w', M + decidedTasks (eventAt event) r)"
        by simp
    qed
  qed
qed

lemma hearing_applyEvent: "hearing_ok rt (applyEvent rt)"
  by (simp add: applyEvent_def hearing_applyWithin)

lemma reaches_applyEvent:
  assumes "\<not> outcomeOfCharge event"
  shows "obeys (reaches rt) (applyEvent rt i event facts scope wo)"
  unfolding obeys_def reaches_def
proof (intro allI)
  fix w M
  have "applyEvent rt = applyOnce rt (applyWithin 1 rt)"
    by (simp add: applyEvent_def numeral_2_eq_2)
  moreover have "runs rt (w, M) (snd (applyOnce rt (applyWithin 1 rt) i event facts scope wo w), M)"
  proof (rule runs_applyOnce [OF hearing_applyWithin])
    fix r w'
    assume "applyHold rt i event facts scope wo w = (r, w')"
    from one_run [OF decides [OF assms this, of M]]
    show "runs rt (w, M) (w', M + decidedTasks (eventAt event) r)" .
  qed
  ultimately show "runs rt (w, M) (snd (applyEvent rt i event facts scope wo w), M)" by simp
qed

lemma reaches_presentVerifiedPayment:
  "obeys (reaches rt) (presentVerifiedPayment rt i owner presented payTo t)"
  unfolding obeys_def reaches_def
proof (intro allI)
  fix w M
  obtain r w' where out: "presentHold rt i owner presented payTo t w = (r, w')"
    by (cases "presentHold rt i owner presented payTo t w")
  have first: "runs rt (w, M) (w', M + presentedTasks t r)"
    by (rule one_run [OF presents [OF out]])
  show "runs rt (w, M) (snd (presentVerifiedPayment rt i owner presented payTo t w), M)"
  proof (cases "\<exists>known effects. r = Inr (Some (TookPayment known effects))")
    case True
    then obtain known effects where r: "r = Inr (Some (TookPayment known effects))" by blast
    let ?kept = "filter (\<lambda>effect. effect \<noteq> VerifyPayment \<and> carriedOutAfterwards effect) effects"
    have "count_list ?kept ExecutePayment = count_list effects ExecutePayment"
      by (rule count_filter) simp
    then have same: "chargesIn known t ?kept = presentedTasks t r" by (simp add: r chargesIn_def)
    have "clears rt (chargesIn known t ?kept)
        (andThen (runEffects (applyEvent rt) rt known ?kept t) (\<lambda>said.
         andThen (wakeTheAgent known) (\<lambda>_. returns (PresentTook known said))))"
      by (intro clears_then clears_runEffects hearing_applyEvent reaching.obeys_intros
          reaches_wakeTheAgent)
    then have "runs rt (w', M + presentedTasks t r) (snd (andThen (runEffects (applyEvent rt) rt known ?kept t)
        (\<lambda>said. andThen (wakeTheAgent known) (\<lambda>_. returns (PresentTook known said))) w'), M)"
      unfolding clears_def same by blast
    with first out r show ?thesis by (simp add: presentVerifiedPayment_def)
  next
    case False
    then have "presentedTasks t r = {#}" by (cases "(t, r)" rule: presentedTasks.cases) auto
    moreover have "snd (presentVerifiedPayment rt i owner presented payTo t w) = w'"
      using False out
      by (auto simp: presentVerifiedPayment_def andThen_eq split: sum.split option.split PresentDecided.split)
    ultimately show ?thesis using first by simp
  qed
qed

text \<open>A birth asks for no charge.\<close>

lemma reaches_createRecord:
  assumes born: "createOrder input = Born order fx"
  shows "obeys (reaches rt) (createRecord rt (openedRecord order stored params) fx t)"
proof -
  let ?r = "openedRecord order stored params"
  have "ExecutePayment \<notin> set fx"
    using born by (auto elim!: createOrder_bornE simp: effectsOnQuoted_def split: if_splits)
  then have "chargesIn ?r t fx = {#}" by (simp add: chargesIn_def)
  then have effects: "obeys (reaches rt) (runEffects (applyEvent rt) rt ?r fx t)"
    using clears_runEffects [OF hearing_applyEvent, of rt ?r t fx] by (simp add: clears_nothing)
  have add: "obeys (reaches rt) (\<lambda>w. case addOrder ?r (worldStore w) of
      Inl thrown \<Rightarrow> (Inl thrown, w) | Inr s \<Rightarrow> (Inr (), w\<lparr>worldStore := s\<rparr>))"
    unfolding obeys_def reaches_def using opens [OF born] one_run
    by (auto split: sum.split)
  show ?thesis
    unfolding createRecord_def
    by (auto intro!: reaching.obeys_intros add effects arms_parts [THEN reaching.obeys_arming])
qed

interpretation overtaken: gateway_law "reaches rt" rt for rt
proof
  show "obeys (reaches rt) (applyEvent rt i event facts scope wo)" if "\<not> outcomeOfCharge event"
    for i event facts scope wo using that by (rule reaches_applyEvent)
  show "obeys (reaches rt) (presentVerifiedPayment rt i owner payload payTo t)"
    for i owner payload payTo t by (rule reaches_presentVerifiedPayment)
  show "obeys (reaches rt) (createRecord rt (openedRecord order stored params) fx t)"
    if "createOrder input = Born order fx" for input order fx stored params t
    using that by (rule reaches_createRecord)
  show "obeys (reaches rt) (andThen (readStore deliveredWithoutReceipt)
      (\<lambda>rs. forEach (sweepReceipt rt now) rs swept))" for now swept
    using sweeps one_run by (auto simp: obeys_def reaches_def)
qed

end
