(* ===== verification/Gateway_Runs.thy ===== *)
theory Gateway_Runs
  imports Gateway_Charges Gateway_Store_Laws
begin

text \<open>
  The gateway as a machine: everything that can be asked of it, and what holds of every run.
  Where the code waits on a promise another request may come in between, so beside the whole
  flows the operations hold the decisions themselves, the places where a flow can be
  overtaken; a run is any sequence of them.
\<close>

section \<open>Everything that can happen to a gateway\<close>

datatype GatewayOp =
    AskToBuy string Params
  | PriceWaitEnded string string "QuoteResponse option"
  | AnswerPrice string string QuoteResponse
  | Pay string string string
  | PollStream string int int
  | PollAgain string int
  | Answer string string HandlerAnswer
  | DeliverCall string string Delivery
  | RefuseCall string string string string
  | AcceptCall string string
  | TimerGoesOff nat
  | DailySweep
  | DailyClaims
  | StartUp
  | ShutDown
  | Administer StoreOp
  | HeldEvent string OrderEvent OrderFacts "string option" "string option"
  | HeldPayment string string string "string option" int
  | HeldWord string PaymentWord

text \<open>What an administrator does to the store never touches an order or a receipt.\<close>

fun administers :: "StoreOp \<Rightarrow> bool" where
  "administers (OpAddOrder r) = False"
| "administers (OpSaveHeld i r) = False"
| "administers (OpPutReceipt m r) = False"
| "administers _ = True"

fun gatewayStep :: "Runtime \<Rightarrow> GatewayOp \<Rightarrow> World \<Rightarrow> World" where
  "gatewayStep rt (AskToBuy itemId params) w = snd (beginPurchase rt itemId params w)"
| "gatewayStep rt (PriceWaitEnded i priceId response) w =
     snd (purchaseAnswered rt i priceId response w)"
| "gatewayStep rt (AnswerPrice m priceId response) w = snd (answerQuote rt m priceId response w)"
| "gatewayStep rt (Pay i presented fingerprint) w = snd (payPurchase rt i presented fingerprint w)"
| "gatewayStep rt (PollStream m wanted waitMs) w = snd (poll rt m wanted waitMs w)"
| "gatewayStep rt (PollAgain m wanted) w = snd (pollWoken rt m wanted w)"
| "gatewayStep rt (Answer m i handled) w = snd (answerOrder rt m i handled w)"
| "gatewayStep rt (DeliverCall m i goods) w = snd (deliverOrder rt m i goods ThroughCall w)"
| "gatewayStep rt (RefuseCall m i code message) w =
     snd (refuseOrder rt m i code message ThroughCall w)"
| "gatewayStep rt (AcceptCall m i) w = snd (acceptOrder rt m i w)"
| "gatewayStep rt (TimerGoesOff n) w = snd (reminderFires rt n w)"
| "gatewayStep rt DailySweep w = snd (sweep rt w)"
| "gatewayStep rt DailyClaims w = snd (forgetOldClaims rt w)"
| "gatewayStep rt StartUp w = snd (startGateway w)"
| "gatewayStep rt ShutDown w = snd (stopGateway w)"
| "gatewayStep rt (Administer op) w =
     (if administers op then w\<lparr>worldStore := storeStep op (worldStore w)\<rparr> else w)"
| "gatewayStep rt (HeldEvent i event facts scope wo) w =
     snd (applyHold rt i event facts scope wo w)"
| "gatewayStep rt (HeldPayment i owner presented payTo t) w =
     snd (presentHold rt i owner presented payTo t w)"
| "gatewayStep rt (HeldWord i word) w = snd (writeDown rt i word w)"

primrec gatewayRun :: "Runtime \<Rightarrow> GatewayOp list \<Rightarrow> World \<Rightarrow> World" where
  "gatewayRun rt [] w = w"
| "gatewayRun rt (op # ops) w = gatewayRun rt ops (gatewayStep rt op w)"

definition openingWorld :: "ReminderPatience \<Rightarrow> World" where
  "openingWorld p =
     \<lparr>worldStore = emptyStore, worldQueue = newQueue p, worldPurchases = noneWaiting,
      worldQuotes = noneWaiting, worldQuestions = [], idsDrawn = 0, clockReads = 0,
      chargesSent = [], chargesVerified = []\<rparr>"

section \<open>Every run obeys the law\<close>

lemma administers_frame:
  assumes "administers op"
  shows "ordersMap (storeStep op s) = ordersMap s" "receiptsMap (storeStep op s) = receiptsMap s"
  using assms
  by (subst storeStep_orders storeStep_receipts; cases op; simp del: storeStep.simps)+

text \<open>The decisions a flow can be overtaken at; everything else is a whole flow.\<close>

fun heldAlone :: "GatewayOp \<Rightarrow> bool" where
  "heldAlone (HeldEvent i event facts scope wo) = True"
| "heldAlone (HeldPayment i owner presented payTo t) = True"
| "heldAlone (HeldWord i word) = True"
| "heldAlone _ = False"

context gateway_law
begin

lemmas flow_steps =
  flow_beginPurchase flow_purchaseAnswered flow_answerQuote flow_payPurchase flow_poll
  flow_pollWoken flow_answerOrder flow_deliverOrder flow_refuseOrder flow_acceptOrder
  flow_reminderFires flow_sweep flow_forgetOldClaims flow_startGateway flow_stopGateway

lemma step_obeys: "\<not> heldAlone op \<Longrightarrow> law w (gatewayStep rt op w)"
proof (cases op)
  case (Administer op')
  have "law w (w\<lparr>worldStore := storeStep op' (worldStore w)\<rparr>)" if "administers op'"
    by (rule elsewhere) (simp_all add: administers_frame [OF that])
  with Administer show ?thesis by (auto simp: refl)
qed (use flow_steps in \<open>simp_all add: obeys_def\<close>)

end

lemma gatewayStep_law: "gatewayLaw rt w (gatewayStep rt op w)"
proof (cases "heldAlone op")
  case True
  then show ?thesis
    using gateway_applyHold gateway_presentHold gateway_writeDown
    by (cases op) (simp_all add: obeys_def)
qed (rule kept.step_obeys)

lemma gatewayRun_law: "gatewayLaw rt w (gatewayRun rt ops w)"
proof (induction ops arbitrary: w)
  case (Cons op ops)
  from gateway.trans [OF gatewayStep_law Cons.IH] show ?case by (simp del: gatewayStep.simps)
qed (simp add: gateway.refl)

lemma gatewayRun_append: "gatewayRun rt (ops @ more') w = gatewayRun rt more' (gatewayRun rt ops w)"
  by (induction ops arbitrary: w) simp_all

lemma openingWorld_inv: "worldInv rt (openingWorld p)"
  by (simp add: worldInv_def openingWorld_def storeInv_def emptyStore_def newQueue_inv debtsFit_def
      debtsOn_def orderById_def)

lemma gatewayRun_inv: "worldInv rt (gatewayRun rt ops (openingWorld p))"
  using gatewayRun_law openingWorld_inv by (auto simp: gatewayLaw_def)

lemma gatewayRun_follows:
  "follows (gatewayRun rt ops (openingWorld p)) (gatewayRun rt (ops @ more') (openingWorld p))"
  using gatewayRun_law gatewayRun_inv by (auto simp: gatewayLaw_def gatewayRun_append)

lemma gatewayRun_recordFits:
  "orderById i (worldStore (gatewayRun rt ops (openingWorld p))) = Some r
   \<Longrightarrow> recordFits rt (map_of (receiptsMap (worldStore (gatewayRun rt ops (openingWorld p)))) i) i r"
  using gatewayRun_inv [of rt ops p] storeInvD(1) by (auto simp: worldInv_def orderById_def)

section \<open>A sale, from the card to the receipt\<close>

text \<open>
  A gateway over the sandbox payment layer, with a clock that moves a second a reading. It
  starts with the calendar's year 0, whose digits are quick to write.
\<close>

definition calendarStart :: int where
  "calendarStart = - 62167219200000"

definition sampleConfig :: GatewayConfig where
  "sampleConfig =
     \<lparr>cfgRegistrationInvitation = None, cfgSettleInFlightRetryMs = 1000,
      cfgClaimRetentionMs = 86400000, cfgSweepDispatchGraceMs = 600000, cfgPaymentWordsKept = 2,
      cfgDeadlines =
        \<lparr>cfgQuoteResponseMs = 5000, cfgQuoteTtlMs = 60000, cfgSettleResponseMs = 30000,
         cfgSyncResponseMs = 25000, cfgSyncBudgetMs = 40000, cfgPaymentAfterConfirmationMs = 60000,
         cfgDefaultConfirmationResponseMs = 60000, cfgDefaultAsyncFulfillmentMs = 3600000,
         cfgHandlerAnswerMs = 10000\<rparr>,
      cfgRedelivery = \<lparr>baseDelayMs = 1000, factor = 2, maxDelayMs = 60000, maxAttempts = 5\<rparr>,
      cfgWorker = \<lparr>cfgPollWaitMs = 20000, cfgPollMaxEnvelopes = 10\<rparr>,
      cfgFacilitatorUrl = SANDBOX_FACILITATOR, cfgEnvironment = EnvTest\<rparr>"

definition sampleRuntime :: Runtime where
  "sampleRuntime =
     \<lparr>config = sampleConfig, clockAt = (\<lambda>n. calendarStart + 1000 * int n),
      idAt = (\<lambda>kind n. kind @ ''_'' @ show_nat n),
      facilitatorVerify = (\<lambda>before request. VerifiedBy None),
      facilitatorSettle = (\<lambda>before request. SettledAs ''tx_1''),
      purchaseCheck = (\<lambda>c params. []), deliveryCheck = (\<lambda>c goods. [])\<rparr>"

definition samplePatience :: ReminderPatience where
  "samplePatience = \<lparr>patienceAttempts = 3, patienceRetryDelayMs = 1000\<rparr>"

text \<open>
  A card whose goods come later: bought and paid for, refused by the merchant, so that a
  refund falls due, and delivered after all.
\<close>

definition lateCard :: Card where
  "lateCard = sampleCard\<lparr>cardFulfillment := Async\<rparr>"

definition saleOps :: "GatewayOp list" where
  "saleOps =
     [Administer (OpAddMerchant ''m'' ''A shop'' 0),
      Administer (OpSetServiceName ''m'' (Some ''Shop'')),
      Administer (OpPublishCard ''m'' lateCard calendarStart ''c''),
      AskToBuy ''c'' [], Pay ''ord_0'' ''signed'' ''print'',
      RefuseCall ''m'' ''ord_0'' ''out_of_stock'' ''none left'',
      DeliverCall ''m'' ''ord_0'' [(''code'', JString ''A1'')]]"

definition saleWorld :: World where
  "saleWorld = gatewayRun sampleRuntime saleOps (openingWorld samplePatience)"

definition seenOf ::
  "World \<Rightarrow> (OrderState \<times> string \<times> string option \<times> Delivery option) option
   \<times> nat \<times> nat" where
  "seenOf w =
     (map_option (\<lambda>r. (state (theOrder r), saleMerchant r, salePaidBy r, saleDelivery r))
        (orderById ''ord_0'' (worldStore w)), debtsOn ''m'' ''ord_0'' w, length (chargesSent w))"

lemma sale_done:
  "seenOf saleWorld
     = (Some (Delivered, ''m'', Some ''print'', Some [(''code'', JString ''A1'')]), 1, 1)"
  by code_simp

lemma sale_stored:
  obtains r where "orderById ''ord_0'' (worldStore saleWorld) = Some r"
    and "state (theOrder r) = Delivered" and "saleMerchant r = ''m''"
    and "salePaidBy r = Some ''print''" and "saleDelivery r = Some [(''code'', JString ''A1'')]"
  using sale_done by (auto simp: seenOf_def)

section \<open>What holds of every run\<close>

text \<open>C5: Whatever the gateway has been asked, in whatever order and with whatever decisions in
  between, every order it has stored is one the machine can reach from a birth: it is stored
  under its own identifier, breaks no rule about money, and no event, expired clock or
  verified payment makes a decision about it throw.\<close>

theorem stored_orders_stay_sound:
  assumes "orderById i (worldStore (gatewayRun rt ops (openingWorld p))) = Some r"
  shows "orderId (theOrder r) = i \<and> reachable (theOrder r)
    \<and> moneyInvariantViolations (theOrder r) = []
    \<and> (\<forall>event facts waitingOn w. \<exists>d. fst (decideEvent rt i event facts waitingOn r w) = Inr d)
    \<and> (\<forall>owner presented payTo t w. \<exists>d. fst (decidePayment rt i owner presented payTo t r w) = Inr d)"
proof -
  have fits: "orderId (theOrder r) = i" "reachable (theOrder r)"
    using gatewayRun_recordFits [OF assms] by (simp_all add: recordFits_def)
  then have inv: "orderInv (theOrder r)" by (simp add: reachable_orderInv)
  have "\<exists>d. fst (decideEvent rt i event facts waitingOn r w) = Inr d" for event facts waitingOn w
    using decideEvent_sound [OF inv, of rt i event facts waitingOn w] by fastforce
  moreover have "\<exists>d. fst (decidePayment rt i owner presented payTo t r w) = Inr d"
    for owner presented payTo t w
    using decidePayment_sound [OF inv, of rt i owner presented payTo t w] by fastforce
  ultimately show ?thesis using fits orderInv_no_violations [OF inv] by blast
qed

theorem stored_orders_stay_sound_witness:
  "\<exists>r. orderById ''ord_0'' (worldStore saleWorld) = Some r \<and> state (theOrder r) = Delivered
     \<and> reachable (theOrder r) \<and> moneyInvariantViolations (theOrder r) = []"
proof -
  obtain r where r: "orderById ''ord_0'' (worldStore saleWorld) = Some r"
    "state (theOrder r) = Delivered" by (rule sale_stored)
  with stored_orders_stay_sound [of "''ord_0''" sampleRuntime saleOps samplePatience r]
  show ?thesis by (auto simp: saleWorld_def)
qed

text \<open>C6: Once an order is stored, nothing that happens later changes whose sale it is, what was
  bought or with which parameters, the price once quoted, the wallet that paid once one has,
  or the goods once some were taken; a delivered order stays delivered.\<close>

theorem sale_is_settled_for_good:
  assumes "orderById i (worldStore (gatewayRun rt ops (openingWorld p))) = Some r"
  shows "\<exists>r'. orderById i (worldStore (gatewayRun rt (ops @ ops') (openingWorld p))) = Some r'
    \<and> saleMerchant r' = saleMerchant r \<and> saleItem r' = saleItem r
    \<and> saleMerchantItem r' = saleMerchantItem r \<and> saleParams r' = saleParams r
    \<and> (state (theOrder r) \<noteq> Created \<longrightarrow> price (theOrder r') = price (theOrder r))
    \<and> (salePaidBy r \<noteq> None \<longrightarrow> salePaidBy r' = salePaidBy r)
    \<and> (saleDelivery r \<noteq> None \<longrightarrow> saleDelivery r' = saleDelivery r)
    \<and> (state (theOrder r) = Delivered \<longrightarrow> state (theOrder r') = Delivered)"
proof -
  have inv: "orderInv (theOrder r)"
    using gatewayRun_recordFits [OF assms] by (simp add: recordFits_def reachable_orderInv)
  obtain r' fx where "orderById i (worldStore (gatewayRun rt (ops @ ops') (openingWorld p))) = Some r'"
    and "sameFacts r r'" and leads: "leadsBy (theOrder r) fx (theOrder r')"
    using gatewayRun_follows [of rt ops p ops'] assms unfolding follows_def by blast
  then show ?thesis
    using leadsBy_price [OF leads inv] leadsBy_Delivered [OF leads inv] by (auto simp: sameFacts_def)
qed

theorem sale_is_settled_for_good_witness:
  "\<exists>r. orderById ''ord_0''
       (worldStore (gatewayRun sampleRuntime (saleOps @ [DailySweep, DailySweep])
          (openingWorld samplePatience))) = Some r
     \<and> state (theOrder r) = Delivered \<and> saleMerchant r = ''m''
     \<and> salePaidBy r = Some ''print'' \<and> saleDelivery r = Some [(''code'', JString ''A1'')]"
proof -
  obtain r where "orderById ''ord_0'' (worldStore saleWorld) = Some r"
    "state (theOrder r) = Delivered" "saleMerchant r = ''m''"
    "salePaidBy r = Some ''print''" "saleDelivery r = Some [(''code'', JString ''A1'')]"
    by (rule sale_stored)
  with sale_is_settled_for_good [of "''ord_0''" sampleRuntime saleOps samplePatience r
      "[DailySweep, DailySweep]"]
  show ?thesis by (auto simp: saleWorld_def)
qed




text \<open>C8: That a refund fell due is announced at most once for an order, only on its own
  merchant's stream and only once the debt is recorded; after the order has been settled one
  way or the other no further announcement is made.\<close>

theorem debt_is_announced_once:
  assumes "orderById i (worldStore (gatewayRun rt ops (openingWorld p))) = Some r"
  shows "debtsOn m i (gatewayRun rt ops (openingWorld p))
      \<le> (if saleMerchant r = m \<and> state (theOrder r) \<in> {RefundDue, Refunded, Delivered} then 1 else 0)
    \<and> (state (theOrder r) \<in> {RefundDue, Refunded, Delivered}
        \<longrightarrow> debtsOn m i (gatewayRun rt (ops @ ops') (openingWorld p))
          \<le> debtsOn m i (gatewayRun rt ops (openingWorld p)))"
proof -
  let ?w = "gatewayRun rt ops (openingWorld p)"
  have owes: "stillOwes r = (if state (theOrder r) \<in> {RefundDue, Refunded, Delivered} then 0 else 1)"
    by (auto simp: stillOwes_def beforeEntry_def canStill_sets)
  have fit: "debtsFit ?w" using gatewayRun_inv by (simp add: worldInv_def)
  have "debtsOn m i ?w \<le> (if saleMerchant r = m then 1 - stillOwes r else 0)"
    using fit [unfolded debtsFit_def, rule_format, of m i] assms by simp
  moreover obtain r' where "debtsOn m i (gatewayRun rt (ops @ ops') (openingWorld p)) + stillOwes r'
      \<le> debtsOn m i ?w + stillOwes r"
    using gatewayRun_follows [of rt ops p ops'] assms unfolding follows_def by blast
  ultimately show ?thesis by (auto simp: owes split: if_splits)
qed

theorem debt_is_announced_once_witness:
  "debtsOn ''m'' ''ord_0'' saleWorld = 1
   \<and> debtsOn ''m'' ''ord_0''
       (gatewayRun sampleRuntime (saleOps @ [PollStream ''m'' 5 0, DailySweep])
          (openingWorld samplePatience)) \<le> 1"
proof -
  obtain r where r: "orderById ''ord_0'' (worldStore saleWorld) = Some r"
    "state (theOrder r) = Delivered" by (rule sale_stored)
  have "debtsOn ''m'' ''ord_0'' saleWorld = 1" using sale_done by (simp add: seenOf_def)
  with debt_is_announced_once [of "''ord_0''" sampleRuntime saleOps samplePatience r "''m''"
      "[PollStream ''m'' 5 0, DailySweep]"] r
  show ?thesis by (simp add: saleWorld_def)
qed

section \<open>Overtaking\<close>

lemma reaches_run:
  "list_all (\<lambda>op. \<not> heldAlone op) ops \<Longrightarrow> reaches rt w (gatewayRun rt ops w)"
proof (induction ops arbitrary: w)
  case (Cons op ops)
  then have "reaches rt w (gatewayStep rt op w)" by (simp add: overtaken.step_obeys)
  moreover have "reaches rt (gatewayStep rt op w) (gatewayRun rt ops (gatewayStep rt op w))"
    using Cons by (simp del: gatewayStep.simps)
  ultimately show ?case using reaching.trans by (simp del: gatewayStep.simps)
qed (simp add: reaching.refl)

text \<open>C4: Whole flows, served one after another, are among the ways the gateway can go when
  requests overtake each other: every such run, with whatever tasks other requests have in
  flight, is a run of the step relation in which each decided charge is a task of its own,
  and none of its own tasks is left over.\<close>

theorem flows_are_interleaved_runs:
  assumes "list_all (\<lambda>op. \<not> heldAlone op) ops"
  shows "runs rt (w, tasks) (gatewayRun rt ops w, tasks)"
  using reaches_run [OF assms] by (simp add: reaches_def)

lemma saleOps_whole: "list_all (\<lambda>op. \<not> heldAlone op) saleOps"
  by (simp add: saleOps_def)

theorem flows_are_interleaved_runs_witness:
  "runs sampleRuntime (openingWorld samplePatience, {#}) (saleWorld, {#})
   \<and> length (chargesSent saleWorld) = 1"
  using flows_are_interleaved_runs [OF saleOps_whole] sale_done
  by (simp add: saleWorld_def seenOf_def)

lemma interleaved_run_keeps: "runs rt o1 o2 \<Longrightarrow> officeInv rt o1 \<Longrightarrow> officeInv rt o2"
  by (induction rule: rtranclp_induct) (blast intro: interleaved_keeps)+

lemma opening_office: "officeInv rt (openingWorld p, {#})"
  using openingWorld_inv by (simp add: officeInv_def openingWorld_def sentAbout_def)

text \<open>C3: However requests overtake each other, with decided charges not yet sent, outcomes not
  yet told and tasks lost where a process dies, the payment layer is asked for the money of
  an order at most once, and once more for each time it turned the charge down.\<close>

theorem buyer_is_charged_once:
  assumes "runs rt (openingWorld p, {#}) (w, tasks)"
  shows "sentAbout i (chargesSent w) \<le> 1 + turnedDownAbout rt i (chargesSent w)"
proof -
  have "officeInv rt (w, tasks)" by (rule interleaved_run_keeps [OF assms opening_office])
  from officeInvD(3) [OF this, of i] show ?thesis
    by (auto simp: usedOn_def chargeUsed_def split: option.splits)
qed

theorem buyer_is_charged_once_witness:
  "runs sampleRuntime (openingWorld samplePatience, {#}) (saleWorld, {#})
   \<and> sentAbout ''ord_0'' (chargesSent saleWorld)
       \<le> 1 + turnedDownAbout sampleRuntime ''ord_0'' (chargesSent saleWorld)"
proof -
  have run: "runs sampleRuntime (openingWorld samplePatience, {#}) (saleWorld, {#})"
    using reaches_run [OF saleOps_whole] by (simp add: reaches_def saleWorld_def)
  with buyer_is_charged_once [OF run] show ?thesis by blast
qed

end
