(* ===== verification/Gateway_Shop_Laws.thy ===== *)
theory Gateway_Shop_Laws
  imports Gateway_Tenants Gateway_Runs
begin

text \<open>
  What the shop side of the gateway promises: merchants are kept apart, the catalog is an
  offer the order machine honours, the sandbox's key is issued once, and a key's use is
  written down at most once per window.
\<close>

section \<open>Merchants kept apart\<close>

text \<open>C11: Merchants are kept apart: whatever the others publish, pause, switch, name, are paid
  at, issue, forget or disable, in any number of calls, everything a merchant reads of his own
  (his catalog with the word each card sells under, his receipts, orders, keys and settings)
  is answered as before.\<close>

theorem merchants_are_kept_apart:
  assumes "tenantsRight (worldStore w)"
    and "allAllowed (afterCall digest rt) (callAllowed rt) calls w"
    and "othersOnly (afterCall digest rt) callFor m calls w"
  shows "merchantReads rt m onlyOpen i thisCall (fold (afterCall digest rt) calls w)
    = merchantReads rt m onlyOpen i thisCall w"
  by (rule reads_from_view) (rule shop.run_apart [OF assms])

definition twoShopOps :: "StoreOp list" where
  "twoShopOps =
     [OpAddMerchant ''m'' ''One'' 0, OpAddMerchant ''n'' ''Two'' 0,
      OpAddKey ''k_m'' ''m'' ''mine'' ''d_m'' KeyForMerchantCode 1,
      OpAddKey ''k_n'' ''n'' ''mine'' ''d_n'' KeyForMerchantCode 1,
      OpSetServiceName ''m'' (Some ''One''), OpSetServiceName ''n'' (Some ''Two''),
      OpPublishCard ''m'' sampleCard 2 ''item_m'']"

definition twoShops :: World where
  "twoShops = (openingWorld samplePatience)\<lparr>worldStore := fold storeStep twoShopOps emptyStore\<rparr>"

definition otherCalls :: "ShopCall list" where
  "otherCalls =
     [CallPublish ''n'' (Inr sampleCard), CallPause ''n'' ''item_m'' True,
      CallIssueKey ''n'' ''another'' ''s'', CallDisableKey ''n'' ''k_m'' ''k_n'',
      CallForgetKey ''k_n'' KeyForCabinet, CallSwitch ''n'' SellingPaused]"

lemma twoShops_right: "tenantsRight (worldStore twoShops)"
proof -
  have "tenantsRight (fold storeStep twoShopOps emptyStore)"
  proof (rule tenants.run_keeps)
    show "tenantsRight emptyStore"
      by (simp add: tenantsRight_def keyedRight_empty cardKeysRight_def) (simp add: emptyStore_def)
    show "allAllowed storeStep opAllowed twoShopOps emptyStore" by code_simp
  qed
  then show ?thesis by (simp add: twoShops_def)
qed

theorem merchants_are_kept_apart_witness:
  "merchantReads sampleRuntime ''m'' None ''o'' ''k_m'' (fold (afterCall (\<lambda>s. s) sampleRuntime) otherCalls twoShops)
     = merchantReads sampleRuntime ''m'' None ''o'' ''k_m'' twoShops
   \<and> fst (merchantCards sampleRuntime ''n'' (fold (afterCall (\<lambda>s. s) sampleRuntime) otherCalls twoShops))
     \<noteq> fst (merchantCards sampleRuntime ''n'' twoShops)"
proof
  show "merchantReads sampleRuntime ''m'' None ''o'' ''k_m'' (fold (afterCall (\<lambda>s. s) sampleRuntime) otherCalls twoShops)
     = merchantReads sampleRuntime ''m'' None ''o'' ''k_m'' twoShops"
  proof (rule merchants_are_kept_apart [OF twoShops_right])
    show "allAllowed (afterCall (\<lambda>s. s) sampleRuntime) (callAllowed sampleRuntime) otherCalls twoShops"
      by code_simp
    show "othersOnly (afterCall (\<lambda>s. s) sampleRuntime) callFor ''m'' otherCalls twoShops"
      by code_simp
  qed
  show "fst (merchantCards sampleRuntime ''n'' (fold (afterCall (\<lambda>s. s) sampleRuntime) otherCalls twoShops))
     \<noteq> fst (merchantCards sampleRuntime ''n'' twoShops)"
    by code_simp
qed

section \<open>The catalog\<close>

text \<open>Whether a card may be sold right now, as the merchant's row says.\<close>

definition offered :: "Runtime \<Rightarrow> MemoryStore \<Rightarrow> StoredCard \<Rightarrow> bool" where
  "offered rt s c \<longleftrightarrow>
     (case map_of (merchantsMap s) (storedCardMerchantId c) of
        None \<Rightarrow> False
      | Some m \<Rightarrow>
          sellingFor (merchantSelling m) c
            (sellableBy (merchantPayoutWallet m) (merchantServiceName m) (config rt)) = SellingOpen)"

lemma firstThrown_Inr: "firstThrown rs = Inr xs \<longleftrightarrow> rs = map Inr xs"
proof (induction rs arbitrary: xs)
  case Nil
  then show ?case by auto
next
  case (Cons r rs)
  show ?case
  proof (cases r)
    case (Inr x)
    show ?thesis
    proof (cases "firstThrown rs")
      case (Inl thrown)
      then have "rs \<noteq> map Inr ys" for ys using Cons.IH [of ys] by simp
      then show ?thesis using Inl \<open>r = Inr x\<close> by (cases xs) auto
    next
      case (Inr ys)
      then have "rs = map Inr ys" using Cons.IH by simp
      then show ?thesis using Inr \<open>r = Inr x\<close> by (cases xs) (auto simp: inj_map_eq_map)
    qed
  qed auto
qed

lemma catalog_entries:
  assumes "fst (catalog rt w) = Inr items"
  obtains es where
    "map (catalogEntry (worldStore w)) (mapValues (cardsMap (worldStore w))) = map Inr es"
proof (cases "catalogEntries (worldStore w)")
  case (Inl thrown)
  then show ?thesis using assms by (simp add: catalog_def flow_defs)
next
  case (Inr es)
  then show ?thesis using that by (simp add: catalogEntries_def firstThrown_Inr)
qed

lemma catalog_ids:
  assumes "fst (catalog rt w) = Inr items"
  shows "publicId ` set items = storedCardId ` {c \<in> set (mapValues (cardsMap (worldStore w))). offered rt (worldStore w) c}"
proof -
  let ?s = "worldStore w" and ?open = "\<lambda>e. sellingFor (entryMerchant e) (entryCard e)
      (sellableBy (entryPayoutWallet e) (entryServiceName e) (config rt)) = SellingOpen"
  obtain es where es: "catalogEntries ?s = Inr es"
    and items: "publicId ` set items = (\<lambda>e. storedCardId (entryCard e)) ` {e \<in> set es. ?open e}"
    using assms by (force simp: catalog_def flow_defs publicCardOf_def image_image split: sum.splits)
  have all: "map (catalogEntry ?s) (mapValues (cardsMap ?s)) = map Inr es"
    using es by (simp add: catalogEntries_def firstThrown_Inr)
  then have "entryCard e \<in> set (mapValues (cardsMap ?s)) \<and> (?open e \<longleftrightarrow> offered rt ?s (entryCard e))"
    if "e \<in> set es" for e
  proof -
    have "Inr e \<in> set (map (catalogEntry ?s) (mapValues (cardsMap ?s)))" using that all by simp
    then show ?thesis
      by (auto simp: catalogEntry_def sellingOf_def offered_def split: option.splits)
  qed
  moreover have "\<exists>e \<in> set es. entryCard e = c" if "c \<in> set (mapValues (cardsMap ?s))" for c
  proof -
    have "catalogEntry ?s c \<in> Inr ` set es" using that all by (metis image_eqI list.set_map)
    then obtain e where e: "e \<in> set es" "catalogEntry ?s c = Inr e" by auto
    then have "entryCard e = c" by (auto simp: catalogEntry_def sellingOf_def split: option.splits)
    with e(1) show ?thesis by blast
  qed
  ultimately show ?thesis unfolding items by (auto simp: image_def) blast
qed

lemma open_order_not_selling:
  assumes "cardById i (worldStore w) = Some stored" and "purchaseCheck rt (storedCard stored) params = []"
    and m: "map_of (merchantsMap (worldStore w)) (storedCardMerchantId stored) = Some m"
  shows "(\<exists>why. fst (openOrder rt i params w) = Inr (NotOpened (StepNotSelling why))) \<longleftrightarrow>
    sellingFor (merchantSelling m) stored
      (sellableBy (merchantPayoutWallet m) (merchantServiceName m) (config rt)) \<noteq> SellingOpen"
proof -
  let ?w = "w\<lparr>clockReads := clockReads w + 1, idsDrawn := idsDrawn w + 1\<rparr>"
  let ?theirs = "(merchantSelling m, sellableBy (merchantPayoutWallet m) (merchantServiceName m) (config rt))"
  let ?input = "creationInput rt stored (idAt rt ''ord'' (idsDrawn w)) (clockAt rt (clockReads w)) ?theirs"
  have opened: "openOrder rt i params w =
      (case createOrder ?input of
         NotBorn reason message \<Rightarrow> (Inr (NotOpened (StepNotSelling message)), ?w)
       | Born order fx \<Rightarrow>
           andThen (createRecord rt (openedRecord order stored params) fx (clockAt rt (clockReads w)))
             (\<lambda>_. returns (OpenedAs (openedRecord order stored params) stored fx (clockAt rt (clockReads w)))) ?w)"
    using assms by (simp add: openOrder_def howTheySell_def merchantById_def flow_defs Let_def
        split: CreateOrderResult.split)
  have "fst (andThen (createRecord rt r fx t) (\<lambda>_. returns (OpenedAs r stored fx t)) v)
      \<noteq> Inr (NotOpened (StepNotSelling why))" for r fx t v why
    by (simp add: andThen_def returns_def split: prod.split sum.split)
  then have "(\<exists>why. fst (openOrder rt i params w) = Inr (NotOpened (StepNotSelling why)))
      \<longleftrightarrow> (\<nexists>order fx. createOrder ?input = Born order fx)"
    unfolding opened by (auto split: CreateOrderResult.split)
  then show ?thesis unfolding createOrder_born_iff by (simp add: creationInput_def)
qed

lemma paid_resource_open:
  assumes "cardById i (worldStore w) = Some stored"
    and "map_of (merchantsMap (worldStore w)) (storedCardMerchantId stored) = Some m"
  shows "(\<exists>resource. fst (paidResource rt i w) = Inr (Some resource) \<and> paidSelling resource = SellingOpen)
    \<longleftrightarrow> sellingFor (merchantSelling m) stored
          (sellableBy (merchantPayoutWallet m) (merchantServiceName m) (config rt)) = SellingOpen"
  unfolding paidResource_def andThen_def readStore_def returns_def merchantById_def
    assms prod.case sum.case option.case by simp

text \<open>C25: The catalog is an offer the gateway honours: a product is listed exactly when the
  order machine does not turn its purchase away as not on sale, and exactly when a payment
  challenge for it may be issued.\<close>

theorem catalog_is_an_honest_offer:
  assumes "keyedRight (worldStore w)" and "distinct (map fst (cardsMap (worldStore w)))"
    and "fst (catalog rt w) = Inr items"
    and "cardById i (worldStore w) = Some stored" and "purchaseCheck rt (storedCard stored) params = []"
  shows "(i \<in> publicId ` set items
           \<longleftrightarrow> (\<forall>why. fst (openOrder rt i params w) \<noteq> Inr (NotOpened (StepNotSelling why))))
    \<and> (i \<in> publicId ` set items
         \<longleftrightarrow> (\<exists>resource. fst (paidResource rt i w) = Inr (Some resource) \<and> paidSelling resource = SellingOpen))"
proof -
  let ?s = "worldStore w"
  have at: "map_of (cardsMap ?s) i = Some stored" using assms(4) by (simp add: cardById_def)
  have id: "storedCardId stored = i" using assms(1) at by (simp add: keyedRight_def)
  have only: "c = stored" if mine: "c \<in> set (mapValues (cardsMap ?s))" "storedCardId c = i" for c
  proof -
    obtain k where "(k, c) \<in> set (cardsMap ?s)" using mine(1) by (auto simp: mapValues_def)
    then have k: "map_of (cardsMap ?s) k = Some c" using assms(2) by simp
    then have "k = i" using assms(1) mine(2) by (simp add: keyedRight_def)
    with k at show ?thesis by simp
  qed
  have there: "stored \<in> set (mapValues (cardsMap ?s))"
    using at by (force simp: mapValues_def dest: map_of_SomeD)
  have listed: "i \<in> publicId ` set items \<longleftrightarrow> offered rt ?s stored"
    unfolding catalog_ids [OF assms(3)] using there id only by blast
  obtain m where m: "map_of (merchantsMap ?s) (storedCardMerchantId stored) = Some m"
  proof -
    have "\<exists>e. catalogEntry ?s stored = Inr e"
    proof (rule catalog_entries [OF assms(3)])
      fix es assume "map (catalogEntry ?s) (mapValues (cardsMap ?s)) = map Inr es"
      then have "catalogEntry ?s stored \<in> set (map Inr es)" using there by (metis image_eqI list.set_map)
      then show ?thesis by auto
    qed
    then show ?thesis using that by (auto simp: catalogEntry_def sellingOf_def split: option.splits)
  qed
  have machine: "(\<exists>why. fst (openOrder rt i params w) = Inr (NotOpened (StepNotSelling why)))
      \<longleftrightarrow> \<not> offered rt ?s stored"
    unfolding open_order_not_selling [OF assms(4,5) m] by (simp add: offered_def m)
  have challenge: "(\<exists>resource. fst (paidResource rt i w) = Inr (Some resource)
      \<and> paidSelling resource = SellingOpen) \<longleftrightarrow> offered rt ?s stored"
    unfolding paid_resource_open [OF assms(4) m] by (simp add: offered_def m)
  from listed machine challenge show ?thesis by blast
qed

theorem catalog_is_an_honest_offer_witness:
  "\<exists>items. fst (catalog sampleRuntime twoShops) = Inr items \<and> ''item_m'' \<in> publicId ` set items
     \<and> (\<forall>why. fst (openOrder sampleRuntime ''item_m'' [] twoShops) \<noteq> Inr (NotOpened (StepNotSelling why)))"
proof -
  have "map publicId (projr (fst (catalog sampleRuntime twoShops))) = [''item_m'']
      \<and> isl (fst (catalog sampleRuntime twoShops)) = False"
    by code_simp
  then obtain items where items: "fst (catalog sampleRuntime twoShops) = Inr items"
    and listed: "map publicId items = [''item_m'']"
    by (cases "fst (catalog sampleRuntime twoShops)") auto
  have "cardById ''item_m'' (worldStore twoShops) \<noteq> None" by code_simp
  then have stored: "\<exists>stored. cardById ''item_m'' (worldStore twoShops) = Some stored" by simp
  have "distinct (map fst (cardsMap (worldStore twoShops)))" by code_simp
  moreover have "keyedRight (worldStore twoShops)" using twoShops_right by (simp add: tenantsRight_def)
  moreover have "''item_m'' \<in> publicId ` set items"
    unfolding set_map [symmetric] listed by simp
  ultimately show ?thesis
    using catalog_is_an_honest_offer [OF _ _ items, of "''item_m''"] stored items
    by (auto simp: sampleRuntime_def)
qed

end
