(* ===== verification/Gateway_Key_Laws.thy ===== *)
theory Gateway_Key_Laws
  imports Gateway_Shop Gateway_Store_Laws Gateway_Runs
begin

text \<open>
  What holds of the keys of \<^verbatim>\<open>Gateway_Merchants\<close> and \<^verbatim>\<open>Gateway_Shop\<close>: the sandbox's key is issued
  once whoever starts when, the use of a key is written down at most once per window, and
  registering takes the invitation and leaves a merchant with nothing on sale.
\<close>

section \<open>Seeding once\<close>

text \<open>A key of a merchant's own code that is written down stays written down.\<close>

definition codeKeyAt :: "string \<Rightarrow> string \<Rightarrow> MemoryStore \<Rightarrow> bool" where
  "codeKeyAt digest i s \<longleftrightarrow>
     map_of (keysByDigest s) digest = Some i
     \<and> (\<exists>k. map_of (keysMap s) i = Some k \<and> keyPurpose k = KeyForMerchantCode)"

lemma codeKeyAt_stays:
  assumes inv: "keyedRight s" and "codeKeyAt digest i s"
  shows "codeKeyAt digest i (storeStep op s)"
proof -
  obtain k where k: "map_of (keysMap s) i = Some k" "keyPurpose k = KeyForMerchantCode"
    and d: "map_of (keysByDigest s) digest = Some i"
    using assms(2) by (auto simp: codeKeyAt_def)
  have ids: "map_of (keysMap s) j = Some l \<Longrightarrow> keyId l = j" for j l
    using inv by (simp add: keyedRight_def)
  have "map_of (keysByDigest (storeStep op s)) digest = Some i"
    using d k ids inv unfolding storeStep_digests
    by (cases op)
      (auto simp: keyedRight_def store_defs update_conv' map_of_filter
        split: option.splits sum.splits)
  moreover have "\<exists>k'. map_of (keysMap (storeStep op s)) i = Some k' \<and> keyPurpose k' = KeyForMerchantCode"
    using d k ids unfolding storeStep_keys
    by (cases op)
      (auto simp: store_defs update_conv' delete_conv' split: option.splits sum.splits)
  ultimately show ?thesis by (simp add: codeKeyAt_def)
qed

lemma merchant_stays:
  "map_of (merchantsMap s) m \<noteq> None \<Longrightarrow> map_of (merchantsMap (storeStep op s)) m \<noteq> None"
  by (cases op) (auto simp: store_defs update_conv' delete_conv' split: option.split sum.split)

interpretation seeded: preserved_machine
    "\<lambda>s op. Some (storeStep op s, [] :: unit list)"
    "\<lambda>s. keyedRight s \<and> codeKeyAt digest i s \<and> map_of (merchantsMap s) m \<noteq> None" for digest i m
proof
  fix s s' :: MemoryStore and op and outs :: "unit list"
  assume "keyedRight s \<and> codeKeyAt digest i s \<and> map_of (merchantsMap s) m \<noteq> None"
    and "Some (storeStep op s, [] :: unit list) = Some (s', outs)"
  then show "keyedRight s' \<and> codeKeyAt digest i s' \<and> map_of (merchantsMap s') m \<noteq> None"
    using keyedRight_step codeKeyAt_stays merchant_stays by blast
qed

text \<open>A store that knows the key answers both halves of the seeding and changes nothing.\<close>

lemma known_key:
  assumes "codeKeyAt (digest secret) i (worldStore v)"
    and "map_of (merchantsMap (worldStore v)) SEEDED_MERCHANT_ID \<noteq> None"
  obtains key where "keyByDigest (digest secret) (worldStore v) = Some key"
    "fst (seedWrite digest rt secret t surface v) = Inr (standingOf (keyDisabledAt key))"
    "worldStore (snd (seedWrite digest rt secret t surface v)) = worldStore v"
    "fst (seedSandboxKey digest rt secret t surface v) = Inr (standingOf (keyDisabledAt key))"
    "worldStore (snd (seedSandboxKey digest rt secret t surface v)) = worldStore v"
proof -
  let ?s = "worldStore v"
  obtain key where key: "keyByDigest (digest secret) ?s = Some key"
    using assms(1) by (auto simp: codeKeyAt_def keyByDigest_def)
  have "\<exists>thrown. addKey k m label (digest secret) purpose u ?s = Inl thrown" for k m label purpose u
    using assms(1) by (simp add: addKey_def writeKey_def codeKeyAt_def)
  then obtain thrown where thrown: "addKey (idAt rt ''mk'' (idsDrawn v)) SEEDED_MERCHANT_ID SEEDED_KEY_LABEL
      (digest secret) KeyForMerchantCode t ?s = Inl thrown" by blast
  have writing: "fst (seedWrite digest rt secret t surface v) = Inr (standingOf (keyDisabledAt key))
      \<and> worldStore (snd (seedWrite digest rt secret t surface v)) = ?s"
    using thrown key by (simp add: seedWrite_def tryStore_def flow_defs)
  have "addMerchant SEEDED_MERCHANT_ID SEEDED_MERCHANT_NAME t ?s = (None, ?s)"
    using assms(2) by (simp add: addMerchant_def)
  then have whole: "fst (seedSandboxKey digest rt secret t surface v) = Inr (standingOf (keyDisabledAt key))
      \<and> worldStore (snd (seedSandboxKey digest rt secret t surface v)) = ?s"
    using key by (simp add: seedSandboxKey_def seedLook_def flow_defs)
  from key writing whole that show ?thesis by blast
qed

lemma nameMerchant_step:
  "\<exists>ops. worldStore (snd (nameMerchant m name w)) = fold storeStep ops (worldStore w)"
proof (cases "fst (nameMerchant m name w)")
  case (Inl thrown)
  then have "worldStore (snd (nameMerchant m name w)) = fold storeStep [] (worldStore w)"
    by (auto simp: nameMerchant_def flow_defs split: if_splits prod.splits)
  then show ?thesis by blast
next
  case (Inr x)
  then have "worldStore (snd (nameMerchant m name w)) = fold storeStep [OpSetServiceName m name] (worldStore w)"
    by (auto simp: nameMerchant_def flow_defs split: if_splits prod.splits)
  then show ?thesis by blast
qed

lemma listSeeded_step:
  "\<exists>ops. worldStore (snd (listSeeded surface w)) = fold storeStep ops (worldStore w)"
proof -
  have named: "worldStore (snd (andThen (nameMerchant m name) (\<lambda>_. returns x) w))
      = worldStore (snd (nameMerchant m name w))" for m name and x :: SeedOutcome
    by (simp add: flow_defs split: prod.split sum.split)
  have same: "\<exists>ops. worldStore w = fold storeStep ops (worldStore w)"
    by (rule exI [of _ "[]"]) simp
  show ?thesis
    using nameMerchant_step [of SEEDED_MERCHANT_ID _ w] same
    by (simp add: listSeeded_def andThen_def [of "readStore _"] readStore_def Let_def named named [unfolded returns_def]
        returns_def
        split: option.split)
qed

lemma seedWrite_issued:
  assumes "keyedRight (worldStore w)" and "seedWrite digest rt secret t surface w = (Inr (SeedIssued i listed), w')"
  shows "\<exists>k. keyedRight (worldStore w') \<and> codeKeyAt (digest secret) k (worldStore w')
    \<and> map_of (merchantsMap (worldStore w')) SEEDED_MERCHANT_ID \<noteq> None"
proof -
  let ?k = "idAt rt ''mk'' (idsDrawn w)"
  let ?op = "OpAddKey ?k SEEDED_MERCHANT_ID SEEDED_KEY_LABEL (digest secret) KeyForMerchantCode t"
  have standing: "standingOf d \<noteq> SeedIssued i listed" for d
    by (simp add: standingOf_def split: option.split)
  obtain key s where added: "addKey ?k SEEDED_MERCHANT_ID SEEDED_KEY_LABEL (digest secret)
      KeyForMerchantCode t (worldStore w) = Inr (key, s)"
    using assms(2) standing
    by (auto simp: seedWrite_def tryStore_def flow_defs split: sum.splits prod.splits option.splits)
  then have w': "w' = snd (listSeeded surface (w\<lparr>idsDrawn := idsDrawn w + 1, worldStore := s\<rparr>))"
    using assms(2) by (simp add: seedWrite_def tryStore_def flow_defs)
  have s: "s = storeStep ?op (worldStore w)" using added by (simp add: afterwards_def)
  have "keyedRight s" unfolding s by (rule keyedRight_step [OF assms(1)])
  moreover have "codeKeyAt (digest secret) ?k s" "map_of (merchantsMap s) SEEDED_MERCHANT_ID \<noteq> None"
    using added by (auto simp: addKey_def writeKey_def codeKeyAt_def Let_def update_conv' split: if_splits)
  ultimately have start: "keyedRight s \<and> codeKeyAt (digest secret) ?k s
      \<and> map_of (merchantsMap s) SEEDED_MERCHANT_ID \<noteq> None" by simp
  obtain ops where "worldStore w' = fold storeStep ops s"
    using listSeeded_step [of surface "w\<lparr>idsDrawn := idsDrawn w + 1, worldStore := s\<rparr>"] w' by auto
  then show ?thesis
    using seeded.run_keeps [OF start, of ops] unfolding run_machine_fold by auto
qed

text \<open>C23: The sandbox's key is issued once: after a start has issued it, whatever the store goes
  through, another start that looked before and writes only now, and a whole start later, are
  both told where the key stands, throw nothing and change nothing in the store. A key
  somebody disabled is reported disabled and not brought back.\<close>

theorem sandbox_key_is_issued_once:
  assumes "keyedRight (worldStore w)"
    and "seedWrite digest rt secret t surface w = (Inr (SeedIssued i listed), w')"
    and "worldStore v = fold storeStep ops (worldStore w')"
  shows "\<exists>key. keyByDigest (digest secret) (worldStore v) = Some key
    \<and> fst (seedWrite digest rt' secret t' surface' v) = Inr (standingOf (keyDisabledAt key))
    \<and> worldStore (snd (seedWrite digest rt' secret t' surface' v)) = worldStore v
    \<and> fst (seedSandboxKey digest rt' secret t' surface' v) = Inr (standingOf (keyDisabledAt key))
    \<and> worldStore (snd (seedSandboxKey digest rt' secret t' surface' v)) = worldStore v"
proof -
  obtain k where start: "keyedRight (worldStore w') \<and> codeKeyAt (digest secret) k (worldStore w')
      \<and> map_of (merchantsMap (worldStore w')) SEEDED_MERCHANT_ID \<noteq> None"
    using seedWrite_issued [OF assms(1,2)] by blast
  have "codeKeyAt (digest secret) k (worldStore v)"
    "map_of (merchantsMap (worldStore v)) SEEDED_MERCHANT_ID \<noteq> None"
    using seeded.run_keeps [OF start, of ops] unfolding run_machine_fold assms(3) by auto
  then show ?thesis by (rule known_key [of digest secret k v rt' t' surface']) blast
qed

definition beforeSeeding :: World where
  "beforeSeeding = snd (seedLook (\<lambda>s. s) ''csk_test_1'' 5 (openingWorld samplePatience))"

definition seededWorld :: World where
  "seededWorld = snd (seedWrite (\<lambda>s. s) sampleRuntime ''csk_test_1'' 5 SurfaceSandbox beforeSeeding)"

lemma beforeSeeding_right: "keyedRight (worldStore beforeSeeding)"
proof -
  have "worldStore beforeSeeding
      = fold storeStep [OpAddMerchant SEEDED_MERCHANT_ID SEEDED_MERCHANT_NAME 5] emptyStore"
    by (simp add: beforeSeeding_def seedLook_def openingWorld_def flow_defs split: prod.split)
  then show ?thesis
    using keyedRight_step [OF keyedRight_empty, of "OpAddMerchant SEEDED_MERCHANT_ID SEEDED_MERCHANT_NAME 5"]
    by simp
qed

lemma seededWorld_issued:
  "seedWrite (\<lambda>s. s) sampleRuntime ''csk_test_1'' 5 SurfaceSandbox beforeSeeding
     = (Inr (SeedIssued ''the_merchant'' (Some ''Coinslot sandbox'')), seededWorld)"
proof -
  have "fst (seedWrite (\<lambda>s. s) sampleRuntime ''csk_test_1'' 5 SurfaceSandbox beforeSeeding)
      = Inr (SeedIssued ''the_merchant'' (Some ''Coinslot sandbox''))"
    by code_simp
  then show ?thesis unfolding seededWorld_def by (simp add: prod_eq_iff)
qed

theorem sandbox_key_is_issued_once_witness:
  "fst (seedWrite (\<lambda>s. s) sampleRuntime ''csk_test_1'' 9 SurfaceSandbox
       (seededWorld\<lparr>worldStore := fold storeStep [OpDisableKey ''mk_0'' 7] (worldStore seededWorld)\<rparr>))
     = Inr SeedDisabled
   \<and> fst (seedWrite (\<lambda>s. s) sampleRuntime ''csk_test_1'' 6 SurfaceSandbox seededWorld) = Inr SeedAlreadyThere"
proof -
  have "map_option keyDisabledAt (keyByDigest ''csk_test_1''
      (fold storeStep [OpDisableKey ''mk_0'' 7] (worldStore seededWorld))) = Some (Some 7)"
    "map_option keyDisabledAt (keyByDigest ''csk_test_1'' (worldStore seededWorld)) = Some None"
    by code_simp+
  then show ?thesis
    using sandbox_key_is_issued_once [OF beforeSeeding_right seededWorld_issued, of
        "seededWorld\<lparr>worldStore := fold storeStep [OpDisableKey ''mk_0'' 7] (worldStore seededWorld)\<rparr>"
        "[OpDisableKey ''mk_0'' 7]" sampleRuntime 9 SurfaceSandbox]
      sandbox_key_is_issued_once [OF beforeSeeding_right seededWorld_issued, of seededWorld "[]" sampleRuntime 6 SurfaceSandbox]
    by (auto simp: standingOf_def)
qed

section \<open>How often the use of a key is written down\<close>

text \<open>The calls made with one secret, one after another, and how many of them wrote.\<close>

primrec afterUses :: "(string \<Rightarrow> string) \<Rightarrow> Runtime \<Rightarrow> string \<Rightarrow> nat \<Rightarrow> World \<Rightarrow> World" where
  "afterUses digest rt presented 0 w = w"
| "afterUses digest rt presented (Suc n) w =
     snd (keyBehind digest rt presented (afterUses digest rt presented n w))"

primrec usesWritten :: "(string \<Rightarrow> string) \<Rightarrow> Runtime \<Rightarrow> string \<Rightarrow> nat \<Rightarrow> World \<Rightarrow> nat" where
  "usesWritten digest rt presented 0 w = 0"
| "usesWritten digest rt presented (Suc n) w =
     usesWritten digest rt presented n w
     + (if worldStore (afterUses digest rt presented (Suc n) w)
           = worldStore (afterUses digest rt presented n w) then 0 else 1)"

text \<open>One call with a working key: a write exactly where the window has passed.\<close>

lemma use_of_working_key:
  assumes inv: "keyedRight (worldStore w)" and key: "workingKey (digest presented) (worldStore w) = Some k"
  shows "\<exists>k'. workingKey (digest presented) (worldStore (snd (keyBehind digest rt presented w))) = Some k'
    \<and> keyedRight (worldStore (snd (keyBehind digest rt presented w)))
    \<and> clockReads (snd (keyBehind digest rt presented w)) = clockReads w + 1
    \<and> (worldStore (snd (keyBehind digest rt presented w)) = worldStore w \<and> keyLastUsedAt k' = keyLastUsedAt k
       \<or> keyLastUsedAt k' = Some (clockAt rt (clockReads w))
         \<and> (case keyLastUsedAt k of None \<Rightarrow> True
            | Some seen \<Rightarrow> KEY_USE_WRITTEN_EVERY_MS \<le> clockAt rt (clockReads w) - seen))"
proof -
  let ?s = "worldStore w" and ?t = "clockAt rt (clockReads w)"
  obtain i where i: "map_of (keysByDigest ?s) (digest presented) = Some i" "map_of (keysMap ?s) i = Some k"
    and on: "keyDisabledAt k = None"
    using key by (auto simp: workingKey_def bind_eq_Some_conv split: option.splits if_splits)
  have ki: "keyId k = i" using inv i(2) by (simp add: keyedRight_def)
  have step: "snd (keyBehind digest rt presented w) =
      (if (case keyLastUsedAt k of None \<Rightarrow> False | Some seen \<Rightarrow> ?t - seen < KEY_USE_WRITTEN_EVERY_MS)
       then w\<lparr>clockReads := clockReads w + 1\<rparr>
       else w\<lparr>clockReads := clockReads w + 1, worldStore := noteKeyUse i ?t ?s\<rparr>)"
    using key ki by (simp add: keyBehind_def noteUse_def flow_defs split: option.split)
  have noted: "workingKey (digest presented) (noteKeyUse i ?t ?s) =
      Some (if (case keyLastUsedAt k of None \<Rightarrow> False | Some seen \<Rightarrow> ?t \<le> seen) then k
            else k\<lparr>keyLastUsedAt := Some ?t\<rparr>)"
    using i on ki by (auto simp: workingKey_def noteKeyUse_def update_conv' split: option.split)
  have "keyedRight (noteKeyUse i ?t ?s)"
    using keyedRight_step [OF inv, of "OpNoteKeyUse i ?t"] by simp
  then show ?thesis
    unfolding step using key noted inv by (auto simp: KEY_USE_WRITTEN_EVERY_MS_def split: option.split)
qed

lemma use_of_no_key:
  "workingKey (digest presented) (worldStore w) = None \<Longrightarrow> snd (keyBehind digest rt presented w) = w"
  by (simp add: keyBehind_def flow_defs)

lemma uses_of_no_key:
  assumes "workingKey (digest presented) (worldStore w) = None"
  shows "afterUses digest rt presented n w = w \<and> usesWritten digest rt presented n w = 0"
  using assms by (induction n) (simp_all add: use_of_no_key)

lemma uses_spaced:
  assumes inv: "keyedRight (worldStore w)" and clock: "mono (clockAt rt)"
    and key: "workingKey (digest presented) (worldStore w) = Some k"
  shows "\<exists>k'. workingKey (digest presented) (worldStore (afterUses digest rt presented n w)) = Some k'
    \<and> keyedRight (worldStore (afterUses digest rt presented n w))
    \<and> clockReads (afterUses digest rt presented n w) = clockReads w + n
    \<and> (usesWritten digest rt presented n w = 0
       \<or> (\<exists>seen. keyLastUsedAt k' = Some seen \<and> 0 < n
            \<and> seen \<le> clockAt rt (clockReads w + n - 1)
            \<and> int (usesWritten digest rt presented n w) * KEY_USE_WRITTEN_EVERY_MS
                \<le> seen - clockAt rt (clockReads w) + KEY_USE_WRITTEN_EVERY_MS))"
proof (induction n)
  case 0
  then show ?case using inv key by simp
next
  case (Suc n)
  let ?v = "afterUses digest rt presented n w" and ?t = "clockAt rt (clockReads w + n)"
  let ?W = KEY_USE_WRITTEN_EVERY_MS and ?m = "usesWritten digest rt presented n w"
  obtain l where l: "workingKey (digest presented) (worldStore ?v) = Some l" "keyedRight (worldStore ?v)"
    "clockReads ?v = clockReads w + n"
    and before: "?m = 0 \<or> (\<exists>seen. keyLastUsedAt l = Some seen \<and> 0 < n
        \<and> seen \<le> clockAt rt (clockReads w + n - 1) \<and> int ?m * ?W \<le> seen - clockAt rt (clockReads w) + ?W)"
    using Suc.IH by blast
  obtain l' where l': "workingKey (digest presented) (worldStore (snd (keyBehind digest rt presented ?v))) = Some l'"
    "keyedRight (worldStore (snd (keyBehind digest rt presented ?v)))"
    "clockReads (snd (keyBehind digest rt presented ?v)) = clockReads ?v + 1"
    and came: "worldStore (snd (keyBehind digest rt presented ?v)) = worldStore ?v \<and> keyLastUsedAt l' = keyLastUsedAt l
       \<or> keyLastUsedAt l' = Some ?t
         \<and> (case keyLastUsedAt l of None \<Rightarrow> True | Some seen \<Rightarrow> ?W \<le> ?t - seen)"
    using use_of_working_key [of ?v digest presented l rt, OF l(2) l(1)] unfolding l(3) by blast
  have start: "clockAt rt (clockReads w) \<le> ?t" and prev: "clockAt rt (clockReads w + n - 1) \<le> ?t"
    using clock by (auto simp: monotone_def)
  have after: "usesWritten digest rt presented (Suc n) w = 0
     \<or> (\<exists>seen. keyLastUsedAt l' = Some seen \<and> seen \<le> ?t
          \<and> int (usesWritten digest rt presented (Suc n) w) * ?W \<le> seen - clockAt rt (clockReads w) + ?W)"
  proof (cases "worldStore (snd (keyBehind digest rt presented ?v)) = worldStore ?v")
    case True
    then have same: "usesWritten digest rt presented (Suc n) w = ?m" by simp
    from came consider "keyLastUsedAt l' = keyLastUsedAt l" | "keyLastUsedAt l' = Some ?t" by blast
    then show ?thesis
    proof cases
      case 1
      then show ?thesis unfolding same using before prev by force
    next
      case 2
      then show ?thesis unfolding same using before prev by force
    qed
  next
    case False
    then have more: "usesWritten digest rt presented (Suc n) w = Suc ?m" by simp
    have now: "keyLastUsedAt l' = Some ?t"
      and gap: "case keyLastUsedAt l of None \<Rightarrow> True | Some seen \<Rightarrow> ?W \<le> ?t - seen"
      using came False by auto
    have "int (Suc ?m) * ?W \<le> ?t - clockAt rt (clockReads w) + ?W"
      using before gap start by (auto simp: algebra_simps)
    with now show ?thesis unfolding more by simp
  qed
  have "afterUses digest rt presented (Suc n) w = snd (keyBehind digest rt presented ?v)" by simp
  with l' l(3) after show ?case by (auto simp del: usesWritten.simps)
qed



end
