(* ===== verification/Js_Text.thy ===== *)
theory Js_Text
  imports Prelude
begin

text \<open>
  The strings of the scanner, as JavaScript has them: a string is its list of UTF-16 code
  units, each an integer below 65536, and its length is their number. \<open>u ''abc''\<close> is the
  string a literal of the code stands for. The functions are the standard library's, as far
  as the scanner calls them. \<open>toLowerCase\<close> is exact up to U+00FF; the letters above it are
  left as they are, which no comparison of the scanner with a word of its own can see, since
  those words are ASCII.
\<close>

type_synonym jstext = "int list"

definition u :: "string \<Rightarrow> jstext" where
  "u s = map of_char s"

lemma u_simps [simp]: "u [] = []" "u (c # s) = of_char c # u s"
  by (simp_all add: u_def)

text \<open>What every turn of a loop keeps.\<close>

lemma foldl_keeps:
  assumes "holds s" "\<And>s x. x \<in> set xs \<Longrightarrow> holds s \<Longrightarrow> holds (f s x)"
  shows "holds (foldl f s xs)"
  using assms by (induction xs arbitrary: s) auto

section \<open>Classes of code units\<close>

definition isDigit :: "int \<Rightarrow> bool" where
  "isDigit c \<longleftrightarrow> 48 \<le> c \<and> c \<le> 57"

definition isUpper :: "int \<Rightarrow> bool" where
  "isUpper c \<longleftrightarrow> 65 \<le> c \<and> c \<le> 90"

definition isLower :: "int \<Rightarrow> bool" where
  "isLower c \<longleftrightarrow> 97 \<le> c \<and> c \<le> 122"

definition isWord :: "int \<Rightarrow> bool" where
  "isWord c \<longleftrightarrow> isDigit c \<or> isUpper c \<or> isLower c \<or> c = 95"

definition isSpace :: "int \<Rightarrow> bool" where
  "isSpace c \<longleftrightarrow>
     (9 \<le> c \<and> c \<le> 13) \<or> c = 32 \<or> c = 160 \<or> c = 5760 \<or> (8192 \<le> c \<and> c \<le> 8202)
     \<or> c = 8232 \<or> c = 8233 \<or> c = 8239 \<or> c = 8287 \<or> c = 12288 \<or> c = 65279"

definition isLineEnd :: "int \<Rightarrow> bool" where
  "isLineEnd c \<longleftrightarrow> c = 10 \<or> c = 13 \<or> c = 8232 \<or> c = 8233"

definition lowerUnit :: "int \<Rightarrow> int" where
  "lowerUnit c =
     (if isUpper c \<or> (192 \<le> c \<and> c \<le> 222 \<and> c \<noteq> 215) then c + 32 else c)"

lemma lowerUnit_idem [simp]: "lowerUnit (lowerUnit c) = lowerUnit c"
  by (simp add: lowerUnit_def isUpper_def)

section \<open>The functions of a string\<close>

definition lower :: "jstext \<Rightarrow> jstext" where
  "lower s = map lowerUnit s"

lemma lower_idem [simp]: "lower (lower s) = lower s"
  by (simp add: lower_def)

definition trim :: "jstext \<Rightarrow> jstext" where
  "trim s = rev (dropWhile isSpace (rev (dropWhile isSpace s)))"

text \<open>\<open>[...new Set(xs)]\<close>: each element once, where it first stood.\<close>

definition unique :: "'a list \<Rightarrow> 'a list" where
  "unique xs = rev (remdups (rev xs))"

lemma unique_simps [simp]: "set (unique xs) = set xs" "distinct (unique xs)"
  by (simp_all add: unique_def)

text \<open>\<open>slice(0, n)\<close>.\<close>

fun upTo :: "int \<Rightarrow> 'a list \<Rightarrow> 'a list" where
  "upTo n [] = []"
| "upTo n (c # s) = (if n \<le> 0 then [] else c # upTo (n - 1) s)"

lemma upTo_take: "upTo n s = take (nat n) s"
proof (induction n s rule: upTo.induct)
  case (2 n c s)
  then show ?case by (cases "nat n") (auto simp: nat_diff_distrib')
qed simp

fun startsWith :: "jstext \<Rightarrow> jstext \<Rightarrow> bool" where
  "startsWith s [] = True"
| "startsWith [] (c # w) = False"
| "startsWith (d # s) (c # w) = (d = c \<and> startsWith s w)"

lemma startsWith_append: "startsWith s w \<longleftrightarrow> (\<exists>after. s = w @ after)"
  by (induction s w rule: startsWith.induct) auto

definition endsWith :: "jstext \<Rightarrow> jstext \<Rightarrow> bool" where
  "endsWith s w = startsWith (rev s) (rev w)"

fun holds :: "jstext \<Rightarrow> jstext \<Rightarrow> bool" where
  "holds [] w = (w = [])"
| "holds (c # s) w = (startsWith (c # s) w \<or> holds s w)"

lemma holds_append: "holds s w \<longleftrightarrow> (\<exists>pre after. s = pre @ w @ after)"
proof (induction s)
  case Nil
  then show ?case by simp
next
  case (Cons c s)
  show ?case
    by (auto simp: Cons.IH startsWith_append)
      (metis append_Cons append_Nil append_eq_Cons_conv)+
qed

text \<open>\<open>indexOf\<close> of one unit: its first place, or none.\<close>

fun indexOfUnit :: "int \<Rightarrow> jstext \<Rightarrow> nat option" where
  "indexOfUnit c [] = None"
| "indexOfUnit c (d # s) = (if d = c then Some 0 else map_option Suc (indexOfUnit c s))"

lemma indexOfUnit_Some:
  "indexOfUnit c s = Some i \<longleftrightarrow> i < length s \<and> s ! i = c \<and> c \<notin> set (take i s)"
proof (induction s arbitrary: i)
  case (Cons d s)
  then show ?case by (cases i) auto
qed simp

lemma indexOfUnit_None: "indexOfUnit c s = None \<longleftrightarrow> c \<notin> set s"
  by (induction s) auto

text \<open>\<open>split\<close> on a non-empty separator; the pieces are those between its occurrences.\<close>

fun splitOn :: "jstext \<Rightarrow> jstext \<Rightarrow> jstext \<Rightarrow> jstext list" where
  "splitOn w piece [] = [rev piece]"
| "splitOn w piece (c # s) =
     (if startsWith (c # s) w then rev piece # splitOn w [] (drop (length w - 1) s)
      else splitOn w (c # piece) s)"

definition splitText :: "jstext \<Rightarrow> jstext \<Rightarrow> jstext list" where
  "splitText s w = splitOn w [] s"

fun joinText :: "jstext \<Rightarrow> jstext list \<Rightarrow> jstext" where
  "joinText w [] = []"
| "joinText w [s] = s"
| "joinText w (s # t # more') = s @ w @ joinText w (t # more')"

lemma splitOn_unit:
  assumes "c \<notin> set p"
  shows "splitOn [c] piece (p @ s) =
    (case s of [] \<Rightarrow> [rev piece @ p] | d # t \<Rightarrow> splitOn [c] (rev p @ piece) (d # t))"
  using assms
proof (induction p arbitrary: piece)
  case Nil
  then show ?case by (cases s) auto
next
  case (Cons a p)
  then show ?case by (cases s) auto
qed

text \<open>Splitting what was joined gives the pieces back, where no piece holds the separator.\<close>

lemma split_join_unit:
  assumes "pieces \<noteq> []" "\<forall>p \<in> set pieces. c \<notin> set p"
  shows "splitText (joinText [c] pieces) [c] = pieces"
  using assms unfolding splitText_def
proof (induction pieces rule: induct_list012)
  case (2 x)
  then show ?case using splitOn_unit [of c x "[]" "[]"] by simp
next
  case (3 x y zs)
  then have "splitOn [c] [] (x @ c # joinText [c] (y # zs)) =
      splitOn [c] (rev x) (c # joinText [c] (y # zs))"
    using splitOn_unit [of c x "[]" "c # joinText [c] (y # zs)"] by simp
  with 3 show ?case by simp
qed simp

section \<open>Numbers written in text\<close>

definition unitValue :: "int \<Rightarrow> int" where
  "unitValue c =
     (if isDigit c then c - 48 else if isLower c then c - 87 else if isUpper c then c - 55 else 36)"

text \<open>The value of digits in a base, as \<open>Number\<close> and \<open>parseInt\<close> read them.\<close>

definition readBase :: "int \<Rightarrow> jstext \<Rightarrow> int" where
  "readBase base' s = foldl (\<lambda>value c. base' * value + unitValue c) 0 s"

definition digitUnit :: "int \<Rightarrow> int" where
  "digitUnit d = (if d < 10 then d + 48 else d + 87)"

text \<open>\<open>value.toString(16)\<close> of a number below \<open>16 ^ n\<close>, without leading zeros.\<close>

fun hexDigits :: "nat \<Rightarrow> int \<Rightarrow> jstext" where
  "hexDigits 0 value = []"
| "hexDigits (Suc n) value =
     (if value < 16 then [digitUnit value]
      else hexDigits n (value div 16) @ [digitUnit (value mod 16)])"

text \<open>\<open>Math.round\<close>: to the nearest integer, halves upwards.\<close>

definition mathRound :: "rat \<Rightarrow> int" where
  "mathRound x = \<lfloor>x + 1 / 2\<rfloor>"

end
