(* ===== verification/Js_Regex.thy ===== *)
theory Js_Regex
  imports Js_Text
begin

text \<open>
  The regular expressions of the scanner. A pattern is matched the way ECMAScript specifies
  it: \<open>ends r p\<close> lists every place a match of \<open>r\<close> that starts at the place \<open>p\<close> can end at, in
  the order backtracking tries them, so the match taken is the head of the list. A place is
  the unit before it and the text after it. An iteration of \<open>*\<close> that consumes nothing is
  refused, as the specification refuses it, so the text left bounds the iterations and the
  fuel of \<open>rounds\<close> never runs out.

  \<open>reads\<close> is the meaning of a pattern with no order of search in it, and \<open>ends_reads\<close> proves
  that the search finds exactly the matches there are.
\<close>

type_synonym spot = "int option \<times> jstext"

datatype rx =
    One "int \<Rightarrow> bool"
  | Nothing
  | Seq rx rx
  | Alt rx rx
  | Repeat bool rx
  | AtStart
  | AtLineStart
  | AtEnd
  | AtWordEdge

fun nextWord :: "jstext \<Rightarrow> bool" where
  "nextWord [] = False"
| "nextWord (c # s) = isWord c"

definition lastWord :: "int option \<Rightarrow> bool" where
  "lastWord b = (case b of None \<Rightarrow> False | Some c \<Rightarrow> isWord c)"

text \<open>Whether an assertion holds at a place.\<close>

fun stands :: "rx \<Rightarrow> spot \<Rightarrow> bool" where
  "stands AtStart (b, s) = (b = None)"
| "stands AtLineStart (b, s) = (case b of None \<Rightarrow> True | Some c \<Rightarrow> isLineEnd c)"
| "stands AtEnd (b, s) = (s = [])"
| "stands AtWordEdge (b, s) = (lastWord b \<noteq> nextWord s)"
| "stands r p = True"

primrec rounds :: "(spot \<Rightarrow> spot list) \<Rightarrow> bool \<Rightarrow> nat \<Rightarrow> spot \<Rightarrow> spot list" where
  "rounds f greedy 0 p = [p]"
| "rounds f greedy (Suc n) p =
     (let onward = concat (map (rounds f greedy n)
                     (filter (\<lambda>q. length (snd q) < length (snd p)) (f p)))
      in if greedy then onward @ [p] else p # onward)"

primrec ends :: "rx \<Rightarrow> spot \<Rightarrow> spot list" where
  "ends (One f) p =
     (case snd p of [] \<Rightarrow> [] | c # s \<Rightarrow> if f c then [(Some c, s)] else [])"
| "ends Nothing p = [p]"
| "ends (Seq r t) p = concat (map (ends t) (ends r p))"
| "ends (Alt r t) p = ends r p @ ends t p"
| "ends (Repeat greedy r) p = rounds (ends r) greedy (length (snd p)) p"
| "ends AtStart p = (if stands AtStart p then [p] else [])"
| "ends AtLineStart p = (if stands AtLineStart p then [p] else [])"
| "ends AtEnd p = (if stands AtEnd p then [p] else [])"
| "ends AtWordEdge p = (if stands AtWordEdge p then [p] else [])"

section \<open>The methods that search\<close>

text \<open>Every place of a text, the first one first.\<close>

fun spots :: "int option \<Rightarrow> jstext \<Rightarrow> spot list" where
  "spots b [] = [(b, [])]"
| "spots b (c # s) = (b, c # s) # spots (Some c) s"

definition test :: "rx \<Rightarrow> jstext \<Rightarrow> bool" where
  "test r s = list_ex (\<lambda>p. ends r p \<noteq> []) (spots None s)"

text \<open>\<open>replace\<close> with a pattern without the global flag and with it.\<close>

fun replaceFrom :: "bool \<Rightarrow> rx \<Rightarrow> jstext \<Rightarrow> nat \<Rightarrow> spot \<Rightarrow> jstext" where
  "replaceFrom whole r w 0 p = snd p"
| "replaceFrom whole r w (Suc n) p =
     (case ends r p of
        q # _ \<Rightarrow>
          (if length (snd q) < length (snd p)
           then w @ (if whole then replaceFrom whole r w n q else snd q)
           else
             (case snd p of
                [] \<Rightarrow> w
              | c # s \<Rightarrow> w @ c # (if whole then replaceFrom whole r w n (Some c, s) else s)))
      | [] \<Rightarrow>
          (case snd p of
             [] \<Rightarrow> []
           | c # s \<Rightarrow> c # replaceFrom whole r w n (Some c, s)))"

definition replaceFirst :: "rx \<Rightarrow> jstext \<Rightarrow> jstext \<Rightarrow> jstext" where
  "replaceFirst r w s = replaceFrom False r w (Suc (length s)) (None, s)"

definition replaceAll :: "rx \<Rightarrow> jstext \<Rightarrow> jstext \<Rightarrow> jstext" where
  "replaceAll r w s = replaceFrom True r w (Suc (length s)) (None, s)"

text \<open>\<open>split\<close> on a pattern that matches no empty text.\<close>

fun splitFrom :: "rx \<Rightarrow> nat \<Rightarrow> jstext \<Rightarrow> spot \<Rightarrow> jstext list" where
  "splitFrom r 0 piece p = [rev piece]"
| "splitFrom r (Suc n) piece p =
     (case snd p of
        [] \<Rightarrow> [rev piece]
      | c # s \<Rightarrow>
          (case ends r p of
             q # _ \<Rightarrow>
               (if length (snd q) < length (snd p) then rev piece # splitFrom r n [] q
                else splitFrom r n (c # piece) (Some c, s))
           | [] \<Rightarrow> splitFrom r n (c # piece) (Some c, s)))"

definition splitBy :: "rx \<Rightarrow> jstext \<Rightarrow> jstext list" where
  "splitBy r s = splitFrom r (Suc (length s)) [] (None, s)"

text \<open>
  \<open>matchAll\<close> of a pattern with one group: what stands before the group, the group, what stands
  after it. Each match gives the text of its group.
\<close>

definition grouped :: "rx \<Rightarrow> rx \<Rightarrow> rx \<Rightarrow> spot \<Rightarrow> (jstext \<times> spot) list" where
  "grouped pre inside post p =
     concat (map (\<lambda>q.
       concat (map (\<lambda>t.
         map (Pair (take (length (snd q) - length (snd t)) (snd q))) (ends post t))
         (ends inside q)))
       (ends pre p))"

fun matchesFrom :: "rx \<Rightarrow> rx \<Rightarrow> rx \<Rightarrow> nat \<Rightarrow> spot \<Rightarrow> jstext list" where
  "matchesFrom pre inside post 0 p = []"
| "matchesFrom pre inside post (Suc n) p =
     (case grouped pre inside post p of
        (found, q) # _ \<Rightarrow>
          found #
          (if length (snd q) < length (snd p) then matchesFrom pre inside post n q
           else
             (case snd p of
                [] \<Rightarrow> []
              | c # s \<Rightarrow> matchesFrom pre inside post n (Some c, s)))
      | [] \<Rightarrow>
          (case snd p of
             [] \<Rightarrow> []
           | c # s \<Rightarrow> matchesFrom pre inside post n (Some c, s)))"

definition matchAll :: "rx \<Rightarrow> rx \<Rightarrow> rx \<Rightarrow> jstext \<Rightarrow> jstext list" where
  "matchAll pre inside post s = matchesFrom pre inside post (Suc (length s)) (None, s)"

section \<open>Writing patterns down\<close>

definition unit1 :: "int \<Rightarrow> rx" where
  "unit1 c = One (\<lambda>d. d = c)"

text \<open>A literal unit under the flag \<open>i\<close>: ASCII letters match in both cases.\<close>

definition unitI :: "int \<Rightarrow> rx" where
  "unitI c =
     One (\<lambda>d. d = c \<or> isLower c \<and> d = c - 32 \<or> isUpper c \<and> d = c + 32)"

fun seqs :: "rx list \<Rightarrow> rx" where
  "seqs [] = Nothing"
| "seqs [r] = r"
| "seqs (r # t # rs) = Seq r (seqs (t # rs))"

fun alts :: "rx list \<Rightarrow> rx" where
  "alts [] = One (\<lambda>_. False)"
| "alts [r] = r"
| "alts (r # t # rs) = Alt r (alts (t # rs))"

definition lit :: "string \<Rightarrow> rx" where
  "lit s = seqs (map unit1 (u s))"

definition litI :: "string \<Rightarrow> rx" where
  "litI s = seqs (map unitI (u s))"

definition oneOf :: "string \<Rightarrow> rx" where
  "oneOf s = One (\<lambda>c. c \<in> set (u s))"

definition noneOf :: "string \<Rightarrow> rx" where
  "noneOf s = One (\<lambda>c. c \<notin> set (u s))"

definition star :: "rx \<Rightarrow> rx" where
  "star r = Repeat True r"

definition lazyStar :: "rx \<Rightarrow> rx" where
  "lazyStar r = Repeat False r"

definition plus1 :: "rx \<Rightarrow> rx" where
  "plus1 r = Seq r (Repeat True r)"

definition opt :: "rx \<Rightarrow> rx" where
  "opt r = Alt r Nothing"

definition times :: "nat \<Rightarrow> rx \<Rightarrow> rx" where
  "times n r = seqs (replicate n r)"

definition space1 :: rx where "space1 = One isSpace"
definition digit1 :: rx where "digit1 = One isDigit"
definition any1 :: rx where "any1 = One (\<lambda>_. True)"
definition dot1 :: rx where "dot1 = One (\<lambda>c. \<not> isLineEnd c)"

lemmas pattern_defs =
  unit1_def unitI_def lit_def litI_def oneOf_def noneOf_def star_def lazyStar_def plus1_def
  opt_def times_def space1_def digit1_def any1_def dot1_def

section \<open>What a pattern means\<close>

inductive reads :: "rx \<Rightarrow> spot \<Rightarrow> spot \<Rightarrow> bool" where
  unit: "f c \<Longrightarrow> reads (One f) (b, c # s) (Some c, s)"
| nothing: "reads Nothing p p"
| seq: "reads r p q \<Longrightarrow> reads t q p' \<Longrightarrow> reads (Seq r t) p p'"
| left: "reads r p q \<Longrightarrow> reads (Alt r t) p q"
| right: "reads t p q \<Longrightarrow> reads (Alt r t) p q"
| stop: "reads (Repeat greedy r) p p"
| again: "reads r p q \<Longrightarrow> reads (Repeat greedy r) q p' \<Longrightarrow> reads (Repeat greedy r) p p'"
| start: "stands AtStart p \<Longrightarrow> reads AtStart p p"
| lineStart: "stands AtLineStart p \<Longrightarrow> reads AtLineStart p p"
| finish: "stands AtEnd p \<Longrightarrow> reads AtEnd p p"
| wordEdge: "stands AtWordEdge p \<Longrightarrow> reads AtWordEdge p p"

inductive_simps reads_One [simp]: "reads (One f) p q"
inductive_simps reads_Nothing [simp]: "reads Nothing p q"
inductive_simps reads_Seq [simp]: "reads (Seq r t) p q"
inductive_cases reads_SeqE: "reads (Seq r t) p q"
inductive_simps reads_Alt [simp]: "reads (Alt r t) p q"
inductive_simps reads_AtStart [simp]: "reads AtStart p q"
inductive_simps reads_AtLineStart [simp]: "reads AtLineStart p q"
inductive_simps reads_AtEnd [simp]: "reads AtEnd p q"
inductive_simps reads_AtWordEdge [simp]: "reads AtWordEdge p q"

lemma reads_Seq_iff: "reads (Seq r t) p q \<longleftrightarrow> (\<exists>m. reads r p m \<and> reads t m q)"
  by (blast intro: reads.seq elim: reads_SeqE)

text \<open>A match only moves forward, and one that does not move stays where it is.\<close>

lemma reads_forward:
  "reads r p q \<Longrightarrow> length (snd q) \<le> length (snd p) \<and> (length (snd q) = length (snd p) \<longrightarrow> q = p)"
  by (induction rule: reads.induct) force+

lemma rounds_sound:
  assumes "\<And>p q. q \<in> set (ends r p) \<Longrightarrow> reads r p q"
  shows "q \<in> set (rounds (ends r) greedy n p) \<Longrightarrow> reads (Repeat greedy r) p q"
  by (induction n arbitrary: p)
    (auto simp: Let_def split: if_splits intro: reads.stop dest!: assms intro: reads.again)

lemma rounds_complete:
  assumes reads: "reads R p q" and R: "R = Repeat greedy r"
    and IH: "\<And>p q. reads r p q \<Longrightarrow> q \<in> set (ends r p)"
  shows "length (snd p) \<le> n \<Longrightarrow> q \<in> set (rounds (ends r) greedy n p)"
  using reads R
proof (induction arbitrary: n rule: reads.induct)
  case (stop greedy' r' p)
  then show ?case by (cases n) (auto simp: Let_def)
next
  case (again r' p q greedy' p')
  then have step: "reads r p q" by simp
  show ?case
  proof (cases "length (snd q) = length (snd p)")
    case True
    then have "q = p" using reads_forward [OF step] by simp
    with again show ?thesis by simp
  next
    case False
    then have less: "length (snd q) < length (snd p)" using reads_forward [OF step] by simp
    then obtain m where n: "n = Suc m" and m: "length (snd q) \<le> m"
      using again.prems(1) by (cases n) auto
    have "p' \<in> set (rounds (ends r) greedy m q)"
      using again.IH(2) [OF m] again.prems(2) by simp
    with less IH [OF step] have "p' \<in> set (concat (map (rounds (ends r) greedy m)
        (filter (\<lambda>q. length (snd q) < length (snd p)) (ends r p))))"
      by (simp del: split_paired_Ex) blast
    then show ?thesis by (cases greedy) (simp_all only: n rounds.simps Let_def if_True if_False
        set_append list.set Un_iff insert_iff simp_thms)
  qed
qed simp_all

text \<open>The search of \<open>ends\<close> finds exactly the matches the pattern has.\<close>

lemma ends_reads: "q \<in> set (ends r p) \<longleftrightarrow> reads r p q"
proof (induction r arbitrary: p q)
  case (One f)
  then show ?case by (cases p; cases "snd p") auto
next
  case (Repeat greedy r)
  show ?case
    using rounds_sound [of r q greedy "length (snd p)" p]
      rounds_complete [of "Repeat greedy r" p q greedy r "length (snd p)"] Repeat
    by auto
next
  case (Seq r t)
  have "reads (Seq r t) p q \<longleftrightarrow> (\<exists>m. reads r p m \<and> reads t m q)" by (rule reads_Seq_iff)
  also have "\<dots> \<longleftrightarrow> (\<exists>m. m \<in> set (ends r p) \<and> q \<in> set (ends t m))"
    by (simp only: Seq)
  also have "\<dots> \<longleftrightarrow> q \<in> set (ends (Seq r t) p)"
    by (simp only: ends.simps set_concat set_map UN_iff image_image Bex_def)
  finally show ?case by (rule sym)
qed auto

text \<open>Whether a pattern has a match that starts at a place.\<close>

definition admits :: "rx \<Rightarrow> spot \<Rightarrow> bool" where
  "admits r p \<longleftrightarrow> Ex (reads r p)"

lemma ends_admits: "ends r p \<noteq> [] \<longleftrightarrow> admits r p"
proof -
  have "ends r p \<noteq> [] \<longleftrightarrow> (\<exists>q. q \<in> set (ends r p))" by (cases "ends r p") auto
  then show ?thesis by (simp only: ends_reads admits_def)
qed

lemma admits_Nothing [simp]: "admits Nothing p"
  unfolding admits_def by (blast intro: reads.nothing)

lemma admits_Seq: "admits (Seq r t) p \<longleftrightarrow> (\<exists>m. reads r p m \<and> admits t m)"
  unfolding admits_def reads_Seq_iff by blast

lemma admits_One [simp]:
  "admits (Seq (One f) r) (b, s) \<longleftrightarrow>
     (case s of [] \<Rightarrow> False | c # t \<Rightarrow> f c \<and> admits r (Some c, t))"
  by (cases s) (auto simp: admits_Seq)

lemma admits_Seq_Nothing [simp]: "admits (Seq r Nothing) p \<longleftrightarrow> admits r p"
  unfolding admits_def reads_Seq_iff reads_Nothing by blast

lemma later_spots: "(b, t) \<in> set (spots (Some c) s) \<Longrightarrow> b \<noteq> None"
  by (induction s arbitrary: c) auto

text \<open>A pattern anchored at the start is tried at one place only.\<close>

lemma admits_start [simp]: "admits (Seq AtStart r) p \<longleftrightarrow> fst p = None \<and> admits r p"
  by (cases p) (simp add: admits_Seq)

lemma test_admits: "test r s \<longleftrightarrow> (\<exists>p \<in> set (spots None s). admits r p)"
  by (simp only: test_def ends_admits list_ex_iff)

lemma test_anchored: "test (Seq AtStart r) s \<longleftrightarrow> admits r (None, s)"
proof -
  have "set (spots None s) =
      insert (None, s) (case s of [] \<Rightarrow> {} | c # t \<Rightarrow> set (spots (Some c) t))"
    by (cases s) simp_all
  then show ?thesis
    by (auto simp: test_admits dest: later_spots split: list.splits)
qed

section \<open>A group that ends the text\<close>

text \<open>The first capture of a group held to the end is the longest suffix the group reads.\<close>

lemma grouped_end:
  "grouped Nothing r AtEnd p = map (Pair (snd p)) (filter (\<lambda>q. snd q = []) (ends r p))"
proof -
  have "concat (map (\<lambda>t. map (Pair (take (length (snd p) - length (snd t)) (snd p))) (ends AtEnd t)) ts)
      = map (Pair (snd p)) (filter (\<lambda>q. snd q = []) ts)" for ts
    by (induction ts) (auto)
  then show ?thesis by (simp add: grouped_def)
qed

lemma matches_end_skip:
  assumes "\<And>q. reads r (b, c # s) q \<Longrightarrow> snd q \<noteq> []"
  shows "matchesFrom Nothing r AtEnd (Suc n) (b, c # s) = matchesFrom Nothing r AtEnd n (Some c, s)"
proof -
  have "filter (\<lambda>q. snd q = []) (ends r (b, c # s)) = []"
    using assms by (auto simp: filter_empty_conv ends_reads)
  then show ?thesis by (simp add: grouped_end)
qed

lemma matches_end_hit:
  assumes "reads r (b, s) q" "snd q = []"
  shows "\<exists>others. matchesFrom Nothing r AtEnd (Suc n) (b, s) = s # others"
proof -
  have "q \<in> set (filter (\<lambda>q. snd q = []) (ends r (b, s)))"
    using assms by (simp add: ends_reads)
  then obtain t ts where "filter (\<lambda>q. snd q = []) (ends r (b, s)) = t # ts"
    by (cases "filter (\<lambda>q. snd q = []) (ends r (b, s))") auto
  then show ?thesis by (simp add: grouped_end)
qed

text \<open>A run of units of one class.\<close>

lemma reads_run:
  assumes "list_all f w"
  shows "\<exists>b'. reads (Repeat greedy (One f)) (b, w @ s) (b', s)"
  using assms
proof (induction w arbitrary: b)
  case Nil
  then show ?case by (auto intro: reads.stop)
next
  case (Cons c w)
  then obtain b' where "reads (Repeat greedy (One f)) (Some c, w @ s) (b', s)" by auto
  moreover have "reads (One f) (b, (c # w) @ s) (Some c, w @ s)" using Cons.prems by simp
  ultimately show ?case by (blast intro: reads.again)
qed

lemma reads_plus_run:
  assumes "list_all f w" "w \<noteq> []"
  shows "\<exists>b'. reads (plus1 (One f)) (b, w @ s) (b', s)"
proof (cases w)
  case (Cons c v)
  then have f: "f c" "list_all f v" using assms by simp_all
  obtain b' where "reads (Repeat True (One f)) (Some c, v @ s) (b', s)"
    using reads_run [OF f(2)] by blast
  moreover have "reads (One f) (b, w @ s) (Some c, v @ s)" using Cons f by simp
  ultimately show ?thesis unfolding plus1_def reads_Seq_iff by blast
qed (use assms in simp)

end
