(* ===== verification/Scanner_Ip.thy ===== *)
theory Scanner_Ip
  imports Js_Regex "HOL-Library.Word"
begin

text \<open>
  The address policy of \<open>packages/scanner/src/ip.ts\<close>: which addresses the scanner may open a
  connection to. An IPv4 address is a \<^typ>\<open>32 word\<close>, as the code keeps it with \<open>>>> 0\<close>; the
  \<open>Uint16Array\<close> of an IPv6 address is a list of \<^typ>\<open>16 word\<close>. \<open>isIP\<close> of \<open>node:net\<close>, which
  says whether a text is an address at all and of which family, is a parameter: nothing is
  assumed of it, and its answer only chooses the branch.
\<close>

unbundle bit_operations_syntax

datatype IpBlockReason =
    InvalidIp
  | Unspecified
  | Loopback
  | PrivateNetwork
  | CarrierGradeNat
  | LinkLocal
  | Multicast
  | Documentation
  | Benchmark
  | Reserved
  | Metadata

definition blockReasonName :: "IpBlockReason \<Rightarrow> string" where
  "blockReasonName r =
     (case r of
        InvalidIp \<Rightarrow> ''invalid_ip''
      | Unspecified \<Rightarrow> ''unspecified''
      | Loopback \<Rightarrow> ''loopback''
      | PrivateNetwork \<Rightarrow> ''private''
      | CarrierGradeNat \<Rightarrow> ''carrier_grade_nat''
      | LinkLocal \<Rightarrow> ''link_local''
      | Multicast \<Rightarrow> ''multicast''
      | Documentation \<Rightarrow> ''documentation''
      | Benchmark \<Rightarrow> ''benchmark''
      | Reserved \<Rightarrow> ''reserved''
      | Metadata \<Rightarrow> ''metadata'')"

datatype IpClassification =
    AddressAllowed nat
  | AddressBlocked "nat option" IpBlockReason

type_synonym V4Range = "32 word \<times> nat \<times> IpBlockReason"

section \<open>IPv4\<close>

definition isOctetText :: "jstext \<Rightarrow> bool" where
  "isOctetText part \<longleftrightarrow> 1 \<le> length part \<and> length part \<le> 3 \<and> list_all isDigit part"

fun octetsFrom :: "32 word \<Rightarrow> jstext list \<Rightarrow> 32 word option" where
  "octetsFrom sofar [] = Some sofar"
| "octetsFrom sofar (part # parts) =
     (if \<not> isOctetText part then None
      else if 255 < readBase 10 part then None
      else octetsFrom (sofar * 256 + word_of_int (readBase 10 part)) parts)"

definition v4 :: "jstext \<Rightarrow> 32 word option" where
  "v4 written =
     (let parts = splitText written (u ''.'')
      in if length parts \<noteq> 4 then None else octetsFrom 0 parts)"

definition cidr4 :: "string \<Rightarrow> nat \<Rightarrow> IpBlockReason \<Rightarrow> string + V4Range" where
  "cidr4 network prefix reason =
     (case v4 (u network) of
        None \<Rightarrow> Inl (''Invalid internal CIDR: '' @ network)
      | Some parsed \<Rightarrow> Inr (parsed, prefix, reason))"

text \<open>The ranges are parsed when the module loads; one that did not parse would throw there.\<close>

definition V4_BLOCKS :: "V4Range list" where
  "V4_BLOCKS =
     map projr
       [cidr4 ''0.0.0.0'' 8 Unspecified,
        cidr4 ''10.0.0.0'' 8 PrivateNetwork,
        cidr4 ''100.64.0.0'' 10 CarrierGradeNat,
        cidr4 ''127.0.0.0'' 8 Loopback,
        cidr4 ''169.254.0.0'' 16 LinkLocal,
        cidr4 ''172.16.0.0'' 12 PrivateNetwork,
        cidr4 ''192.0.0.0'' 24 Reserved,
        cidr4 ''192.0.2.0'' 24 Documentation,
        cidr4 ''192.88.99.0'' 24 Reserved,
        cidr4 ''192.168.0.0'' 16 PrivateNetwork,
        cidr4 ''198.18.0.0'' 15 Benchmark,
        cidr4 ''198.51.100.0'' 24 Documentation,
        cidr4 ''203.0.113.0'' 24 Documentation,
        cidr4 ''224.0.0.0'' 4 Multicast,
        cidr4 ''240.0.0.0'' 4 Reserved]"

definition isInV4Range :: "32 word \<Rightarrow> 32 word \<Rightarrow> nat \<Rightarrow> bool" where
  "isInV4Range address network prefix =
     (if prefix = 0 then True
      else
        let mask = push_bit (32 - prefix) 0xffffffff
        in address AND mask = network AND mask)"

text \<open>The first range of the list that holds the address.\<close>

fun blockedBy :: "V4Range list \<Rightarrow> 32 word \<Rightarrow> IpBlockReason option" where
  "blockedBy [] address = None"
| "blockedBy ((network, prefix, reason) # ranges) address =
     (if isInV4Range address network prefix then Some reason else blockedBy ranges address)"

section \<open>IPv6\<close>

definition quadPattern :: rx where
  "quadPattern =
     seqs [plus1 digit1, lit ''.'', plus1 digit1, lit ''.'', plus1 digit1, lit ''.'', plus1 digit1]"

definition withoutZone :: "jstext \<Rightarrow> jstext" where
  "withoutZone written =
     (case indexOfUnit 37 written of None \<Rightarrow> written | Some zone \<Rightarrow> take zone written)"

text \<open>An IPv4 address at the end is written as the two words it fills.\<close>

definition tailAsWords :: "jstext \<Rightarrow> jstext option" where
  "tailAsWords written =
     (case matchAll Nothing quadPattern AtEnd written of
        [] \<Rightarrow> Some written
      | ipv4Tail # _ \<Rightarrow>
          (case v4 ipv4Tail of
             None \<Rightarrow> None
           | Some parsed \<Rightarrow>
               Some (take (length written - length ipv4Tail) written
                     @ hexDigits 4 (uint (drop_bit 16 parsed AND 0xffff))
                     @ u '':'' @ hexDigits 4 (uint (parsed AND 0xffff)))))"

definition isHexWord :: "jstext \<Rightarrow> bool" where
  "isHexWord word' \<longleftrightarrow>
     1 \<le> length word' \<and> length word' \<le> 4
     \<and> list_all (\<lambda>c. isDigit c \<or> 97 \<le> c \<and> c \<le> 102) word'"

definition colonParts :: "jstext list \<Rightarrow> nat \<Rightarrow> jstext list" where
  "colonParts halves i =
     (if i < length halves \<and> halves ! i \<noteq> [] then splitText (halves ! i) (u '':'') else [])"

definition parseIpv6 :: "jstext \<Rightarrow> 16 word list option" where
  "parseIpv6 input =
     (case tailAsWords (withoutZone (lower input)) of
        None \<Rightarrow> None
      | Some written \<Rightarrow>
          (let halves = splitText written (u ''::'');
               left = colonParts halves 0;
               right = colonParts halves 1;
               missing = 8 - int (length left) - int (length right);
               words = left @ replicate (nat missing) (u ''0'') @ right
           in if length halves > 2 then None
              else if length halves = 1 \<and> length left \<noteq> 8 then None
              else if missing < (if length halves = 2 then 1 else 0) then None
              else if length words \<noteq> 8 \<or> list_ex (\<lambda>w. \<not> isHexWord w) words then None
              else Some (map (\<lambda>w. word_of_int (readBase 16 w)) words)))"

definition prefixMask :: "nat \<Rightarrow> 16 word" where
  "prefixMask used = (if used = 16 then 0xffff else push_bit (16 - used) 0xffff AND 0xffff)"

definition hasPrefix :: "16 word list \<Rightarrow> 16 word list \<Rightarrow> nat \<Rightarrow> bool" where
  "hasPrefix words prefix bits =
     list_all (\<lambda>index.
         let mask = prefixMask (min 16 (bits - index * 16));
             wanted = (if index < length prefix then prefix ! index else 0)
         in (words ! index) AND mask = wanted AND mask)
       [0..<(bits + 15) div 16]"

section \<open>The verdict\<close>

definition classifyV6 :: "16 word list \<Rightarrow> IpClassification" where
  "classifyV6 words =
     (if list_all (\<lambda>word'. word' = 0) words then AddressBlocked (Some 6) Unspecified
      else if list_all (\<lambda>word'. word' = 0) (take 7 words) \<and> words ! 7 = 1 then
        AddressBlocked (Some 6) Loopback
      else if hasPrefix words [0xfc00] 7 then AddressBlocked (Some 6) PrivateNetwork
      else if hasPrefix words [0xfe80] 10 then AddressBlocked (Some 6) LinkLocal
      else if hasPrefix words [0xff00] 8 then AddressBlocked (Some 6) Multicast
      else if hasPrefix words [0x2001, 0x0db8] 32 then AddressBlocked (Some 6) Documentation
      else if hasPrefix words [0x2001, 0x0002] 48 then AddressBlocked (Some 6) Benchmark
      else if hasPrefix words [0x2001, 0x0010] 28 then AddressBlocked (Some 6) Reserved
      else if hasPrefix words [0, 0, 0, 0, 0, 0xffff] 96 then
        (let mapped = push_bit 16 (ucast (words ! 6)) OR ucast (words ! 7)
         in case blockedBy V4_BLOCKS mapped of
              Some reason \<Rightarrow> AddressBlocked (Some 6) reason
            | None \<Rightarrow> AddressAllowed 6)
      else AddressAllowed 6)"

definition classifyIp :: "(jstext \<Rightarrow> nat) \<Rightarrow> jstext \<Rightarrow> IpClassification" where
  "classifyIp isIP address =
     (let family = isIP address in
      if family = 4 then
        (case v4 address of
           None \<Rightarrow> AddressBlocked None InvalidIp
         | Some parsed \<Rightarrow>
             (case blockedBy V4_BLOCKS parsed of
                Some reason \<Rightarrow> AddressBlocked (Some 4) reason
              | None \<Rightarrow> AddressAllowed 4))
      else if family \<noteq> 6 then AddressBlocked None InvalidIp
      else
        (case parseIpv6 address of
           None \<Rightarrow> AddressBlocked (Some 6) InvalidIp
         | Some words \<Rightarrow> classifyV6 words))"

fun assertPublicFrom :: "(jstext \<Rightarrow> nat) \<Rightarrow> jstext list \<Rightarrow> string + unit" where
  "assertPublicFrom isIP [] = Inr ()"
| "assertPublicFrom isIP (address # addresses) =
     (case classifyIp isIP address of
        AddressBlocked family reason \<Rightarrow> Inl (''ssrf_blocked:'' @ blockReasonName reason)
      | AddressAllowed family \<Rightarrow> assertPublicFrom isIP addresses)"

definition assertPublicAddresses :: "(jstext \<Rightarrow> nat) \<Rightarrow> jstext list \<Rightarrow> string + unit" where
  "assertPublicAddresses isIP addresses =
     (if addresses = [] then Inl ''dns_no_answers'' else assertPublicFrom isIP addresses)"

section \<open>The ranges as intervals of octets\<close>

lemma all_ones: "(0xffffffff :: 32 word) = - 1"
  by simp

lemma masked_eq_iff:
  "x AND push_bit k (- 1) = y AND push_bit k (- 1) \<longleftrightarrow> unat x div 2 ^ k = unat y div 2 ^ k"
  for x y :: "'a::len word"
proof -
  have "x AND push_bit k (- 1) = y AND push_bit k (- 1) \<longleftrightarrow> drop_bit k x = drop_bit k y"
  proof
    assume eq: "x AND push_bit k (- 1) = y AND push_bit k (- 1)"
    show "drop_bit k x = drop_bit k y"
    proof (rule bit_eqI)
      fix n
      have "bit (x AND push_bit k (- 1)) (k + n) = bit (y AND push_bit k (- 1)) (k + n)"
        using eq by simp
      then show "bit (drop_bit k x) n = bit (drop_bit k y) n"
        by (auto simp: bit_simps dest: bit_imp_le_length)
    qed
  next
    assume eq: "drop_bit k x = drop_bit k y"
    show "x AND push_bit k (- 1) = y AND push_bit k (- 1)"
    proof (rule bit_eqI)
      fix n
      have "k \<le> n \<Longrightarrow> bit (drop_bit k x) (n - k) = bit (drop_bit k y) (n - k)"
        using eq by simp
      then show "bit (x AND push_bit k (- 1)) n = bit (y AND push_bit k (- 1)) n"
        by (auto simp: bit_simps)
    qed
  qed
  also have "\<dots> \<longleftrightarrow> unat x div 2 ^ k = unat y div 2 ^ k"
    unfolding word_unat_eq_iff unat_drop_bit_eq by (simp only: drop_bit_eq_div)
  finally show ?thesis .
qed

lemma isInV4Range_iff:
  assumes "0 < prefix" "prefix \<le> 32"
  shows "isInV4Range address network prefix \<longleftrightarrow>
    unat address div 2 ^ (32 - prefix) = unat network div 2 ^ (32 - prefix)"
  using assms unfolding isInV4Range_def Let_def all_ones masked_eq_iff by simp

lemma prefixMask_iff:
  assumes "used \<le> 16"
  shows "x AND prefixMask used = y AND prefixMask used \<longleftrightarrow>
    unat x div 2 ^ (16 - used) = unat y div 2 ^ (16 - used)"
proof -
  have ones: "(0xffff :: 16 word) = - 1" by simp
  show ?thesis
    using masked_eq_iff [of x "16 - used" y] unfolding prefixMask_def ones
    by (auto simp: word_unat_eq_iff)
qed

text \<open>A prefix of whole words and part of one, read as equal leading digits.\<close>

lemma hasPrefix_iff:
  "hasPrefix words prefix bits \<longleftrightarrow>
     (\<forall>i < (bits + 15) div 16.
        unat (words ! i) div 2 ^ (16 - min 16 (bits - i * 16)) =
        unat (if i < length prefix then prefix ! i else 0) div 2 ^ (16 - min 16 (bits - i * 16)))"
  by (auto simp: hasPrefix_def list_all_iff Let_def prefixMask_iff)

lemma V4_BLOCKS_eval:
  "V4_BLOCKS =
     [(0, 8, Unspecified), (0x0A000000, 8, PrivateNetwork), (0x64400000, 10, CarrierGradeNat),
      (0x7F000000, 8, Loopback), (0xA9FE0000, 16, LinkLocal), (0xAC100000, 12, PrivateNetwork),
      (0xC0000000, 24, Reserved), (0xC0000200, 24, Documentation), (0xC0586300, 24, Reserved),
      (0xC0A80000, 16, PrivateNetwork), (0xC6120000, 15, Benchmark),
      (0xC6336400, 24, Documentation), (0xCB007100, 24, Documentation),
      (0xE0000000, 4, Multicast), (0xF0000000, 4, Reserved)]"
  by code_simp

text \<open>The ranges a person reads, octet by octet.\<close>

definition reservedV4 :: "nat \<Rightarrow> nat \<Rightarrow> nat \<Rightarrow> IpBlockReason option" where
  "reservedV4 a b c =
     (if a = 0 then Some Unspecified
      else if a = 10 then Some PrivateNetwork
      else if a = 100 \<and> 64 \<le> b \<and> b \<le> 127 then Some CarrierGradeNat
      else if a = 127 then Some Loopback
      else if a = 169 \<and> b = 254 then Some LinkLocal
      else if a = 172 \<and> 16 \<le> b \<and> b \<le> 31 then Some PrivateNetwork
      else if a = 192 \<and> b = 0 \<and> c = 0 then Some Reserved
      else if a = 192 \<and> b = 0 \<and> c = 2 then Some Documentation
      else if a = 192 \<and> b = 88 \<and> c = 99 then Some Reserved
      else if a = 192 \<and> b = 168 then Some PrivateNetwork
      else if a = 198 \<and> (b = 18 \<or> b = 19) then Some Benchmark
      else if a = 198 \<and> b = 51 \<and> c = 100 then Some Documentation
      else if a = 203 \<and> b = 0 \<and> c = 113 then Some Documentation
      else if 224 \<le> a \<and> a \<le> 239 then Some Multicast
      else if 240 \<le> a then Some Reserved
      else None)"

definition octetWord :: "nat \<Rightarrow> nat \<Rightarrow> nat \<Rightarrow> nat \<Rightarrow> 32 word" where
  "octetWord a b c d = word_of_nat (a * 2 ^ 24 + b * 2 ^ 16 + c * 2 ^ 8 + d)"

lemma unat_octetWord:
  assumes "a \<le> 255" "b \<le> 255" "c \<le> 255" "d \<le> 255"
  shows "unat (octetWord a b c d) = a * 2 ^ 24 + b * 2 ^ 16 + c * 2 ^ 8 + d"
  unfolding octetWord_def unat_of_nat using assms by (simp add: take_bit_eq_mod)

lemma div_is: "0 < k \<Longrightarrow> n div k = m \<longleftrightarrow> m * k \<le> n \<and> n < (m + 1) * k" for n k m :: nat
  using div_nat_eqI [of k m n] by (auto simp: algebra_simps dividend_less_times_div div_times_less_eq_dividend)

lemma octet_leads:
  fixes a b c d :: nat
  assumes "a \<le> 255" "b \<le> 255" "c \<le> 255" "d \<le> 255"
  defines "n \<equiv> a * 2 ^ 24 + b * 2 ^ 16 + c * 2 ^ 8 + d"
  shows "n div 2 ^ 24 = a" "n div 2 ^ 16 = a * 256 + b" "n div 2 ^ 8 = (a * 256 + b) * 256 + c"
    "n div 2 ^ 28 = a div 16" "n div 2 ^ 22 = a * 4 + b div 64" "n div 2 ^ 20 = a * 16 + b div 16"
    "n div 2 ^ 17 = a * 128 + b div 2"
  using assms(1-4) unfolding n_def by simp_all

lemma octet_range:
  assumes "a \<le> 255" "b \<le> 255" "c \<le> 255" "d \<le> 255" "prefix + k = 32" "0 < prefix"
  shows "isInV4Range (octetWord a b c d) network prefix \<longleftrightarrow>
    (a * 2 ^ 24 + b * 2 ^ 16 + c * 2 ^ 8 + d) div 2 ^ k = unat network div 2 ^ k"
proof -
  have "32 - prefix = k" "prefix \<le> 32" using assms(5) by simp_all
  then show ?thesis
    using isInV4Range_iff [of prefix "octetWord a b c d" network] assms
    by (simp only: unat_octetWord)
qed

lemma octet_prefix:
  assumes "a \<le> 255" "b \<le> 255" "c \<le> 255" "d \<le> 255"
  shows
    "isInV4Range (octetWord a b c d) network 8 \<longleftrightarrow> a = unat network div 2 ^ 24"
    "isInV4Range (octetWord a b c d) network 16 \<longleftrightarrow> a * 256 + b = unat network div 2 ^ 16"
    "isInV4Range (octetWord a b c d) network 24 \<longleftrightarrow> (a * 256 + b) * 256 + c = unat network div 2 ^ 8"
    "isInV4Range (octetWord a b c d) network 4 \<longleftrightarrow> a div 16 = unat network div 2 ^ 28"
    "isInV4Range (octetWord a b c d) network 10 \<longleftrightarrow> a * 4 + b div 64 = unat network div 2 ^ 22"
    "isInV4Range (octetWord a b c d) network 12 \<longleftrightarrow> a * 16 + b div 16 = unat network div 2 ^ 20"
    "isInV4Range (octetWord a b c d) network 15 \<longleftrightarrow> a * 128 + b div 2 = unat network div 2 ^ 17"
  subgoal by (rule octet_range [OF assms, of 8 24, unfolded octet_leads(1) [OF assms]]) simp_all
  subgoal by (rule octet_range [OF assms, of 16 16, unfolded octet_leads(2) [OF assms]]) simp_all
  subgoal by (rule octet_range [OF assms, of 24 8, unfolded octet_leads(3) [OF assms]]) simp_all
  subgoal by (rule octet_range [OF assms, of 4 28, unfolded octet_leads(4) [OF assms]]) simp_all
  subgoal by (rule octet_range [OF assms, of 10 22, unfolded octet_leads(5) [OF assms]]) simp_all
  subgoal by (rule octet_range [OF assms, of 12 20, unfolded octet_leads(6) [OF assms]]) simp_all
  subgoal by (rule octet_range [OF assms, of 15 17, unfolded octet_leads(7) [OF assms]]) simp_all
  done

lemma place_value: "b < k \<Longrightarrow> a * k + b = m \<longleftrightarrow> a = m div k \<and> b = m mod k" for a b k m :: nat
  by auto

lemma octet_arith:
  fixes a b c :: nat
  assumes "a \<le> 255" "b \<le> 255" "c \<le> 255"
  shows
    "a * 4 + b div 64 = 401 \<longleftrightarrow> a = 100 \<and> 64 \<le> b \<and> b \<le> 127"
    "a * 256 + b = 43518 \<longleftrightarrow> a = 169 \<and> b = 254"
    "a * 16 + b div 16 = 2753 \<longleftrightarrow> a = 172 \<and> 16 \<le> b \<and> b \<le> 31"
    "(a * 256 + b) * 256 + c = 12582912 \<longleftrightarrow> a = 192 \<and> b = 0 \<and> c = 0"
    "(a * 256 + b) * 256 + c = 12582914 \<longleftrightarrow> a = 192 \<and> b = 0 \<and> c = 2"
    "(a * 256 + b) * 256 + c = 12605539 \<longleftrightarrow> a = 192 \<and> b = 88 \<and> c = 99"
    "a * 256 + b = 49320 \<longleftrightarrow> a = 192 \<and> b = 168"
    "a * 128 + b div 2 = 25353 \<longleftrightarrow> a = 198 \<and> (b = 18 \<or> b = 19)"
    "(a * 256 + b) * 256 + c = 12989284 \<longleftrightarrow> a = 198 \<and> b = 51 \<and> c = 100"
    "(a * 256 + b) * 256 + c = 13303921 \<longleftrightarrow> a = 203 \<and> b = 0 \<and> c = 113"
    "a div 16 = 14 \<longleftrightarrow> 224 \<le> a \<and> a \<le> 239"
    "a div 16 = 15 \<longleftrightarrow> 240 \<le> a"
  unfolding place_value [of c 256 "a * 256 + b", OF le_imp_less_Suc [OF assms(3), simplified]]
  using assms by (auto simp: place_value)

lemma octet_ranges:
  assumes "a \<le> 255" "b \<le> 255" "c \<le> 255" "d \<le> 255"
  shows
    "isInV4Range (octetWord a b c d) 0 8 \<longleftrightarrow> a = 0"
    "isInV4Range (octetWord a b c d) 0x0A000000 8 \<longleftrightarrow> a = 10"
    "isInV4Range (octetWord a b c d) 0x64400000 10 \<longleftrightarrow> a = 100 \<and> 64 \<le> b \<and> b \<le> 127"
    "isInV4Range (octetWord a b c d) 0x7F000000 8 \<longleftrightarrow> a = 127"
    "isInV4Range (octetWord a b c d) 0xA9FE0000 16 \<longleftrightarrow> a = 169 \<and> b = 254"
    "isInV4Range (octetWord a b c d) 0xAC100000 12 \<longleftrightarrow> a = 172 \<and> 16 \<le> b \<and> b \<le> 31"
    "isInV4Range (octetWord a b c d) 0xC0000000 24 \<longleftrightarrow> a = 192 \<and> b = 0 \<and> c = 0"
    "isInV4Range (octetWord a b c d) 0xC0000200 24 \<longleftrightarrow> a = 192 \<and> b = 0 \<and> c = 2"
    "isInV4Range (octetWord a b c d) 0xC0586300 24 \<longleftrightarrow> a = 192 \<and> b = 88 \<and> c = 99"
    "isInV4Range (octetWord a b c d) 0xC0A80000 16 \<longleftrightarrow> a = 192 \<and> b = 168"
    "isInV4Range (octetWord a b c d) 0xC6120000 15 \<longleftrightarrow> a = 198 \<and> (b = 18 \<or> b = 19)"
    "isInV4Range (octetWord a b c d) 0xC6336400 24 \<longleftrightarrow> a = 198 \<and> b = 51 \<and> c = 100"
    "isInV4Range (octetWord a b c d) 0xCB007100 24 \<longleftrightarrow> a = 203 \<and> b = 0 \<and> c = 113"
    "isInV4Range (octetWord a b c d) 0xE0000000 4 \<longleftrightarrow> 224 \<le> a \<and> a \<le> 239"
    "isInV4Range (octetWord a b c d) 0xF0000000 4 \<longleftrightarrow> 240 \<le> a"
  using octet_arith [OF assms(1-3)] by (simp_all add: octet_prefix [OF assms])

lemma blockedBy_octets:
  assumes "a \<le> 255" "b \<le> 255" "c \<le> 255" "d \<le> 255"
  shows "blockedBy V4_BLOCKS (octetWord a b c d) = reservedV4 a b c"
  by (simp only: V4_BLOCKS_eval blockedBy.simps octet_ranges [OF assms] reservedV4_def)

section \<open>Addresses written with dots\<close>

definition decimal :: "nat \<Rightarrow> jstext" where
  "decimal n = u (show_nat n)"

definition dotted :: "nat \<Rightarrow> nat \<Rightarrow> nat \<Rightarrow> nat \<Rightarrow> jstext" where
  "dotted a b c d = joinText (u ''.'') [decimal a, decimal b, decimal c, decimal d]"

lemma decimal_digits:
  "n < 10 \<Longrightarrow> decimal n = [48 + int n]"
  "10 \<le> n \<Longrightarrow> decimal n = decimal (n div 10) @ decimal (n mod 10)"
proof -
  assume "n < 10"
  then have "n \<in> {0, 1, 2, 3, 4, 5, 6, 7, 8, 9}" by auto
  then show "decimal n = [48 + int n]"
    by (auto simp: decimal_def show_nat_eval digitChar_def)
next
  assume "10 \<le> n"
  then show "decimal n = decimal (n div 10) @ decimal (n mod 10)"
    by (simp add: decimal_def show_nat_eval u_def)
qed

lemma decimal_octet:
  assumes "n \<le> 255"
  shows "isOctetText (decimal n)" "readBase 10 (decimal n) = int n" "46 \<notin> set (decimal n)"
    "37 \<notin> set (decimal n)" "58 \<notin> set (decimal n)" "lower (decimal n) = decimal n"
proof -
  have unit: "k < 10 \<Longrightarrow> isDigit (48 + int k) \<and> unitValue (48 + int k) = int k" for k
    by (simp add: isDigit_def unitValue_def)
  consider "n < 10" | "10 \<le> n" "n < 100" | "100 \<le> n" by linarith
  then have "isOctetText (decimal n) \<and> readBase 10 (decimal n) = int n"
  proof cases
    case 1
    then show ?thesis by (simp add: decimal_digits isOctetText_def unit readBase_def)
  next
    case 2
    then have "decimal n = [48 + int (n div 10), 48 + int (n mod 10)]"
      by (simp add: decimal_digits)
    moreover have "10 * int (n div 10) + int (n mod 10) = int n" by presburger
    ultimately show ?thesis using 2 by (simp add: isOctetText_def unit readBase_def)
  next
    case 3
    then have small: "n div 10 div 10 < 10" "10 \<le> n div 10" using assms by simp_all
    then have "decimal n = [48 + int (n div 10 div 10), 48 + int (n div 10 mod 10),
        48 + int (n mod 10)]"
      using 3 by (simp add: decimal_digits)
    moreover have "int (10 * (10 * (n div 10 div 10) + n div 10 mod 10) + n mod 10) = int n"
      by (simp only: mult_div_mod_eq)
    then have "10 * (10 * int (n div 10 div 10) + int (n div 10 mod 10)) + int (n mod 10) = int n"
      by (simp only: of_nat_add of_nat_mult of_nat_numeral)
    ultimately show ?thesis using small(1)
      by (simp add: isOctetText_def unit readBase_def del: of_nat_div of_nat_mod zdiv_int zmod_int)
  qed
  then show octet: "isOctetText (decimal n)" "readBase 10 (decimal n) = int n" by simp_all
  have digits: "list_all isDigit (decimal n)" using octet by (simp add: isOctetText_def)
  then show "46 \<notin> set (decimal n)" "37 \<notin> set (decimal n)" "58 \<notin> set (decimal n)"
    by (auto simp: list_all_iff isDigit_def)
  show "lower (decimal n) = decimal n"
    using digits
    by (auto simp: lower_def list_all_iff isDigit_def lowerUnit_def isUpper_def intro!: map_idI)
qed

lemma dot_unit: "u ''.'' = [46]"
  by simp

lemma v4_dotted:
  assumes "a \<le> 255" "b \<le> 255" "c \<le> 255" "d \<le> 255"
  shows "v4 (dotted a b c d) = Some (octetWord a b c d)"
proof -
  have "splitText (dotted a b c d) (u ''.'') = [decimal a, decimal b, decimal c, decimal d]"
    unfolding dotted_def dot_unit by (rule split_join_unit) (auto simp: decimal_octet assms)
  then show ?thesis
    using assms by (simp add: v4_def decimal_octet octetWord_def algebra_simps)
qed

section \<open>IPv4 addresses written as IPv6\<close>

lemma quad_needs_digit: "reads quadPattern (b, c # s) q \<Longrightarrow> isDigit c"
  by (auto simp: quadPattern_def plus1_def digit1_def reads_Seq_iff)

lemma reads_quad_step:
  assumes "list_all isDigit w" "w \<noteq> []"
    and "\<And>b. \<exists>q. reads r (b, s) q \<and> snd q = []"
  shows "\<exists>q. reads (Seq (plus1 digit1) (Seq (lit ''.'') r)) (b, w @ 46 # s) q \<and> snd q = []"
proof -
  obtain b' where "reads (plus1 digit1) (b, w @ 46 # s) (b', 46 # s)"
    using reads_plus_run [OF assms(1,2)] unfolding digit1_def by blast
  moreover have "reads (lit ''.'') (b', 46 # s) (Some 46, s)" by (simp add: lit_def unit1_def)
  moreover obtain q where "reads r (Some 46, s) q" "snd q = []" using assms(3) by blast
  ultimately show ?thesis unfolding reads_Seq_iff by blast
qed

lemma reads_quad:
  assumes "a \<le> 255" "b \<le> 255" "c \<le> 255" "d \<le> 255"
  shows "\<exists>q. reads quadPattern (e, dotted a b c d) q \<and> snd q = []"
proof -
  have digits: "list_all isDigit (decimal n) \<and> decimal n \<noteq> []" if "n \<le> 255" for n
    using decimal_octet(1) [OF that] by (auto simp: isOctetText_def)
  have last': "\<exists>q. reads (plus1 digit1) (e, decimal d) q \<and> snd q = []" for e
    using reads_plus_run [of isDigit "decimal d" e "[]"] digits [OF assms(4)]
    unfolding digit1_def by auto
  have dots: "dotted a b c d = decimal a @ 46 # decimal b @ 46 # decimal c @ 46 # decimal d"
    by (simp add: dotted_def)
  show ?thesis
    unfolding dots quadPattern_def seqs.simps
    using digits assms by (intro reads_quad_step last'; simp)
qed

lemma hexDigits_word:
  assumes "0 \<le> v" "v < 16 ^ n" "0 < n"
  shows "readBase 16 (hexDigits n v) = v \<and> 1 \<le> length (hexDigits n v)
    \<and> length (hexDigits n v) \<le> n
    \<and> list_all (\<lambda>c. isDigit c \<or> 97 \<le> c \<and> c \<le> 102) (hexDigits n v)"
  using assms
proof (induction n arbitrary: v)
  case (Suc n)
  have unit: "0 \<le> k \<Longrightarrow> k < 16 \<Longrightarrow>
      unitValue (digitUnit k) = k \<and> (isDigit (digitUnit k) \<or> 97 \<le> digitUnit k \<and> digitUnit k \<le> 102)"
    for k by (auto simp: unitValue_def digitUnit_def isDigit_def isLower_def)
  show ?case
  proof (cases "v < 16")
    case True
    with Suc.prems unit [of v] show ?thesis by (simp add: readBase_def)
  next
    case False
    then have "0 < n" using Suc.prems by (cases n) auto
    moreover have "0 \<le> v div 16" "v div 16 < 16 ^ n" using Suc.prems by simp_all
    ultimately have "readBase 16 (hexDigits n (v div 16)) = v div 16
        \<and> 1 \<le> length (hexDigits n (v div 16)) \<and> length (hexDigits n (v div 16)) \<le> n
        \<and> list_all (\<lambda>c. isDigit c \<or> 97 \<le> c \<and> c \<le> 102) (hexDigits n (v div 16))"
      by (intro Suc.IH)
    with False unit [of "v mod 16"] show ?thesis by (simp add: readBase_def)
  qed
qed simp

definition wordText :: "16 word \<Rightarrow> jstext" where
  "wordText w = hexDigits 4 (uint w)"

lemma wordText:
  "isHexWord (wordText w)" "word_of_int (readBase 16 (wordText w)) = w"
  "58 \<notin> set (wordText w)" "wordText w \<noteq> []"
proof -
  have "uint w < 16 ^ 4" using uint_bounded [of w] by simp
  then have word: "readBase 16 (wordText w) = uint w \<and> 1 \<le> length (wordText w)
      \<and> length (wordText w) \<le> 4
      \<and> list_all (\<lambda>c. isDigit c \<or> 97 \<le> c \<and> c \<le> 102) (wordText w)"
    unfolding wordText_def by (intro hexDigits_word) simp_all
  then show "isHexWord (wordText w)" "word_of_int (readBase 16 (wordText w)) = w"
    "wordText w \<noteq> []"
    by (auto simp: isHexWord_def)
  show "58 \<notin> set (wordText w)" using word by (auto simp: list_all_iff isDigit_def)
qed

lemma half_words:
  "uint (drop_bit 16 x AND 0xffff) = uint (ucast (drop_bit 16 x) :: 16 word)"
  "uint (x AND 0xffff) = uint (ucast x :: 16 word)" for x :: "32 word"
proof -
  have mask: "(0xffff :: 32 word) = mask 16" by (simp add: mask_eq_exp_minus_1)
  show "uint (drop_bit 16 x AND 0xffff) = uint (ucast (drop_bit 16 x) :: 16 word)"
    "uint (x AND 0xffff) = uint (ucast x :: 16 word)"
    unfolding mask by (rule bit_eqI; auto simp: bit_simps)+
qed

lemma halves_join:
  "push_bit 16 (ucast (ucast (drop_bit 16 x) :: 16 word)) OR ucast (ucast x :: 16 word) = x"
  for x :: "32 word"
  by (rule bit_word_eqI) (auto simp: bit_simps)

lemma splitOn_gap:
  assumes "c \<noteq> 58" "58 \<notin> set p"
  shows "splitOn [58, 58] piece (p @ 58 # c # s) = splitOn [58, 58] (58 # rev p @ piece) (c # s)"
  using assms(2) by (induction p arbitrary: piece) (use assms(1) in simp_all)

lemma splitOn_rest: "58 \<notin> set p \<Longrightarrow> splitOn [58, 58] piece p = [rev piece @ p]"
  by (induction p arbitrary: piece) simp_all

lemma split_mapped:
  assumes "58 \<notin> set h" "58 \<notin> set l" "h \<noteq> []" "l \<noteq> []"
  shows "splitText (u ''::ffff:'' @ h @ u '':'' @ l) (u ''::'') = [[], u ''ffff:'' @ h @ u '':'' @ l]"
proof -
  obtain h0 ht l0 lt where parts: "h = h0 # ht" "l = l0 # lt" "h0 \<noteq> 58" "l0 \<noteq> 58"
    using assms by (cases h; cases l) auto
  have "splitOn [58, 58] [] (u ''ffff'' @ 58 # h0 # (ht @ 58 # l)) =
      splitOn [58, 58] (58 # rev (u ''ffff'') @ []) (h @ 58 # l0 # lt)"
    unfolding parts(1,2) append_Cons using parts(3) by (intro splitOn_gap) simp_all
  also have "\<dots> = splitOn [58, 58] (58 # rev h @ 58 # rev (u ''ffff'')) l"
    unfolding parts(2) using splitOn_gap [OF parts(4) assms(1)] by simp
  also have "\<dots> = [u ''ffff:'' @ h @ 58 # l]" using assms(2) by (simp add: splitOn_rest)
  finally show ?thesis by (simp add: splitText_def parts(1))
qed

lemma parse_mapped:
  assumes "a \<le> 255" "b \<le> 255" "c \<le> 255" "d \<le> 255"
  defines "x \<equiv> octetWord a b c d"
  shows "parseIpv6 (u ''::ffff:'' @ dotted a b c d) =
    Some [0, 0, 0, 0, 0, 0xffff, ucast (drop_bit 16 x), ucast x]"
proof -
  let ?s = "u ''::ffff:'' @ dotted a b c d"
  let ?h = "wordText (ucast (drop_bit 16 x))" and ?l = "wordText (ucast x)"
  have lowered: "lower ?s = ?s"
    using assms(1-4) decimal_octet(6) by (simp add: dotted_def lower_def lowerUnit_def isUpper_def)
  have zone: "withoutZone ?s = ?s"
  proof -
    have "37 \<notin> set ?s" using assms(1-4) decimal_octet(4) by (simp add: dotted_def)
    then show ?thesis by (simp add: withoutZone_def indexOfUnit_None [symmetric])
  qed
  have "\<exists>others. matchAll Nothing quadPattern AtEnd ?s = dotted a b c d # others"
  proof -
    have skip: "\<not> isDigit e \<Longrightarrow> matchesFrom Nothing quadPattern AtEnd (Suc n) (f, e # s) =
        matchesFrom Nothing quadPattern AtEnd n (Some e, s)" for e f n s
      using quad_needs_digit by (intro matches_end_skip) blast
    obtain q where "reads quadPattern (Some 58, dotted a b c d) q" "snd q = []"
      using reads_quad [OF assms(1-4)] by blast
    then have "\<exists>others. matchesFrom Nothing quadPattern AtEnd (Suc (length (dotted a b c d)))
        (Some 58, dotted a b c d) = dotted a b c d # others"
      by (rule matches_end_hit)
    then show ?thesis by (simp add: matchAll_def skip isDigit_def del: matchesFrom.simps)
  qed
  then have tail: "tailAsWords ?s = Some (u ''::ffff:'' @ ?h @ u '':'' @ ?l)"
    by (auto simp: tailAsWords_def v4_dotted assms(1-4) half_words wordText_def
        simp flip: x_def simp del: u_simps)
  have halves: "splitText (u ''::ffff:'' @ ?h @ u '':'' @ ?l) (u ''::'') =
      [[], u ''ffff:'' @ ?h @ u '':'' @ ?l]"
    by (rule split_mapped) (simp_all add: wordText)
  have right: "splitText (u ''ffff:'' @ ?h @ u '':'' @ ?l) (u '':'') = [u ''ffff'', ?h, ?l]"
    using split_join_unit [of "[u ''ffff'', ?h, ?l]" 58] wordText(3) by simp
  have parts: "colonParts [[], u ''ffff:'' @ ?h @ u '':'' @ ?l] 0 = []"
    "colonParts [[], u ''ffff:'' @ ?h @ u '':'' @ ?l] 1 = [u ''ffff'', ?h, ?l]"
    using right by (simp_all add: colonParts_def wordText(4) del: u_simps)
  have zeros: "replicate 5 z = [z, z, z, z, z]" for z :: jstext by (simp add: numeral_eq_Suc)
  have words: "isHexWord (u ''0'')" "isHexWord (u ''ffff'')"
    "word_of_int (readBase 16 (u ''0'')) = (0 :: 16 word)"
    "word_of_int (readBase 16 (u ''ffff'')) = (0xffff :: 16 word)"
    by code_simp+
  show ?thesis
    unfolding parseIpv6_def lowered zone tail
    by (simp add: halves parts parts(2) [unfolded One_nat_def] Let_def words wordText zeros
        del: u_simps)
qed

lemma mapped_prefixes:
  "\<not> hasPrefix (0 # words) [0xfc00] 7" "\<not> hasPrefix (0 # words) [0xfe80] 10"
  "\<not> hasPrefix (0 # words) [0xff00] 8" "\<not> hasPrefix (0 # words) [0x2001, 0x0db8] 32"
  "\<not> hasPrefix (0 # words) [0x2001, 0x0002] 48" "\<not> hasPrefix (0 # words) [0x2001, 0x0010] 28"
  by (simp_all add: hasPrefix_def prefixMask_def list_all_iff Let_def)
    (rule bexI [of _ 0]; simp)+

lemma classify_mapped:
  "classifyV6 [0, 0, 0, 0, 0, 0xffff, ucast (drop_bit 16 x), ucast x] =
   (case blockedBy V4_BLOCKS x of
      Some reason \<Rightarrow> AddressBlocked (Some 6) reason
    | None \<Rightarrow> AddressAllowed 6)"
proof -
  have "hasPrefix [0, 0, 0, 0, 0, 0xffff, h, l] [0, 0, 0, 0, 0, 0xffff] 96" for h l
    by (simp add: hasPrefix_def prefixMask_def Let_def list_all_iff nth_Cons split: nat.split)
  then show ?thesis by (simp add: classifyV6_def mapped_prefixes halves_join)
qed

section \<open>Properties\<close>

text \<open>C33: The verdict on an IPv4 address is the one of the range its octets lie in, and the
  same address written as IPv6, with the four octets or as any text whose eight words are its
  mapping, gets the same verdict: an address the scanner may not open cannot be opened by
  spelling it another way.\<close>

theorem every_spelling_has_the_same_verdict:
  assumes "a \<le> 255" "b \<le> 255" "c \<le> 255" "d \<le> 255"
    and "isIP (dotted a b c d) = 4" and "isIP spelled = 6"
    and "spelled = u ''::ffff:'' @ dotted a b c d
         \<or> parseIpv6 spelled = parseIpv6 (u ''::ffff:'' @ dotted a b c d)"
  shows "classifyIp isIP (dotted a b c d) =
      (case reservedV4 a b c of Some reason \<Rightarrow> AddressBlocked (Some 4) reason
       | None \<Rightarrow> AddressAllowed 4)
    \<and> classifyIp isIP spelled =
      (case reservedV4 a b c of Some reason \<Rightarrow> AddressBlocked (Some 6) reason
       | None \<Rightarrow> AddressAllowed 6)"
proof -
  have "parseIpv6 spelled = Some [0, 0, 0, 0, 0, 0xffff, ucast (drop_bit 16 (octetWord a b c d)),
      ucast (octetWord a b c d)]"
    using assms(7) parse_mapped [OF assms(1-4)] by auto
  then show ?thesis
    by (simp add: classifyIp_def assms v4_dotted blockedBy_octets classify_mapped)
qed

theorem every_spelling_has_the_same_verdict_witness:
  "classifyIp (\<lambda>t. if 58 \<in> set t then 6 else 4) (u ''::ffff:a9fe:a9fe'') =
     AddressBlocked (Some 6) LinkLocal"
proof -
  have texts: "u ''::ffff:'' @ dotted 169 254 169 254 = u ''::ffff:169.254.169.254''"
    by code_simp
  have "parseIpv6 (u ''::ffff:a9fe:a9fe'') = parseIpv6 (u ''::ffff:169.254.169.254'')"
    by code_simp
  moreover have "58 \<notin> set (dotted 169 254 169 254)" by code_simp
  ultimately show ?thesis
    using every_spelling_has_the_same_verdict [of 169 254 169 254
        "\<lambda>t. if 58 \<in> set t then 6 else 4" "u ''::ffff:a9fe:a9fe''"] texts
    by (simp add: reservedV4_def)
qed

text \<open>The blocks of IPv6 the scanner stays out of, as intervals of the leading words.\<close>

definition reservedV6 :: "nat list \<Rightarrow> bool" where
  "reservedV6 ws \<longleftrightarrow>
     ws = [0, 0, 0, 0, 0, 0, 0, 0] \<or> ws = [0, 0, 0, 0, 0, 0, 0, 1]
     \<or> 0xfc00 \<le> ws ! 0 \<and> ws ! 0 \<le> 0xfdff
     \<or> 0xfe80 \<le> ws ! 0 \<and> ws ! 0 \<le> 0xfebf
     \<or> 0xff00 \<le> ws ! 0
     \<or> ws ! 0 = 0x2001 \<and> (ws ! 1 = 0x0db8 \<or> ws ! 1 = 2 \<and> ws ! 2 = 0
                          \<or> 0x10 \<le> ws ! 1 \<and> ws ! 1 \<le> 0x1f)"

lemma length_parseIpv6: "parseIpv6 address = Some words \<Longrightarrow> length words = 8"
  by (auto simp: parseIpv6_def Let_def split: option.splits if_splits)

lemma eight_words:
  "length ws = 8 \<Longrightarrow> ws = [ws ! 0, ws ! 1, ws ! 2, ws ! 3, ws ! 4, ws ! 5, ws ! 6, ws ! 7]"
  by (rule nth_equalityI) (auto simp: nth_Cons eval_nat_numeral less_Suc_eq)

lemma prefix_of_word:
  assumes "1 \<le> bits" "bits \<le> 16"
  shows "hasPrefix (w # ws) [p] bits \<longleftrightarrow> unat w div 2 ^ (16 - bits) = unat p div 2 ^ (16 - bits)"
proof -
  have "(bits + 15) div 16 = 1" using assms by simp
  then show ?thesis using assms by (simp add: hasPrefix_iff min_absorb2)
qed

lemma below_two_three: "(\<forall>i < 2. P i) \<longleftrightarrow> P 0 \<and> P (1 :: nat)"
  "(\<forall>i < 3. P i) \<longleftrightarrow> P 0 \<and> P 1 \<and> P (2 :: nat)"
  by (auto simp: eval_nat_numeral less_Suc_eq)

lemma prefix_of_words:
  "hasPrefix (w # v # ws) [p, q] 32 \<longleftrightarrow> w = p \<and> v = q"
  "hasPrefix (w # v # ws) [p, q] 28 \<longleftrightarrow> w = p \<and> unat v div 16 = unat q div 16"
  "hasPrefix (w # v # t # ws) [p, q] 48 \<longleftrightarrow> w = p \<and> v = q \<and> t = 0"
  by (simp_all add: hasPrefix_iff below_two_three flip: word_unat_eq_iff)

lemma classifyV6_reserved:
  assumes "length words = 8" "classifyV6 words = AddressAllowed family"
  shows "\<not> reservedV6 (map unat words)"
proof -
  obtain w0 w1 w2 w3 w4 w5 w6 w7 where words: "words = [w0, w1, w2, w3, w4, w5, w6, w7]"
    using eight_words [OF assms(1)] by blast
  have bound: "unat w0 < 2 ^ 16" using unsigned_less [of w0] by simp
  note allowed = assms(2) [unfolded words classifyV6_def]
  from allowed have not: "\<not> hasPrefix words [0xfc00] 7" "\<not> hasPrefix words [0xfe80] 10"
    "\<not> hasPrefix words [0xff00] 8" "\<not> hasPrefix words [0x2001, 0x0db8] 32"
    "\<not> hasPrefix words [0x2001, 0x0002] 48" "\<not> hasPrefix words [0x2001, 0x0010] 28"
    "words \<noteq> [0, 0, 0, 0, 0, 0, 0, 0]" "words \<noteq> [0, 0, 0, 0, 0, 0, 0, 1]"
    unfolding words by (auto split: if_splits)
  have divs: "unat w0 div 512 \<noteq> 126" "unat w0 div 64 \<noteq> 1018" "unat w0 div 256 \<noteq> 255"
    and pairs: "\<not> (w0 = 0x2001 \<and> w1 = 0x0db8)" "\<not> (w0 = 0x2001 \<and> w1 = 2 \<and> w2 = 0)"
    "\<not> (w0 = 0x2001 \<and> unat w1 div 16 = 1)"
    using not(1-6) unfolding words prefix_of_words by (simp_all add: prefix_of_word)
  have "\<not> (0xfc00 \<le> unat w0 \<and> unat w0 \<le> 0xfdff)" "\<not> (0xfe80 \<le> unat w0 \<and> unat w0 \<le> 0xfebf)"
    "\<not> 0xff00 \<le> unat w0"
    using divs bound by (auto simp: div_is)
  moreover have "\<not> (unat w0 = 0x2001 \<and> unat w1 = 0x0db8)"
    "\<not> (unat w0 = 0x2001 \<and> unat w1 = 2 \<and> unat w2 = 0)"
    using pairs(1,2) by (auto simp: word_unat_eq_iff)
  moreover have "\<not> (unat w0 = 0x2001 \<and> 0x10 \<le> unat w1 \<and> unat w1 \<le> 0x1f)"
    using pairs(3) by (auto simp: word_unat_eq_iff div_is)
  moreover have "map unat words \<noteq> [0, 0, 0, 0, 0, 0, 0, 0]" "map unat words \<noteq> [0, 0, 0, 0, 0, 0, 0, 1]"
    using not(7,8) unfolding words by (auto simp: word_unat_eq_iff)
  ultimately show ?thesis unfolding reservedV6_def words by simp
qed

lemma assertPublicFrom_Inr:
  "assertPublicFrom isIP addresses = Inr () \<longleftrightarrow>
     (\<forall>address \<in> set addresses. \<exists>family. classifyIp isIP address = AddressAllowed family)"
  by (induction addresses) (auto split: IpClassification.splits)

text \<open>A DNS answer passes only when it names at least one address and every address in it
  is public: none lies in a reserved range of IPv4 or in a block of IPv6 that is private,
  local, multicast, documentation, benchmark or the mapping of such an IPv4 address. One
  private address among public ones refuses the whole answer.\<close>

theorem only_public_answers_pass:
  assumes "assertPublicAddresses isIP addresses = Inr ()"
  shows "addresses \<noteq> []
    \<and> (\<forall>address \<in> set addresses.
         (isIP address = 4
            \<and> (\<exists>x. v4 address = Some x
                 \<and> (\<forall>(network, prefix, reason) \<in> set V4_BLOCKS.
                      unat x div 2 ^ (32 - prefix) \<noteq> unat network div 2 ^ (32 - prefix))))
         \<or> (isIP address = 6
            \<and> (\<exists>words. parseIpv6 address = Some words \<and> \<not> reservedV6 (map unat words))))"
proof (intro conjI ballI)
  show "addresses \<noteq> []" using assms by (auto simp: assertPublicAddresses_def)
next
  fix address
  assume "address \<in> set addresses"
  with assms obtain family where allowed: "classifyIp isIP address = AddressAllowed family"
    by (auto simp: assertPublicAddresses_def assertPublicFrom_Inr split: if_splits)
  have none: "blockedBy ranges x = None \<Longrightarrow> (network, prefix, reason) \<in> set ranges
      \<Longrightarrow> \<not> isInV4Range x network prefix" for ranges x network prefix reason
    by (induction ranges) (auto split: if_splits)
  have blocks: "\<forall>(network, prefix, reason) \<in> set V4_BLOCKS. 0 < prefix \<and> prefix \<le> 32"
    by (simp add: V4_BLOCKS_eval)
  from allowed consider
    (four) x where "isIP address = 4" "v4 address = Some x" "blockedBy V4_BLOCKS x = None"
  | (six) words where "isIP address = 6" "parseIpv6 address = Some words"
      "classifyV6 words = AddressAllowed family"
    by (auto simp: classifyIp_def Let_def split: if_splits option.splits)
  then show "(isIP address = 4
            \<and> (\<exists>x. v4 address = Some x
                 \<and> (\<forall>(network, prefix, reason) \<in> set V4_BLOCKS.
                      unat x div 2 ^ (32 - prefix) \<noteq> unat network div 2 ^ (32 - prefix))))
         \<or> (isIP address = 6
            \<and> (\<exists>words. parseIpv6 address = Some words \<and> \<not> reservedV6 (map unat words)))"
  proof cases
    case four
    have "unat x div 2 ^ (32 - prefix) \<noteq> unat network div 2 ^ (32 - prefix)"
      if range: "(network, prefix, reason) \<in> set V4_BLOCKS" for network prefix reason
    proof -
      have "0 < prefix" "prefix \<le> 32" using blocks range by (auto dest: bspec)
      with none [OF four(3) range] show ?thesis by (simp add: isInV4Range_iff)
    qed
    with four show ?thesis by blast
  next
    case six
    then show ?thesis using classifyV6_reserved [OF length_parseIpv6] by blast
  qed
qed

theorem only_public_answers_pass_witness:
  "\<exists>x. v4 (u ''8.8.8.8'') = Some x
     \<and> (\<forall>(network, prefix, reason) \<in> set V4_BLOCKS.
          unat x div 2 ^ (32 - prefix) \<noteq> unat network div 2 ^ (32 - prefix))"
proof -
  have "assertPublicAddresses (\<lambda>t. if 58 \<in> set t then 6 else 4)
      [u ''8.8.8.8'', u ''2606:4700:4700::1111''] = Inr ()"
    by code_simp
  from only_public_answers_pass [OF this] show ?thesis by simp
qed

end
