(* ===== verification/Scanner_Url.thy ===== *)
theory Scanner_Url
  imports Scanner_Ip
begin

text \<open>
  The target policy of \<open>packages/scanner/src/url.ts\<close>: which address a person may ask the
  scanner to open, and which redirect it may follow. Parsing and writing a \<open>URL\<close> is the
  platform's and a parameter, as is \<open>isIP\<close>: nothing is assumed of either, and the parts of a
  parsed address are a record whose fields the code reads and sets. A thrown
  \<open>UrlPolicyError\<close> is the left injection of its code.
\<close>

record Url =
  protocol :: jstext
  urlUsername :: jstext
  urlPassword :: jstext
  hostname :: jstext
  urlPort :: jstext
  pathname :: jstext
  searchParams :: "(jstext \<times> jstext) list"
  urlHash :: jstext

record UrlPlatform =
  parseUrl :: "jstext \<Rightarrow> Url option"
  resolveUrl :: "jstext \<Rightarrow> Url \<Rightarrow> Url option"
  urlToString :: "Url \<Rightarrow> jstext"
  originOf :: "Url \<Rightarrow> jstext"
  isIPof :: "jstext \<Rightarrow> nat"

definition TRACKING_KEY :: rx where
  "TRACKING_KEY =
     seqs [AtStart, alts [Seq (litI ''utm_'') (plus1 dot1), litI ''fbclid'', litI ''gclid''], AtEnd]"

definition SECRET_KEY :: rx where
  "SECRET_KEY =
     seqs [alts [AtStart, oneOf ''_-''],
           alts (map litI [''token'', ''key'', ''secret'', ''password'', ''signature'', ''auth'']),
           alts [AtEnd, oneOf ''_-'']]"

definition BLOCKED_HOST_SUFFIX :: rx where
  "BLOCKED_HOST_SUFFIX =
     seqs [alts [AtStart, lit ''.''], alts (map litI [''localhost'', ''local'', ''internal'']), AtEnd]"

definition hexDigitI :: rx where
  "hexDigitI = One (\<lambda>c. isDigit c \<or> (97 \<le> c \<and> c \<le> 102) \<or> (65 \<le> c \<and> c \<le> 70))"

definition octalDigit :: rx where
  "octalDigit = One (\<lambda>c. 48 \<le> c \<and> c \<le> 55)"

definition wholeNumber :: rx where
  "wholeNumber =
     seqs [AtStart, alts [Seq (litI ''0x'') (plus1 hexDigitI), plus1 digit1], AtEnd]"

definition numberPart :: rx where
  "numberPart =
     seqs [AtStart,
           alts [Seq (litI ''0x'') (plus1 hexDigitI), Seq (lit ''0'') (plus1 octalDigit), plus1 digit1],
           AtEnd]"

definition looksLikeObfuscatedIpv4 :: "jstext \<Rightarrow> bool" where
  "looksLikeObfuscatedIpv4 host =
     (if test wholeNumber host then True
      else
        let parts = splitText host (u ''.'')
        in 0 < length parts \<and> list_all (test numberPart) parts
           \<and> list_ex (\<lambda>part. startsWith part (u ''0x'')
                        \<or> 1 < length part \<and> startsWith part (u ''0'')) parts)"

definition schemePattern :: rx where
  "schemePattern =
     seqs [AtStart, One (\<lambda>c. isLower c \<or> isUpper c),
           star (One (\<lambda>c. isLower c \<or> isUpper c \<or> isDigit c \<or> c \<in> set (u ''+.-''))), lit '':'']"

definition withoutBrackets :: "jstext \<Rightarrow> jstext" where
  "withoutBrackets host =
     replaceAll (alts [Seq AtStart (lit ''[''), Seq (lit '']'') AtEnd]) [] host"

definition deleteParams :: "jstext list \<Rightarrow> (jstext \<times> jstext) list \<Rightarrow> (jstext \<times> jstext) list" where
  "deleteParams keys params =
     foldl (\<lambda>left key. if test TRACKING_KEY key then filter (\<lambda>(k, v). k \<noteq> key) left else left)
       params keys"

definition canonicalizeTarget :: "UrlPlatform \<Rightarrow> jstext \<Rightarrow> string + Url" where
  "canonicalizeTarget p input =
     (let trimmed = trim input in
      if trimmed = [] then Inl ''url_empty''
      else if 2048 < int (length trimmed) then Inl ''url_too_long''
      else
        (case parseUrl p (if test schemePattern trimmed then trimmed else u ''https://'' @ trimmed) of
           None \<Rightarrow> Inl ''url_invalid''
         | Some url \<Rightarrow>
             if protocol url \<noteq> u ''http:'' \<and> protocol url \<noteq> u ''https:'' then Inl ''scheme_blocked''
             else if urlUsername url \<noteq> [] \<or> urlPassword url \<noteq> [] then Inl ''credentials_blocked''
             else if 253 < int (length (hostname url)) then Inl ''hostname_too_long''
             else if test BLOCKED_HOST_SUFFIX (hostname url) then Inl ''hostname_blocked''
             else
               (let numericCandidate = withoutBrackets (hostname url) in
                if isIPof p numericCandidate \<noteq> 0 \<or> looksLikeObfuscatedIpv4 numericCandidate then
                  Inl ''numeric_host_blocked''
                else if urlPort url \<noteq> [] \<and> urlPort url \<noteq> u ''80'' \<and> urlPort url \<noteq> u ''443'' then
                  Inl ''port_blocked''
                else
                  (let keys = map fst (searchParams url) in
                   if list_ex (test SECRET_KEY) keys then Inl ''secret_query_blocked''
                   else
                     (let cleaned = url\<lparr>searchParams := deleteParams keys (searchParams url),
                                       urlHash := [], hostname := lower (hostname url)\<rparr>
                      in Inr (if protocol cleaned = u ''https:'' \<and> urlPort cleaned = u ''443''
                                 \<or> protocol cleaned = u ''http:'' \<and> urlPort cleaned = u ''80''
                              then cleaned\<lparr>urlPort := []\<rparr> else cleaned)))))) "

definition validateRedirect :: "UrlPlatform \<Rightarrow> Url \<Rightarrow> jstext \<Rightarrow> string + Url" where
  "validateRedirect p from location =
     (case resolveUrl p location from of
        None \<Rightarrow> Inl ''redirect_invalid''
      | Some resolved \<Rightarrow>
          (case canonicalizeTarget p (urlToString p resolved) of
             Inl code \<Rightarrow> Inl code
           | Inr candidate \<Rightarrow>
               if protocol from = u ''https:'' \<and> protocol candidate \<noteq> u ''https:'' then
                 Inl ''redirect_downgrade_blocked''
               else Inr candidate))"

definition sameOrigin :: "UrlPlatform \<Rightarrow> Url \<Rightarrow> Url \<Rightarrow> bool" where
  "sameOrigin p left right \<longleftrightarrow> originOf p left = originOf p right"

section \<open>What is let through\<close>

lemma lowerUnit_upper: "isUpper c \<Longrightarrow> lowerUnit c = c + 32"
  by (simp add: lowerUnit_def)

lemma deleted_params:
  "set (deleteParams keys params) =
     {(k, v) \<in> set params. \<not> (k \<in> set keys \<and> test TRACKING_KEY k)}"
proof -
  have "set (foldl (\<lambda>left key. if test TRACKING_KEY key then filter (\<lambda>(k, v). k \<noteq> key) left else left)
      ps keys) = {(k, v) \<in> set ps. \<not> (k \<in> set keys \<and> test TRACKING_KEY k)}" for ps
    by (induction keys arbitrary: ps) auto
  then show ?thesis by (simp add: deleteParams_def)
qed

text \<open>What a target may be: the rules of the policy, on the parts of the address.\<close>

definition safeTarget :: "UrlPlatform \<Rightarrow> Url \<Rightarrow> bool" where
  "safeTarget p url \<longleftrightarrow>
     protocol url \<in> {u ''http:'', u ''https:''} \<and> urlUsername url = [] \<and> urlPassword url = []
     \<and> urlPort url \<in> {[], u ''80'', u ''443''}
     \<and> \<not> (protocol url = u ''https:'' \<and> urlPort url = u ''443'')
     \<and> \<not> (protocol url = u ''http:'' \<and> urlPort url = u ''80'')
     \<and> lower (hostname url) = hostname url \<and> length (hostname url) \<le> 253
     \<and> urlHash url = []
     \<and> (\<forall>(key, v) \<in> set (searchParams url). \<not> test SECRET_KEY key \<and> \<not> test TRACKING_KEY key)"

lemma canonical_parts:
  assumes "canonicalizeTarget p input = Inr url"
  obtains parsed :: Url where
    "protocol parsed = u ''http:'' \<or> protocol parsed = u ''https:''"
    "urlUsername parsed = []" "urlPassword parsed = []" "length (hostname parsed) \<le> 253"
    "\<not> test BLOCKED_HOST_SUFFIX (hostname parsed)"
    "isIPof p (withoutBrackets (hostname parsed)) = 0"
    "\<not> looksLikeObfuscatedIpv4 (withoutBrackets (hostname parsed))"
    "urlPort parsed = [] \<or> urlPort parsed = u ''80'' \<or> urlPort parsed = u ''443''"
    "\<forall>key \<in> set (map fst (searchParams parsed)). \<not> test SECRET_KEY key"
    "url =
      (let cleaned = parsed\<lparr>searchParams := deleteParams (map fst (searchParams parsed)) (searchParams parsed),
                            urlHash := [], hostname := lower (hostname parsed)\<rparr>
       in if protocol cleaned = u ''https:'' \<and> urlPort cleaned = u ''443''
             \<or> protocol cleaned = u ''http:'' \<and> urlPort cleaned = u ''80''
          then cleaned\<lparr>urlPort := []\<rparr> else cleaned)"
  using assms unfolding canonicalizeTarget_def Let_def
  by (auto simp: list_ex_iff split: if_splits option.splits simp del: u_simps)

lemma canonical_is_safe:
  assumes "canonicalizeTarget p input = Inr url"
  shows "safeTarget p url"
  using assms
proof (rule canonical_parts)
  fix parsed :: Url
  assume parts: "protocol parsed = u ''http:'' \<or> protocol parsed = u ''https:''"
    "urlUsername parsed = []" "urlPassword parsed = []" "length (hostname parsed) \<le> 253"
    "urlPort parsed = [] \<or> urlPort parsed = u ''80'' \<or> urlPort parsed = u ''443''"
    "\<forall>key \<in> set (map fst (searchParams parsed)). \<not> test SECRET_KEY key"
    "url =
      (let cleaned = parsed\<lparr>searchParams := deleteParams (map fst (searchParams parsed)) (searchParams parsed),
                            urlHash := [], hostname := lower (hostname parsed)\<rparr>
       in if protocol cleaned = u ''https:'' \<and> urlPort cleaned = u ''443''
             \<or> protocol cleaned = u ''http:'' \<and> urlPort cleaned = u ''80''
          then cleaned\<lparr>urlPort := []\<rparr> else cleaned)"
  have params: "\<forall>(key, v) \<in> set (deleteParams (map fst (searchParams parsed)) (searchParams parsed)).
      \<not> test SECRET_KEY key \<and> \<not> test TRACKING_KEY key"
    using parts(6) by (force simp: deleted_params)
  have "length (lower (hostname parsed)) = length (hostname parsed)" by (simp add: lower_def)
  then show ?thesis
    using parts(1-5) params unfolding parts(7) safeTarget_def Let_def by auto
qed

lemma canonical_host:
  assumes "canonicalizeTarget p input = Inr url"
  shows "\<exists>parsed :: Url. hostname url = lower (hostname parsed)
         \<and> \<not> test BLOCKED_HOST_SUFFIX (hostname parsed)
         \<and> isIPof p (withoutBrackets (hostname parsed)) = 0
         \<and> \<not> looksLikeObfuscatedIpv4 (withoutBrackets (hostname parsed))"
  using assms
proof (rule canonical_parts)
  fix parsed :: Url
  assume host: "\<not> test BLOCKED_HOST_SUFFIX (hostname parsed)"
    "isIPof p (withoutBrackets (hostname parsed)) = 0"
    "\<not> looksLikeObfuscatedIpv4 (withoutBrackets (hostname parsed))"
    "url =
      (let cleaned = parsed\<lparr>searchParams := deleteParams (map fst (searchParams parsed)) (searchParams parsed),
                            urlHash := [], hostname := lower (hostname parsed)\<rparr>
       in if protocol cleaned = u ''https:'' \<and> urlPort cleaned = u ''443''
             \<or> protocol cleaned = u ''http:'' \<and> urlPort cleaned = u ''80''
          then cleaned\<lparr>urlPort := []\<rparr> else cleaned)"
  then have "hostname url = lower (hostname parsed)" by (simp add: Let_def del: u_simps)
  with host(1-3) show ?thesis by blast
qed

text \<open>An address the scanner agrees to open is http or https on its usual port, without
  credentials, on a host of at most 253 units in lower case that was neither an internal name
  nor an address in numbers in any spelling, and its query carries neither a secret nor a
  tracking key. A redirect it follows is such an address too, and never leaves https for
  http.\<close>

theorem only_safe_targets:
  assumes "validateRedirect p from location = Inr url"
  shows "safeTarget p url \<and> (protocol from = u ''https:'' \<longrightarrow> protocol url = u ''https:'')
    \<and> (\<exists>parsed :: Url. hostname url = lower (hostname parsed)
         \<and> \<not> test BLOCKED_HOST_SUFFIX (hostname parsed)
         \<and> isIPof p (withoutBrackets (hostname parsed)) = 0
         \<and> \<not> looksLikeObfuscatedIpv4 (withoutBrackets (hostname parsed)))"
proof -
  obtain input where target: "canonicalizeTarget p input = Inr url"
    and kept: "protocol from = u ''https:'' \<longrightarrow> protocol url = u ''https:''"
    using assms by (auto simp: validateRedirect_def split: option.splits sum.splits if_splits
        simp del: u_simps)
  have "\<exists>parsed :: Url. hostname url = lower (hostname parsed)
         \<and> \<not> test BLOCKED_HOST_SUFFIX (hostname parsed)
         \<and> isIPof p (withoutBrackets (hostname parsed)) = 0
         \<and> \<not> looksLikeObfuscatedIpv4 (withoutBrackets (hostname parsed))"
    by (rule canonical_host [OF target])
  with canonical_is_safe [OF target] kept show ?thesis by blast
qed

text \<open>A platform on which every address parses to one page of a shop.\<close>

definition shopUrl :: Url where
  "shopUrl =
     \<lparr>protocol = u ''https:'', urlUsername = [], urlPassword = [], hostname = u ''Shop.example'',
      urlPort = u ''443'', pathname = u ''/a'', searchParams = [(u ''utm_source'', u ''x''), (u ''ok'', u ''1'')],
      urlHash = u ''#top''\<rparr>"

definition shopPlatform :: UrlPlatform where
  "shopPlatform =
     \<lparr>parseUrl = (\<lambda>_. Some shopUrl), resolveUrl = (\<lambda>_ _. Some shopUrl),
      urlToString = (\<lambda>_. u ''https://shop.example/a''), originOf = hostname, isIPof = (\<lambda>_. 0)\<rparr>"

theorem only_safe_targets_witness:
  "\<exists>url. validateRedirect shopPlatform shopUrl (u ''/a'') = Inr url \<and> safeTarget shopPlatform url
     \<and> searchParams url = [(u ''ok'', u ''1'')]"
proof -
  have redirect: "validateRedirect shopPlatform shopUrl (u ''/a'') =
    Inr (shopUrl\<lparr>searchParams := [(u ''ok'', u ''1'')], urlHash := [], hostname := u ''shop.example'',
                 urlPort := []\<rparr>)"
    by code_simp
  have "safeTarget shopPlatform (shopUrl\<lparr>searchParams := [(u ''ok'', u ''1'')], urlHash := [],
      hostname := u ''shop.example'', urlPort := []\<rparr>)"
    using only_safe_targets [OF redirect] by (elim conjE)
  with redirect show ?thesis by (intro exI conjI) (assumption, assumption, simp)
qed

end
