(* ===== verification/Js_Json.thy ===== *)
theory Js_Json
  imports Js_Text "HOL-Library.AList"
begin

text \<open>
  \<open>JSON.parse\<close> and \<open>JSON.stringify\<close>, for the documents the scanner reads. A number is kept as
  the rational its digits say; an object is an association list in insertion order, in which
  a repeated key keeps its first place and its last value. The parser runs on fuel, one unit
  a call; \<open>parse_enough_fuel\<close> shows that what \<open>jsonParse\<close> gives it is enough: no larger
  amount changes the answer on any text.
\<close>

datatype json =
    JNull
  | JBool bool
  | JNum rat
  | JStr jstext
  | JArr "json list"
  | JObj "(jstext \<times> json) list"

section \<open>Parsing\<close>

definition isJsonSpace :: "int \<Rightarrow> bool" where
  "isJsonSpace c \<longleftrightarrow> c = 9 \<or> c = 10 \<or> c = 13 \<or> c = 32"

definition skipSpace :: "jstext \<Rightarrow> jstext" where
  "skipSpace s = dropWhile isJsonSpace s"

definition isHexUnit :: "int \<Rightarrow> bool" where
  "isHexUnit c \<longleftrightarrow> isDigit c \<or> (97 \<le> c \<and> c \<le> 102) \<or> (65 \<le> c \<and> c \<le> 70)"

text \<open>The escapes of one letter.\<close>

definition escapedUnit :: "int \<Rightarrow> int option" where
  "escapedUnit c =
     map_of [(34, 34), (92, 92), (47, 47), (98, 8), (102, 12), (110, 10), (114, 13), (116, 9)] c"

fun parseChars :: "jstext \<Rightarrow> (jstext \<times> jstext) option" where
  "parseChars [] = None"
| "parseChars (c # s) =
     (if c = 34 then Some ([], s)
      else if c < 32 then None
      else if c = 92 then
        (case s of
           [] \<Rightarrow> None
         | e # t \<Rightarrow>
             (if e = 117 then
                (case t of
                   h1 # h2 # h3 # h4 # r \<Rightarrow>
                     (if list_all isHexUnit [h1, h2, h3, h4]
                      then map_option (\<lambda>(w, rest). (readBase 16 [h1, h2, h3, h4] # w, rest))
                             (parseChars r)
                      else None)
                 | _ \<Rightarrow> None)
              else
                (case escapedUnit e of
                   None \<Rightarrow> None
                 | Some d \<Rightarrow> map_option (\<lambda>(w, rest). (d # w, rest)) (parseChars t))))
      else map_option (\<lambda>(w, rest). (c # w, rest)) (parseChars s))"

text \<open>A number: the digits before the point, those after it, and the exponent.\<close>

definition parseFraction :: "jstext \<Rightarrow> (jstext \<times> jstext) option" where
  "parseFraction s =
     (case s of
        c # t \<Rightarrow>
          (if c = 46 then
             (let digits = takeWhile isDigit t in
              if digits = [] then None else Some (digits, dropWhile isDigit t))
           else Some ([], s))
      | [] \<Rightarrow> Some ([], s))"

definition parseExponent :: "jstext \<Rightarrow> (int \<times> jstext) option" where
  "parseExponent s =
     (case s of
        c # t \<Rightarrow>
          (if c = 101 \<or> c = 69 then
             (let signed = (case t of d # _ \<Rightarrow> d = 43 \<or> d = 45 | [] \<Rightarrow> False);
                  negative = (case t of d # _ \<Rightarrow> d = 45 | [] \<Rightarrow> False);
                  r = (if signed then tl t else t);
                  digits = takeWhile isDigit r;
                  size = readBase 10 digits
              in if digits = [] then None
                 else Some (if negative then - size else size, dropWhile isDigit r))
           else Some (0, s))
      | [] \<Rightarrow> Some (0, s))"

definition scaled :: "int \<Rightarrow> int \<Rightarrow> rat" where
  "scaled digits expo =
     (if 0 \<le> expo then of_int (digits * 10 ^ nat expo)
      else of_int digits / of_int (10 ^ nat (- expo)))"

definition parseNumber :: "jstext \<Rightarrow> (json \<times> jstext) option" where
  "parseNumber s =
     (let negative = (case s of c # _ \<Rightarrow> c = 45 | [] \<Rightarrow> False);
          t = (if negative then tl s else s);
          whole = (case t of c # _ \<Rightarrow> if c = 48 then [48] else takeWhile isDigit t | [] \<Rightarrow> []);
          after = drop (length whole) t
      in if whole = [] then None
         else
           (case parseFraction after of
              None \<Rightarrow> None
            | Some (fraction, r) \<Rightarrow>
                (case parseExponent r of
                   None \<Rightarrow> None
                 | Some (expo, rest) \<Rightarrow>
                     (let digits = readBase 10 (whole @ fraction);
                          size = scaled digits (expo - int (length fraction))
                      in Some (JNum (if negative then - size else size), rest)))))"

definition parseWord :: "string \<Rightarrow> json \<Rightarrow> jstext \<Rightarrow> (json \<times> jstext) option" where
  "parseWord w v s = (if startsWith s (u w) then Some (v, drop (length w) s) else None)"

text \<open>
  A value, the elements of an array after the first bracket or a comma, and the members of
  an object likewise. White space is skipped before each.
\<close>

fun parseValue :: "nat \<Rightarrow> jstext \<Rightarrow> (json \<times> jstext) option"
and parseElements :: "nat \<Rightarrow> json list \<Rightarrow> jstext \<Rightarrow> (json \<times> jstext) option"
and parseMembers :: "nat \<Rightarrow> (jstext \<times> json) list \<Rightarrow> jstext \<Rightarrow> (json \<times> jstext) option" where
  "parseValue 0 s = None"
| "parseValue (Suc n) s =
     (case skipSpace s of
        [] \<Rightarrow> None
      | c # t \<Rightarrow>
          (if c = 34 then map_option (\<lambda>(w, rest). (JStr w, rest)) (parseChars t)
           else if c = 91 then
             (case skipSpace t of
                d # r \<Rightarrow> if d = 93 then Some (JArr [], r) else parseElements n [] t
              | [] \<Rightarrow> None)
           else if c = 123 then
             (case skipSpace t of
                d # r \<Rightarrow> if d = 125 then Some (JObj [], r) else parseMembers n [] t
              | [] \<Rightarrow> None)
           else if c = 116 then parseWord ''true'' (JBool True) (c # t)
           else if c = 102 then parseWord ''false'' (JBool False) (c # t)
           else if c = 110 then parseWord ''null'' JNull (c # t)
           else parseNumber (c # t)))"
| "parseElements 0 sofar s = None"
| "parseElements (Suc n) sofar s =
     (case parseValue n s of
        None \<Rightarrow> None
      | Some (v, r) \<Rightarrow>
          (case skipSpace r of
             [] \<Rightarrow> None
           | d # t \<Rightarrow>
               (if d = 93 then Some (JArr (sofar @ [v]), t)
                else if d = 44 then parseElements n (sofar @ [v]) t
                else None)))"
| "parseMembers 0 sofar s = None"
| "parseMembers (Suc n) sofar s =
     (case skipSpace s of
        [] \<Rightarrow> None
      | c # t \<Rightarrow>
          (if c \<noteq> 34 then None
           else
             (case parseChars t of
                None \<Rightarrow> None
              | Some (key, r) \<Rightarrow>
                  (case skipSpace r of
                     [] \<Rightarrow> None
                   | d # q \<Rightarrow>
                       (if d \<noteq> 58 then None
                        else
                          (case parseValue n q of
                             None \<Rightarrow> None
                           | Some (v, p) \<Rightarrow>
                               (case skipSpace p of
                                  [] \<Rightarrow> None
                                | e # o' \<Rightarrow>
                                    (if e = 125 then Some (JObj (AList.update key v sofar), o')
                                     else if e = 44 then
                                       parseMembers n (AList.update key v sofar) o'
                                     else None))))))))"

declare parseChars.simps(2) [simp del]
declare parseValue.simps [simp del] parseElements.simps [simp del] parseMembers.simps [simp del]

definition jsonParse :: "jstext \<Rightarrow> json option" where
  "jsonParse s =
     (case parseValue (2 * length s + 1) s of
        None \<Rightarrow> None
      | Some (v, rest) \<Rightarrow> if skipSpace rest = [] then Some v else None)"

section \<open>The fuel is enough\<close>

lemma length_skipSpace: "length (skipSpace s) \<le> length s"
  by (simp add: skipSpace_def length_dropWhile_le)

lemma skipSpace_Cons: "skipSpace s = c # t \<Longrightarrow> length t < length s"
  using length_skipSpace [of s] by simp

lemma parseChars_shorter: "parseChars s = Some (w, rest) \<Longrightarrow> length rest < length s"
proof (induction s arbitrary: w rest rule: length_induct)
  case (1 s)
  then have IH: "parseChars t = Some (w', rest') \<Longrightarrow> length t < length s \<Longrightarrow> length rest' < length t"
    for t w' rest' by blast
  show ?case
  proof (cases s)
    case (Cons c t)
    with "1.prems" show ?thesis
      apply (auto simp: parseChars.simps(2) split: if_splits list.splits option.splits)
      apply (drule IH; simp)+
      done
  qed (use "1.prems" in simp)
qed

lemma parseFraction_shorter: "parseFraction s = Some (w, rest) \<Longrightarrow> length rest \<le> length s"
  using length_dropWhile_le [of isDigit "tl s"]
  by (auto simp: parseFraction_def Let_def split: list.splits if_splits)

lemma parseExponent_shorter: "parseExponent s = Some (w, rest) \<Longrightarrow> length rest \<le> length s"
  using length_dropWhile_le [of isDigit "tl s"] length_dropWhile_le [of isDigit "tl (tl s)"]
  by (auto simp: parseExponent_def Let_def split: list.splits if_splits)

lemma parseNumber_shorter:
  assumes "parseNumber s = Some (v, rest)"
  shows "length rest < length s"
proof -
  define t where "t = (if (case s of c # _ \<Rightarrow> c = 45 | [] \<Rightarrow> False) then tl s else s)"
  define whole where "whole =
    (case t of c # _ \<Rightarrow> if c = 48 then [48] else takeWhile isDigit t | [] \<Rightarrow> [])"
  obtain fraction r expo where parts: "whole \<noteq> []" "parseFraction (drop (length whole) t) = Some (fraction, r)"
    "parseExponent r = Some (expo, rest)"
    using assms unfolding parseNumber_def Let_def t_def [symmetric] whole_def [symmetric]
    by (auto split: if_splits option.splits)
  have "length rest \<le> length t - length whole"
    using parseFraction_shorter [OF parts(2)] parseExponent_shorter [OF parts(3)] by simp
  moreover have "t \<noteq> []" using parts(1) by (auto simp: whole_def)
  moreover have "length t \<le> length s" by (simp add: t_def)
  ultimately show ?thesis using parts(1) by (cases whole; cases t) auto
qed

lemma parseWord_shorter: "parseWord w v s = Some (v', rest) \<Longrightarrow> w \<noteq> [] \<Longrightarrow> length rest < length s"
  by (cases s; cases w) (auto simp: parseWord_def split: if_splits)

lemma parse_shorter:
  "(\<forall>s v rest. parseValue n s = Some (v, rest) \<longrightarrow> length rest < length s)
   \<and> (\<forall>vs s v rest. parseElements n vs s = Some (v, rest) \<longrightarrow> length rest < length s)
   \<and> (\<forall>ms s v rest. parseMembers n ms s = Some (v, rest) \<longrightarrow> length rest < length s)"
proof (induction n)
  case 0
  show ?case by (simp add: parseValue.simps parseElements.simps parseMembers.simps)
next
  case (Suc n)
  then have IH: "\<And>s v rest. parseValue n s = Some (v, rest) \<Longrightarrow> length rest < length s"
    "\<And>vs s v rest. parseElements n vs s = Some (v, rest) \<Longrightarrow> length rest < length s"
    "\<And>ms s v rest. parseMembers n ms s = Some (v, rest) \<Longrightarrow> length rest < length s"
    by blast+
  have 1: "length rest < length s" if "parseValue (Suc n) s = Some (v, rest)" for s v rest
    using that unfolding parseValue.simps
    by (fastforce split: if_splits list.splits option.splits
        dest!: parseChars_shorter parseWord_shorter parseNumber_shorter skipSpace_Cons IH)
  have 2: "length rest < length s" if "parseElements (Suc n) vs s = Some (v, rest)" for vs s v rest
    using that unfolding parseElements.simps
    by (fastforce split: if_splits list.splits option.splits prod.splits dest!: skipSpace_Cons IH)
  have 3: "length rest < length s" if "parseMembers (Suc n) ms s = Some (v, rest)" for ms s v rest
    using that unfolding parseMembers.simps
    by (fastforce split: if_splits list.splits option.splits prod.splits
         dest!: parseChars_shorter skipSpace_Cons IH)
  show ?case using 1 2 3 by blast
qed

lemma case_list_cong_tail:
  "(\<And>c t. xs = c # t \<Longrightarrow> f c t = g c t) \<Longrightarrow>
     (case xs of [] \<Rightarrow> a | c # t \<Rightarrow> f c t) = (case xs of [] \<Rightarrow> a | c # t \<Rightarrow> g c t)"
  by (cases xs) simp_all

lemma parse_fuel:
  "(\<forall>s m. 2 * length s + 1 \<le> n \<and> n \<le> m \<longrightarrow> parseValue m s = parseValue n s)
   \<and> (\<forall>vs s m. 2 * length s + 2 \<le> n \<and> n \<le> m \<longrightarrow> parseElements m vs s = parseElements n vs s)
   \<and> (\<forall>ms s m. 2 * length s + 2 \<le> n \<and> n \<le> m \<longrightarrow> parseMembers m ms s = parseMembers n ms s)"
proof (induction n)
  case (Suc n)
  then have IH:
    "\<And>s m. 2 * length s + 1 \<le> n \<Longrightarrow> n \<le> m \<Longrightarrow> parseValue m s = parseValue n s"
    "\<And>vs s m. 2 * length s + 2 \<le> n \<Longrightarrow> n \<le> m \<Longrightarrow> parseElements m vs s = parseElements n vs s"
    "\<And>ms s m. 2 * length s + 2 \<le> n \<Longrightarrow> n \<le> m \<Longrightarrow> parseMembers m ms s = parseMembers n ms s"
    by blast+
  have one: "parseValue (Suc m) s = parseValue (Suc n) s"
    if fuel: "2 * length s + 1 \<le> Suc n" and more': "n \<le> m" for s m
  proof -
    show ?thesis
    proof (cases "skipSpace s")
      case Nil
      then show ?thesis by (simp add: parseValue.simps)
    next
      case (Cons c t)
      have "parseElements m [] t = parseElements n [] t" "parseMembers m [] t = parseMembers n [] t"
        using skipSpace_Cons [OF Cons] fuel more' by (intro IH(2) IH(3); simp)+
      then show ?thesis by (simp only: parseValue.simps Cons list.case)
    qed
  qed
  have elements: "parseElements (Suc m) vs s = parseElements (Suc n) vs s"
    if fuel: "2 * length s + 2 \<le> Suc n" and more': "n \<le> m" for vs s m
  proof -
    have "parseElements m ws t = parseElements n ws t"
      if "parseValue n s = Some (v, r)" "skipSpace r = d # t" for v r d t ws
    proof -
      have "length r < length s" using parse_shorter that(1) by blast
      with skipSpace_Cons [OF that(2)] fuel more' show ?thesis by (intro IH(2)) simp_all
    qed
    moreover have "parseValue m s = parseValue n s" using fuel more' by (intro IH(1)) simp_all
    ultimately show ?thesis
      unfolding parseElements.simps
      by (auto intro!: case_list_cong_tail split: option.splits)
  qed
  have members: "parseMembers (Suc m) ms s = parseMembers (Suc n) ms s"
    if fuel: "2 * length s + 2 \<le> Suc n" and more': "n \<le> m" for ms s m
  proof -
    have less: "length q + 2 < length s"
      if "skipSpace s = c # t" "parseChars t = Some (key, r)" "skipSpace r = d # q" for c t key r d q
      using skipSpace_Cons [OF that(1)] parseChars_shorter [OF that(2)] skipSpace_Cons [OF that(3)]
      by simp
    have "parseValue m q = parseValue n q"
      if "skipSpace s = c # t" "parseChars t = Some (key, r)" "skipSpace r = d # q" for c t key r d q
      using less [OF that] fuel more' by (intro IH(1)) simp_all
    moreover have "parseMembers m ks o' = parseMembers n ks o'"
      if "skipSpace s = c # t" "parseChars t = Some (key, r)" "skipSpace r = d # q"
        "parseValue n q = Some (v, p)" "skipSpace p = e # o'" for c t key r d q v p e o' ks
    proof -
      have "length p < length q" using parse_shorter that(4) by blast
      with less [OF that(1-3)] skipSpace_Cons [OF that(5)] fuel more' show ?thesis
        by (intro IH(3)) simp_all
    qed
    ultimately show ?thesis
      unfolding parseMembers.simps
      by (auto intro!: case_list_cong_tail split: option.splits)
  qed
  show ?case
  proof (intro conjI allI impI)
    fix s :: jstext and m
    assume "2 * length s + 1 \<le> Suc n \<and> Suc n \<le> m"
    then show "parseValue m s = parseValue (Suc n) s" using one [of s "m - 1"] by (cases m) simp_all
  next
    fix vs and s :: jstext and m
    assume "2 * length s + 2 \<le> Suc n \<and> Suc n \<le> m"
    then show "parseElements m vs s = parseElements (Suc n) vs s" using elements [of s "m - 1" vs] by (cases m) simp_all
  next
    fix ms and s :: jstext and m
    assume "2 * length s + 2 \<le> Suc n \<and> Suc n \<le> m"
    then show "parseMembers m ms s = parseMembers (Suc n) ms s" using members [of s "m - 1" ms] by (cases m) simp_all
  qed
qed simp

lemma parse_enough_fuel:
  "2 * length s + 1 \<le> m \<Longrightarrow> parseValue m s = parseValue (2 * length s + 1) s"
  using parse_fuel by blast

section \<open>Writing\<close>

definition escapeText :: "int \<Rightarrow> jstext" where
  "escapeText c =
     [92, 117] @ map digitUnit [c div 4096 mod 16, c div 256 mod 16, c div 16 mod 16, c mod 16]"

definition isHighSurrogate :: "int \<Rightarrow> bool" where
  "isHighSurrogate c \<longleftrightarrow> 55296 \<le> c \<and> c \<le> 56319"

definition isLowSurrogate :: "int \<Rightarrow> bool" where
  "isLowSurrogate c \<longleftrightarrow> 56320 \<le> c \<and> c \<le> 57343"

text \<open>The units of a quoted string; a surrogate that is not in a pair is written as an escape.\<close>

fun writeChars :: "jstext \<Rightarrow> jstext" where
  "writeChars [] = []"
| "writeChars (c # s) =
     (if isHighSurrogate c \<and> (case s of d # _ \<Rightarrow> isLowSurrogate d | [] \<Rightarrow> False)
      then c # hd s # writeChars (tl s)
      else
        (if c = 34 \<or> c = 92 then [92, c]
         else if c = 8 then [92, 98]
         else if c = 9 then [92, 116]
         else if c = 10 then [92, 110]
         else if c = 12 then [92, 102]
         else if c = 13 then [92, 114]
         else if c < 32 \<or> isHighSurrogate c \<or> isLowSurrogate c then escapeText c
         else [c]) @ writeChars s)"

definition writeString :: "jstext \<Rightarrow> jstext" where
  "writeString s = [34] @ writeChars s @ [34]"

text \<open>How a number is written is the platform's rounding, and a parameter.\<close>

fun jsonStringify :: "(rat \<Rightarrow> jstext) \<Rightarrow> json \<Rightarrow> jstext" where
  "jsonStringify numberText JNull = u ''null''"
| "jsonStringify numberText (JBool b) = u (if b then ''true'' else ''false'')"
| "jsonStringify numberText (JNum n) = numberText n"
| "jsonStringify numberText (JStr s) = writeString s"
| "jsonStringify numberText (JArr vs) =
     [91] @ joinText [44] (map (jsonStringify numberText) vs) @ [93]"
| "jsonStringify numberText (JObj ms) =
     [123] @ joinText [44]
       (map (\<lambda>(key, v). writeString key @ [58] @ jsonStringify numberText v) ms) @ [125]"

section \<open>Reading a document\<close>

text \<open>\<open>value[key]\<close>: undefined is none, and only an object has keys.\<close>

fun property :: "json \<Rightarrow> jstext \<Rightarrow> json option" where
  "property (JObj ms) key = map_of ms key"
| "property v key = None"

text \<open>\<open>Boolean(value)\<close>.\<close>

fun truthy :: "json option \<Rightarrow> bool" where
  "truthy None = False"
| "truthy (Some JNull) = False"
| "truthy (Some (JBool b)) = b"
| "truthy (Some (JNum n)) = (n \<noteq> 0)"
| "truthy (Some (JStr s)) = (s \<noteq> [])"
| "truthy (Some (JArr vs)) = True"
| "truthy (Some (JObj ms)) = True"

text \<open>\<open>a ?? b\<close>: the second where the first is undefined or null.\<close>

definition orElse :: "json option \<Rightarrow> json option \<Rightarrow> json option" where
  "orElse a b = (if a = None \<or> a = Some JNull then b else a)"

end
