(* ===== verification/Scanner_Parsers.thy ===== *)
theory Scanner_Parsers
  imports Js_Regex Js_Json
begin

text \<open>
  The readers of \<open>packages/scanner/src/parsers.ts\<close>: the sitemap, the JSON the scanner will look
  at and the nodes of JSON-LD in a page, the visible text and the signals of a page, the
  challenge page, and whether two bodies say comparable things.
\<close>

section \<open>Patterns\<close>

definition quote1 :: rx where "quote1 = One (\<lambda>c. c = 34 \<or> c = 39)"
definition notQuote1 :: rx where "notQuote1 = One (\<lambda>c. c \<noteq> 34 \<and> c \<noteq> 39)"
definition notClose1 :: rx where "notClose1 = noneOf ''>''"
definition word1 :: rx where "word1 = One isWord"
definition notWord1 :: rx where "notWord1 = One (\<lambda>c. \<not> isWord c)"

definition openTag :: "string \<Rightarrow> rx" where
  "openTag name =
     seqs [litI (''<'' @ name), opt (Seq space1 (star notClose1)), lit ''>'']"

section \<open>Sitemaps\<close>

record SitemapResult =
  sitemapValid :: bool
  isIndex :: bool
  sitemapUrls :: "jstext list"
  lastmods :: "jstext list"
  sitemapError :: "string option"

definition decodeXml :: "jstext \<Rightarrow> jstext" where
  "decodeXml s =
     replaceAll (lit ''&apos;'') [39]
       (replaceAll (lit ''&quot;'') [34]
         (replaceAll (lit ''&gt;'') (u ''>'')
           (replaceAll (lit ''&lt;'') (u ''<'')
             (replaceAll (lit ''&amp;'') (u ''&'') s))))"

definition httpPattern :: rx where
  "httpPattern = seqs [AtStart, litI ''http'', opt (litI ''s''), lit ''://'']"

definition brokenSitemap :: "string \<Rightarrow> SitemapResult" where
  "brokenSitemap code =
     \<lparr>sitemapValid = False, isIndex = False, sitemapUrls = [], lastmods = [],
      sitemapError = Some code\<rparr>"

definition elementsNamed :: "string \<Rightarrow> jstext \<Rightarrow> jstext list" where
  "elementsNamed name body =
     upTo 5000 (matchAll (openTag name) (lazyStar any1) (litI (''</'' @ name @ ''>'')) body)"

definition rootPattern :: "string \<Rightarrow> rx" where
  "rootPattern name = seqs [lit ''<'', star space1, litI name, alts [space1, lit ''>'']]"

definition parseSitemap :: "jstext \<Rightarrow> SitemapResult" where
  "parseSitemap body =
     (if test (alts [litI ''<!DOCTYPE'', litI ''<!ENTITY'']) body then
        brokenSitemap ''xml_entity_blocked''
      else
        let index = test (rootPattern ''sitemapindex'') body;
            urlSet = test (rootPattern ''urlset'') body
        in if \<not> index \<and> \<not> urlSet then brokenSitemap ''invalid_sitemap_xml''
           else
             let urls = filter (test httpPattern)
                          (map (\<lambda>t. decodeXml (trim t)) (elementsNamed ''loc'' body))
             in \<lparr>sitemapValid = urls \<noteq> [], isIndex = index, sitemapUrls = urls,
                 lastmods = map trim (elementsNamed ''lastmod'' body),
                 sitemapError = (if urls \<noteq> [] then None else Some ''sitemap_empty'')\<rparr>)"

section \<open>JSON\<close>

definition blockedJsonKey :: "jstext set" where
  "blockedJsonKey = {u ''__proto__'', u ''prototype'', u ''constructor''}"

fun validateJsonShape :: "json \<Rightarrow> int \<Rightarrow> bool" where
  "validateJsonShape (JArr vs) depth =
     (depth \<le> 40 \<and> int (length vs) \<le> 10000
      \<and> list_all (\<lambda>v. validateJsonShape v (depth + 1)) vs)"
| "validateJsonShape (JObj ms) depth =
     (depth \<le> 40 \<and> int (length ms) \<le> 10000
      \<and> list_all (\<lambda>(key, v). key \<notin> blockedJsonKey \<and> validateJsonShape v (depth + 1)) ms)"
| "validateJsonShape v depth = (depth \<le> 40)"

text \<open>\<open>Buffer.byteLength\<close>: the bytes of the text in UTF-8.\<close>

fun byteLength :: "jstext \<Rightarrow> int" where
  "byteLength [] = 0"
| "byteLength (c # s) =
     (if isHighSurrogate c \<and> (case s of d # _ \<Rightarrow> isLowSurrogate d | [] \<Rightarrow> False)
      then 4 + byteLength (tl s)
      else (if c < 128 then 1 else if c < 2048 then 2 else 3) + byteLength s)"

definition parseSafeJson :: "int \<Rightarrow> jstext \<Rightarrow> json option" where
  "parseSafeJson maxBytes body =
     (if byteLength body > maxBytes then None
      else
        case jsonParse body of
          None \<Rightarrow> None
        | Some parsed \<Rightarrow> if validateJsonShape parsed 0 then Some parsed else None)"

definition MAX_JSON_BYTES :: int where
  "MAX_JSON_BYTES = 1048576"

section \<open>JSON-LD\<close>

record JsonLdResult =
  jsonNodes :: "json list"
  scriptCount :: nat
  invalidCount :: nat

lemma size_graph:
  "map_of ms key = Some v \<Longrightarrow> size v < Suc (size_list (size_prod (\<lambda>x. 0) size) ms)"
  by (induction ms) (auto split: if_splits)

function flattenJsonLd :: "json \<Rightarrow> json list" where
  "flattenJsonLd v =
     (case v of
        JArr vs \<Rightarrow> concat (map flattenJsonLd vs)
      | JObj ms \<Rightarrow>
          JObj ms #
          (case map_of ms (u ''@graph'') of
             Some (JArr gs) \<Rightarrow> concat (map flattenJsonLd gs)
           | _ \<Rightarrow> [])
      | _ \<Rightarrow> [])"
  by pat_completeness auto
termination
proof (relation "measure size", goal_cases)
  case (3 v ms va gs g)
  have "size g < size (JArr gs)"
    using 3(4) by (simp add: less_Suc_eq_le size_list_estimation')
  also have "\<dots> < size v"
    using size_graph [of ms "u ''@graph''" "JArr gs"] 3 by simp
  finally show ?case by simp
qed (simp_all add: less_Suc_eq_le size_list_estimation')

declare flattenJsonLd.simps [simp del]

definition jsonLdOpen :: rx where
  "jsonLdOpen =
     seqs [litI ''<script'', AtWordEdge, star notClose1, litI ''type'', star space1, lit ''='',
           star space1, quote1, litI ''application/ld+json'',
           opt (Seq (lit '';'') (star notQuote1)), quote1, star notClose1, lit ''>'']"

definition parseJsonLd :: "jstext \<Rightarrow> JsonLdResult" where
  "parseJsonLd html =
     (let scripts = matchAll jsonLdOpen (lazyStar any1) (litI ''</script>'') html;
          parsed = map (parseSafeJson 524288) scripts
      in \<lparr>jsonNodes = concat (map (\<lambda>p. case p of None \<Rightarrow> [] | Some v \<Rightarrow> flattenJsonLd v) parsed),
          scriptCount = length scripts,
          invalidCount = length (filter (\<lambda>p. p = None) parsed)\<rparr>)"

definition jsonLdTypes :: "json \<Rightarrow> jstext list" where
  "jsonLdTypes node =
     (case property node (u ''@type'') of
        Some (JStr t) \<Rightarrow> [t]
      | Some (JArr ts) \<Rightarrow> concat (map (\<lambda>t. case t of JStr w \<Rightarrow> [w] | _ \<Rightarrow> []) ts)
      | _ \<Rightarrow> [])"

section \<open>Pages\<close>

definition wholeElement :: "string \<Rightarrow> rx" where
  "wholeElement name =
     seqs [litI (''<'' @ name), AtWordEdge, lazyStar any1, litI (''</'' @ name @ ''>'')]"

definition entityPattern :: rx where
  "entityPattern =
     seqs [lit ''&'', alts (map litI [''nbsp'', ''amp'', ''quot'', ''apos'', ''lt'', ''gt'']), lit '';'']"

definition visibleText :: "jstext \<Rightarrow> jstext" where
  "visibleText html =
     (let noScript = replaceAll (wholeElement ''script'') [32] html;
          noStyle = replaceAll (wholeElement ''style'') [32] noScript;
          noNav = replaceAll (wholeElement ''nav'') [32] noStyle;
          noTags = replaceAll (seqs [lit ''<'', plus1 notClose1, lit ''>'']) [32] noNav;
          noEntities = replaceAll entityPattern [32] noTags
      in trim (replaceAll (plus1 space1) [32] noEntities))"

record HtmlSignals =
  textLength :: int
  hasH1 :: bool
  hasTitle :: bool
  hasPrice :: bool
  productLinkCount :: int
  hreflangs :: "jstext list"

definition headingPattern :: "string \<Rightarrow> rx" where
  "headingPattern name =
     seqs [litI (''<'' @ name), AtWordEdge, star notClose1, lit ''>'', plus1 (noneOf ''<'')]"

definition pricePattern :: rx where
  "pricePattern =
     alts
       [seqs [One (\<lambda>c. c = 36 \<or> c = 8364 \<or> c = 163 \<or> c = 165), opt space1, digit1],
        seqs [digit1, opt (seqs [oneOf ''.,'', digit1, digit1]), opt space1,
              alts (map litI [''USD'', ''EUR'', ''GBP'', ''AUD'', ''CAD''])]]"

definition productLinkPattern :: rx where
  "productLinkPattern =
     seqs [litI ''<a'', AtWordEdge, star notClose1, litI ''href='', quote1, star notQuote1,
           alts (map litI [''product'', ''shop'', ''item'']), star notQuote1, quote1]"

definition hreflangOpen :: rx where
  "hreflangOpen =
     seqs [litI ''<link'', AtWordEdge, star notClose1, litI ''rel='', quote1, star notQuote1,
           litI ''alternate'', star notQuote1, quote1, star notClose1, litI ''hreflang='', quote1]"

definition hreflangClose :: rx where
  "hreflangClose = seqs [quote1, star notClose1, lit ''>'']"

definition htmlSignals :: "jstext \<Rightarrow> HtmlSignals" where
  "htmlSignals html =
     \<lparr>textLength = int (length (visibleText html)),
      hasH1 = test (headingPattern ''h1'') html,
      hasTitle = test (headingPattern ''title'') html,
      hasPrice = test pricePattern html,
      productLinkCount = int (length (matchAll Nothing productLinkPattern Nothing html)),
      hreflangs = matchAll hreflangOpen (plus1 notQuote1) hreflangClose html\<rparr>"

definition challengePattern :: rx where
  "challengePattern =
     alts (map litI [''captcha'', ''cf-chl-'', ''challenge-platform'', ''access denied'',
                     ''verify you are human''])"

definition isChallenge :: "int \<Rightarrow> jstext \<Rightarrow> bool" where
  "isChallenge status body \<longleftrightarrow>
     status \<in> set [401, 403, 429] \<or> test challengePattern (upTo 64000 body)"

definition longTokens :: "jstext \<Rightarrow> jstext list" where
  "longTokens s = unique (filter (\<lambda>t. 3 < length t) (splitBy (plus1 notWord1) s))"

definition comparedText :: "jstext \<Rightarrow> jstext" where
  "comparedText s = lower (upTo 20000 (visibleText s))"

definition ratio :: "nat \<Rightarrow> nat \<Rightarrow> rat" where
  "ratio a b = of_nat a / of_nat b"

definition comparableBodies :: "jstext \<Rightarrow> jstext \<Rightarrow> bool" where
  "comparableBodies left right =
     (let a = comparedText left; b = comparedText right in
      if a = [] \<or> b = [] then False
      else
        let leftTokens = longTokens a; rightTokens = longTokens b in
        if leftTokens = [] \<or> rightTokens = [] then
          7 / 10 \<le> ratio (min (length a) (length b)) (max (length a) (length b))
        else
          let overlap = length (filter (\<lambda>t. t \<in> set rightTokens) leftTokens)
          in 55 / 100 \<le> ratio overlap (min (length leftTokens) (length rightTokens)))"

section \<open>Properties\<close>

text \<open>How deep a document is nested, and every key it holds at any depth.\<close>

fun jsonHeight :: "json \<Rightarrow> nat" where
  "jsonHeight (JArr vs) = foldr (\<lambda>v deepest. max (Suc (jsonHeight v)) deepest) vs 0"
| "jsonHeight (JObj ms) = foldr (\<lambda>(key, v) deepest. max (Suc (jsonHeight v)) deepest) ms 0"
| "jsonHeight v = 0"

fun jsonKeys :: "json \<Rightarrow> jstext set" where
  "jsonKeys (JArr vs) = (\<Union>v \<in> set vs. jsonKeys v)"
| "jsonKeys (JObj ms) = fst ` set ms \<union> (\<Union>(key, v) \<in> set ms. jsonKeys v)"
| "jsonKeys v = {}"

lemma foldr_max_bound:
  "(\<forall>v \<in> set vs. f v \<le> k) \<Longrightarrow> foldr (\<lambda>v deepest. max (f v) deepest) vs 0 \<le> k" for k :: nat
  by (induction vs) auto

lemma foldr_pair_bound:
  "(\<forall>(key, v) \<in> set ms. f v \<le> k) \<Longrightarrow> foldr (\<lambda>(key, v) deepest. max (f v) deepest) ms 0 \<le> k"
  for k :: nat
  by (induction ms) auto

lemma valid_shape:
  "validateJsonShape v depth \<Longrightarrow>
     depth + int (jsonHeight v) \<le> 40 \<and> jsonKeys v \<inter> blockedJsonKey = {}"
proof (induction v depth rule: validateJsonShape.induct)
  case (1 vs depth)
  then have each: "\<forall>v \<in> set vs. depth + 1 + int (jsonHeight v) \<le> 40 \<and> jsonKeys v \<inter> blockedJsonKey = {}"
    by (auto simp: list_all_iff)
  have "\<forall>v \<in> set vs. Suc (jsonHeight v) \<le> nat (40 - depth)" using each by auto
  then have "jsonHeight (JArr vs) \<le> nat (40 - depth)" by (simp add: foldr_max_bound)
  with 1 each show ?case by auto
next
  case (2 ms depth)
  then have each: "\<forall>(key, v) \<in> set ms. key \<notin> blockedJsonKey \<and> depth + 1 + int (jsonHeight v) \<le> 40
      \<and> jsonKeys v \<inter> blockedJsonKey = {}"
    by (fastforce simp: list_all_iff)
  have "\<forall>(key, v) \<in> set ms. Suc (jsonHeight v) \<le> nat (40 - depth)" using each by fastforce
  then have "jsonHeight (JObj ms) \<le> nat (40 - depth)" by (simp add: foldr_pair_bound)
  with 2 each show ?case by fastforce
qed simp_all

text \<open>A document the scanner looks at fits in the bytes allowed, is nested at most forty
  levels deep and holds, at no level, a key that would reach into the prototype of an object.\<close>

theorem safe_json_is_bounded:
  assumes "parseSafeJson maxBytes body = Some v"
  shows "byteLength body \<le> maxBytes \<and> jsonHeight v \<le> 40 \<and> jsonKeys v \<inter> blockedJsonKey = {}"
proof -
  have "validateJsonShape v 0" "byteLength body \<le> maxBytes"
    using assms by (auto simp: parseSafeJson_def split: if_splits option.splits)
  with valid_shape show ?thesis by fastforce
qed

theorem safe_json_is_bounded_witness:
  "jsonHeight (JObj [([97], JArr [JNum 7])]) \<le> 40
   \<and> parseSafeJson 100 (u ''{'' @ [34, 97, 34] @ u '' : [{'' @ [34] @ u ''__proto__'' @ [34] @ u '':1}]}'') = None"
proof -
  have "parseSafeJson 100 (u ''{'' @ [34, 97, 34] @ u '' : [7]}'') = Some (JObj [([97], JArr [JNum 7])])"
    by code_simp
  moreover have "parseSafeJson 100
      (u ''{'' @ [34, 97, 34] @ u '' : [{'' @ [34] @ u ''__proto__'' @ [34] @ u '':1}]}'') = None"
    by code_simp
  ultimately show ?thesis using safe_json_is_bounded by blast
qed

lemma common_tokens:
  assumes "distinct xs" "distinct ys"
  shows "length (filter (\<lambda>t. t \<in> set ys) xs) = card (set xs \<inter> set ys)"
proof -
  have "set (filter (\<lambda>t. t \<in> set ys) xs) = set xs \<inter> set ys" by auto
  then show ?thesis
    using distinct_card [OF distinct_filter [OF assms(1), of "\<lambda>t. t \<in> set ys"]] by metis
qed

text \<open>Whether two bodies are comparable does not depend on which is called the left.\<close>

theorem comparable_either_way: "comparableBodies left right = comparableBodies right left"
proof -
  let ?a = "comparedText left" and ?b = "comparedText right"
  have distinct: "distinct (longTokens s)" for s by (simp add: longTokens_def)
  have overlap: "length (filter (\<lambda>t. t \<in> set (longTokens ?b)) (longTokens ?a)) =
      length (filter (\<lambda>t. t \<in> set (longTokens ?a)) (longTokens ?b))"
    by (simp only: common_tokens [OF distinct distinct] Int_commute)
  show ?thesis
    unfolding comparableBodies_def Let_def overlap
      min.commute [of "length ?a" "length ?b"] max.commute [of "length ?a" "length ?b"]
      min.commute [of "length (longTokens ?a)" "length (longTokens ?b)"]
    by (simp only: disj_commute)
qed

end
