(* ===== verification/Scanner_Robots.thy ===== *)
theory Scanner_Robots
  imports Js_Regex "HOL-Library.AList"
begin

text \<open>
  The robots.txt of \<open>packages/scanner/src/robots.ts\<close>: the line parser, the rule matching and
  the policies a site spells out for the named agents. An object with string keys is an
  association list in insertion order. \<open>current\<close>, the group a rule is added to, is always the
  last group pushed, so it is the last of \<open>robotGroups\<close>, and undefined is the empty list.
\<close>

record RobotsGroup =
  groupAgents :: "jstext list"
  groupAllow :: "jstext list"
  groupDisallow :: "jstext list"

datatype Setting = SignalYes | SignalNo

record RobotsParseResult =
  robotGroups :: "RobotsGroup list"
  robotSitemaps :: "jstext list"
  contentSignal :: "(jstext \<times> Setting) list option"
  contentSignalMalformed :: bool
  malformedDirectives :: nat
  robotFatal :: bool

definition CONTENT_SIGNAL_KEYS :: "jstext list" where
  "CONTENT_SIGNAL_KEYS = [u ''search'', u ''ai-input'', u ''ai-train'']"

section \<open>The patterns of the parser\<close>

definition newlinePattern :: rx where
  "newlinePattern = Seq (opt (One (\<lambda>c. c = 13))) (One (\<lambda>c. c = 10))"

definition commentPattern :: rx where
  "commentPattern = seqs [plus1 space1, lit ''#'', star dot1, AtEnd]"

definition webAddressPattern :: rx where
  "webAddressPattern = seqs [AtStart, litI ''http'', opt (litI ''s''), lit ''://'']"

definition tokenPattern :: rx where
  "tokenPattern = oneOf '';,''"

definition equalsPattern :: rx where
  "equalsPattern = seqs [star space1, lit ''='', star space1]"

definition versionPattern :: rx where
  "versionPattern = seqs [lit ''/'', plus1 (One (\<lambda>c. isDigit c \<or> c = 46)), AtEnd]"

section \<open>The parser\<close>

text \<open>What the loop keeps besides its result: whether the current group has a rule.\<close>

record Parsing =
  parsed :: RobotsParseResult
  seenRules :: bool

definition inLastGroup :: "(RobotsGroup \<Rightarrow> RobotsGroup) \<Rightarrow> RobotsGroup list \<Rightarrow> RobotsGroup list" where
  "inLastGroup f groups = butlast groups @ [f (last groups)]"

definition malformed :: "RobotsParseResult \<Rightarrow> RobotsParseResult" where
  "malformed r = r\<lparr>malformedDirectives := malformedDirectives r + 1\<rparr>"

text \<open>One token of a content signal: a known key set to yes or no, or malformed.\<close>

definition signalToken :: "jstext \<Rightarrow> (jstext \<times> Setting) option" where
  "signalToken token =
     (let parts = map lower (splitBy equalsPattern (trim token)) in
      if length parts > 2 then None
      else if parts = [] \<or> hd parts = [] \<or> hd parts \<notin> set CONTENT_SIGNAL_KEYS then None
      else if length parts = 2 \<and> parts ! 1 = u ''yes'' then Some (hd parts, SignalYes)
      else if length parts = 2 \<and> parts ! 1 = u ''no'' then Some (hd parts, SignalNo)
      else None)"

definition signalTokens ::
  "jstext list \<Rightarrow> (jstext \<times> Setting) list \<times> bool" where
  "signalTokens tokens =
     foldl (\<lambda>(found, broken) token.
              case signalToken token of
                None \<Rightarrow> (found, True)
              | Some (key, setting) \<Rightarrow> (AList.update key setting found, broken))
       ([], False) tokens"

definition takeSignal :: "jstext \<Rightarrow> RobotsParseResult \<Rightarrow> RobotsParseResult" where
  "takeSignal value r =
     (let (found, broken) = signalTokens (splitBy tokenPattern value);
          known = (case contentSignal r of None \<Rightarrow> [] | Some signal \<Rightarrow> signal)
      in r\<lparr>contentSignalMalformed := contentSignalMalformed r \<or> broken,
           contentSignal :=
             (if found = [] then contentSignal r
              else Some (foldl (\<lambda>signal (key, setting). AList.update key setting signal)
                           known found))\<rparr>)"

definition takeAgent :: "jstext \<Rightarrow> Parsing \<Rightarrow> Parsing" where
  "takeAgent value p =
     (let r = parsed p;
          fresh = (robotGroups r = [] \<or> seenRules p);
          groups = robotGroups r
            @ (if fresh then [\<lparr>groupAgents = [], groupAllow = [], groupDisallow = []\<rparr>] else []);
          opened = r\<lparr>robotGroups := groups\<rparr>
      in \<lparr>parsed =
            (if value \<noteq> []
             then opened\<lparr>robotGroups :=
                    inLastGroup (\<lambda>g. g\<lparr>groupAgents := groupAgents g @ [lower value]\<rparr>) groups\<rparr>
             else malformed opened),
          seenRules = (if fresh then False else seenRules p)\<rparr>)"

definition takeRule ::
  "(RobotsGroup \<Rightarrow> RobotsGroup) \<Rightarrow> Parsing \<Rightarrow> Parsing" where
  "takeRule add p =
     (if robotGroups (parsed p) = [] then p\<lparr>parsed := malformed (parsed p)\<rparr>
      else \<lparr>parsed = (parsed p)\<lparr>robotGroups := inLastGroup add (robotGroups (parsed p))\<rparr>,
            seenRules = True\<rparr>)"

definition takeSitemap :: "jstext \<Rightarrow> RobotsParseResult \<Rightarrow> RobotsParseResult" where
  "takeSitemap value r =
     (if test webAddressPattern value \<and> length (robotSitemaps r) < 20
      then r\<lparr>robotSitemaps := robotSitemaps r @ [value]\<rparr>
      else malformed r)"

definition takeField :: "jstext \<Rightarrow> jstext \<Rightarrow> Parsing \<Rightarrow> Parsing" where
  "takeField field value p =
     (if field = u ''user-agent'' then takeAgent value p
      else if field = u ''allow'' then
        takeRule (\<lambda>g. g\<lparr>groupAllow := groupAllow g @ [value]\<rparr>) p
      else if field = u ''disallow'' then
        takeRule (\<lambda>g. g\<lparr>groupDisallow := groupDisallow g @ [value]\<rparr>) p
      else if field = u ''sitemap'' then p\<lparr>parsed := takeSitemap value (parsed p)\<rparr>
      else if field = u ''content-signal'' then p\<lparr>parsed := takeSignal value (parsed p)\<rparr>
      else p)"

definition takeLine :: "jstext \<Rightarrow> Parsing \<Rightarrow> Parsing" where
  "takeLine original p =
     (let line = trim (replaceFirst commentPattern [] original) in
      if line = [] then p
      else
        case indexOfUnit 58 line of
          None \<Rightarrow> p\<lparr>parsed := malformed (parsed p)\<rparr>
        | Some 0 \<Rightarrow> p\<lparr>parsed := malformed (parsed p)\<rparr>
        | Some separator \<Rightarrow>
            takeField (lower (trim (take separator line))) (trim (drop (separator + 1) line)) p)"

definition noRobots :: RobotsParseResult where
  "noRobots =
     \<lparr>robotGroups = [], robotSitemaps = [], contentSignal = None, contentSignalMalformed = False,
      malformedDirectives = 0, robotFatal = False\<rparr>"

definition parseRobots :: "jstext \<Rightarrow> RobotsParseResult" where
  "parseRobots body =
     (parsed (foldl (\<lambda>p line. takeLine line p) \<lparr>parsed = noRobots, seenRules = False\<rparr>
                (splitBy newlinePattern body)))
       \<lparr>robotFatal := 0 \<in> set body\<rparr>"

section \<open>The rules\<close>

text \<open>
  \<open>ruleMatches\<close> writes a pattern out of the rule, with three replacements, and hands the text
  to \<open>RegExp\<close>. The third replacement replaces a dollar at the end by a dollar.
\<close>

definition escapedUnits :: "jstext" where
  "escapedUnits = u ''.+?^${}()|[]'' @ [92]"

definition escapeRule :: "jstext \<Rightarrow> jstext" where
  "escapeRule rule = concat (map (\<lambda>c. if c \<in> set escapedUnits then [92, c] else [c]) rule)"

definition starRule :: "jstext \<Rightarrow> jstext" where
  "starRule rule = concat (map (\<lambda>c. if c = 42 then [46, 42] else [c]) rule)"

definition dollarRule :: "jstext \<Rightarrow> jstext" where
  "dollarRule rule = (if endsWith rule [36] then butlast rule @ [36] else rule)"

definition ruleSource :: "jstext \<Rightarrow> jstext" where
  "ruleSource rule = 94 # dollarRule (starRule (escapeRule rule))"

text \<open>\<open>RegExp\<close> on the patterns \<open>ruleSource\<close> writes: anchors, escapes, \<open>.*\<close> and plain units.\<close>

fun compileSource :: "jstext \<Rightarrow> rx" where
  "compileSource [] = Nothing"
| "compileSource (c # s) =
     (if c = 94 then Seq AtStart (compileSource s)
      else if c = 36 then Seq AtEnd (compileSource s)
      else if c = 92 then
        (case s of [] \<Rightarrow> Nothing | d # t \<Rightarrow> Seq (unit1 d) (compileSource t))
      else
        (let atom = (if c = 46 then dot1 else unit1 c) in
         case s of
           [] \<Rightarrow> atom
         | d # t \<Rightarrow>
             if d = 42 then Seq (star atom) (compileSource t)
             else Seq atom (compileSource (d # t))))"

definition ruleMatches :: "jstext \<Rightarrow> jstext \<Rightarrow> bool" where
  "ruleMatches path rule =
     (if rule = [] then False else test (compileSource (ruleSource rule)) path)"

definition specificity :: "jstext \<Rightarrow> RobotsGroup \<Rightarrow> int" where
  "specificity normalized g =
     foldl max (-1)
       (map (\<lambda>agent. if agent = u ''*'' then 0
                       else if holds normalized agent then int (length agent) else -1)
          (groupAgents g))"

text \<open>A stable sort by descending length, as \<open>Array.prototype.sort\<close> is.\<close>

definition byLength :: "(jstext \<times> bool) list \<Rightarrow> (jstext \<times> bool) list" where
  "byLength rules = sort_key (\<lambda>(rule, allow). - int (length rule)) rules"

definition rulesFor :: "RobotsParseResult \<Rightarrow> jstext \<Rightarrow> (jstext \<times> bool) list" where
  "rulesFor r userAgent =
     (let normalized = lower userAgent;
          rated = map (\<lambda>g. (g, specificity normalized g)) (robotGroups r);
          highest = foldl max (-1) (map snd rated);
          groups = map fst (filter (\<lambda>(g, s). s = highest \<and> 0 \<le> s) rated)
      in concat (map (\<lambda>g. map (\<lambda>rule. (rule, True)) (groupAllow g)
                         @ map (\<lambda>rule. (rule, False)) (groupDisallow g)) groups))"

definition isPathAllowed :: "RobotsParseResult \<Rightarrow> jstext \<Rightarrow> jstext \<Rightarrow> bool" where
  "isPathAllowed r userAgent path =
     (let matches = byLength (filter (\<lambda>(rule, allow). ruleMatches path rule) (rulesFor r userAgent))
      in case matches of
           [] \<Rightarrow> True
         | (rule, _) # _ \<Rightarrow>
             list_ex snd (filter (\<lambda>(other, allow). length other = length rule) matches))"

section \<open>The agents a site names\<close>

definition PROVIDERS :: "(string \<times> string list) list" where
  "PROVIDERS =
     [(''openai'', [''gptbot'', ''oai-searchbot'', ''chatgpt-user'']),
      (''anthropic'', [''claudebot'', ''claude-user'']),
      (''perplexity'', [''perplexitybot'']),
      (''google'', [''google-extended''])]"

definition explicitAiPolicies :: "RobotsParseResult \<Rightarrow> (string \<times> string list) list" where
  "explicitAiPolicies r =
     (let tokens = concat (map (\<lambda>g. map (replaceFirst versionPattern []) (groupAgents g))
                              (robotGroups r))
      in filter (\<lambda>(provider, found). found \<noteq> [])
           (map (\<lambda>(provider, agents). (provider, filter (\<lambda>agent. u agent \<in> set tokens) agents))
              PROVIDERS))"

section \<open>A rule is a glob over the beginning of the path\<close>

fun globs :: "jstext \<Rightarrow> jstext \<Rightarrow> bool" where
  "globs [] path = True"
| "globs (c # rule) path =
     (if c = 42
      then list_ex (\<lambda>i. list_all (\<lambda>d. \<not> isLineEnd d) (take i path) \<and> globs rule (drop i path))
             [0..<Suc (length path)]
      else (case path of [] \<Rightarrow> False | d # t \<Rightarrow> d = c \<and> globs rule t))"

lemma reads_dots:
  "(\<exists>b'. reads (star dot1) (b, path) (b', s)) \<longleftrightarrow>
     (\<exists>i \<le> length path. list_all (\<lambda>d. \<not> isLineEnd d) (take i path) \<and> s = drop i path)"
proof
  assume "\<exists>b'. reads (star dot1) (b, path) (b', s)"
  then obtain b' where "reads (star dot1) (b, path) (b', s)" by blast
  then show "\<exists>i \<le> length path. list_all (\<lambda>d. \<not> isLineEnd d) (take i path) \<and> s = drop i path"
  proof (induction "star dot1" "(b, path)" "(b', s)" arbitrary: b path rule: reads.induct)
    case (stop greedy r)
    then show ?case by (auto intro: exI [of _ 0])
  next
    case (again r q greedy)
    then have r: "r = dot1" and greedy: "greedy = True" by (simp_all add: star_def)
    obtain d t where q: "path = d # t" "q = (Some d, t)" "\<not> isLineEnd d"
      using again(1) unfolding r dot1_def by (cases path) auto
    obtain i where "i \<le> length t" "list_all (\<lambda>d. \<not> isLineEnd d) (take i t)" "s = drop i t"
      using again.hyps(4) [of "Some d" t] q r greedy by (auto simp: star_def)
    then show ?case using q by (intro exI [of _ "Suc i"]) simp
  qed (simp_all add: star_def)
next
  assume "\<exists>i \<le> length path. list_all (\<lambda>d. \<not> isLineEnd d) (take i path) \<and> s = drop i path"
  then obtain i where i: "list_all (\<lambda>d. \<not> isLineEnd d) (take i path)" "s = drop i path" by blast
  show "\<exists>b'. reads (star dot1) (b, path) (b', s)"
    using reads_run [OF i(1), of True b s] i(2) by (simp add: star_def dot1_def)
qed

lemma star_escape_Cons:
  "starRule (escapeRule (c # rule)) =
     (if c = 42 then [46, 42] else if c \<in> set escapedUnits then [92, c] else [c])
       @ starRule (escapeRule rule)"
  by (auto simp: starRule_def escapeRule_def escapedUnits_def)

lemma source_never_starts_with_star: "starRule (escapeRule rule) = 42 # s \<Longrightarrow> False"
  by (cases rule) (auto simp: star_escape_Cons starRule_def escapeRule_def split: if_splits)

lemma compile_plain:
  assumes "c \<notin> set escapedUnits" "c \<noteq> 42" "\<And>t. s \<noteq> 42 # t"
  shows "admits (compileSource (c # s)) p \<longleftrightarrow> admits (Seq (unit1 c) (compileSource s)) p"
proof -
  have "c \<noteq> 94" "c \<noteq> 36" "c \<noteq> 92" "c \<noteq> 46" using assms(1) by (auto simp: escapedUnits_def)
  then show ?thesis
    using assms(2,3) by (cases s) (auto simp: Let_def simp del: compileSource.simps(2)
        simp add: compileSource.simps(2) [of c])
qed

lemma admits_unit1 [simp]:
  "admits (Seq (unit1 c) r) (b, s) \<longleftrightarrow>
     (case s of [] \<Rightarrow> False | d # t \<Rightarrow> d = c \<and> admits r (Some d, t))"
  by (simp add: unit1_def)

lemma compile_globs:
  "admits (compileSource (starRule (escapeRule rule))) (b, path) \<longleftrightarrow> globs rule path"
proof (induction rule arbitrary: b path)
  case Nil
  show ?case by (simp add: starRule_def escapeRule_def)
next
  case (Cons c rule)
  let ?rest = "compileSource (starRule (escapeRule rule))"
  have literal: "admits (Seq (unit1 c) ?rest) (b, path) \<longleftrightarrow>
      (case path of [] \<Rightarrow> False | d # t \<Rightarrow> d = c \<and> globs rule t)"
    by (simp add: Cons.IH cong: list.case_cong)
  consider "c = 42" | "c \<noteq> 42" "c \<in> set escapedUnits" | "c \<noteq> 42" "c \<notin> set escapedUnits" by blast
  then show ?case
  proof cases
    case 1
    have "admits (Seq (star dot1) ?rest) (b, path) \<longleftrightarrow>
        (\<exists>s. (\<exists>b'. reads (star dot1) (b, path) (b', s)) \<and> globs rule s)"
      by (auto simp: admits_Seq Cons.IH)
    also have "\<dots> \<longleftrightarrow> globs (c # rule) path"
      unfolding reads_dots using 1
      by (auto simp: list_ex_iff less_Suc_eq_le Bex_def simp del: upt_Suc)
    finally show ?thesis using 1 by (simp add: star_escape_Cons)
  next
    case 2
    then show ?thesis using literal by (simp add: star_escape_Cons)
  next
    case 3
    then have "admits (compileSource (starRule (escapeRule (c # rule)))) (b, path) \<longleftrightarrow>
        admits (Seq (unit1 c) ?rest) (b, path)"
      using compile_plain [of c "starRule (escapeRule rule)" "(b, path)"]
        source_never_starts_with_star [of rule]
      by (auto simp: star_escape_Cons simp del: compileSource.simps)
    with 3 show ?thesis using literal by simp
  qed
qed

lemma dollarRule_same: "dollarRule rule = rule"
proof (cases rule rule: rev_cases)
  case (snoc xs c)
  then show ?thesis by (auto simp: dollarRule_def endsWith_def)
qed (simp add: dollarRule_def endsWith_def)

text \<open>C35: A rule matches a path exactly when it is not empty and is a glob over the
  beginning of it, in which an asterisk stands for any units of one line and every other
  unit for itself: no other character of a rule means anything to the pattern it is
  compiled to, the dollar that ends a rule included.\<close>

theorem rule_is_a_glob: "ruleMatches path rule \<longleftrightarrow> rule \<noteq> [] \<and> globs rule path"
proof (cases "rule = []")
  case False
  have "compileSource (ruleSource rule) = Seq AtStart (compileSource (starRule (escapeRule rule)))"
    by (simp add: ruleSource_def dollarRule_same)
  with False show ?thesis by (simp add: ruleMatches_def test_anchored compile_globs)
qed (simp add: ruleMatches_def)

text \<open>A dollar at the end of a rule is matched as a dollar of the path.\<close>

lemma globs_needs: "c \<noteq> 42 \<Longrightarrow> globs (rule @ [c]) path \<Longrightarrow> c \<in> set path"
proof (induction rule arbitrary: path)
  case Nil
  then show ?case by (cases path) auto
next
  case (Cons d rule)
  show ?case
  proof (cases "d = 42")
    case True
    with Cons.prems obtain i where "globs (rule @ [c]) (drop i path)"
      by (auto simp: list_ex_iff simp del: upt_Suc)
    then have "c \<in> set (drop i path)" using Cons.IH Cons.prems(1) by blast
    then show ?thesis by (rule in_set_dropD)
  next
    case False
    with Cons show ?thesis by (cases path) auto
  qed
qed

lemma dollar_does_not_anchor: "ruleMatches path (rule @ [36]) \<Longrightarrow> 36 \<in> set path"
  using globs_needs [of 36 rule path] by (simp add: rule_is_a_glob)

section \<open>The longest rule wins\<close>

lemma byLength_set [simp]: "set (byLength rules) = set rules"
  by (simp add: byLength_def)

lemma byLength_head:
  assumes "byLength rules = (rule, allow) # others" "(other, a) \<in> set rules"
  shows "length other \<le> length rule"
proof -
  have "sorted (map (\<lambda>(rule, allow). - int (length rule)) (byLength rules))"
    by (simp add: byLength_def)
  moreover have "(other, a) \<in> set ((rule, allow) # others)"
    using assms by (metis byLength_set)
  ultimately show ?thesis using assms(1) by auto
qed

text \<open>C36: A path is allowed exactly when every rule against it that matches is matched by a
  rule for it that is at least as long, among the rules of the groups that name the agent
  most specifically: the longest rule wins, and where two are equally long the one that
  allows does. With no matching rule, everything is allowed.\<close>

theorem longest_rule_wins:
  "isPathAllowed r userAgent path \<longleftrightarrow>
     (\<forall>against. (against, False) \<in> set (rulesFor r userAgent) \<and> ruleMatches path against \<longrightarrow>
        (\<exists>rule. (rule, True) \<in> set (rulesFor r userAgent) \<and> ruleMatches path rule
                 \<and> length against \<le> length rule))"
proof -
  let ?matching = "filter (\<lambda>(rule, allow). ruleMatches path rule) (rulesFor r userAgent)"
  have member: "(rule, a) \<in> set ?matching \<longleftrightarrow>
      (rule, a) \<in> set (rulesFor r userAgent) \<and> ruleMatches path rule" for rule a by auto
  show ?thesis
  proof (cases "byLength ?matching")
    case Nil
    then have empty: "set ?matching = {}" by (metis byLength_set list.set(1))
    have none: "\<not> ((rule, a) \<in> set (rulesFor r userAgent) \<and> ruleMatches path rule)" for rule a
      unfolding member [symmetric] empty by simp
    show ?thesis using Nil none by (auto simp: isPathAllowed_def)
  next
    case (Cons m others)
    then obtain rule allow where head: "byLength ?matching = (rule, allow) # others" by (cases m) auto
    have longest: "length other \<le> length rule" if "(other, a) \<in> set ?matching" for other a
      using byLength_head [OF head that] .
    have top: "(rule, allow) \<in> set ?matching" using head by (metis byLength_set list.set_intros(1))
    have "isPathAllowed r userAgent path \<longleftrightarrow>
        (\<exists>other. (other, True) \<in> set ?matching \<and> length other = length rule)"
      unfolding isPathAllowed_def Let_def head list.case prod.case
      unfolding head [symmetric] list_ex_iff set_filter byLength_set by auto
    also have "\<dots> \<longleftrightarrow> (\<forall>against. (against, False) \<in> set ?matching \<longrightarrow>
        (\<exists>other. (other, True) \<in> set ?matching \<and> length against \<le> length other))"
    proof
      assume "\<exists>other. (other, True) \<in> set ?matching \<and> length other = length rule"
      then show "\<forall>against. (against, False) \<in> set ?matching \<longrightarrow>
          (\<exists>other. (other, True) \<in> set ?matching \<and> length against \<le> length other)"
        using longest by fastforce
    next
      assume dominated: "\<forall>against. (against, False) \<in> set ?matching \<longrightarrow>
          (\<exists>other. (other, True) \<in> set ?matching \<and> length against \<le> length other)"
      show "\<exists>other. (other, True) \<in> set ?matching \<and> length other = length rule"
      proof (cases allow)
        case True
        with top show ?thesis by (intro exI [of _ rule]) simp
      next
        case False
        with top have "(rule, False) \<in> set ?matching" by simp
        from dominated [rule_format, OF this] obtain other where
          other: "(other, True) \<in> set ?matching" "length rule \<le> length other" by (elim exE conjE)
        with longest [OF other(1)] show ?thesis by (intro exI [of _ other]) simp
      qed
    qed
    finally show ?thesis unfolding member by blast
  qed
qed

text \<open>A group whose allow and disallow rules are equally long, and one that is longer.\<close>

definition tiedRobots :: RobotsParseResult where
  "tiedRobots =
     \<lparr>robotGroups = [\<lparr>groupAgents = [u ''*''], groupAllow = [u ''/a*''], groupDisallow = [u ''/ab'', u ''/abc'']\<rparr>],
      robotSitemaps = [], contentSignal = None, contentSignalMalformed = False,
      malformedDirectives = 0, robotFatal = False\<rparr>"

theorem longest_rule_wins_witness:
  "isPathAllowed tiedRobots (u ''bot'') (u ''/abd'') \<and> \<not> isPathAllowed tiedRobots (u ''bot'') (u ''/abcd'')
   \<and> (\<exists>rule. (rule, True) \<in> set (rulesFor tiedRobots (u ''bot'')) \<and> ruleMatches (u ''/abd'') rule
         \<and> length (u ''/ab'') \<le> length rule)"
proof -
  have allowed: "isPathAllowed tiedRobots (u ''bot'') (u ''/abd'')" by code_simp
  have against: "(u ''/ab'', False) \<in> set (rulesFor tiedRobots (u ''bot''))
      \<and> ruleMatches (u ''/abd'') (u ''/ab'')" by code_simp
  have refused: "\<not> isPathAllowed tiedRobots (u ''bot'') (u ''/abcd'')" by code_simp
  from longest_rule_wins [THEN iffD1, OF allowed] against refused allowed
  show ?thesis by blast
qed

section \<open>What the parser keeps\<close>

definition keepsKeys :: "(jstext \<times> Setting) list \<Rightarrow> bool" where
  "keepsKeys signal \<longleftrightarrow>
     distinct (map fst signal) \<and> fst ` set signal \<subseteq> set CONTENT_SIGNAL_KEYS"

definition robotsSound :: "RobotsParseResult \<Rightarrow> bool" where
  "robotsSound r \<longleftrightarrow>
     length (robotSitemaps r) \<le> 20 \<and> (\<forall>s \<in> set (robotSitemaps r). test webAddressPattern s)
     \<and> (\<forall>g \<in> set (robotGroups r). \<forall>agent \<in> set (groupAgents g). agent \<noteq> [] \<and> lower agent = agent)
     \<and> (\<forall>signal. contentSignal r = Some signal \<longrightarrow> signal \<noteq> [] \<and> keepsKeys signal)"

lemma keepsKeys_update:
  "keepsKeys signal \<Longrightarrow> key \<in> set CONTENT_SIGNAL_KEYS \<Longrightarrow> keepsKeys (AList.update key setting signal)"
  by (auto simp: keepsKeys_def distinct_update dom_update)

lemma update_not_empty [simp]: "AList.update key setting signal \<noteq> []"
  by (cases signal) auto

lemma signalToken_key: "signalToken token = Some (key, setting) \<Longrightarrow> key \<in> set CONTENT_SIGNAL_KEYS"
  by (auto simp: signalToken_def Let_def split: if_splits)

lemma signalTokens_keys: "keepsKeys (fst (signalTokens tokens))"
  unfolding signalTokens_def
  by (rule foldl_keeps [where holds = "\<lambda>r. keepsKeys (fst r)"])
    (auto simp: keepsKeys_def [of "[]"] keepsKeys_update signalToken_key split: option.splits)

lemma known_signals:
  assumes "keepsKeys found" "keepsKeys known"
  shows "keepsKeys (foldl (\<lambda>signal (key, setting). AList.update key setting signal) known found)"
proof (rule foldl_keeps)
  fix signal entry
  assume entry: "entry \<in> set found" and kept: "keepsKeys signal"
  obtain key setting where pair: "entry = (key, setting)" by (rule prod.exhaust)
  have "key \<in> set CONTENT_SIGNAL_KEYS"
    using assms(1) entry pair by (force simp: keepsKeys_def)
  with kept show "keepsKeys (case entry of (key, setting) \<Rightarrow> AList.update key setting signal)"
    by (simp add: pair keepsKeys_update)
qed (rule assms(2))

lemma known_signals_not_empty:
  "found \<noteq> [] \<Longrightarrow> foldl (\<lambda>signal (key, setting). AList.update key setting signal) known found \<noteq> []"
  by (cases found rule: rev_cases) (auto split: prod.splits)

lemma takeSignal_sound: "robotsSound r \<Longrightarrow> robotsSound (takeSignal value r)"
  using signalTokens_keys [of "splitBy tokenPattern value"]
  by (auto simp: takeSignal_def robotsSound_def Let_def known_signals_not_empty
      keepsKeys_def [of "[]"] split: prod.splits option.splits intro!: known_signals)

lemma takeSitemap_sound: "robotsSound r \<Longrightarrow> robotsSound (takeSitemap value r)"
  by (auto simp: takeSitemap_def robotsSound_def malformed_def)

lemma in_last_group: "groups \<noteq> [] \<Longrightarrow> g \<in> set (inLastGroup f groups) \<Longrightarrow>
    g \<in> set groups \<or> g = f (last groups)"
  by (auto simp: inLastGroup_def dest: in_set_butlastD)

definition agentsSound :: "RobotsGroup list \<Rightarrow> bool" where
  "agentsSound groups \<longleftrightarrow>
     (\<forall>g \<in> set groups. \<forall>agent \<in> set (groupAgents g). agent \<noteq> [] \<and> lower agent = agent)"

lemma agentsSound_last:
  assumes "agentsSound groups" "groups \<noteq> []"
    and "\<And>g. set (groupAgents (f g)) \<subseteq> set (groupAgents g) \<union> {a. a \<noteq> [] \<and> lower a = a}"
  shows "agentsSound (inLastGroup f groups)"
  using assms in_last_group [OF assms(2)] last_in_set [OF assms(2)]
  unfolding agentsSound_def by blast

lemma robotsSound_groups:
  "robotsSound (r\<lparr>robotGroups := []\<rparr>) \<Longrightarrow> agentsSound groups \<Longrightarrow>
     robotsSound (r\<lparr>robotGroups := groups\<rparr>)"
  by (auto simp: robotsSound_def agentsSound_def)

lemma robotsSound_split:
  "robotsSound r \<longleftrightarrow> robotsSound (r\<lparr>robotGroups := []\<rparr>) \<and> agentsSound (robotGroups r)"
  by (auto simp: robotsSound_def agentsSound_def)

lemma malformed_sound [simp]: "robotsSound (malformed r) \<longleftrightarrow> robotsSound r"
  by (simp add: malformed_def robotsSound_def)

lemma takeAgent_sound:
  assumes "robotsSound (parsed p)"
  shows "robotsSound (parsed (takeAgent value p))"
proof -
  let ?groups = "robotGroups (parsed p)
    @ (if robotGroups (parsed p) = [] \<or> seenRules p
       then [\<lparr>groupAgents = [], groupAllow = [], groupDisallow = []\<rparr>] else [])"
  have "agentsSound (robotGroups (parsed p))" "robotsSound ((parsed p)\<lparr>robotGroups := []\<rparr>)"
    using assms robotsSound_split [of "parsed p"] by simp_all
  moreover from this have groups: "agentsSound ?groups" by (auto simp: agentsSound_def)
  moreover have "agentsSound (inLastGroup
      (\<lambda>g. g\<lparr>groupAgents := groupAgents g @ [lower value]\<rparr>) ?groups)" if "value \<noteq> []"
    using groups by (rule agentsSound_last) (use that in \<open>auto simp: lower_def\<close>)
  ultimately show ?thesis
    by (simp add: takeAgent_def Let_def robotsSound_groups)
qed

lemma takeRule_sound:
  assumes "robotsSound (parsed p)" "\<And>g. groupAgents (add g) = groupAgents g"
  shows "robotsSound (parsed (takeRule add p))"
proof -
  have "agentsSound (robotGroups (parsed p))" "robotsSound ((parsed p)\<lparr>robotGroups := []\<rparr>)"
    using assms(1) robotsSound_split [of "parsed p"] by simp_all
  moreover from this have "robotGroups (parsed p) \<noteq> [] \<Longrightarrow>
      agentsSound (inLastGroup add (robotGroups (parsed p)))"
    using assms(2) by (intro agentsSound_last) auto
  ultimately show ?thesis
    using assms(1) by (simp add: takeRule_def robotsSound_groups)
qed

lemma takeLine_sound: "robotsSound (parsed p) \<Longrightarrow> robotsSound (parsed (takeLine line p))"
  by (auto simp: takeLine_def takeField_def Let_def takeAgent_sound takeRule_sound takeSitemap_sound
      takeSignal_sound split: option.splits nat.splits)

text \<open>C37: Whatever the body, what the parser returns is well formed: at most twenty sitemaps,
  each an http or https address; no group names an empty agent or one in upper case; and a
  content signal that was declared sets at least one key, each known key at most once.\<close>

theorem parsed_robots_are_sound: "robotsSound (parseRobots body)"
proof -
  have "robotsSound (parsed (foldl (\<lambda>p line. takeLine line p)
      \<lparr>parsed = noRobots, seenRules = False\<rparr> (splitBy newlinePattern body)))"
  proof (rule foldl_keeps)
    show "robotsSound (parsed \<lparr>parsed = noRobots, seenRules = False\<rparr>)"
      by (simp add: robotsSound_def noRobots_def)
  qed (rule takeLine_sound)
  then show ?thesis by (simp add: parseRobots_def robotsSound_def)
qed

end
