(* ===== verification/Scanner_Checks.thy ===== *)
theory Scanner_Checks
  imports Scanner_Parsers Scanner_Robots
begin

text \<open>
  The eighteen checks of \<open>packages/scanner/src/checks.ts\<close> over what the scanner fetched, and
  the records of \<open>model.ts\<close> they read. The platform is a parameter: the clock, \<open>Date.parse\<close>
  (no answer is NaN), the path of a \<open>URL\<close> (no answer is the constructor throwing) and the
  text of a number. A ratio is the rational the two counts make; every threshold it is
  compared with is exact for the double of the code too, since both are the double nearest
  to the same quotient.
\<close>

section \<open>What was fetched\<close>

datatype Segment = Store | Local | Owner

record FetchArtifact =
  fetchUrl :: jstext
  fetchStatus :: int
  fetchHeaders :: "(string \<times> jstext) list"
  fetchBody :: jstext
  decodedBytes :: int
  truncated :: bool
  durationMs :: int
  ttfbMs :: int
  fetchError :: "jstext option"

record ScanArtifacts =
  scanSegment :: Segment
  canonicalTargetUrl :: jstext
  robotsFetch :: FetchArtifact
  baseFetch :: "FetchArtifact option"
  representativeFetch :: "FetchArtifact option"
  markdownFetch :: "FetchArtifact option"
  chatgptProbe :: "FetchArtifact option"
  claudeProbe :: "FetchArtifact option"
  sitemapFetches :: "FetchArtifact list"
  llmsFetch :: "FetchArtifact option"
  mcpFetches :: "FetchArtifact list"
  ucpFetch :: "FetchArtifact option"
  oauthFetches :: "FetchArtifact list"
  a2aFetch :: "FetchArtifact option"
  noncanonicalA2aHint :: bool

record Platform =
  nowMs :: int
  dateParse :: "jstext \<Rightarrow> int option"
  pathnameOf :: "jstext \<Rightarrow> jstext option"
  numberText :: "rat \<Rightarrow> jstext"

section \<open>What a check says\<close>

datatype CheckStatus = CheckPass | CheckPartial | CheckFail | CheckUnavailable | CheckNotApplicable

datatype Evidence =
    EvText jstext
  | EvNumber int
  | EvFlag bool
  | EvTexts "jstext list"

record CheckResult =
  checkId :: nat
  checkStatus :: CheckStatus
  nominalWeight :: int
  applicableWeight :: int
  earnedWeight :: int
  summaryCode :: string
  evidence :: "(string \<times> Evidence) list"
  userImpactCode :: string
  fixCode :: "string option"
  checkDuration :: int
  checkError :: "jstext option"

definition CHECK_DEFINITIONS :: "(nat \<times> string \<times> int) list" where
  "CHECK_DEFINITIONS =
     [(1, ''robots'', 5), (2, ''ai_policy'', 8), (3, ''content_signal'', 4), (4, ''sitemap'', 6),
      (5, ''json_ld_presence'', 10), (6, ''vertical_json_ld'', 12),
      (7, ''markdown_negotiation'', 8), (8, ''llms_txt'', 2), (9, ''mcp_server_card'', 6),
      (10, ''ucp_profile'', 6), (11, ''oauth_discovery'', 4), (12, ''raw_html_ssr'', 10),
      (13, ''agent_ua_accessibility'', 8), (14, ''page_weight_latency'', 4),
      (15, ''store_feed_signals'', 4), (16, ''platform_fingerprint'', 0),
      (17, ''a2a_agent_card'', 1), (18, ''hreflang_locales'', 2)]"

definition CHECK_WEIGHTS :: "int list" where
  "CHECK_WEIGHTS = map (\<lambda>(i, label, weight). weight) CHECK_DEFINITIONS"

record ResultInput =
  inId :: nat
  inStatus :: CheckStatus
  inEarned :: int
  inSummary :: string
  inEvidence :: "(string \<times> Evidence) list"
  inImpact :: string
  inFix :: "string option"
  inDuration :: int
  inError :: "jstext option"
  inApplicable :: bool

text \<open>The fields every caller gives, with the defaults of the others.\<close>

definition says :: "nat \<Rightarrow> CheckStatus \<Rightarrow> int \<Rightarrow> string \<Rightarrow> string \<Rightarrow> ResultInput" where
  "says i status earned summary impact =
     \<lparr>inId = i, inStatus = status, inEarned = earned, inSummary = summary, inEvidence = [],
      inImpact = impact, inFix = None, inDuration = 0, inError = None,
      inApplicable = (status \<noteq> CheckNotApplicable)\<rparr>"

definition result :: "ResultInput \<Rightarrow> CheckResult" where
  "result i =
     \<lparr>checkId = inId i, checkStatus = inStatus i,
      nominalWeight = CHECK_WEIGHTS ! (inId i - 1),
      applicableWeight = (if inApplicable i then CHECK_WEIGHTS ! (inId i - 1) else 0),
      earnedWeight = inEarned i, summaryCode = inSummary i, evidence = inEvidence i,
      userImpactCode = inImpact i,
      fixCode = (case inFix i of Some f \<Rightarrow> if f = [] then None else Some f | None \<Rightarrow> None),
      checkDuration = inDuration i,
      checkError = (case inError i of Some e \<Rightarrow> if e = [] then None else Some e | None \<Rightarrow> None)\<rparr>"

section \<open>Helpers\<close>

definition hasError :: "FetchArtifact \<Rightarrow> bool" where
  "hasError a = (case fetchError a of None \<Rightarrow> False | Some e \<Rightarrow> e \<noteq> [])"

fun inaccessible :: "FetchArtifact option \<Rightarrow> bool" where
  "inaccessible None = True"
| "inaccessible (Some a) = (hasError a \<or> fetchStatus a = 0 \<or> 500 \<le> fetchStatus a)"

fun missing :: "FetchArtifact option \<Rightarrow> bool" where
  "missing None = True"
| "missing (Some a) = (fetchStatus a = 404 \<or> fetchStatus a = 410)"

definition errorOf :: "FetchArtifact option \<Rightarrow> jstext option" where
  "errorOf a = Option.bind a fetchError"

text \<open>\<open>a ?? fallback\<close> of an error code.\<close>

definition errorOr :: "jstext option \<Rightarrow> string \<Rightarrow> jstext option" where
  "errorOr e fallback = (case e of None \<Rightarrow> Some (u fallback) | Some c \<Rightarrow> Some c)"

definition header :: "FetchArtifact \<Rightarrow> string \<Rightarrow> jstext" where
  "header a name = (case map_of (fetchHeaders a) name of None \<Rightarrow> [] | Some v \<Rightarrow> v)"

text \<open>The pages that were fetched and can be read.\<close>

definition readablePages :: "ScanArtifacts \<Rightarrow> FetchArtifact list" where
  "readablePages a =
     concat (map (\<lambda>page. case page of None \<Rightarrow> [] | Some p \<Rightarrow> if inaccessible page then [] else [p])
       [baseFetch a, representativeFetch a])"

definition fixUnless :: "bool \<Rightarrow> string \<Rightarrow> string option" where
  "fixUnless ok fix' = (if ok then None else Some fix')"

section \<open>robots.txt, policies and content signals\<close>

definition robotsCheck :: "FetchArtifact \<Rightarrow> RobotsParseResult \<Rightarrow> CheckResult" where
  "robotsCheck fetch r =
     (if hasError fetch \<or> fetchStatus fetch = 0 \<or> 500 \<le> fetchStatus fetch then
        result ((says 1 CheckUnavailable 0 ''robots_unavailable'' ''robots_not_assessed'')
          \<lparr>inError := errorOr (fetchError fetch) ''robots_http_error'', inDuration := durationMs fetch\<rparr>)
      else if fetchStatus fetch = 404 \<or> fetchStatus fetch = 410 then
        result ((says 1 CheckFail 0 ''robots_missing'' ''robots_missing_impact'')
          \<lparr>inEvidence := [(''status'', EvNumber (fetchStatus fetch))],
           inFix := Some ''publish_robots'', inDuration := durationMs fetch\<rparr>)
      else if fetchStatus fetch \<noteq> 200 \<or> robotFatal r then
        result ((says 1 CheckFail 0 ''robots_invalid'' ''robots_invalid_impact'')
          \<lparr>inEvidence := [(''status'', EvNumber (fetchStatus fetch))],
           inFix := Some ''repair_robots'', inDuration := durationMs fetch\<rparr>)
      else
        (let partial = (0 < malformedDirectives r
                        \<or> test (litI ''text/html'') (header fetch ''content-type''))
         in result ((says 1 (if partial then CheckPartial else CheckPass) (if partial then 2 else 5)
              (if partial then ''robots_partially_parseable'' else ''robots_parseable'')
              ''robots_policy_discoverability'')
              \<lparr>inEvidence :=
                 [(''status'', EvNumber (fetchStatus fetch)),
                  (''size'', EvNumber (decodedBytes fetch)),
                  (''sitemap_count'', EvNumber (int (length (robotSitemaps r)))),
                  (''group_count'', EvNumber (int (length (robotGroups r)))),
                  (''malformed_directives'', EvNumber (int (malformedDirectives r)))],
               inFix := fixUnless (\<not> partial) ''repair_robots'',
               inDuration := durationMs fetch\<rparr>)))"

definition policyCheck :: "FetchArtifact \<Rightarrow> RobotsParseResult \<Rightarrow> CheckResult \<Rightarrow> CheckResult" where
  "policyCheck fetch r robots =
     (let policies = explicitAiPolicies r;
          providerCount = int (length policies)
      in if checkStatus robots = CheckUnavailable then
           result ((says 2 CheckUnavailable 0 ''ai_policy_unavailable'' ''ai_policy_not_assessed'')
             \<lparr>inError := checkError robots\<rparr>)
         else if checkStatus robots = CheckFail \<and> fetchStatus fetch \<noteq> 200 then
           result ((says 2 CheckFail 0 ''ai_policy_absent'' ''ai_policy_ambiguity'')
             \<lparr>inFix := Some ''declare_ai_policy''\<rparr>)
         else
           result ((says 2
               (if providerCount = 4 then CheckPass
                else if providerCount \<noteq> 0 then CheckPartial else CheckFail)
               (providerCount * 2)
               (if providerCount = 4 then ''ai_policy_explicit''
                else if providerCount \<noteq> 0 then ''ai_policy_partial'' else ''ai_policy_absent'')
               ''ai_policy_ambiguity'')
             \<lparr>inEvidence :=
                [(''provider_count'', EvNumber providerCount),
                 (''providers'', EvTexts (map (\<lambda>(provider, found). u provider) policies)),
                 (''policy_tokens'', EvTexts (concat (map (\<lambda>(provider, found). map u found) policies)))],
              inFix := fixUnless (providerCount = 4) ''declare_ai_policy''\<rparr>))"

definition settingText :: "Setting \<Rightarrow> jstext" where
  "settingText s = (case s of SignalYes \<Rightarrow> u ''yes'' | SignalNo \<Rightarrow> u ''no'')"

definition signalCheck :: "RobotsParseResult \<Rightarrow> CheckResult \<Rightarrow> CheckResult" where
  "signalCheck r robots =
     (let known = (case contentSignal r of None \<Rightarrow> [] | Some signal \<Rightarrow> signal) in
      if checkStatus robots = CheckUnavailable then
        result ((says 3 CheckUnavailable 0 ''content_signal_unavailable''
            ''content_signal_not_assessed'') \<lparr>inError := checkError robots\<rparr>)
      else if contentSignal r = None \<and> \<not> contentSignalMalformed r then
        result ((says 3 CheckFail 0 ''content_signal_absent'' ''content_signal_ambiguity'')
          \<lparr>inFix := Some ''publish_content_signal''\<rparr>)
      else if contentSignalMalformed r then
        result ((says 3 CheckPartial 2 ''content_signal_partial'' ''content_signal_ambiguity'')
          \<lparr>inEvidence := [(''valid_keys'', EvTexts (map fst known))],
           inFix := Some ''repair_content_signal''\<rparr>)
      else
        result ((says 3 CheckPass 4 ''content_signal_parseable'' ''content_signal_explicit'')
          \<lparr>inEvidence :=
             [(''keys'', EvTexts (map fst known)),
              (''values'', EvTexts (map (\<lambda>(key, setting). key @ u '':'' @ settingText setting) known))]\<rparr>))"

definition robotsChecks :: "ScanArtifacts \<Rightarrow> CheckResult list" where
  "robotsChecks a =
     (let fetch = robotsFetch a;
          r = parseRobots (fetchBody fetch);
          robots = robotsCheck fetch r
      in [robots, policyCheck fetch r robots, signalCheck r robots])"

section \<open>Sitemaps\<close>

definition isStale :: "Platform \<Rightarrow> jstext \<Rightarrow> bool" where
  "isStale p written =
     (case dateParse p written of
        None \<Rightarrow> True
      | Some t \<Rightarrow> t < nowMs p - 180 * 86400000)"

definition sitemapCheck :: "Platform \<Rightarrow> ScanArtifacts \<Rightarrow> CheckResult" where
  "sitemapCheck p a =
     (let fetches = sitemapFetches a;
          available = filter (\<lambda>f. \<not> inaccessible (Some f) \<and> \<not> missing (Some f)) fetches;
          valid = filter sitemapValid (map (\<lambda>f. parseSitemap (fetchBody f)) available);
          mods = concat (map lastmods valid);
          stale = length (filter (isStale p) mods);
          childUnavailable =
            (list_ex isIndex valid \<and> list_ex (\<lambda>f. inaccessible (Some f)) fetches);
          staleRatio = (if mods \<noteq> [] then ratio stale (length mods) else 1);
          partial = (childUnavailable \<or> mods = [] \<or> 8 / 10 < staleRatio)
      in if available = [] then
           (if list_ex (\<lambda>f. missing (Some f)) fetches then
              result ((says 4 CheckFail 0 ''sitemap_missing'' ''sitemap_discovery_gap'')
                \<lparr>inFix := Some ''publish_sitemap''\<rparr>)
            else
              result ((says 4 CheckUnavailable 0 ''sitemap_unavailable'' ''sitemap_not_assessed'')
                \<lparr>inError := errorOr (case fetches of [] \<Rightarrow> None | f # _ \<Rightarrow> fetchError f)
                               ''sitemap_unavailable''\<rparr>))
         else if valid = [] then
           result ((says 4 CheckFail 0 ''sitemap_invalid'' ''sitemap_discovery_gap'')
             \<lparr>inEvidence := [(''files_checked'', EvNumber (int (length available)))],
              inFix := Some ''repair_sitemap''\<rparr>)
         else
           result ((says 4 (if partial then CheckPartial else CheckPass)
               (if partial then (if childUnavailable then 2 else 4) else 6)
               (if partial then ''sitemap_partial'' else ''sitemap_valid'') ''sitemap_discovery'')
             \<lparr>inEvidence :=
                [(''files_checked'', EvNumber (int (length fetches))),
                 (''url_count'', EvNumber (int (length (concat (map sitemapUrls valid))))),
                 (''lastmod_count'', EvNumber (int (length mods))),
                 (''stale_ratio_percent'', EvNumber (mathRound (staleRatio * 100)))],
              inFix := fixUnless (\<not> partial) ''improve_sitemap'',
              inDuration := sum_list (map durationMs fetches)\<rparr>))"

end
