(* ===== verification/Scanner_Fetch.thy ===== *)
theory Scanner_Fetch
  imports Scanner_Url Scanner_Checks
begin

text \<open>
  The fetcher of \<^verbatim>\<open>apps/scanner-worker/src/safe-fetch.ts\<close>: how an address is pinned, how an
  answer is read and cut, the slots per origin, the budget of requests and the loop that
  follows redirects. Several fetches run at once over one budget, so the loop is a machine:
  its state holds every fetch that was started and where it stands, and an input is one
  stretch of code between two waits, with what the wait came back with. The resolver, the
  transport, the abort signal and the order things happen in are those inputs.
\<close>

section \<open>Pinning an address\<close>

record ResolvedAddress =
  resolvedText :: jstext
  resolvedFamily :: nat

definition selectPinnedAddress :: "ResolvedAddress list \<Rightarrow> string + ResolvedAddress" where
  "selectPinnedAddress answers =
     (case List.find (\<lambda>a. resolvedFamily a = 4) answers of
        Some a \<Rightarrow> Inr a
      | None \<Rightarrow>
          (case List.find (\<lambda>a. resolvedFamily a = 6) answers of
             Some a \<Rightarrow> Inr a
           | None \<Rightarrow> Inl ''dns_no_answers''))"

text \<open>What the system's lookup is let to answer with.\<close>

definition systemAnswers :: "ResolvedAddress list \<Rightarrow> ResolvedAddress list" where
  "systemAnswers answers = filter (\<lambda>a. resolvedFamily a = 4 \<or> resolvedFamily a = 6) answers"

section \<open>What is asked for\<close>

record SafeFetchOptions =
  askedMethod :: "string option"
  askedAccept :: "jstext option"
  askedUserAgent :: "jstext option"
  askedBodyLimit :: "int option"
  askedTimeoutMs :: "int option"

record PinnedTransportRequest =
  pinnedUrl :: Url
  pinnedAddress :: ResolvedAddress
  pinnedMethod :: string
  pinnedHeaders :: "(string \<times> jstext) list"
  pinnedTimeoutMs :: int
  pinnedConnectTimeoutMs :: int
  maxDecodedBytes :: int

record Fetched = FetchArtifact +
  redirectLocation :: "jstext option"

section \<open>Reading an answer\<close>

text \<open>A header as \<open>node:http\<close> hands it over.\<close>

datatype HeaderValue = OneValue jstext | ManyValues "jstext list"

fun headerValue :: "HeaderValue option \<Rightarrow> jstext option" where
  "headerValue None = None"
| "headerValue (Some (OneValue v)) = Some v"
| "headerValue (Some (ManyValues vs)) = Some (joinText (u '', '') vs)"

definition SAFE_HEADERS :: "string list" where
  "SAFE_HEADERS =
     [''content-type'', ''vary'', ''server'', ''via'', ''x-powered-by'', ''x-cache'',
      ''www-authenticate'', ''link'']"

definition allowlistedHeaders :: "(string \<Rightarrow> HeaderValue option) \<Rightarrow> (string \<times> jstext) list" where
  "allowlistedHeaders headers =
     concat (map (\<lambda>name.
       case headerValue (headers name) of
         None \<Rightarrow> []
       | Some v \<Rightarrow> if v = [] then [] else [(name, upTo 2048 v)]) SAFE_HEADERS)"

text \<open>An \<open>Error\<close> as the platform throws it.\<close>

record NodeError =
  nodeCode :: "jstext option"
  nodeName :: jstext
  nodeMessage :: jstext

definition tlsCodePattern :: rx where
  "tlsCodePattern =
     Seq AtStart
       (alts (map lit [''ERR_TLS'', ''ERR_SSL'', ''CERT_'', ''DEPTH_ZERO'', ''SELF_SIGNED''] @
              [seqs [lit ''UNABLE_TO_'', alts (map lit [''GET'', ''VERIFY''])]]))"

definition tlsMessagePattern :: rx where
  "tlsMessagePattern =
     seqs [AtWordEdge, alts (map litI [''certificate'', ''tls'', ''ssl'', ''handshake'']), AtWordEdge]"

text \<open>What was thrown is an \<open>Error\<close> or something else.\<close>

definition transportErrorCode :: "NodeError option \<Rightarrow> jstext \<Rightarrow> jstext" where
  "transportErrorCode thrown scheme =
     (case thrown of
        None \<Rightarrow> u ''network_error''
      | Some e \<Rightarrow>
          if scheme = u ''https:''
             \<and> ((case nodeCode e of
                   None \<Rightarrow> False | Some c \<Rightarrow> test tlsCodePattern c \<or> c = u ''EPROTO'')
                \<or> test tlsMessagePattern (nodeMessage e)) then u ''tls_invalid''
          else if nodeCode e = Some (u ''ETIMEDOUT'') \<or> nodeName e = u ''AbortError'' then
            u ''fetch_timeout''
          else if nodeCode e = Some (u ''ECONNRESET'') then u ''connection_reset''
          else if nodeCode e = Some (u ''ENOTFOUND'') \<or> nodeCode e = Some (u ''EAI_AGAIN'') then
            u ''dns_error''
          else u ''network_error'')"

datatype Decoder = Identity | Gunzip | Inflate | Brotli

definition decoderFor :: "jstext option \<Rightarrow> NodeError + Decoder" where
  "decoderFor encoding =
     (let normalized = (case encoding of None \<Rightarrow> [] | Some e \<Rightarrow> trim (lower e)) in
      if normalized = [] \<or> normalized = u ''identity'' then Inr Identity
      else if normalized = u ''gzip'' \<or> normalized = u ''x-gzip'' then Inr Gunzip
      else if normalized = u ''deflate'' then Inr Inflate
      else if normalized = u ''br'' then Inr Brotli
      else Inl \<lparr>nodeCode = None, nodeName = u ''Error'',
                nodeMessage = u ''unsupported_content_encoding''\<rparr>)"

text \<open>The bytes that are kept, how many were counted, and whether the rest was cut off.\<close>

fun readChunks :: "int \<Rightarrow> int list list \<Rightarrow> int \<Rightarrow> int list \<Rightarrow> int list \<times> int \<times> bool" where
  "readChunks most [] counted kept = (kept, counted, False)"
| "readChunks most (chunk # chunks) counted kept =
     (let remaining = most - counted in
      if remaining < int (length chunk) then
        (if 0 < remaining then kept @ upTo remaining chunk else kept,
         counted + max remaining 0, True)
      else readChunks most chunks (counted + int (length chunk)) (kept @ chunk))"

text \<open>
  \<open>Buffer.toString("utf8")\<close>: every byte sequence that is no character becomes one
  replacement character. \<open>needed\<close> continuation bytes are still to come, the next of them
  between \<open>least\<close> and \<open>most\<close>.
\<close>

definition unitsOf :: "int \<Rightarrow> jstext" where
  "unitsOf point =
     (if point < 0x10000 then [point]
      else [0xD800 + (point - 0x10000) div 0x400, 0xDC00 + (point - 0x10000) mod 0x400])"

function utf8From :: "nat \<Rightarrow> int \<Rightarrow> int \<Rightarrow> int \<Rightarrow> int list \<Rightarrow> jstext" where
  "utf8From needed point least most [] = (if needed = 0 then [] else [0xFFFD])"
| "utf8From 0 point least most (b # bs) =
     (if b < 0x80 then b # utf8From 0 0 0x80 0xBF bs
      else if 0xC2 \<le> b \<and> b \<le> 0xDF then utf8From 1 (b - 0xC0) 0x80 0xBF bs
      else if 0xE0 \<le> b \<and> b \<le> 0xEF then
        utf8From 2 (b - 0xE0) (if b = 0xE0 then 0xA0 else 0x80) (if b = 0xED then 0x9F else 0xBF) bs
      else if 0xF0 \<le> b \<and> b \<le> 0xF4 then
        utf8From 3 (b - 0xF0) (if b = 0xF0 then 0x90 else 0x80) (if b = 0xF4 then 0x8F else 0xBF) bs
      else 0xFFFD # utf8From 0 0 0x80 0xBF bs)"
| "utf8From (Suc needed) point least most (b # bs) =
     (if b < least \<or> most < b then 0xFFFD # utf8From 0 0 0x80 0xBF (b # bs)
      else if needed = 0 then unitsOf (point * 64 + (b - 0x80)) @ utf8From 0 0 0x80 0xBF bs
      else utf8From needed (point * 64 + (b - 0x80)) 0x80 0xBF bs)"
  by pat_completeness auto
termination
  by (relation "measures [\<lambda>(needed, point, least, most, bytes). length bytes,
                          \<lambda>(needed, point, least, most, bytes). needed]") auto

definition utf8Text :: "int list \<Rightarrow> jstext" where
  "utf8Text bytes = utf8From 0 0 0x80 0xBF bytes"

text \<open>
  What came of a request: an error event, a timer or an abort, or a response, whose stream
  through each decoder is a list of chunks and perhaps an error after them.
\<close>

record NodeResponse =
  responseStatus :: "int option"
  responseHeaders :: "string \<Rightarrow> HeaderValue option"
  responseBody :: "Decoder \<Rightarrow> int list list \<times> NodeError option option"

datatype NodeReply = RequestFailed "NodeError option" | Responded NodeResponse

definition failedArtifact :: "UrlPlatform \<Rightarrow> PinnedTransportRequest \<Rightarrow> int \<Rightarrow> NodeError option \<Rightarrow> Fetched" where
  "failedArtifact p request took thrown =
     \<lparr>fetchUrl = urlToString p (pinnedUrl request), fetchStatus = 0, fetchHeaders = [], fetchBody = [],
      decodedBytes = 0, truncated = False, durationMs = took, ttfbMs = 0,
      fetchError = Some (transportErrorCode thrown (protocol (pinnedUrl request))),
      redirectLocation = None\<rparr>"

definition locationOf :: "NodeResponse \<Rightarrow> jstext option" where
  "locationOf response =
     (case headerValue (responseHeaders response ''location'') of
        None \<Rightarrow> None
      | Some v \<Rightarrow> if v = [] then None else Some v)"

definition readArtifact ::
  "UrlPlatform \<Rightarrow> PinnedTransportRequest \<Rightarrow> int \<Rightarrow> int \<Rightarrow> NodeResponse \<Rightarrow> jstext \<Rightarrow> int \<Rightarrow> bool \<Rightarrow> Fetched" where
  "readArtifact p request took ttfb response body counted shortened =
     \<lparr>fetchUrl = urlToString p (pinnedUrl request),
      fetchStatus = (case responseStatus response of None \<Rightarrow> 0 | Some status \<Rightarrow> status),
      fetchHeaders = allowlistedHeaders (responseHeaders response), fetchBody = body,
      decodedBytes = counted, truncated = shortened, durationMs = took, ttfbMs = ttfb,
      fetchError = None, redirectLocation = locationOf response\<rparr>"

definition NodePinnedTransport ::
  "UrlPlatform \<Rightarrow> int \<Rightarrow> int \<Rightarrow> PinnedTransportRequest \<Rightarrow> NodeReply \<Rightarrow> Fetched" where
  "NodePinnedTransport p took ttfb request reply =
     (case reply of
        RequestFailed thrown \<Rightarrow> failedArtifact p request took thrown
      | Responded response \<Rightarrow>
          if pinnedMethod request = ''HEAD'' then readArtifact p request took ttfb response [] 0 False
          else
            (case decoderFor (headerValue (responseHeaders response ''content-encoding'')) of
               Inl thrown \<Rightarrow> failedArtifact p request took (Some thrown)
             | Inr decoder \<Rightarrow>
                 (let (chunks, broke) = responseBody response decoder;
                      (kept, counted, shortened) = readChunks (maxDecodedBytes request) chunks 0 []
                  in case broke of
                       Some thrown \<Rightarrow>
                         if shortened then readArtifact p request took ttfb response (utf8Text kept) counted shortened
                         else failedArtifact p request took thrown
                     | None \<Rightarrow>
                         readArtifact p request took ttfb response (utf8Text kept) counted shortened)))"

text \<open>Where the socket of a request goes: only to the address that was pinned.\<close>

definition socketOf :: "PinnedTransportRequest \<Rightarrow> ResolvedAddress \<times> jstext" where
  "socketOf request =
     (pinnedAddress request,
      if urlPort (pinnedUrl request) \<noteq> [] then urlPort (pinnedUrl request)
      else if protocol (pinnedUrl request) = u ''https:'' then u ''443'' else u ''80'')"

section \<open>The slots of an origin\<close>

text \<open>
  \<open>OriginSemaphore\<close>: how many slots of an origin are taken, and who waits for one, first come
  first served. A waiter is named by the fetch that waits.
\<close>

record OriginSemaphore =
  activeOf :: "jstext \<Rightarrow> nat option"
  waitersOf :: "jstext \<Rightarrow> nat list option"

definition emptySemaphore :: OriginSemaphore where
  "emptySemaphore = \<lparr>activeOf = (\<lambda>_. None), waitersOf = (\<lambda>_. None)\<rparr>"

definition taken :: "OriginSemaphore \<Rightarrow> jstext \<Rightarrow> nat" where
  "taken sem origin = (case activeOf sem origin of None \<Rightarrow> 0 | Some n \<Rightarrow> n)"

definition waiting :: "OriginSemaphore \<Rightarrow> jstext \<Rightarrow> nat list" where
  "waiting sem origin = (case waitersOf sem origin of None \<Rightarrow> [] | Some ts \<Rightarrow> ts)"

text \<open>Whether a slot was had at once; where not, the fetch is put at the end of the queue.\<close>

definition acquire :: "nat \<Rightarrow> jstext \<Rightarrow> nat \<Rightarrow> OriginSemaphore \<Rightarrow> bool \<times> OriginSemaphore" where
  "acquire most origin ticket sem =
     (if taken sem origin < most then
        (True, sem\<lparr>activeOf := (activeOf sem)(origin := Some (taken sem origin + 1))\<rparr>)
      else
        (False, sem\<lparr>waitersOf := (waitersOf sem)(origin := Some (waiting sem origin @ [ticket]))\<rparr>))"

text \<open>The abort listener of a waiter.\<close>

definition stopWaiting :: "jstext \<Rightarrow> nat \<Rightarrow> OriginSemaphore \<Rightarrow> OriginSemaphore" where
  "stopWaiting origin ticket sem =
     sem\<lparr>waitersOf := (waitersOf sem)(origin := Some (remove1 ticket (waiting sem origin)))\<rparr>"

text \<open>The first release of a slot: it goes to the waiter who came first, or back.\<close>

definition release :: "jstext \<Rightarrow> OriginSemaphore \<Rightarrow> nat option \<times> OriginSemaphore" where
  "release origin sem =
     (case waiting sem origin of
        ticket # others \<Rightarrow>
          (Some ticket, sem\<lparr>waitersOf := (waitersOf sem)(origin := Some others)\<rparr>)
      | [] \<Rightarrow>
          (None,
           sem\<lparr>activeOf := (activeOf sem)
             (origin := Some ((case activeOf sem origin of None \<Rightarrow> 1 | Some n \<Rightarrow> n) - 1))\<rparr>))"

section \<open>The loop\<close>

datatype FetchInput = FetchText jstext | FetchUrl Url

text \<open>Where a fetch stands: at the head of the loop, or at one of its waits.\<close>

datatype FetchStage =
    AtTop
  | Resolving
  | Queued ResolvedAddress
  | Granted ResolvedAddress
  | Sending ResolvedAddress
  | Ended "string + Fetched"

record FetchThread =
  fetchOptions :: SafeFetchOptions
  schemeWasMissing :: bool
  currentUrl :: Url
  redirectsTaken :: nat
  usedHttpFallback :: bool
  fetchStage :: FetchStage

record FetchConfig =
  fetchPlatform :: UrlPlatform
  defaultUserAgent :: jstext
  maximumRequests :: nat
  perOriginConcurrency :: nat

text \<open>One budget of requests, its slots, and every fetch started over it, or how it was refused.\<close>

record FetchState =
  budgetUsed :: nat
  slots :: OriginSemaphore
  fetches :: "(string + FetchThread) list"

definition freshBudget :: FetchState where
  "freshBudget = \<lparr>budgetUsed = 0, slots = emptySemaphore, fetches = []\<rparr>"

definition consume :: "FetchConfig \<Rightarrow> FetchState \<Rightarrow> string + FetchState" where
  "consume cfg s =
     (if maximumRequests cfg \<le> budgetUsed s then Inl ''request_budget_exhausted''
      else Inr (s\<lparr>budgetUsed := budgetUsed s + 1\<rparr>))"

definition inputText :: "UrlPlatform \<Rightarrow> FetchInput \<Rightarrow> jstext" where
  "inputText p input = (case input of FetchText t \<Rightarrow> t | FetchUrl url \<Rightarrow> urlToString p url)"

definition methodOf :: "SafeFetchOptions \<Rightarrow> string" where
  "methodOf options = (case askedMethod options of None \<Rightarrow> ''GET'' | Some m \<Rightarrow> m)"

definition openFetch :: "FetchConfig \<Rightarrow> FetchInput \<Rightarrow> SafeFetchOptions \<Rightarrow> string + FetchThread" where
  "openFetch cfg input options =
     (let p = fetchPlatform cfg in
      case canonicalizeTarget p (inputText p input) of
        Inl code \<Rightarrow> Inl code
      | Inr url \<Rightarrow>
          if methodOf options \<noteq> ''GET'' \<and> methodOf options \<noteq> ''HEAD'' then Inl ''method_blocked''
          else
            Inr \<lparr>fetchOptions = options,
                 schemeWasMissing =
                   (case input of FetchText t \<Rightarrow> \<not> test schemePattern t | FetchUrl _ \<Rightarrow> False),
                 currentUrl = url, redirectsTaken = 0, usedHttpFallback = False, fetchStage = AtTop\<rparr>)"

definition requestOf :: "FetchConfig \<Rightarrow> FetchThread \<Rightarrow> ResolvedAddress \<Rightarrow> PinnedTransportRequest" where
  "requestOf cfg th address =
     (let options = fetchOptions th in
      \<lparr>pinnedUrl = currentUrl th, pinnedAddress = address, pinnedMethod = methodOf options,
       pinnedHeaders =
         [(''user-agent'', case askedUserAgent options of None \<Rightarrow> defaultUserAgent cfg | Some a \<Rightarrow> a),
          (''accept'', case askedAccept options of
              None \<Rightarrow> u ''text/html,application/xhtml+xml;q=0.9,*/*;q=0.1'' | Some a \<Rightarrow> a),
          (''accept-encoding'', u ''gzip, deflate, br''), (''connection'', u ''close'')],
       pinnedTimeoutMs = min (case askedTimeoutMs options of None \<Rightarrow> 8000 | Some t \<Rightarrow> t) 8000,
       pinnedConnectTimeoutMs = 3000,
       maxDecodedBytes = (case askedBodyLimit options of None \<Rightarrow> 2 * 1024 * 1024 | Some b \<Rightarrow> b)\<rparr>)"

text \<open>Setting the scheme of a \<open>URL\<close>: a port that is the new scheme's own is dropped.\<close>

definition withHttp :: "Url \<Rightarrow> Url" where
  "withHttp url =
     url\<lparr>protocol := u ''http:'', urlPort := (if urlPort url = u ''80'' then [] else urlPort url)\<rparr>"

definition FALLBACK_ERRORS :: "jstext list" where
  "FALLBACK_ERRORS = map u [''network_error'', ''connection_reset'', ''dns_error'', ''fetch_timeout'']"

text \<open>What the loop does with an answer, up to its next turn or its end.\<close>

definition afterAnswer :: "FetchConfig \<Rightarrow> FetchThread \<Rightarrow> Fetched \<Rightarrow> FetchThread" where
  "afterAnswer cfg th artifact =
     (if schemeWasMissing th \<and> \<not> usedHttpFallback th \<and> redirectsTaken th = 0
         \<and> protocol (currentUrl th) = u ''https:''
         \<and> (case fetchError artifact of None \<Rightarrow> False | Some e \<Rightarrow> e \<in> set FALLBACK_ERRORS) then
        th\<lparr>currentUrl := withHttp (currentUrl th), usedHttpFallback := True, fetchStage := AtTop\<rparr>
      else
        (case redirectLocation artifact of
           None \<Rightarrow> th\<lparr>fetchStage := Ended (Inr artifact)\<rparr>
         | Some location \<Rightarrow>
             if fetchStatus artifact < 300 \<or> 400 \<le> fetchStatus artifact \<or> location = [] then
               th\<lparr>fetchStage := Ended (Inr artifact)\<rparr>
             else if 5 \<le> redirectsTaken th then
               th\<lparr>fetchStage := Ended
                  (Inr (artifact\<lparr>fetchError := Some (u ''redirect_limit_exceeded'')\<rparr>))\<rparr>
             else
               (case validateRedirect (fetchPlatform cfg) (currentUrl th) location of
                  Inl code \<Rightarrow> th\<lparr>redirectsTaken := redirectsTaken th + 1, fetchStage := Ended (Inl code)\<rparr>
                | Inr url \<Rightarrow>
                    th\<lparr>redirectsTaken := redirectsTaken th + 1, currentUrl := url,
                       fetchStage := AtTop\<rparr>)))"

section \<open>Many fetches over one budget\<close>

datatype FetchEvent =
    StartFetch FetchInput SafeFetchOptions
  | TurnLoop nat bool
  | Resolved nat "string + ResolvedAddress list"
  | AbortWait nat
  | SendRequest nat
  | Answered nat "string + Fetched"

definition fetchAt :: "nat \<Rightarrow> FetchState \<Rightarrow> FetchThread option" where
  "fetchAt i s =
     (if i < length (fetches s) then
        (case fetches s ! i of Inl _ \<Rightarrow> None | Inr th \<Rightarrow> Some th)
      else None)"

definition putFetch :: "nat \<Rightarrow> FetchThread \<Rightarrow> FetchState \<Rightarrow> FetchState" where
  "putFetch i th s = s\<lparr>fetches := (fetches s)[i := Inr th]\<rparr>"

definition toStage :: "nat \<Rightarrow> FetchStage \<Rightarrow> FetchState \<Rightarrow> FetchState" where
  "toStage i stage s =
     (case fetchAt i s of None \<Rightarrow> s | Some th \<Rightarrow> putFetch i (th\<lparr>fetchStage := stage\<rparr>) s)"

definition originNow :: "FetchConfig \<Rightarrow> FetchThread \<Rightarrow> jstext" where
  "originNow cfg th = originOf (fetchPlatform cfg) (currentUrl th)"

text \<open>The head of the loop: the abort signal, then the budget.\<close>

definition turnLoop :: "FetchConfig \<Rightarrow> nat \<Rightarrow> bool \<Rightarrow> FetchState \<Rightarrow> FetchState" where
  "turnLoop cfg i aborted s =
     (if aborted then toStage i (Ended (Inl ''AbortError'')) s
      else
        (case consume cfg s of
           Inl thrown \<Rightarrow> toStage i (Ended (Inl thrown)) s
         | Inr s' \<Rightarrow> toStage i Resolving s'))"

text \<open>From the resolver's answer to the wait for a slot.\<close>

definition pinAndQueue ::
  "FetchConfig \<Rightarrow> nat \<Rightarrow> FetchThread \<Rightarrow> ResolvedAddress list \<Rightarrow> FetchState \<Rightarrow> FetchState" where
  "pinAndQueue cfg i th answers s =
     (case assertPublicAddresses (isIPof (fetchPlatform cfg)) (map resolvedText answers) of
        Inl thrown \<Rightarrow> toStage i (Ended (Inl thrown)) s
      | Inr _ \<Rightarrow>
          (case selectPinnedAddress answers of
             Inl thrown \<Rightarrow> toStage i (Ended (Inl thrown)) s
           | Inr address \<Rightarrow>
               (let (had, sem) = acquire (perOriginConcurrency cfg) (originNow cfg th) i (slots s)
                in toStage i (if had then Granted address else Queued address) (s\<lparr>slots := sem\<rparr>))))"

definition grantSlot :: "nat option \<Rightarrow> FetchState \<Rightarrow> FetchState" where
  "grantSlot next s =
     (case next of
        None \<Rightarrow> s
      | Some j \<Rightarrow>
          (case fetchAt j s of
             Some th \<Rightarrow>
               (case fetchStage th of Queued address \<Rightarrow> toStage j (Granted address) s | _ \<Rightarrow> s)
           | None \<Rightarrow> s))"

text \<open>The answer comes: the slot goes on, then the loop reads the answer.\<close>

definition takeAnswer ::
  "FetchConfig \<Rightarrow> nat \<Rightarrow> FetchThread \<Rightarrow> string + Fetched \<Rightarrow> FetchState \<Rightarrow> FetchState" where
  "takeAnswer cfg i th came s =
     (let (next, sem) = release (originNow cfg th) (slots s);
          s' = grantSlot next (s\<lparr>slots := sem\<rparr>)
      in case came of
           Inl thrown \<Rightarrow> toStage i (Ended (Inl thrown)) s'
         | Inr artifact \<Rightarrow> putFetch i (afterAnswer cfg th artifact) s')"

text \<open>
  One stretch of code. An input that does not fit where its fetch stands is none the program
  could see. What comes out are the requests that were sent.
\<close>

definition SafeFetcher ::
  "FetchConfig \<Rightarrow> (FetchState, FetchEvent, nat \<times> PinnedTransportRequest) machine" where
  "SafeFetcher cfg s e =
     (case e of
        StartFetch input options \<Rightarrow>
          Some (s\<lparr>fetches := fetches s @ [openFetch cfg input options]\<rparr>, [])
      | TurnLoop i aborted \<Rightarrow>
          (case fetchAt i s of
             Some th \<Rightarrow> if fetchStage th = AtTop then Some (turnLoop cfg i aborted s, []) else None
           | None \<Rightarrow> None)
      | Resolved i came \<Rightarrow>
          (case fetchAt i s of
             Some th \<Rightarrow>
               if fetchStage th \<noteq> Resolving then None
               else
                 (case came of
                    Inl thrown \<Rightarrow> Some (toStage i (Ended (Inl thrown)) s, [])
                  | Inr answers \<Rightarrow> Some (pinAndQueue cfg i th answers s, []))
           | None \<Rightarrow> None)
      | AbortWait i \<Rightarrow>
          (case fetchAt i s of
             Some th \<Rightarrow>
               (case fetchStage th of
                  Queued _ \<Rightarrow>
                    Some (toStage i (Ended (Inl ''AbortError''))
                            (s\<lparr>slots := stopWaiting (originNow cfg th) i (slots s)\<rparr>), [])
                | _ \<Rightarrow> None)
           | None \<Rightarrow> None)
      | SendRequest i \<Rightarrow>
          (case fetchAt i s of
             Some th \<Rightarrow>
               (case fetchStage th of
                  Granted address \<Rightarrow> Some (toStage i (Sending address) s, [(i, requestOf cfg th address)])
                | _ \<Rightarrow> None)
           | None \<Rightarrow> None)
      | Answered i came \<Rightarrow>
          (case fetchAt i s of
             Some th \<Rightarrow>
               (case fetchStage th of
                  Sending _ \<Rightarrow> Some (takeAnswer cfg i th came s, [])
                | _ \<Rightarrow> None)
           | None \<Rightarrow> None))"

end
