(* ===== verification/Scanner_Fetch_Laws.thy ===== *)
theory Scanner_Fetch_Laws
  imports Scanner_Fetch
begin

text \<open>
  What the fetcher promises, over every interleaving of the fetches of one budget: no request
  leaves for an address that is not public or a target that is not allowed, the budget and the
  slots of an origin are kept, no slot is lost, and every fetch comes to its end.
\<close>

section \<open>Putting a fetch where it stands now\<close>

lemma fetchAt_less: "fetchAt i s = Some th \<Longrightarrow> i < length (fetches s)"
  by (auto simp: fetchAt_def split: if_splits)

lemma fetchAt_put [simp]:
  "fetchAt i s = Some t \<Longrightarrow> fetchAt j (putFetch i th s) = (if j = i then Some th else fetchAt j s)"
  by (auto simp: fetchAt_def putFetch_def split: if_splits)

lemma fetchAt_slots [simp]: "fetchAt i (s\<lparr>slots := sem\<rparr>) = fetchAt i s"
  "fetchAt i (s\<lparr>budgetUsed := n\<rparr>) = fetchAt i s"
  by (simp_all add: fetchAt_def)

lemma put_keeps [simp]:
  "slots (putFetch i th s) = slots s" "budgetUsed (putFetch i th s) = budgetUsed s"
  "length (fetches (putFetch i th s)) = length (fetches s)"
  by (simp_all add: putFetch_def)

lemma toStage_put: "fetchAt i s = Some th \<Longrightarrow> toStage i stage s = putFetch i (th\<lparr>fetchStage := stage\<rparr>) s"
  by (simp add: toStage_def)

lemma fetchAt_start:
  "fetchAt j (s\<lparr>fetches := fetches s @ [x]\<rparr>) =
     (if j = length (fetches s) then (case x of Inl _ \<Rightarrow> None | Inr th \<Rightarrow> Some th) else fetchAt j s)"
  by (auto simp: fetchAt_def nth_append)

text \<open>The machine moves one fetch, and a release may hand its slot to one more.\<close>

lemma grantSlot_cases:
  obtains "grantSlot next s = s"
  | j th address where "next = Some j" "fetchAt j s = Some th" "fetchStage th = Queued address"
      "grantSlot next s = putFetch j (th\<lparr>fetchStage := Granted address\<rparr>) s"
proof (cases "\<exists>j th address. next = Some j \<and> fetchAt j s = Some th \<and> fetchStage th = Queued address")
  case True
  then obtain j th address where "next = Some j" "fetchAt j s = Some th" "fetchStage th = Queued address"
    by blast
  then show ?thesis using that(2) by (simp add: grantSlot_def toStage_put)
next
  case False
  then have "grantSlot next s = s"
    by (auto simp: grantSlot_def split: option.splits FetchStage.splits)
  then show ?thesis by (rule that(1))
qed

section \<open>The slots\<close>

definition holding :: "FetchThread \<Rightarrow> bool" where
  "holding th = (case fetchStage th of Granted _ \<Rightarrow> True | Sending _ \<Rightarrow> True | _ \<Rightarrow> False)"

definition queued :: "FetchThread \<Rightarrow> bool" where
  "queued th = (case fetchStage th of Queued _ \<Rightarrow> True | _ \<Rightarrow> False)"

definition among :: "FetchConfig \<Rightarrow> (FetchThread \<Rightarrow> bool) \<Rightarrow> jstext \<Rightarrow> FetchState \<Rightarrow> nat set" where
  "among cfg P origin s = {i. \<exists>th. fetchAt i s = Some th \<and> P th \<and> originNow cfg th = origin}"

lemma finite_among [simp]: "finite (among cfg P origin s)"
  by (rule finite_subset [of _ "{..< length (fetches s)}"]) (auto simp: among_def dest: fetchAt_less)

lemma among_put:
  "fetchAt i s = Some t \<Longrightarrow> among cfg P origin (putFetch i th s) =
     (if P th \<and> originNow cfg th = origin then insert i (among cfg P origin s)
      else among cfg P origin s - {i})"
  by (auto simp: among_def)

lemma among_slots [simp]:
  "among cfg P origin (s\<lparr>slots := sem\<rparr>) = among cfg P origin s"
  "among cfg P origin (s\<lparr>budgetUsed := n\<rparr>) = among cfg P origin s"
  by (simp_all add: among_def)

lemma in_among: "fetchAt i s = Some th \<Longrightarrow> i \<in> among cfg P origin s \<longleftrightarrow> P th \<and> originNow cfg th = origin"
  by (simp add: among_def)

text \<open>
  The taken slots of an origin are the fetches that hold one, never more than there are; the
  queue is the fetches that wait, and nobody waits while a slot is free.
\<close>

definition slotsOf :: "FetchConfig \<Rightarrow> jstext \<Rightarrow> FetchState \<Rightarrow> bool" where
  "slotsOf cfg origin s \<longleftrightarrow>
     taken (slots s) origin = card (among cfg holding origin s)
     \<and> taken (slots s) origin \<le> perOriginConcurrency cfg
     \<and> distinct (waiting (slots s) origin)
     \<and> set (waiting (slots s) origin) = among cfg queued origin s
     \<and> (waiting (slots s) origin \<noteq> [] \<longrightarrow> taken (slots s) origin = perOriginConcurrency cfg)"

lemma slotsOf_budget [simp]: "slotsOf cfg origin (s\<lparr>budgetUsed := n\<rparr>) = slotsOf cfg origin s"
  by (simp add: slotsOf_def)

lemma slotsOf_quiet:
  assumes "fetchAt i s = Some t" "\<not> holding t" "\<not> queued t" "\<not> holding th" "\<not> queued th"
    and "slotsOf cfg origin s"
  shows "slotsOf cfg origin (putFetch i th s)"
  using assms by (auto simp: slotsOf_def among_put in_among)

lemma slots_acquire:
  assumes "acquire most origin ticket sem = (had, sem')"
  shows "taken sem' o' = taken sem o' + (if had \<and> o' = origin then 1 else 0)"
    and "waiting sem' o' = waiting sem o' @ (if \<not> had \<and> o' = origin then [ticket] else [])"
    and "had \<longleftrightarrow> taken sem origin < most"
  using assms by (auto simp: acquire_def taken_def waiting_def split: if_splits)

lemma slots_stopWaiting:
  "taken (stopWaiting origin ticket sem) o' = taken sem o'"
  "waiting (stopWaiting origin ticket sem) o' =
     (if o' = origin then remove1 ticket (waiting sem origin) else waiting sem o')"
  by (auto simp: stopWaiting_def taken_def waiting_def)

lemma slots_release:
  assumes "release origin sem = (next, sem')"
  shows "taken sem' o' = taken sem o' - (if next = None \<and> o' = origin then 1 else 0)"
    and "waiting sem' o' = (if o' = origin then tl (waiting sem origin) else waiting sem o')"
    and "next = (case waiting sem origin of [] \<Rightarrow> None | ticket # _ \<Rightarrow> Some ticket)"
  using assms by (auto simp: release_def taken_def waiting_def split: list.splits option.splits)

lemma slotsOf_pin:
  assumes i: "fetchAt i s = Some th" "fetchStage th = Resolving"
    and had: "acquire (perOriginConcurrency cfg) (originNow cfg th) i (slots s) = (had, sem)"
    and right: "\<forall>origin. slotsOf cfg origin s"
  shows "slotsOf cfg origin
    (toStage i (if had then Granted address else Queued address) (s\<lparr>slots := sem\<rparr>))"
proof -
  let ?th = "th\<lparr>fetchStage := if had then Granted address else Queued address\<rparr>"
  note got = slots_acquire [OF had]
  have put: "toStage i (if had then Granted address else Queued address) (s\<lparr>slots := sem\<rparr>)
      = putFetch i ?th (s\<lparr>slots := sem\<rparr>)"
    using i by (simp add: toStage_put)
  have out: "i \<notin> among cfg holding origin s" "i \<notin> among cfg queued origin s"
    using i by (simp_all add: in_among holding_def queued_def)
  have there: "fetchAt i (s\<lparr>slots := sem\<rparr>) = Some th" using i by simp
  have same: "originNow cfg ?th = originNow cfg th" by (simp add: originNow_def)
  have stage: "holding ?th \<longleftrightarrow> had" "queued ?th \<longleftrightarrow> \<not> had" by (simp_all add: holding_def queued_def)
  have old: "slotsOf cfg origin s" using right by simp
  show ?thesis
  proof (cases "originNow cfg th = origin")
    case False
    then show ?thesis
      unfolding put slotsOf_def among_put [OF there] stage same
      using old out by (auto simp: slotsOf_def got(1,2))
  next
    case True
    with got(3) have "had \<longleftrightarrow> taken (slots s) origin < perOriginConcurrency cfg" by simp
    with True show ?thesis
      unfolding put slotsOf_def among_put [OF there] stage same
      using old out by (cases had) (auto simp: slotsOf_def got(1,2) card_insert_if)
  qed
qed

lemma slotsOf_abort:
  assumes i: "fetchAt i s = Some th" "fetchStage th = Queued address"
    and right: "\<forall>origin. slotsOf cfg origin s"
  shows "slotsOf cfg origin
    (toStage i (Ended x) (s\<lparr>slots := stopWaiting (originNow cfg th) i (slots s)\<rparr>))"
proof -
  let ?s = "s\<lparr>slots := stopWaiting (originNow cfg th) i (slots s)\<rparr>"
  have there: "fetchAt i ?s = Some th" using i by simp
  have old: "slotsOf cfg origin s" using right by simp
  have out: "i \<notin> among cfg holding origin s"
    "i \<in> among cfg queued origin s \<longleftrightarrow> originNow cfg th = origin"
    using i by (simp_all add: in_among holding_def queued_def)
  have stage: "\<not> holding (th\<lparr>fetchStage := Ended x\<rparr>)" "\<not> queued (th\<lparr>fetchStage := Ended x\<rparr>)"
    by (simp_all add: holding_def queued_def)
  show ?thesis
  proof (cases "originNow cfg th = origin")
    case False
    then show ?thesis
      unfolding toStage_put [OF there] slotsOf_def among_put [OF there]
      using old out stage by (auto simp: slotsOf_def slots_stopWaiting)
  next
    case True
    have "remove1 i (waiting (slots s) origin) \<noteq> [] \<longrightarrow> waiting (slots s) origin \<noteq> []" by auto
    with True show ?thesis
      unfolding toStage_put [OF there] slotsOf_def among_put [OF there]
      using old out stage by (auto simp: slotsOf_def slots_stopWaiting set_remove1_eq)
  qed
qed

lemma slotsOf_answer:
  assumes i: "fetchAt i s = Some th" "fetchStage th = Sending address"
    and free: "release (originNow cfg th) (slots s) = (next, sem)"
    and quiet: "\<not> holding th'" "\<not> queued th'"
    and right: "\<forall>origin. slotsOf cfg origin s"
  shows "slotsOf cfg origin (putFetch i th' (grantSlot next (s\<lparr>slots := sem\<rparr>)))"
proof -
  let ?s = "s\<lparr>slots := sem\<rparr>" and ?o = "originNow cfg th"
  note gave = slots_release [OF free]
  have old: "slotsOf cfg origin s" "slotsOf cfg ?o s" using right by simp_all
  have mine: "i \<in> among cfg holding origin s \<longleftrightarrow> ?o = origin" "i \<notin> among cfg queued origin s"
    using i by (simp_all add: in_among holding_def queued_def)
  show ?thesis
  proof (cases "waiting (slots s) ?o")
    case Nil
    have none: "next = None" using gave(3) Nil by simp
    then have unchanged: "grantSlot next ?s = ?s" by (simp add: grantSlot_def)
    have there: "fetchAt i ?s = Some th" using i by simp
    show ?thesis
      unfolding unchanged slotsOf_def among_put [OF there]
      using old(1) mine none Nil quiet
      by (cases "?o = origin") (auto simp: slotsOf_def gave(1,2))
  next
    case (Cons j others)
    have "j \<in> among cfg queued ?o s" using old(2) Cons by (auto simp: slotsOf_def)
    then obtain tj where j: "fetchAt j s = Some tj" "queued tj" "originNow cfg tj = ?o"
      by (auto simp: among_def)
    then obtain a where stage: "fetchStage tj = Queued a"
      by (auto simp: queued_def split: FetchStage.splits)
    let ?tj = "tj\<lparr>fetchStage := Granted a\<rparr>"
    have other: "i \<noteq> j" using i j stage by auto
    have some: "next = Some j" using gave(3) Cons by simp
    have there: "fetchAt j ?s = Some tj" using j by simp
    then have moved: "grantSlot next ?s = putFetch j ?tj ?s"
      by (simp add: some grantSlot_def stage toStage_put)
    have here: "fetchAt i (putFetch j ?tj ?s) = Some th" using i other there by simp
    have now: "holding ?tj" "\<not> queued ?tj" "originNow cfg ?tj = ?o"
      using j(3) by (simp_all add: holding_def queued_def originNow_def)
    have before: "j \<notin> among cfg holding origin s" "j \<in> among cfg queued origin s \<longleftrightarrow> ?o = origin"
      using j stage by (simp_all add: in_among holding_def queued_def)
    show ?thesis
    proof (cases "?o = origin")
      case False
      then have "among cfg holding origin s - {i} = among cfg holding origin s"
        "among cfg holding origin s - {j} = among cfg holding origin s"
        "among cfg queued origin s - {i} = among cfg queued origin s"
        "among cfg queued origin s - {j} = among cfg queued origin s"
        using before mine by auto
      with False old(1) show ?thesis
        unfolding moved slotsOf_def among_put [OF here] among_put [OF there] gave(1,2) now(3)
        using quiet by (auto simp: gave(1,2))
    next
      case True
      have "card (insert j (among cfg holding origin s) - {i}) = card (among cfg holding origin s)"
        using before(1) mine(1) True other by (simp add: card_insert_if)
      moreover have queue: "waiting (slots s) origin = j # others" using Cons True by simp
      moreover have "taken (slots s) origin = card (among cfg holding origin s)"
        "taken (slots s) origin = perOriginConcurrency cfg" "distinct (j # others)"
        "among cfg queued origin s = insert j (set others)"
        using old(1) unfolding slotsOf_def queue by auto
      moreover have "i \<noteq> j" "i \<notin> set others" using mine(2) other calculation by auto
      ultimately show ?thesis
        unfolding moved slotsOf_def among_put [OF here] among_put [OF there]
        using True now quiet by (simp add: gave(1,2) some insert_Diff_if)
    qed
  qed
qed

section \<open>What every fetch keeps\<close>

definition publicAddress :: "FetchConfig \<Rightarrow> ResolvedAddress \<Rightarrow> bool" where
  "publicAddress cfg a \<longleftrightarrow>
     (\<exists>family. classifyIp (isIPof (fetchPlatform cfg)) (resolvedText a) = AddressAllowed family)"

fun stagePinned :: "FetchStage \<Rightarrow> ResolvedAddress option" where
  "stagePinned (Queued a) = Some a"
| "stagePinned (Granted a) = Some a"
| "stagePinned (Sending a) = Some a"
| "stagePinned _ = None"

definition threadRight :: "FetchConfig \<Rightarrow> FetchThread \<Rightarrow> bool" where
  "threadRight cfg th \<longleftrightarrow>
     safeTarget (fetchPlatform cfg) (currentUrl th)
     \<and> (\<forall>a. stagePinned (fetchStage th) = Some a \<longrightarrow> publicAddress cfg a)
     \<and> methodOf (fetchOptions th) \<in> {''GET'', ''HEAD''} \<and> redirectsTaken th \<le> 5"

lemma publicAddress_pinned:
  assumes "assertPublicAddresses (isIPof (fetchPlatform cfg)) (map resolvedText answers) = Inr ()"
    and "selectPinnedAddress answers = Inr a"
  shows "publicAddress cfg a"
proof -
  have "a \<in> set answers"
    using assms(2) by (auto simp: selectPinnedAddress_def find_Some_iff split: option.splits)
  then have "resolvedText a \<in> set (map resolvedText answers)" by simp
  with assms(1) show ?thesis
    by (auto simp: publicAddress_def assertPublicAddresses_def assertPublicFrom_Inr split: if_splits)
qed

lemma safeTarget_withHttp: "safeTarget p url \<Longrightarrow> safeTarget p (withHttp url)"
  by (auto simp: safeTarget_def withHttp_def)

lemma redirect_is_safe: "validateRedirect p whence location = Inr url \<Longrightarrow> safeTarget p url"
  by (auto simp: validateRedirect_def canonical_is_safe simp del: u_simps
      split: option.splits sum.splits if_splits)

lemma openFetch_right: "openFetch cfg input options = Inr th \<Longrightarrow> threadRight cfg th \<and> fetchStage th = AtTop"
  by (auto simp: openFetch_def threadRight_def Let_def canonical_is_safe split: sum.splits if_splits)

lemma afterAnswer_right:
  assumes "threadRight cfg th"
  shows "threadRight cfg (afterAnswer cfg th artifact)
    \<and> (fetchStage (afterAnswer cfg th artifact) = AtTop
       \<or> (\<exists>x. fetchStage (afterAnswer cfg th artifact) = Ended x))"
proof -
  have followed: "safeTarget (fetchPlatform cfg) url"
    if "validateRedirect (fetchPlatform cfg) (currentUrl th) location = Inr url" for location url
    using that by (rule redirect_is_safe)
  show ?thesis
    using assms followed safeTarget_withHttp
    by (auto simp: afterAnswer_def threadRight_def simp del: u_simps split: option.splits sum.splits if_splits)
qed

definition fetchesRight :: "FetchConfig \<Rightarrow> FetchState \<Rightarrow> bool" where
  "fetchesRight cfg s \<longleftrightarrow>
     (\<forall>i th. fetchAt i s = Some th \<longrightarrow> threadRight cfg th) \<and> (\<forall>origin. slotsOf cfg origin s)
     \<and> budgetUsed s \<le> maximumRequests cfg"

section \<open>The moves of the machine\<close>

fun starts :: "FetchEvent \<Rightarrow> bool" where
  "starts (StartFetch input options) = True"
| "starts _ = False"

lemma fetcher_moves:
  assumes "SafeFetcher cfg s e = Some (s', outs)"
  obtains
    (start) input options where "e = StartFetch input options" "outs = []"
      "s' = s\<lparr>fetches := fetches s @ [openFetch cfg input options]\<rparr>"
  | (ends) i th x where "\<not> starts e" "outs = []" "fetchAt i s = Some th"
      "fetchStage th = AtTop \<or> fetchStage th = Resolving"
      "s' = putFetch i (th\<lparr>fetchStage := Ended x\<rparr>) s"
  | (turns) i th where "\<not> starts e" "outs = []" "fetchAt i s = Some th" "fetchStage th = AtTop"
      "budgetUsed s < maximumRequests cfg"
      "s' = putFetch i (th\<lparr>fetchStage := Resolving\<rparr>) (s\<lparr>budgetUsed := budgetUsed s + 1\<rparr>)"
  | (pins) i th a had sem where "\<not> starts e" "outs = []" "fetchAt i s = Some th"
      "fetchStage th = Resolving" "publicAddress cfg a"
      "acquire (perOriginConcurrency cfg) (originNow cfg th) i (slots s) = (had, sem)"
      "s' = toStage i (if had then Granted a else Queued a) (s\<lparr>slots := sem\<rparr>)"
  | (aborts) i th a x where "\<not> starts e" "outs = []" "fetchAt i s = Some th" "fetchStage th = Queued a"
      "s' = toStage i (Ended x) (s\<lparr>slots := stopWaiting (originNow cfg th) i (slots s)\<rparr>)"
  | (sends) i th a where "\<not> starts e" "outs = [(i, requestOf cfg th a)]" "fetchAt i s = Some th"
      "fetchStage th = Granted a" "s' = putFetch i (th\<lparr>fetchStage := Sending a\<rparr>) s"
  | (answers) i th a th' ticket sem where "\<not> starts e" "outs = []" "fetchAt i s = Some th"
      "fetchStage th = Sending a" "release (originNow cfg th) (slots s) = (ticket, sem)"
      "s' = putFetch i th' (grantSlot ticket (s\<lparr>slots := sem\<rparr>))"
      "(\<exists>x. th' = th\<lparr>fetchStage := Ended x\<rparr>) \<or> (\<exists>artifact. th' = afterAnswer cfg th artifact)"
proof (cases e)
  case (StartFetch input options)
  then show ?thesis using start assms by (simp add: SafeFetcher_def)
next
  case (TurnLoop i aborted)
  then obtain th where i: "fetchAt i s = Some th" "fetchStage th = AtTop" "s' = turnLoop cfg i aborted s" "outs = []"
    using assms by (auto simp: SafeFetcher_def split: option.splits if_splits)
  then show ?thesis
    using ends [of i th] turns [of i th] TurnLoop
    by (auto simp: turnLoop_def consume_def toStage_put split: if_splits)
next
  case (Resolved i came)
  then obtain th where i: "fetchAt i s = Some th" "fetchStage th = Resolving" "outs = []"
    and after: "s' = (case came of Inl thrown \<Rightarrow> toStage i (Ended (Inl thrown)) s
                   | Inr answers \<Rightarrow> pinAndQueue cfg i th answers s)"
    using assms by (auto simp: SafeFetcher_def split: option.splits if_splits sum.splits)
  show ?thesis
  proof (cases came)
    case (Inl thrown)
    then show ?thesis using i after ends [of i th] Resolved by (simp add: toStage_put)
  next
    case (Inr found)
    have checked: "publicAddress cfg a"
      if "assertPublicAddresses (isIPof (fetchPlatform cfg)) (map resolvedText found) = Inr x"
        "selectPinnedAddress found = Inr a" for x a
      using that publicAddress_pinned by (cases x) simp
    show ?thesis
      using i after Inr ends [of i th] Resolved checked
      by (auto simp: pinAndQueue_def toStage_put split: sum.splits prod.splits intro: pins [of i th])
  qed
next
  case (AbortWait i)
  then show ?thesis
    using assms aborts by (auto simp: SafeFetcher_def split: option.splits FetchStage.splits)
next
  case (SendRequest i)
  then show ?thesis
    using assms sends by (auto simp: SafeFetcher_def toStage_put split: option.splits FetchStage.splits)
next
  case (Answered i came)
  then obtain th a where i: "fetchAt i s = Some th" "fetchStage th = Sending a" "outs = []"
    and after: "s' = takeAnswer cfg i th came s"
    using assms by (auto simp: SafeFetcher_def split: option.splits FetchStage.splits)
  obtain ticket sem where free: "release (originNow cfg th) (slots s) = (ticket, sem)"
    by (cases "release (originNow cfg th) (slots s)")
  have kept: "fetchAt i (grantSlot ticket (s\<lparr>slots := sem\<rparr>)) = Some th"
    using i by (cases ticket "s\<lparr>slots := sem\<rparr>" rule: grantSlot_cases) auto
  show ?thesis
    using i after free kept answers [of i th a ticket sem] Answered
    by (cases came) (auto simp: takeAnswer_def toStage_put Let_def)
qed

lemma fetchesRight_quiet:
  assumes "fetchesRight cfg s" "fetchAt i s = Some t" "\<not> holding t" "\<not> queued t"
    and "threadRight cfg th" "\<not> holding th" "\<not> queued th"
  shows "fetchesRight cfg (putFetch i th s)"
  using assms slotsOf_quiet [OF assms(2-4,6,7)] by (auto simp: fetchesRight_def)

lemma threadRight_stage:
  "threadRight cfg th \<Longrightarrow> (\<And>a. stagePinned stage = Some a \<Longrightarrow> publicAddress cfg a)
   \<Longrightarrow> threadRight cfg (th\<lparr>fetchStage := stage\<rparr>)"
  by (simp add: threadRight_def)

lemma rightThreads:
  "fetchesRight cfg s \<Longrightarrow> fetchAt i s = Some th \<Longrightarrow> threadRight cfg th"
  by (simp add: fetchesRight_def)

lemma threads_put:
  assumes "\<And>j th. fetchAt j s = Some th \<Longrightarrow> threadRight cfg th"
    and "fetchAt i s = Some t" "threadRight cfg th'"
  shows "fetchAt j (putFetch i th' s) = Some th \<Longrightarrow> threadRight cfg th"
  using assms by (auto split: if_splits)

lemma threads_grant:
  assumes "\<And>j th. fetchAt j s = Some th \<Longrightarrow> threadRight cfg th"
  shows "fetchAt j (grantSlot ticket s) = Some th \<Longrightarrow> threadRight cfg th"
proof (cases ticket s rule: grantSlot_cases)
  case 1
  then show "fetchAt j (grantSlot ticket s) = Some th \<Longrightarrow> threadRight cfg th" using assms by simp
next
  case (2 k t a)
  then have "threadRight cfg (t\<lparr>fetchStage := Granted a\<rparr>)"
    using assms [of k t] by (auto simp: threadRight_def)
  then show "fetchAt j (grantSlot ticket s) = Some th \<Longrightarrow> threadRight cfg th"
    using 2 assms by (auto split: if_splits)
qed

lemma answered_right:
  assumes "threadRight cfg th"
    and "(\<exists>x. th' = th\<lparr>fetchStage := Ended x\<rparr>) \<or> (\<exists>artifact. th' = afterAnswer cfg th artifact)"
  shows "threadRight cfg th' \<and> \<not> holding th' \<and> \<not> queued th'"
  using assms(2)
proof (elim disjE exE)
  fix x assume "th' = th\<lparr>fetchStage := Ended x\<rparr>"
  then show ?thesis using assms(1) by (simp add: threadRight_def holding_def queued_def)
next
  fix artifact assume "th' = afterAnswer cfg th artifact"
  with afterAnswer_right [OF assms(1), of artifact] show ?thesis
    by (cases "fetchStage th'") (simp_all add: holding_def queued_def)
qed

lemma fetchesRight_step:
  assumes inv: "fetchesRight cfg s" and step: "SafeFetcher cfg s e = Some (s', outs)"
  shows "fetchesRight cfg s'"
  using step
proof (cases rule: fetcher_moves)
  case (start input options)
  have same: "among cfg P origin s' = among cfg P origin s" if "\<And>th. fetchStage th = AtTop \<Longrightarrow> \<not> P th"
    for P origin
  proof -
    have "(case openFetch cfg input options of Inl _ \<Rightarrow> None | Inr th \<Rightarrow> Some th) = Some th \<Longrightarrow> \<not> P th" for th
      using openFetch_right [of cfg input options th] that by (auto split: sum.splits)
    moreover have "fetchAt (length (fetches s)) s = None" by (simp add: fetchAt_def)
    ultimately show ?thesis unfolding start(3) among_def fetchAt_start by auto
  qed
  have among: "among cfg holding origin s' = among cfg holding origin s"
    "among cfg queued origin s' = among cfg queued origin s" for origin
    by (rule same, simp add: holding_def queued_def)+
  have "slots s' = slots s" by (simp add: start(3))
  then have "slotsOf cfg origin s' = slotsOf cfg origin s" for origin
    unfolding slotsOf_def among by simp
  moreover have "threadRight cfg th" if "fetchAt i s' = Some th" for i th
    using that inv openFetch_right unfolding start(3) fetchAt_start
    by (auto simp: fetchesRight_def split: if_splits sum.splits)
  ultimately show ?thesis
    using inv by (simp add: fetchesRight_def start(3))
next
  case (ends i th x)
  then show ?thesis
    using fetchesRight_quiet [OF inv ends(3)] threadRight_stage [OF rightThreads [OF inv ends(3)], of "Ended x"]
    by (auto simp: holding_def queued_def)
next
  case (turns i th)
  have spent: "fetchesRight cfg (s\<lparr>budgetUsed := budgetUsed s + 1\<rparr>)"
    using inv turns(5) by (simp add: fetchesRight_def)
  then show ?thesis
    using fetchesRight_quiet [OF spent, of i th] threadRight_stage [OF rightThreads [OF inv turns(3)], of Resolving]
      turns by (simp add: holding_def queued_def)
next
  case (pins i th a had sem)
  have "\<forall>origin. slotsOf cfg origin s'"
    unfolding pins(7) using slotsOf_pin [OF pins(3,4,6)] inv by (simp add: fetchesRight_def)
  moreover have "threadRight cfg (th\<lparr>fetchStage := if had then Granted a else Queued a\<rparr>)"
    using rightThreads [OF inv pins(3)] pins(5) by (intro threadRight_stage) (auto split: if_splits)
  ultimately show ?thesis
    using inv pins(3) unfolding pins(7) by (auto simp: fetchesRight_def toStage_put)
next
  case (aborts i th a x)
  have "\<forall>origin. slotsOf cfg origin s'"
    unfolding aborts(5) using slotsOf_abort [OF aborts(3,4)] inv by (simp add: fetchesRight_def)
  then show ?thesis
    using inv aborts(3) threadRight_stage [OF rightThreads [OF inv aborts(3)], of "Ended x"]
    unfolding aborts(5) by (auto simp: fetchesRight_def toStage_put)
next
  case (sends i th a)
  have pinned: "threadRight cfg (th\<lparr>fetchStage := Sending a\<rparr>)"
    using rightThreads [OF inv sends(3)] sends(4) by (auto simp: threadRight_def)
  have among: "among cfg holding origin s' = among cfg holding origin s"
    "among cfg queued origin s' = among cfg queued origin s" for origin
    using sends(3,4) unfolding sends(5)
    by (auto simp: among_put in_among holding_def queued_def originNow_def insert_absorb)
  have "slots s' = slots s" by (simp add: sends(5))
  then have "slotsOf cfg origin s' = slotsOf cfg origin s" for origin
    unfolding slotsOf_def among by simp
  with pinned show ?thesis
    using inv sends(3) unfolding sends(5) by (auto simp: fetchesRight_def)
next
  case (answers i th a th' ticket sem)
  have th': "threadRight cfg th'" "\<not> holding th'" "\<not> queued th'"
    using answered_right [OF rightThreads [OF inv answers(3)] answers(7)] by simp_all
  let ?s = "grantSlot ticket (s\<lparr>slots := sem\<rparr>)"
  have kept: "fetchAt i ?s = Some th"
    using answers(3,4) by (cases ticket "s\<lparr>slots := sem\<rparr>" rule: grantSlot_cases) auto
  have "\<forall>origin. slotsOf cfg origin s'"
    unfolding answers(6) using slotsOf_answer [OF answers(3,4,5) th'(2,3)] inv by (simp add: fetchesRight_def)
  moreover have "threadRight cfg t" if "fetchAt j s' = Some t" for j t
    using that th'(1) kept threads_grant [of "s\<lparr>slots := sem\<rparr>" cfg j ticket t] rightThreads [OF inv]
    unfolding answers(6) by (auto split: if_splits)
  moreover have "budgetUsed ?s = budgetUsed s"
    by (cases ticket "s\<lparr>slots := sem\<rparr>" rule: grantSlot_cases) simp_all
  ultimately show ?thesis
    using inv unfolding answers(6) by (simp add: fetchesRight_def)
qed

section \<open>Counting what is left\<close>

definition totalOf :: "(FetchThread \<Rightarrow> nat) \<Rightarrow> FetchState \<Rightarrow> nat" where
  "totalOf f s = sum_list (map (\<lambda>x. case x of Inl _ \<Rightarrow> 0 | Inr th \<Rightarrow> f th) (fetches s))"

lemma total_put:
  assumes "fetchAt i s = Some t"
  shows "totalOf f (putFetch i th s) + f t = totalOf f s + f th"
proof -
  let ?g = "\<lambda>x. case x of Inl _ \<Rightarrow> 0 | Inr th \<Rightarrow> f th"
  have i: "i < length (map ?g (fetches s))" "map ?g (fetches s) ! i = f t"
    using assms by (auto simp: fetchAt_def split: if_splits sum.splits)
  have "f t \<le> sum_list (map ?g (fetches s))" using i member_le_sum_list [OF nth_mem [OF i(1)]] by simp
  then show ?thesis
    using sum_list_update [OF i(1), of "f th"] i(2) by (simp add: totalOf_def putFetch_def map_update)
qed

lemma total_slots [simp]: "totalOf f (s\<lparr>slots := sem\<rparr>) = totalOf f s" "totalOf f (s\<lparr>budgetUsed := n\<rparr>) = totalOf f s"
  by (simp_all add: totalOf_def)

lemma total_start:
  "totalOf f (s\<lparr>fetches := fetches s @ [x]\<rparr>) = totalOf f s + (case x of Inl _ \<Rightarrow> 0 | Inr th \<Rightarrow> f th)"
  by (simp add: totalOf_def)

lemma total_grant:
  assumes "\<And>th a. fetchStage th = Queued a \<Longrightarrow> f (th\<lparr>fetchStage := Granted a\<rparr>) \<le> f th"
  shows "totalOf f (grantSlot ticket s) \<le> totalOf f s"
proof (cases ticket s rule: grantSlot_cases)
  case (2 j th a)
  then show ?thesis
    using total_put [OF 2(2), of f "th\<lparr>fetchStage := Granted a\<rparr>"] assms [OF 2(3)] by simp
qed simp

text \<open>How many requests a fetch may still send, and how many stretches of code it may still run.\<close>

definition turnsLeft :: "FetchThread \<Rightarrow> nat" where
  "turnsLeft th =
     (5 - redirectsTaken th) + (if schemeWasMissing th \<and> \<not> usedHttpFallback th then 1 else 0)"

fun stageRank :: "FetchStage \<Rightarrow> nat" where
  "stageRank AtTop = 5"
| "stageRank Resolving = 4"
| "stageRank (Queued a) = 3"
| "stageRank (Granted a) = 2"
| "stageRank (Sending a) = 1"
| "stageRank (Ended x) = 0"

definition threadRank :: "FetchThread \<Rightarrow> nat" where
  "threadRank th = (if stageRank (fetchStage th) = 0 then 0 else 5 * turnsLeft th + stageRank (fetchStage th))"

definition sendsLeft :: "FetchThread \<Rightarrow> nat" where
  "sendsLeft th =
     (if stageRank (fetchStage th) = 0 then 0
      else turnsLeft th + (if 1 < stageRank (fetchStage th) then 1 else 0))"

definition aboutToSend :: "FetchThread \<Rightarrow> nat" where
  "aboutToSend th = (if stageRank (fetchStage th) \<in> {2, 3, 4} then 1 else 0)"

lemmas rank_defs = turnsLeft_def threadRank_def sendsLeft_def aboutToSend_def

lemma afterAnswer_ranks:
  assumes "fetchStage th = Sending a"
  shows "threadRank (afterAnswer cfg th artifact) < threadRank th
    \<and> sendsLeft (afterAnswer cfg th artifact) \<le> sendsLeft th
    \<and> aboutToSend (afterAnswer cfg th artifact) = 0"
  using assms
  by (auto simp: afterAnswer_def rank_defs simp del: u_simps split: option.splits sum.splits if_splits)

lemma answered_ranks:
  assumes "fetchStage th = Sending a"
    and "(\<exists>x. th' = th\<lparr>fetchStage := Ended x\<rparr>) \<or> (\<exists>artifact. th' = afterAnswer cfg th artifact)"
  shows "threadRank th' < threadRank th" "sendsLeft th' \<le> sendsLeft th" "aboutToSend th' = 0"
    "aboutToSend th = 0"
proof -
  have "threadRank th' < threadRank th \<and> sendsLeft th' \<le> sendsLeft th \<and> aboutToSend th' = 0"
    using assms(2)
  proof (elim disjE exE)
    fix x assume "th' = th\<lparr>fetchStage := Ended x\<rparr>"
    then show ?thesis using assms(1) by (simp add: rank_defs)
  next
    fix artifact assume "th' = afterAnswer cfg th artifact"
    then show ?thesis using afterAnswer_ranks [OF assms(1)] by simp
  qed
  then show "threadRank th' < threadRank th" "sendsLeft th' \<le> sendsLeft th" "aboutToSend th' = 0" by simp_all
  show "aboutToSend th = 0" using assms(1) by (simp add: aboutToSend_def)
qed

lemma openFetch_ranks:
  "openFetch cfg input options = Inr th \<Longrightarrow> threadRank th \<le> 35 \<and> sendsLeft th \<le> 7 \<and> aboutToSend th = 0"
  by (auto simp: openFetch_def rank_defs Let_def split: sum.splits if_splits)

lemma fetcher_pays:
  assumes "SafeFetcher cfg s e = Some (s', outs)"
  shows "(if starts e then 0 else 1) + totalOf threadRank s'
      \<le> totalOf threadRank s + (if starts e then 35 else 0)"
    and "length outs + (maximumRequests cfg - budgetUsed s' + totalOf aboutToSend s')
      \<le> maximumRequests cfg - budgetUsed s + totalOf aboutToSend s"
proof -
  have grants: "totalOf threadRank (grantSlot ticket t) \<le> totalOf threadRank t"
    "totalOf aboutToSend (grantSlot ticket t) \<le> totalOf aboutToSend t" for ticket t
    by (rule total_grant, auto simp: rank_defs)+
  have "(if starts e then 0 else 1) + totalOf threadRank s'
      \<le> totalOf threadRank s + (if starts e then 35 else 0)
    \<and> length outs + (maximumRequests cfg - budgetUsed s' + totalOf aboutToSend s')
      \<le> maximumRequests cfg - budgetUsed s + totalOf aboutToSend s"
    using assms
  proof (cases rule: fetcher_moves)
    case (start input options)
    then show ?thesis
      using openFetch_ranks [of cfg input options] by (auto simp: total_start split: sum.splits)
  next
    case (ends i th x)
    then show ?thesis
      using total_put [OF ends(3), of threadRank "th\<lparr>fetchStage := Ended x\<rparr>"]
        total_put [OF ends(3), of aboutToSend "th\<lparr>fetchStage := Ended x\<rparr>"]
      by (auto simp: rank_defs)
  next
    case (turns i th)
    let ?s = "s\<lparr>budgetUsed := budgetUsed s + 1\<rparr>" and ?th = "th\<lparr>fetchStage := Resolving\<rparr>"
    have "fetchAt i ?s = Some th" using turns(3) by simp
    from total_put [OF this, of threadRank ?th] total_put [OF this, of aboutToSend ?th] show ?thesis
      using turns by (simp add: rank_defs)
  next
    case (pins i th a had sem)
    let ?th = "th\<lparr>fetchStage := if had then Granted a else Queued a\<rparr>"
    have "fetchAt i (s\<lparr>slots := sem\<rparr>) = Some th" using pins(3) by simp
    from total_put [OF this, of threadRank ?th] total_put [OF this, of aboutToSend ?th] toStage_put [OF this]
    show ?thesis using pins by (cases had) (simp_all add: rank_defs)
  next
    case (aborts i th a x)
    let ?s = "s\<lparr>slots := stopWaiting (originNow cfg th) i (slots s)\<rparr>" and ?th = "th\<lparr>fetchStage := Ended x\<rparr>"
    have "fetchAt i ?s = Some th" using aborts(3) by simp
    from total_put [OF this, of threadRank ?th] total_put [OF this, of aboutToSend ?th] toStage_put [OF this]
    show ?thesis using aborts by (simp add: rank_defs)
  next
    case (sends i th a)
    then show ?thesis
      using total_put [OF sends(3), of threadRank "th\<lparr>fetchStage := Sending a\<rparr>"]
        total_put [OF sends(3), of aboutToSend "th\<lparr>fetchStage := Sending a\<rparr>"]
      by (simp add: rank_defs)
  next
    case (answers i th a th' ticket sem)
    let ?s = "grantSlot ticket (s\<lparr>slots := sem\<rparr>)"
    have kept: "fetchAt i ?s = Some th"
      using answers(3,4) by (cases ticket "s\<lparr>slots := sem\<rparr>" rule: grantSlot_cases) auto
    have "budgetUsed ?s = budgetUsed s"
      by (cases ticket "s\<lparr>slots := sem\<rparr>" rule: grantSlot_cases) simp_all
    moreover note answered_ranks [OF answers(4,7)]
    ultimately show ?thesis
      using answers(1,2) total_put [OF kept, of threadRank th'] total_put [OF kept, of aboutToSend th']
        grants [of ticket "s\<lparr>slots := sem\<rparr>"]
      unfolding answers(6) by simp
  qed
  then show "(if starts e then 0 else 1) + totalOf threadRank s'
      \<le> totalOf threadRank s + (if starts e then 35 else 0)"
    and "length outs + (maximumRequests cfg - budgetUsed s' + totalOf aboutToSend s')
      \<le> maximumRequests cfg - budgetUsed s + totalOf aboutToSend s"
    by blast+
qed

text \<open>The requests of one fetch, counted over a log.\<close>

definition sendsOf :: "nat \<Rightarrow> FetchEvent \<times> (nat \<times> PinnedTransportRequest) list \<Rightarrow> nat" where
  "sendsOf i entry = length (filter (\<lambda>(j, r). j = i) (snd entry))"

definition mayStillSend :: "nat \<Rightarrow> FetchState \<Rightarrow> nat" where
  "mayStillSend i s =
     (if i < length (fetches s) then (case fetchAt i s of None \<Rightarrow> 0 | Some th \<Rightarrow> sendsLeft th) else 7)"

lemma mayStillSend_put:
  "fetchAt i s = Some t \<Longrightarrow>
   mayStillSend j (putFetch i th s) = (if j = i then sendsLeft th else mayStillSend j s)"
  by (auto simp: mayStillSend_def dest: fetchAt_less)

lemma mayStillSend_slots [simp]:
  "mayStillSend j (s\<lparr>slots := sem\<rparr>) = mayStillSend j s"
  "mayStillSend j (s\<lparr>budgetUsed := n\<rparr>) = mayStillSend j s"
  by (simp_all add: mayStillSend_def)

lemma mayStillSend_grant: "mayStillSend j (grantSlot ticket s) = mayStillSend j s"
  by (cases ticket s rule: grantSlot_cases)
    (auto simp: mayStillSend_put rank_defs, auto simp: mayStillSend_def rank_defs dest: fetchAt_less)

lemma mayStillSend_at: "fetchAt i s = Some th \<Longrightarrow> mayStillSend i s = sendsLeft th"
  by (auto simp: mayStillSend_def dest: fetchAt_less)

lemma fetcher_pays_each:
  assumes "SafeFetcher cfg s e = Some (s', outs)"
  shows "sendsOf j (e, outs) + mayStillSend j s' \<le> mayStillSend j s"
  using assms
proof (cases rule: fetcher_moves)
  case (start input options)
  show ?thesis
    using openFetch_ranks [of cfg input options]
    unfolding start(3) mayStillSend_def fetchAt_start
    by (auto simp: start sendsOf_def split: sum.splits)
next
  case (ends i th x)
  then show ?thesis
    by (auto simp: mayStillSend_put mayStillSend_at sendsOf_def rank_defs)
next
  case (turns i th)
  then show ?thesis
    by (auto simp: mayStillSend_put mayStillSend_at sendsOf_def rank_defs)
next
  case (pins i th a had sem)
  then show ?thesis
    by (auto simp: mayStillSend_put mayStillSend_at toStage_put sendsOf_def rank_defs)
next
  case (aborts i th a x)
  then show ?thesis
    by (auto simp: mayStillSend_put mayStillSend_at toStage_put sendsOf_def rank_defs)
next
  case (sends i th a)
  then show ?thesis
    by (auto simp: mayStillSend_put mayStillSend_at sendsOf_def rank_defs)
next
  case (answers i th a th' ticket sem)
  let ?s = "grantSlot ticket (s\<lparr>slots := sem\<rparr>)"
  have kept: "fetchAt i ?s = Some th"
    using answers(3,4) by (cases ticket "s\<lparr>slots := sem\<rparr>" rule: grantSlot_cases) auto
  show ?thesis
    using answers(2) mayStillSend_at [OF answers(3)] answered_ranks(2) [OF answers(4,7)]
    unfolding answers(6) mayStillSend_put [OF kept] mayStillSend_grant by (simp add: sendsOf_def)
qed

section \<open>What holds of every run\<close>

text \<open>A machine whose every accepted input can be vouched for, together with what it put out.\<close>

locale watched_machine = preserved_machine step inv
  for step :: "('s, 'e, 'o) machine" and inv :: "'s \<Rightarrow> bool" +
  fixes fine :: "'e \<times> 'o list \<Rightarrow> bool"
  assumes says: "inv s \<Longrightarrow> step s e = Some (s', outs) \<Longrightarrow> fine (e, outs)"
begin

lemma run_says: "inv s \<Longrightarrow> run_machine step s es = (t, entries) \<Longrightarrow> entry \<in> set entries \<Longrightarrow> fine entry"
proof (induction es arbitrary: s entries)
  case (Cons e es)
  show ?case
  proof (cases "step s e")
    case None
    with Cons show ?thesis by simp
  next
    case (Some r)
    then obtain s' outs where step: "step s e = Some (s', outs)" by (cases r) simp
    obtain rest where rest: "run_machine step s' es = (t, rest)" and entries: "entries = (e, outs) # rest"
      using Cons.prems(2) step by (auto split: prod.splits)
    show ?thesis
      using Cons.IH [OF keeps [OF Cons.prems(1) step] rest] says [OF Cons.prems(1) step] Cons.prems(3)
      unfolding entries by auto
  qed
qed simp

end

definition requestSafe :: "FetchConfig \<Rightarrow> PinnedTransportRequest \<Rightarrow> bool" where
  "requestSafe cfg r \<longleftrightarrow>
     safeTarget (fetchPlatform cfg) (pinnedUrl r) \<and> publicAddress cfg (pinnedAddress r)
     \<and> pinnedMethod r \<in> {''GET'', ''HEAD''} \<and> pinnedTimeoutMs r \<le> 8000"

definition allSafe :: "FetchConfig \<Rightarrow> FetchEvent \<times> (nat \<times> PinnedTransportRequest) list \<Rightarrow> bool" where
  "allSafe cfg entry \<longleftrightarrow> (\<forall>(i, r) \<in> set (snd entry). requestSafe cfg r)"

lemma sent_is_safe:
  assumes "fetchesRight cfg s" "SafeFetcher cfg s e = Some (s', outs)"
  shows "allSafe cfg (e, outs)"
  using assms(2)
proof (cases rule: fetcher_moves)
  case (sends i th a)
  then show ?thesis
    using rightThreads [OF assms(1) sends(3)]
    by (auto simp: allSafe_def requestSafe_def requestOf_def threadRight_def Let_def)
qed (simp_all add: allSafe_def)

interpretation fetcher: watched_machine "SafeFetcher cfg" "fetchesRight cfg" "allSafe cfg" for cfg
  by unfold_locales (rule fetchesRight_step sent_is_safe, assumption+)+

interpretation sending: budgeted_machine "SafeFetcher cfg" "fetchesRight cfg"
    "\<lambda>entry. length (snd entry)" "\<lambda>_. 0"
    "\<lambda>s. maximumRequests cfg - budgetUsed s + totalOf aboutToSend s" for cfg
  by unfold_locales (simp add: fetcher_pays(2))

interpretation each: budgeted_machine "SafeFetcher cfg" "fetchesRight cfg" "sendsOf i" "\<lambda>_. 0" "mayStillSend i"
  for cfg i
  by unfold_locales (simp add: fetcher_pays_each)

interpretation moving: budgeted_machine "SafeFetcher cfg" "fetchesRight cfg"
    "\<lambda>entry. if starts (fst entry) then 0 else 1" "\<lambda>entry. if starts (fst entry) then 35 else 0"
    "totalOf threadRank" for cfg
  by unfold_locales (use fetcher_pays(1) in simp)

lemma freshBudget_right: "fetchesRight cfg freshBudget"
  by (simp add: fetchesRight_def freshBudget_def fetchAt_def slotsOf_def taken_def waiting_def among_def
      emptySemaphore_def)


text \<open>
  A platform that knows one address in numbers, and a fetch that is answered by a reset
  connection, falls back to http and follows one redirect.
\<close>

definition fetchPlatformSample :: UrlPlatform where
  "fetchPlatformSample = shopPlatform\<lparr>isIPof := (\<lambda>t. if t = u ''8.8.8.8'' then 4 else 0)\<rparr>"

definition sampleFetching :: FetchConfig where
  "sampleFetching =
     \<lparr>fetchPlatform = fetchPlatformSample, defaultUserAgent = u ''agentify-scanner/1.0'',
      maximumRequests = 18, perOriginConcurrency = 1\<rparr>"

definition plainAsk :: SafeFetchOptions where
  "plainAsk = \<lparr>askedMethod = None, askedAccept = None, askedUserAgent = None, askedBodyLimit = None,
               askedTimeoutMs = None\<rparr>"

definition gotArtifact :: "int \<Rightarrow> jstext option \<Rightarrow> jstext option \<Rightarrow> Fetched" where
  "gotArtifact status broke location =
     \<lparr>fetchUrl = u ''https://shop.example/a'', fetchStatus = status, fetchHeaders = [], fetchBody = [],
      decodedBytes = 0, truncated = False, durationMs = 1, ttfbMs = 1, fetchError = broke,
      redirectLocation = location\<rparr>"

definition publicAnswer :: "string + ResolvedAddress list" where
  "publicAnswer = Inr [\<lparr>resolvedText = u ''8.8.8.8'', resolvedFamily = 4\<rparr>]"

definition fetchOnce :: "nat \<Rightarrow> string + Fetched \<Rightarrow> FetchEvent list" where
  "fetchOnce i came = [TurnLoop i False, Resolved i publicAnswer, SendRequest i, Answered i came]"

definition sampleFetchRun :: "FetchEvent list" where
  "sampleFetchRun =
     [StartFetch (FetchText (u ''shop.example/a'')) plainAsk]
     @ fetchOnce 0 (Inr (gotArtifact 0 (Some (u ''connection_reset'')) None))
     @ fetchOnce 0 (Inr (gotArtifact 301 None (Some (u ''/b''))))
     @ fetchOnce 0 (Inr (gotArtifact 200 None None))"

definition sampleFetched :: "FetchState \<times> (FetchEvent, nat \<times> PinnedTransportRequest) log" where
  "sampleFetched = run_machine (SafeFetcher sampleFetching) freshBudget sampleFetchRun"

lemma sampleFetched_run:
  "run_machine (SafeFetcher sampleFetching) freshBudget sampleFetchRun = (fst sampleFetched, snd sampleFetched)"
  by (simp add: sampleFetched_def)

lemma sampleFetched_log: "map (map fst \<circ> snd) (snd sampleFetched) = [[], [], [], [0], [], [], [], [0], [], [], [], [0], []]"
  by code_simp


section \<open>Every fetch comes to its end\<close>

lemma logged_count: "logged (\<lambda>entry. if P (fst entry) then n else 0) entries = n * length (filter (P \<circ> fst) entries)"
  by (induction entries) simp_all

lemma somebody_moves:
  assumes right: "fetchesRight cfg s" and some: "0 < perOriginConcurrency cfg"
    and i: "fetchAt i s = Some th" "\<forall>x. fetchStage th \<noteq> Ended x"
  shows "\<exists>e. \<not> starts e \<and> (\<forall>j. e \<noteq> AbortWait j) \<and> SafeFetcher cfg s e \<noteq> None"
proof -
  have sends: "\<exists>e. \<not> starts e \<and> (\<forall>j. e \<noteq> AbortWait j) \<and> SafeFetcher cfg s e \<noteq> None"
    if "fetchAt j s = Some t" "holding t" for j t
  proof (cases "fetchStage t")
    case (Granted a)
    then show ?thesis using that by (intro exI [of _ "SendRequest j"]) (simp add: SafeFetcher_def)
  next
    case (Sending a)
    then show ?thesis using that by (intro exI [of _ "Answered j (Inl [])"]) (simp add: SafeFetcher_def)
  qed (use that in \<open>simp_all add: holding_def\<close>)
  show ?thesis
  proof (cases "fetchStage th")
    case AtTop
    then show ?thesis using i by (intro exI [of _ "TurnLoop i False"]) (simp add: SafeFetcher_def)
  next
    case Resolving
    then show ?thesis using i by (intro exI [of _ "Resolved i (Inl [])"]) (simp add: SafeFetcher_def)
  next
    case (Queued a)
    let ?o = "originNow cfg th"
    have slots: "slotsOf cfg ?o s" using right by (simp add: fetchesRight_def)
    have "i \<in> set (waiting (slots s) ?o)"
      using slots i Queued by (simp add: slotsOf_def in_among queued_def)
    then have "card (among cfg holding ?o s) = perOriginConcurrency cfg"
      using slots unfolding slotsOf_def by (metis empty_iff empty_set)
    then obtain j where "j \<in> among cfg holding ?o s" using some by (metis all_not_in_conv card.empty less_irrefl)
    then show ?thesis using sends by (auto simp: among_def)
  qed (use sends i in \<open>auto simp: holding_def\<close>)
qed

text \<open>C18: Fetching comes to an end: over every interleaving the code runs at most thirty-five
  stretches for each fetch that was started, a fetch sends at most seven requests (the first,
  five redirects, one fall-back to http), and as long as one has not ended some fetch can move
  on without anybody aborting: no slot is lost and nobody waits for one that is free.\<close>

theorem fetching_ends:
  assumes "run_machine (SafeFetcher cfg) freshBudget es = (s, entries)"
  shows "length (filter (\<lambda>entry. \<not> starts (fst entry)) entries)
      \<le> 35 * length (filter (\<lambda>entry. starts (fst entry)) entries)
    \<and> logged (sendsOf i) entries \<le> 7
    \<and> (0 < perOriginConcurrency cfg \<longrightarrow> fetchAt i s = Some th \<longrightarrow> (\<forall>x. fetchStage th \<noteq> Ended x)
        \<longrightarrow> (\<exists>e. \<not> starts e \<and> (\<forall>j. e \<noteq> AbortWait j) \<and> SafeFetcher cfg s e \<noteq> None))"
proof -
  have none: "logged (\<lambda>_. 0) entries = 0" by (induction entries) simp_all
  have "logged (\<lambda>entry. if starts (fst entry) then 0 else 1) entries
      \<le> logged (\<lambda>entry. if starts (fst entry) then 35 else 0) entries"
    using moving.run_pays [OF freshBudget_right assms] by (simp add: freshBudget_def totalOf_def)
  moreover have "logged (\<lambda>entry. if starts (fst entry) then 0 else 1) entries
      = length (filter (\<lambda>entry. \<not> starts (fst entry)) entries)"
    by (induction entries) simp_all
  moreover have "logged (sendsOf i) entries \<le> 7"
    using each.run_pays [OF freshBudget_right [of cfg] assms, of i] none
    by (simp add: mayStillSend_def freshBudget_def)
  moreover have "fetchesRight cfg s"
    using fetcher.run_keeps [OF freshBudget_right [of cfg], of es] assms by simp
  ultimately show ?thesis
    using somebody_moves [of cfg s i th] logged_count [of starts 35 entries] by (simp add: comp_def)
qed

theorem fetching_ends_witness:
  "length (filter (\<lambda>entry. \<not> starts (fst entry)) (snd sampleFetched)) = 12
   \<and> logged (sendsOf 0) (snd sampleFetched) = 3 \<and> logged (sendsOf 0) (snd sampleFetched) \<le> 7"
proof -
  have "length (filter (\<lambda>entry. \<not> starts (fst entry)) (snd sampleFetched)) = 12" by code_simp
  moreover have "logged (sendsOf 0) (snd sampleFetched) = 3" by code_simp
  ultimately show ?thesis using fetching_ends [OF sampleFetched_run, of 0] by blast
qed

text \<open>C22: The slots of an origin are kept: at every moment the fetches between their slot and
  their answer are at most as many as the origin has slots, the queue holds exactly the
  fetches that wait and each of them once, and nobody waits while a slot is free.\<close>

theorem origin_slots_are_kept:
  assumes "run_machine (SafeFetcher cfg) freshBudget es = (s, entries)"
  shows "card {i. \<exists>th. fetchAt i s = Some th \<and> holding th \<and> originNow cfg th = origin}
      \<le> perOriginConcurrency cfg
    \<and> set (waiting (slots s) origin)
      = {i. \<exists>th. fetchAt i s = Some th \<and> queued th \<and> originNow cfg th = origin}
    \<and> distinct (waiting (slots s) origin)
    \<and> (waiting (slots s) origin = []
       \<or> card {i. \<exists>th. fetchAt i s = Some th \<and> holding th \<and> originNow cfg th = origin}
         = perOriginConcurrency cfg)"
proof -
  have "slotsOf cfg origin s"
    using fetcher.run_keeps [OF freshBudget_right [of cfg], of es] assms by (simp add: fetchesRight_def)
  then show ?thesis by (auto simp: slotsOf_def among_def)
qed

text \<open>Two fetches of one origin with one slot: the second waits, and is given the slot.\<close>

definition twoFetches :: "FetchEvent list" where
  "twoFetches =
     [StartFetch (FetchText (u ''shop.example/a'')) plainAsk, StartFetch (FetchText (u ''shop.example/b'')) plainAsk,
      TurnLoop 0 False, TurnLoop 1 False, Resolved 0 publicAnswer, Resolved 1 publicAnswer, SendRequest 0]"

theorem origin_slots_are_kept_witness:
  "waiting (slots (fst (run_machine (SafeFetcher sampleFetching) freshBudget twoFetches))) (u ''shop.example'') = [1]
   \<and> card {i. \<exists>th. fetchAt i (fst (run_machine (SafeFetcher sampleFetching) freshBudget twoFetches)) = Some th
       \<and> holding th \<and> originNow sampleFetching th = u ''shop.example''} = 1"
proof -
  have one: "waiting (slots (fst (run_machine (SafeFetcher sampleFetching) freshBudget twoFetches)))
      (u ''shop.example'') = [1]"
    by code_simp
  obtain s entries where run: "run_machine (SafeFetcher sampleFetching) freshBudget twoFetches = (s, entries)"
    by (cases "run_machine (SafeFetcher sampleFetching) freshBudget twoFetches")
  with one origin_slots_are_kept [OF run, of "u ''shop.example''"] show ?thesis
    by (simp add: sampleFetching_def)
qed

end
