(* ===== verification/Scanner_Page_Checks.thy ===== *)
theory Scanner_Page_Checks
  imports Scanner_Checks
begin

text \<open>
  The checks of \<open>checks.ts\<close> that read pages and discovery documents: JSON-LD, markdown,
  llms.txt, MCP, UCP, OAuth, server rendering, agent probes, performance, feeds, A2A and
  hreflang, and \<open>evaluateChecks\<close>, which runs all eighteen.
\<close>

section \<open>Structured data\<close>

text \<open>
  The loop of \<open>fieldPresent\<close>: no answer where it returns false on the way, and otherwise the
  value it stops at, undefined being the inner none. A named property of an array is undefined.
\<close>

fun fieldWalk :: "json option \<Rightarrow> jstext list \<Rightarrow> json option option" where
  "fieldWalk current [] = Some current"
| "fieldWalk current (part # parts) =
     (case current of
        Some (JObj ms) \<Rightarrow>
          fieldWalk
            (case map_of ms part of
               Some (JArr vs) \<Rightarrow> (case vs of [] \<Rightarrow> None | v # _ \<Rightarrow> Some v)
             | found \<Rightarrow> found)
            parts
      | Some (JArr vs) \<Rightarrow> fieldWalk None parts
      | _ \<Rightarrow> None)"

definition fieldPresent :: "json \<Rightarrow> string \<Rightarrow> bool" where
  "fieldPresent node path =
     (case fieldWalk (Some node) (splitText (u path) (u ''.'')) of
        None \<Rightarrow> False
      | Some found \<Rightarrow> found \<noteq> None \<and> found \<noteq> Some JNull \<and> found \<noteq> Some (JStr []))"

record Profile =
  selectedNode :: "json option"
  requiredFields :: "string list"
  recommendedFields :: "string list"

definition chooseNode :: "json list \<Rightarrow> string list \<Rightarrow> json option" where
  "chooseNode nodes types =
     List.find (\<lambda>node. list_ex (\<lambda>t. t \<in> set (map u types)) (jsonLdTypes node)) nodes"

definition productProfile :: "json option \<Rightarrow> Profile" where
  "productProfile node =
     \<lparr>selectedNode = node,
      requiredFields = [''name'', ''image'', ''url'', ''offers.price'', ''offers.priceCurrency''],
      recommendedFields = [''offers.availability'']\<rparr>"

definition verticalProfile :: "Segment \<Rightarrow> json list \<Rightarrow> Profile" where
  "verticalProfile segment nodes =
     (if segment = Store then productProfile (chooseNode nodes [''Product''])
      else if segment = Local then
        \<lparr>selectedNode =
           List.find (\<lambda>node.
               list_ex (\<lambda>t. t = u ''LocalBusiness'' \<or> endsWith t (u ''Business'')
                          \<or> t \<in> set (map u [''Restaurant'', ''Hotel'', ''Dentist'', ''Store'']))
                 (jsonLdTypes node)) nodes,
         requiredFields = [''name'', ''address''],
         recommendedFields =
           [''telephone'', ''openingHoursSpecification'', ''geo'', ''priceRange'', ''makesOffer'']\<rparr>
      else
        (case chooseNode nodes [''Product''] of
           Some product \<Rightarrow> productProfile (Some product)
         | None \<Rightarrow>
             (case chooseNode nodes [''LocalBusiness'', ''Restaurant'', ''Hotel'', ''Store''] of
                Some local \<Rightarrow>
                  \<lparr>selectedNode = Some local, requiredFields = [''name'', ''address''],
                   recommendedFields =
                     [''telephone'', ''openingHoursSpecification'', ''geo'', ''priceRange'']\<rparr>
              | None \<Rightarrow>
                  (case chooseNode nodes [''Article'', ''NewsArticle'', ''BlogPosting''] of
                     Some article \<Rightarrow>
                       \<lparr>selectedNode = Some article,
                        requiredFields = [''headline'', ''image'', ''datePublished''],
                        recommendedFields = [''author'', ''dateModified'']\<rparr>
                   | None \<Rightarrow>
                       \<lparr>selectedNode = chooseNode nodes [''Organization'', ''WebSite''],
                        requiredFields = [''name'', ''url''],
                        recommendedFields = [''contactPoint'', ''sameAs'', ''logo'']\<rparr>))))"

definition verticalPoints :: "nat \<Rightarrow> nat \<Rightarrow> nat \<Rightarrow> nat \<Rightarrow> int" where
  "verticalPoints found required recommendedFound recommended =
     (let requiredRatio = ratio found required;
          recommendedRatio = ratio recommendedFound recommended
      in if requiredRatio = 1 \<and> 1 / 2 \<le> recommendedRatio then 12
         else max 3 (min 9 (mathRound (12 * (requiredRatio * (7 / 10) + recommendedRatio * (3 / 10))))))"

definition presenceCheck :: "FetchArtifact list \<Rightarrow> JsonLdResult list \<Rightarrow> CheckResult" where
  "presenceCheck pages parsedPages =
     (let nodes = concat (map jsonNodes parsedPages);
          invalid = sum_list (map invalidCount parsedPages);
          presence = (if nodes \<noteq> [] then (if invalid \<noteq> 0 then CheckPartial else CheckPass) else CheckFail)
      in result ((says 5 presence
             (if presence = CheckPass then 10 else if presence = CheckPartial then 4 else 0)
             (if presence = CheckPass then ''jsonld_present''
              else if presence = CheckPartial then ''jsonld_partially_parseable''
              else ''jsonld_absent_or_invalid'')
             ''structured_data_machine_readability'')
           \<lparr>inEvidence :=
              [(''script_count'', EvNumber (int (sum_list (map scriptCount parsedPages)))),
               (''node_count'', EvNumber (int (length nodes))),
               (''invalid_script_count'', EvNumber (int invalid)),
               (''pages_checked'', EvNumber (int (length pages)))],
            inFix := fixUnless (presence = CheckPass) ''publish_valid_jsonld'',
            inDuration := sum_list (map durationMs pages)\<rparr>))"

definition verticalCheck :: "Segment \<Rightarrow> json list \<Rightarrow> CheckResult" where
  "verticalCheck segment nodes =
     (if nodes = [] then
        result ((says 6 CheckFail 0 ''vertical_jsonld_missing'' ''vertical_data_gap'')
          \<lparr>inFix := Some ''publish_vertical_jsonld''\<rparr>)
      else
        (let profile = verticalProfile segment nodes in
         case selectedNode profile of
           None \<Rightarrow>
             result ((says 6 CheckFail 0 ''vertical_jsonld_wrong_type'' ''vertical_data_gap'')
               \<lparr>inEvidence :=
                  [(''types'', EvTexts (upTo 20 (unique (concat (map jsonLdTypes nodes)))))],
                inFix := Some ''publish_vertical_jsonld''\<rparr>)
         | Some node \<Rightarrow>
             (let required = filter (fieldPresent node) (requiredFields profile);
                  recommended = filter (fieldPresent node) (recommendedFields profile);
                  complete =
                    (ratio (length required) (length (requiredFields profile)) = 1
                     \<and> 1 / 2 \<le> ratio (length recommended) (length (recommendedFields profile)))
              in result ((says 6 (if complete then CheckPass else CheckPartial)
                     (verticalPoints (length required) (length (requiredFields profile))
                        (length recommended) (length (recommendedFields profile)))
                     (if complete then ''vertical_jsonld_complete'' else ''vertical_jsonld_incomplete'')
                     ''vertical_data_machine_readability'')
                   \<lparr>inEvidence :=
                      [(''type'', EvText (case jsonLdTypes node of [] \<Rightarrow> u ''unknown'' | t # _ \<Rightarrow> t)),
                       (''required_found'', EvTexts (map u required)),
                       (''required_missing'',
                        EvTexts (map u (filter (\<lambda>f. f \<notin> set required) (requiredFields profile)))),
                       (''recommended_found'', EvTexts (map u recommended))],
                    inFix := fixUnless complete ''complete_vertical_jsonld''\<rparr>))))"

text \<open>The error a check of pages names when no page could be read.\<close>

definition noPageError :: "ScanArtifacts \<Rightarrow> jstext option" where
  "noPageError a =
     (case errorOf (baseFetch a) of
        Some e \<Rightarrow> Some e
      | None \<Rightarrow> errorOr (errorOf (representativeFetch a)) ''base_unavailable'')"

definition jsonLdChecks :: "ScanArtifacts \<Rightarrow> CheckResult list" where
  "jsonLdChecks a =
     (let pages = readablePages a in
      if pages = [] then
        [result ((says 5 CheckUnavailable 0 ''jsonld_unavailable'' ''structured_data_not_assessed'')
           \<lparr>inError := noPageError a\<rparr>),
         result ((says 6 CheckUnavailable 0 ''vertical_jsonld_unavailable''
             ''structured_data_not_assessed'') \<lparr>inError := noPageError a\<rparr>)]
      else
        (let parsedPages = map (\<lambda>page. parseJsonLd (fetchBody page)) pages
         in [presenceCheck pages parsedPages,
             verticalCheck (scanSegment a) (concat (map jsonNodes parsedPages))]))"

section \<open>Markdown and llms.txt\<close>

definition varyPattern :: rx where
  "varyPattern =
     seqs [alts [AtStart, lit '','' ], star space1, litI ''accept'', star space1, alts [lit '','', AtEnd]]"

definition succeeded :: "FetchArtifact \<Rightarrow> bool" where
  "succeeded f \<longleftrightarrow> 200 \<le> fetchStatus f \<and> fetchStatus f < 300"

definition markdownCheck :: "ScanArtifacts \<Rightarrow> CheckResult" where
  "markdownCheck a =
     (case markdownFetch a of
        None \<Rightarrow>
          result ((says 7 CheckUnavailable 0 ''markdown_unavailable'' ''markdown_not_assessed'')
            \<lparr>inError := Some (u ''markdown_unavailable'')\<rparr>)
      | Some markdown \<Rightarrow>
          (if inaccessible (Some markdown) then
             result ((says 7 CheckUnavailable 0 ''markdown_unavailable'' ''markdown_not_assessed'')
               \<lparr>inError := errorOr (fetchError markdown) ''markdown_unavailable''\<rparr>)
           else
             (let type = header markdown ''content-type'';
                  vary = header markdown ''vary'';
                  differs = (case baseFetch a of
                               None \<Rightarrow> False
                             | Some base \<Rightarrow> trim (fetchBody markdown) \<noteq> trim (fetchBody base));
                  parity = (case baseFetch a of
                              None \<Rightarrow> False
                            | Some base \<Rightarrow> comparableBodies (fetchBody markdown) (fetchBody base));
                  correctType = test (litI ''text/markdown'') type;
                  nonEmpty = 20 < length (visibleText (fetchBody markdown))
              in if succeeded markdown \<and> correctType \<and> test varyPattern vary \<and> differs \<and> parity
                    \<and> nonEmpty then
                   result ((says 7 CheckPass 8 ''markdown_negotiation_valid'' ''markdown_available'')
                     \<lparr>inEvidence :=
                        [(''content_type'', EvText type), (''vary_accept'', EvFlag True),
                         (''differentiated'', EvFlag True), (''semantic_parity'', EvFlag True)]\<rparr>)
                 else if succeeded markdown \<and> correctType then
                   result ((says 7 CheckPartial (if test (lit ''*'') vary \<or> \<not> nonEmpty then 2 else 6)
                       ''markdown_negotiation_partial'' ''markdown_incomplete'')
                     \<lparr>inEvidence :=
                        [(''content_type'', EvText type),
                         (''vary_accept'', EvFlag (test (litI ''accept'') vary)),
                         (''differentiated'', EvFlag differs), (''semantic_parity'', EvFlag parity),
                         (''non_empty'', EvFlag nonEmpty)],
                      inFix := Some ''repair_markdown_negotiation''\<rparr>)
                 else
                   result ((says 7 CheckFail 0 ''markdown_negotiation_absent'' ''markdown_absent'')
                     \<lparr>inEvidence := [(''content_type'', EvText type)],
                      inFix := Some ''add_markdown_negotiation''\<rparr>))))"

definition llmsHeading :: rx where
  "llmsHeading =
     seqs [AtLineStart, lit ''#'', plus1 space1, plus1 (One (\<lambda>c. \<not> isSpace c))]"

definition llmsLink :: rx where
  "llmsLink =
     seqs [lit ''['', plus1 (noneOf '']''), lit ''](''  , litI ''http'', opt (litI ''s''), lit ''://'']"

definition llmsCheck :: "FetchArtifact option \<Rightarrow> CheckResult" where
  "llmsCheck fetched =
     (if missing fetched then
        result (says 8 CheckNotApplicable 0 ''llms_absent'' ''llms_optional'')
      else if inaccessible fetched then
        result ((says 8 CheckUnavailable 0 ''llms_unavailable'' ''llms_not_assessed'')
          \<lparr>inError := errorOr (errorOf fetched) ''llms_unavailable''\<rparr>)
      else
        (let body = (case fetched of None \<Rightarrow> [] | Some f \<Rightarrow> fetchBody f);
             h1 = test llmsHeading body;
             links = test llmsLink body
         in result ((says 8 (if h1 \<and> links then CheckPass else CheckPartial)
                (if h1 \<and> links then 2 else 1)
                (if h1 \<and> links then ''llms_valid'' else ''llms_malformed'') ''llms_informational'')
              \<lparr>inEvidence := [(''has_h1'', EvFlag h1), (''has_links'', EvFlag links)],
               inFix := fixUnless (h1 \<and> links) ''repair_llms''\<rparr>)))"

section \<open>Discovery documents\<close>

definition validDiscovery :: "FetchArtifact option \<Rightarrow> json option" where
  "validDiscovery fetched =
     (case fetched of
        None \<Rightarrow> None
      | Some f \<Rightarrow>
          (if \<not> succeeded f then None
           else
             (case parseSafeJson MAX_JSON_BYTES (fetchBody f) of
                Some (JObj ms) \<Rightarrow> Some (JObj ms)
              | _ \<Rightarrow> None)))"

definition discovered :: "FetchArtifact list \<Rightarrow> json list" where
  "discovered fetches =
     concat (map (\<lambda>f. case validDiscovery (Some f) of None \<Rightarrow> [] | Some d \<Rightarrow> [d]) fetches)"

definition hasEndpoint :: "json \<Rightarrow> bool" where
  "hasEndpoint d =
     truthy (orElse (orElse (property d (u ''endpoint'')) (property d (u ''url'')))
               (property d (u ''transport'')))"

definition hasIdentity :: "json \<Rightarrow> bool" where
  "hasIdentity d =
     truthy (orElse (orElse (property d (u ''name'')) (property d (u ''server'')))
               (property d (u ''id'')))"

definition mcpCheck :: "ScanArtifacts \<Rightarrow> CheckResult" where
  "mcpCheck a =
     (let documents = discovered (mcpFetches a);
          valid = list_ex (\<lambda>d. hasEndpoint d \<and> hasIdentity d) documents
      in if documents = [] then
           (if list_ex (\<lambda>f. inaccessible (Some f)) (mcpFetches a) then
              result ((says 9 CheckUnavailable 0 ''mcp_unavailable'' ''mcp_not_assessed'')
                \<lparr>inError := Some (u ''mcp_unavailable'')\<rparr>)
            else
              result ((says 9 CheckFail 0 ''mcp_absent'' ''mcp_callable_gap'')
                \<lparr>inFix := Some ''publish_mcp_card''\<rparr>))
         else
           result ((says 9 (if valid then CheckPass else CheckPartial)
               (if valid then 6 else if 1 < length documents then 4 else 2)
               (if valid then ''mcp_card_valid'' else ''mcp_card_incomplete'')
               ''mcp_callable_readiness'')
             \<lparr>inEvidence :=
                [(''documents_found'', EvNumber (int (length documents))),
                 (''identity_present'', EvFlag (list_ex hasIdentity documents)),
                 (''endpoint_present'', EvFlag (list_ex hasEndpoint documents))],
              inFix := fixUnless valid ''complete_mcp_card''\<rparr>))"

definition ucpCheck :: "ScanArtifacts \<Rightarrow> CheckResult" where
  "ucpCheck a =
     (if scanSegment a \<noteq> Store then
        result (says 10 CheckNotApplicable 0 ''ucp_not_store'' ''ucp_store_only'')
      else
        (case validDiscovery (ucpFetch a) of
           None \<Rightarrow>
             (if ucpFetch a \<noteq> None \<and> inaccessible (ucpFetch a) then
                result ((says 10 CheckUnavailable 0 ''ucp_unavailable'' ''ucp_not_assessed'')
                  \<lparr>inError := errorOr (errorOf (ucpFetch a)) ''ucp_unavailable''\<rparr>)
              else
                result ((says 10 CheckFail 0 ''ucp_absent'' ''ucp_commerce_gap'')
                  \<lparr>inFix := Some ''publish_ucp_profile''\<rparr>))
         | Some document \<Rightarrow>
             (let fields = filter (fieldPresent document) [''version'', ''services'', ''capabilities''];
                  endpoint = (fieldPresent document ''endpoint'' \<or> fieldPresent document ''transport''
                              \<or> fieldPresent document ''services.shopping.endpoint'');
                  complete = (length fields = 3 \<and> endpoint)
              in result ((says 10 (if complete then CheckPass else CheckPartial)
                     (if complete then 6
                      else max 2 (min 4 (int (length fields) + (if endpoint then 1 else 0))))
                     (if complete then ''ucp_valid'' else ''ucp_incomplete'') ''ucp_commerce_readiness'')
                   \<lparr>inEvidence :=
                      [(''fields_present'', EvTexts (map u fields)),
                       (''endpoint_present'', EvFlag endpoint),
                       (''signing_keys_present'', EvFlag (fieldPresent document ''signing_keys''))],
                    inFix := fixUnless complete ''complete_ucp_profile''\<rparr>))))"

definition declaresAuth :: "Platform \<Rightarrow> ScanArtifacts \<Rightarrow> bool" where
  "declaresAuth p a =
     (let documents = discovered (mcpFetches a @ (case ucpFetch a of None \<Rightarrow> [] | Some f \<Rightarrow> [f])) in
      list_ex (\<lambda>d. test (alts (map litI [''oauth'', ''bearer'', ''authorization'']))
                    (jsonStringify (numberText p) d)) documents
      \<or> list_ex (\<lambda>f. test (alts (map litI [''bearer'', ''oauth'']))
                      (case f of None \<Rightarrow> [] | Some g \<Rightarrow> header g ''www-authenticate''))
          (baseFetch a # map Some (mcpFetches a)))"

definition stringsAmong :: "json option list \<Rightarrow> jstext list" where
  "stringsAmong vs = concat (map (\<lambda>v. case v of Some (JStr s) \<Rightarrow> [s] | _ \<Rightarrow> []) vs)"

definition oauthCheck :: "Platform \<Rightarrow> ScanArtifacts \<Rightarrow> CheckResult" where
  "oauthCheck p a =
     (let documents = discovered (oauthFetches a);
          httpsFields =
            stringsAmong (concat (map (\<lambda>d.
                map (\<lambda>key. property d (u key))
                  [''issuer'', ''resource'', ''authorization_endpoint'', ''token_endpoint'']) documents));
          consistent = (httpsFields \<noteq> [] \<and> list_all (\<lambda>s. startsWith s (u ''https://'')) httpsFields);
          complete = (2 \<le> length documents \<and> consistent)
      in if \<not> declaresAuth p a then
           result (says 11 CheckNotApplicable 0 ''oauth_not_declared'' ''oauth_conditional'')
         else if documents = [] then
           (if list_ex (\<lambda>f. inaccessible (Some f)) (oauthFetches a) then
              result ((says 11 CheckUnavailable 0 ''oauth_unavailable'' ''oauth_not_assessed'')
                \<lparr>inError := Some (u ''oauth_unavailable'')\<rparr>)
            else
              result ((says 11 CheckFail 0 ''oauth_metadata_absent'' ''oauth_discovery_gap'')
                \<lparr>inFix := Some ''publish_oauth_metadata''\<rparr>))
         else
           result ((says 11 (if complete then CheckPass else CheckPartial)
               (if complete then 4 else if 2 \<le> length documents then 3 else 1)
               (if complete then ''oauth_metadata_valid'' else ''oauth_metadata_partial'')
               ''oauth_discovery'')
             \<lparr>inEvidence :=
                [(''documents_found'', EvNumber (int (length documents))),
                 (''https_fields'', EvFlag consistent)],
              inFix := fixUnless complete ''complete_oauth_metadata''\<rparr>))"

section \<open>Rendering, agents and performance\<close>

text \<open>A page whose body can be judged: read, and not a challenge.\<close>

definition usable :: "FetchArtifact option \<Rightarrow> FetchArtifact option" where
  "usable fetched =
     (case fetched of
        None \<Rightarrow> None
      | Some f \<Rightarrow>
          if \<not> inaccessible fetched \<and> \<not> isChallenge (fetchStatus f) (fetchBody f) then Some f else None)"

definition bodyOrEmpty :: "FetchArtifact option \<Rightarrow> jstext" where
  "bodyOrEmpty fetched = (case fetched of None \<Rightarrow> [] | Some f \<Rightarrow> fetchBody f)"

definition ssrCheck :: "ScanArtifacts \<Rightarrow> CheckResult" where
  "ssrCheck a =
     (let usableBase = usable (baseFetch a);
          usableRepresentative = usable (representativeFetch a)
      in if usableBase = None \<and> \<not> (scanSegment a = Store \<and> usableRepresentative \<noteq> None) then
           result ((says 12 CheckUnavailable 0 ''ssr_unavailable'' ''ssr_not_assessed'')
             \<lparr>inError :=
                errorOr (errorOf (baseFetch a))
                  (if baseFetch a \<noteq> None then ''base_blocked'' else ''robots_disallowed'')\<rparr>)
         else
           (let base = htmlSignals (bodyOrEmpty usableBase);
                representative = htmlSignals (bodyOrEmpty usableRepresentative);
                baseJsonLd = jsonNodes (parseJsonLd (bodyOrEmpty usableBase)) \<noteq> [];
                representativeJsonLd = jsonNodes (parseJsonLd (bodyOrEmpty usableRepresentative)) \<noteq> [];
                storeHomepagePass =
                  (300 \<le> textLength base
                   \<and> (0 < productLinkCount base \<or> hasPrice base \<and> baseJsonLd));
                representativePass =
                  (150 \<le> textLength representative \<and> hasPrice representative
                   \<and> (representativeJsonLd \<or> hasH1 representative));
                pass =
                  (if scanSegment a = Store then storeHomepagePass \<or> representativePass
                   else 500 \<le> textLength base \<and> hasH1 base \<and> hasTitle base);
                maximumTextLength = max (textLength base) (textLength representative);
                anyJsonLd = (baseJsonLd \<or> representativeJsonLd);
                partial = (\<not> pass \<and> (150 \<le> maximumTextLength \<or> anyJsonLd))
            in result ((says 12 (if pass then CheckPass else if partial then CheckPartial else CheckFail)
                   (if pass then 10 else if partial then 4 else 0)
                   (if pass then ''ssr_content_substantive''
                    else if partial then ''ssr_content_thin'' else ''ssr_shell_only'')
                   ''ssr_machine_readability'')
                 \<lparr>inEvidence :=
                    [(''visible_text_chars'', EvNumber maximumTextLength),
                     (''has_h1'', EvFlag (hasH1 base \<or> hasH1 representative)),
                     (''has_title'', EvFlag (hasTitle base \<or> hasTitle representative)),
                     (''product_link_count'',
                      EvNumber (productLinkCount base + productLinkCount representative)),
                     (''has_price_signal'', EvFlag (hasPrice base \<or> hasPrice representative)),
                     (''has_jsonld'', EvFlag anyJsonLd),
                     (''representative_checked'', EvFlag (usableRepresentative \<noteq> None))],
                  inFix := fixUnless pass ''render_substantive_html''\<rparr>)))"

definition probeAccessible :: "FetchArtifact \<Rightarrow> FetchArtifact \<Rightarrow> bool" where
  "probeAccessible base probe \<longleftrightarrow>
     succeeded probe \<and> \<not> isChallenge (fetchStatus probe) (fetchBody probe)
     \<and> comparableBodies (fetchBody base) (fetchBody probe)"

definition agentUaCheck :: "ScanArtifacts \<Rightarrow> CheckResult" where
  "agentUaCheck a =
     (case usable (baseFetch a) of
        None \<Rightarrow>
          result ((says 13 CheckUnavailable 0 ''agent_ua_neutral_unavailable'' ''agent_ua_not_assessed'')
            \<lparr>inError := errorOr (errorOf (baseFetch a)) ''neutral_unavailable''\<rparr>)
      | Some base \<Rightarrow>
          (case (chatgptProbe a, claudeProbe a) of
             (Some chatgpt, Some claude) \<Rightarrow>
               (if inaccessible (Some chatgpt) \<or> inaccessible (Some claude) then
                  result ((says 13 CheckUnavailable 0 ''agent_ua_probe_unavailable''
                      ''agent_ua_not_assessed'') \<lparr>inError := Some (u ''agent_probe_unavailable'')\<rparr>)
                else
                  (let accessible = map (probeAccessible base) [chatgpt, claude];
                       count = length (filter id accessible)
                   in result ((says 13
                          (if count = 2 then CheckPass else if count = 1 then CheckPartial else CheckFail)
                          (if count = 2 then 8 else if count = 1 then 4 else 0)
                          (if count = 2 then ''agent_ua_compatible''
                           else if count = 1 then ''agent_ua_partial'' else ''agent_ua_blocked'')
                          ''agent_ua_accessibility'')
                        \<lparr>inEvidence :=
                           [(''chatgpt_probe_accessible'', EvFlag (accessible ! 0)),
                            (''claude_probe_accessible'', EvFlag (accessible ! 1))],
                         inFix := fixUnless (count = 2) ''allow_agent_user_agents''\<rparr>)))
           | _ \<Rightarrow>
               result ((says 13 CheckUnavailable 0 ''agent_ua_probe_unavailable''
                   ''agent_ua_not_assessed'') \<lparr>inError := Some (u ''agent_probe_unavailable'')\<rparr>)))"

definition performanceCheck :: "ScanArtifacts \<Rightarrow> CheckResult" where
  "performanceCheck a =
     (case baseFetch a of
        None \<Rightarrow>
          result ((says 14 CheckUnavailable 0 ''page_performance_unavailable''
              ''page_performance_not_assessed'') \<lparr>inError := Some (u ''base_unavailable'')\<rparr>)
      | Some base \<Rightarrow>
          (if inaccessible (Some base) then
             result ((says 14 CheckUnavailable 0 ''page_performance_unavailable''
                 ''page_performance_not_assessed'')
               \<lparr>inError := errorOr (fetchError base) ''base_unavailable''\<rparr>)
           else if truncated base \<or> 8000 \<le> durationMs base then
             result ((says 14 CheckFail 0 ''page_performance_limit_exceeded''
                 ''page_performance_agent_cost'')
               \<lparr>inEvidence :=
                  [(''decoded_bytes'', EvNumber (decodedBytes base)),
                   (''ttfb_ms'', EvNumber (ttfbMs base)), (''total_ms'', EvNumber (durationMs base)),
                   (''truncated'', EvFlag (truncated base))],
                inFix := Some ''reduce_page_weight_latency''\<rparr>)
           else
             (let weight = (decodedBytes base < 2 * 1024 * 1024);
                  timing = (ttfbMs base < 1500 \<and> durationMs base < 4000)
              in result ((says 14
                     (if weight \<and> timing then CheckPass
                      else if weight \<or> timing then CheckPartial else CheckFail)
                     (if weight \<and> timing then 4 else if weight \<or> timing then 2 else 0)
                     (if weight \<and> timing then ''page_performance_within_budget''
                      else if weight \<or> timing then ''page_performance_partial''
                      else ''page_performance_slow_heavy'')
                     ''page_performance_agent_cost'')
                   \<lparr>inEvidence :=
                      [(''decoded_bytes'', EvNumber (decodedBytes base)),
                       (''ttfb_ms'', EvNumber (ttfbMs base)), (''total_ms'', EvNumber (durationMs base)),
                       (''single_region_measurement'', EvFlag True)],
                    inFix := fixUnless (weight \<and> timing) ''reduce_page_weight_latency''\<rparr>))))"

section \<open>Feeds, A2A and locales\<close>

definition feedLinkPattern :: rx where
  "feedLinkPattern =
     seqs [litI ''<link'', AtWordEdge, star notClose1,
       alts
         [seqs [litI ''type='', quote1,
                alts [Seq (litI ''application/'')
                        (alts [litI ''rss+xml'', litI ''atom+xml'', litI ''xml'']),
                      litI ''text/csv''],
                quote1],
          seqs [litI ''href='', quote1, star notQuote1,
                alts [litI ''feed'', litI ''merchant'',
                      Seq (litI ''products.'') (alts [litI ''xml'', litI ''csv''])],
                star notQuote1, quote1]]]"

definition productPattern :: rx where
  "productPattern =
     alts
       [seqs [litI ''og:type'', quote1, star notClose1, litI ''content='', quote1, litI ''product''],
        litI ''product:price'',
        seqs [AtWordEdge, litI ''sku'', AtWordEdge],
        seqs [AtWordEdge, litI ''gtin'', AtWordEdge]]"

definition feedCheck :: "ScanArtifacts \<Rightarrow> CheckResult" where
  "feedCheck a =
     (if scanSegment a \<noteq> Store then
        result (says 15 CheckNotApplicable 0 ''feed_not_store'' ''feed_store_only'')
      else if readablePages a = [] then
        result ((says 15 CheckUnavailable 0 ''feed_unavailable'' ''feed_not_assessed'')
          \<lparr>inError := noPageError a\<rparr>)
      else
        (let body = joinText [10] (map fetchBody (readablePages a));
             feedLink = test feedLinkPattern body;
             product =
               (test productPattern body
                \<or> list_ex (\<lambda>node. u ''Product'' \<in> set (jsonLdTypes node)) (jsonNodes (parseJsonLd body)));
             priceAvailability =
               test (alts (map litI [''price'', ''availability'', ''in_stock'', ''out_of_stock''])) body;
             seen = (\<lambda>link. [(''feed_link'', EvFlag link), (''product_identifiers'', EvFlag product),
                            (''price_availability'', EvFlag priceAvailability)])
         in if feedLink then
              result ((says 15 CheckPass 4 ''feed_discoverable'' ''feed_machine_discovery'')
                \<lparr>inEvidence := seen True\<rparr>)
            else if product then
              result ((says 15 CheckPartial (if priceAvailability then 3 else 1)
                  ''feed_machine_signals_only'' ''feed_machine_discovery'')
                \<lparr>inEvidence := seen False, inFix := Some ''publish_product_feed''\<rparr>)
            else
              result ((says 15 CheckFail 0 ''feed_signals_absent'' ''feed_machine_discovery_gap'')
                \<lparr>inFix := Some ''publish_product_feed''\<rparr>)))"

definition fingerprintCheck :: CheckResult where
  "fingerprintCheck =
     result (says 16 CheckPass 0 ''fingerprint_observed'' ''fingerprint_informational'')"

definition a2aCheck :: "ScanArtifacts \<Rightarrow> CheckResult" where
  "a2aCheck a =
     (case validDiscovery (a2aFetch a) of
        None \<Rightarrow>
          (if a2aFetch a \<noteq> None \<and> inaccessible (a2aFetch a) then
             result ((says 17 CheckUnavailable 0 ''a2a_unavailable'' ''a2a_not_assessed'')
               \<lparr>inError := errorOr (errorOf (a2aFetch a)) ''a2a_unavailable''\<rparr>)
           else if noncanonicalA2aHint a \<or> a2aFetch a \<noteq> None \<and> \<not> missing (a2aFetch a) then
             result ((says 17 CheckPartial 0 ''a2a_noncanonical_or_malformed'' ''a2a_informational'')
               \<lparr>inFix := Some ''repair_a2a_card''\<rparr>)
           else result (says 17 CheckNotApplicable 0 ''a2a_absent'' ''a2a_optional''))
      | Some document \<Rightarrow>
          (let interface' = (fieldPresent document ''url''
                              \<or> fieldPresent document ''supportedInterfaces'');
               valid = (list_all (fieldPresent document) [''name'', ''version'', ''skills'']
                        \<and> interface')
           in result ((says 17 (if valid then CheckPass else CheckPartial) (if valid then 1 else 0)
                  (if valid then ''a2a_valid'' else ''a2a_malformed'') ''a2a_informational'')
                \<lparr>inEvidence :=
                   [(''name_present'', EvFlag (fieldPresent document ''name'')),
                    (''version_present'', EvFlag (fieldPresent document ''version'')),
                    (''interface_present'', EvFlag interface'),
                    (''skills_present'', EvFlag (fieldPresent document ''skills''))],
                 inFix := fixUnless valid ''repair_a2a_card''\<rparr>)))"

definition localePattern :: rx where
  "localePattern =
     seqs [AtStart, One isLower, One isLower, opt (One isLower),
           opt (seqs [lit ''-'', One isUpper, One isUpper]), AtEnd]"

definition hreflangCheck :: "ScanArtifacts \<Rightarrow> CheckResult" where
  "hreflangCheck a =
     (if inaccessible (baseFetch a) then
        result ((says 18 CheckUnavailable 0 ''hreflang_unavailable'' ''hreflang_not_assessed'')
          \<lparr>inError := errorOr (errorOf (baseFetch a)) ''base_unavailable''\<rparr>)
      else
        (let tags = hreflangs (htmlSignals (bodyOrEmpty (baseFetch a)));
             valid = filter (\<lambda>tag. tag = u ''x-default'' \<or> test localePattern tag) tags;
             duplicate = (length (unique tags) \<noteq> length tags);
             complete = (length valid = length tags \<and> \<not> duplicate)
         in if length tags < 2 then
              result (says 18 CheckNotApplicable 0 ''hreflang_single_locale'' ''hreflang_conditional'')
            else
              result ((says 18 (if complete then CheckPass else CheckPartial) (if complete then 2 else 1)
                  (if complete then ''hreflang_valid'' else ''hreflang_partial'') ''locale_discovery'')
                \<lparr>inEvidence :=
                   [(''locale_count'', EvNumber (int (length tags))),
                    (''valid_locale_count'', EvNumber (int (length valid))),
                    (''duplicate'', EvFlag duplicate)],
                 inFix := fixUnless complete ''repair_hreflang''\<rparr>)))"

section \<open>All checks\<close>

definition AGENT :: jstext where
  "AGENT = u ''agentify-scanner''"

definition targetContentAllowed :: "ScanArtifacts \<Rightarrow> jstext \<Rightarrow> bool" where
  "targetContentAllowed a path =
     (let robots = robotsFetch a; r = parseRobots (fetchBody robots) in
      fetchStatus robots = 404 \<or> fetchStatus robots = 410
      \<or> fetchStatus robots = 200 \<and> \<not> hasError robots \<and> \<not> robotFatal r \<and> isPathAllowed r AGENT path)"

definition withoutPages :: "ScanArtifacts \<Rightarrow> ScanArtifacts" where
  "withoutPages a =
     a\<lparr>baseFetch := None, representativeFetch := None, markdownFetch := None,
       chatgptProbe := None, claudeProbe := None\<rparr>"

definition evaluateChecks :: "Platform \<Rightarrow> ScanArtifacts \<Rightarrow> string + CheckResult list" where
  "evaluateChecks p a =
     (case pathnameOf p (canonicalTargetUrl a) of
        None \<Rightarrow> Inl ''Invalid URL''
      | Some path \<Rightarrow>
          (let effective =
                 (if targetContentAllowed a (if path = [] then u ''/'' else path) then a
                  else withoutPages a);
               checks =
                 robotsChecks a @ [sitemapCheck p a] @ jsonLdChecks effective
                 @ [markdownCheck effective, llmsCheck (llmsFetch a), mcpCheck a, ucpCheck a,
                    oauthCheck p a, ssrCheck effective, agentUaCheck effective,
                    performanceCheck effective, feedCheck effective, fingerprintCheck, a2aCheck a,
                    hreflangCheck effective]
           in Inr (sort_key checkId checks)))"

end
