(* ===== verification/Scanner_Scoring.thy ===== *)
theory Scanner_Scoring
  imports Scanner_Page_Checks
begin

text \<open>
  What is made of the checks: the score (\<open>scoring.ts\<close>), the findings shown (\<open>findings.ts\<close>),
  the fingerprint of the site (\<open>fingerprint.ts\<close>) and \<open>evaluateScan\<close> (\<open>engine.ts\<close>), which puts
  them together.
\<close>

section \<open>The score\<close>

datatype ScoreLevel = Invisible | Readable | CallableReady | AheadOfMarket | Incomplete

datatype TerminalStatus = ScanCompleted | ScanPartial | ScanFailed

record ScanScore =
  rubricVersion :: string
  scanScore :: "int option"
  scanCoverage :: rat
  scanLevel :: ScoreLevel
  terminalStatus :: TerminalStatus
  scoreNominal :: int
  scoreApplicable :: int
  scoreAssessed :: int
  scoreEarned :: int

definition ASSESSED :: "CheckStatus list" where
  "ASSESSED = [CheckPass, CheckPartial, CheckFail]"

definition assertRubric :: "string + unit" where
  "assertRubric =
     (let total = sum_list CHECK_WEIGHTS in
      if total \<noteq> 100 then Inl (''rubric_nominal_weight_invalid:'' @ show_int total) else Inr ())"

definition levelForScore :: "int \<Rightarrow> rat \<Rightarrow> ScoreLevel" where
  "levelForScore score coverage =
     (if coverage < 7 / 10 then Incomplete
      else if score \<le> 24 then Invisible
      else if score \<le> 49 then Readable
      else if score \<le> 69 then CallableReady
      else AheadOfMarket)"

definition scoreChecks :: "CheckResult list \<Rightarrow> string + ScanScore" where
  "scoreChecks checks =
     (case assertRubric of
        Inl e \<Rightarrow> Inl e
      | Inr _ \<Rightarrow>
          (let nominal = sum_list CHECK_WEIGHTS;
               applicable = sum_list (map applicableWeight checks);
               assessed = sum_list (map (\<lambda>c. if checkStatus c \<in> set ASSESSED then applicableWeight c
                                             else 0) checks);
               earned = sum_list (map earnedWeight checks);
               coverage = (if applicable = 0 then 0 else of_int assessed / of_int applicable);
               calculated =
                 (if assessed = 0 then 0 else mathRound (of_int (100 * earned) / of_int assessed));
               score = (if coverage < 3 / 10 then None else Some (max 0 (min 100 calculated)))
           in Inr
                \<lparr>rubricVersion = ''gtm-v1.0.0'', scanScore = score, scanCoverage = coverage,
                 scanLevel = levelForScore calculated coverage,
                 terminalStatus =
                   (if coverage < 3 / 10 then ScanFailed
                    else if coverage < 1 then ScanPartial else ScanCompleted),
                 scoreNominal = nominal, scoreApplicable = applicable, scoreAssessed = assessed,
                 scoreEarned = earned\<rparr>))"

section \<open>The findings shown\<close>

definition PRIORITY :: "Segment \<Rightarrow> nat list" where
  "PRIORITY segment =
     (case segment of
        Store \<Rightarrow> [6, 15, 12, 13, 4, 7]
      | Local \<Rightarrow> [6, 12, 13, 4, 7]
      | Owner \<Rightarrow> [12, 6, 13, 4, 7])"

definition CLUSTER :: "nat \<Rightarrow> string option" where
  "CLUSTER i =
     map_of
       [(1, ''robots''), (2, ''robots-policy''), (3, ''robots-policy''), (5, ''structured-data''),
        (6, ''structured-data''), (9, ''callable-metadata''), (10, ''callable-metadata''),
        (11, ''callable-auth''), (12, ''content-access''), (13, ''content-access''),
        (15, ''commerce-machine-data'')] i"

fun placeIn :: "nat list \<Rightarrow> nat \<Rightarrow> nat option" where
  "placeIn [] i = None"
| "placeIn (j # js) i = (if j = i then Some 0 else map_option Suc (placeIn js i))"

definition priorityIndex :: "Segment \<Rightarrow> nat \<Rightarrow> nat" where
  "priorityIndex segment i =
     (case placeIn (PRIORITY segment) i of None \<Rightarrow> 100 + i | Some index \<Rightarrow> index)"

text \<open>
  The comparison of the sort, as a key: failures first, then the priority, then the weight
  lost, the largest first, then the number of the check. The keys are compared
  lexicographically, which is what the chain of differences of the code does.
\<close>

definition findingKey :: "Segment \<Rightarrow> CheckResult \<Rightarrow> int list" where
  "findingKey segment c =
     [if checkStatus c = CheckFail then 0 else 1, int (priorityIndex segment (checkId c)),
      earnedWeight c - applicableWeight c, int (checkId c)]"

fun keyLess :: "int list \<Rightarrow> int list \<Rightarrow> bool" where
  "keyLess (a # as) (b # bs) = (a < b \<or> a = b \<and> keyLess as bs)"
| "keyLess _ _ = False"

text \<open>A stable sort by a comparison: each element goes behind those that do not come after it.\<close>

fun insertBy :: "('a \<Rightarrow> int list) \<Rightarrow> 'a \<Rightarrow> 'a list \<Rightarrow> 'a list" where
  "insertBy key x [] = [x]"
| "insertBy key x (y # ys) =
     (if keyLess (key x) (key y) then x # y # ys else y # insertBy key x ys)"

definition sortBy :: "('a \<Rightarrow> int list) \<Rightarrow> 'a list \<Rightarrow> 'a list" where
  "sortBy key xs = foldl (\<lambda>sorted x. insertBy key x sorted) [] xs"

definition clusterOf :: "CheckResult \<Rightarrow> string" where
  "clusterOf c = (case CLUSTER (checkId c) of Some cluster \<Rightarrow> cluster
                  | None \<Rightarrow> ''check-'' @ show_nat (checkId c))"

text \<open>The loop: one finding of a cluster, and three at most.\<close>

fun takeFindings :: "string list \<Rightarrow> nat list \<Rightarrow> CheckResult list \<Rightarrow> nat list" where
  "takeFindings clusters negatives [] = negatives"
| "takeFindings clusters negatives (c # cs) =
     (if clusterOf c \<in> set clusters then takeFindings clusters negatives cs
      else
        let negatives' = negatives @ [checkId c] in
        if length negatives' = 3 then negatives'
        else takeFindings (clusterOf c # clusters) negatives' cs)"

record Findings =
  negativeCheckIds :: "nat list"
  positiveCheckId :: "nat option"

definition isNegative :: "CheckResult \<Rightarrow> bool" where
  "isNegative c \<longleftrightarrow> checkStatus c = CheckFail \<or> checkStatus c = CheckPartial"

definition selectFindings :: "Segment \<Rightarrow> CheckResult list \<Rightarrow> Findings" where
  "selectFindings segment checks =
     \<lparr>negativeCheckIds =
        takeFindings [] [] (sortBy (findingKey segment) (filter isNegative checks)),
      positiveCheckId =
        (case sortBy (\<lambda>c. [- earnedWeight c, int (checkId c)])
                (filter (\<lambda>c. checkStatus c = CheckPass \<and> 0 < earnedWeight c) checks) of
           [] \<Rightarrow> None
         | c # _ \<Rightarrow> Some (checkId c))\<rparr>"

section \<open>The fingerprint\<close>

datatype Confidence = High | Medium | Low

record FingerprintSignal =
  signalValue :: string
  signalConfidence :: Confidence
  signalTexts :: "string list"

text \<open>A pattern with the source it is written with, which the signal quotes.\<close>

record Detector =
  detectorValue :: string
  strongPatterns :: "(string \<times> rx) list"
  weakPatterns :: "(string \<times> rx) list"

definition plain :: "string \<Rightarrow> string \<times> rx" where
  "plain w = (w, litI w)"

definition backslash :: char where
  "backslash = CHR 0x5C"

text \<open>A literal in which each dot or slash is written with a backslash before it.\<close>

definition escapedPlain :: "string \<Rightarrow> string \<times> rx" where
  "escapedPlain w =
     (concat (map (\<lambda>c. if c = CHR ''.'' \<or> c = CHR ''/'' then [backslash, c] else [c]) w), litI w)"

definition wholeWord :: "string \<Rightarrow> string \<times> rx" where
  "wholeWord w =
     ([backslash] @ ''b'' @ w @ [backslash] @ ''b'', seqs [AtWordEdge, litI w, AtWordEdge])"

definition PLATFORM_DETECTORS :: "Detector list" where
  "PLATFORM_DETECTORS =
     [\<lparr>detectorValue = ''Shopify'',
       strongPatterns = [escapedPlain ''cdn.shopify.com'', plain ''shopify-section''],
       weakPatterns = [plain ''shopify'']\<rparr>,
      \<lparr>detectorValue = ''WooCommerce/WordPress'',
       strongPatterns = [escapedPlain ''wp-content/'', plain ''woocommerce''],
       weakPatterns = [plain ''wp-includes'', plain ''wordpress'']\<rparr>,
      \<lparr>detectorValue = ''Magento/Adobe Commerce'',
       strongPatterns = [plain ''Magento_Ui'', escapedPlain ''mage/cookies''],
       weakPatterns = [plain ''magento'']\<rparr>,
      \<lparr>detectorValue = ''Wix'',
       strongPatterns = [escapedPlain ''static.wixstatic.com'', plain ''wix-viewer-model''],
       weakPatterns = [plain ''wix'']\<rparr>,
      \<lparr>detectorValue = ''Webflow'',
       strongPatterns = [plain ''data-wf-page='', escapedPlain ''assets.website-files.com''],
       weakPatterns = [plain ''webflow'']\<rparr>,
      \<lparr>detectorValue = ''Squarespace'',
       strongPatterns = [escapedPlain ''static1.squarespace.com'', plain ''squarespace-cdn''],
       weakPatterns = [plain ''squarespace'']\<rparr>]"

definition WAF_DETECTORS :: "Detector list" where
  "WAF_DETECTORS =
     [\<lparr>detectorValue = ''Cloudflare'',
       strongPatterns = [wholeWord ''cf-ray'', plain ''cloudflare''],
       weakPatterns = [plain ''cf-cache-status'']\<rparr>,
      \<lparr>detectorValue = ''Akamai'', strongPatterns = [plain ''akamai'', plain ''akamai-ghost''],
       weakPatterns = [plain ''x-akamai'']\<rparr>,
      \<lparr>detectorValue = ''Fastly'', strongPatterns = [wholeWord ''fastly'', plain ''x-served-by''],
       weakPatterns = [plain ''x-cache-hits'']\<rparr>,
      \<lparr>detectorValue = ''Vercel'', strongPatterns = [plain ''x-vercel-id'', wholeWord ''vercel''],
       weakPatterns = [escapedPlain ''_next/static'']\<rparr>,
      \<lparr>detectorValue = ''Netlify'', strongPatterns = [plain ''x-nf-request-id'', wholeWord ''netlify''],
       weakPatterns = [plain ''netlify'']\<rparr>]"

definition PSP_DETECTORS :: "Detector list" where
  "PSP_DETECTORS =
     [\<lparr>detectorValue = ''Stripe'', strongPatterns = [escapedPlain ''js.stripe.com'', plain ''stripe-js''],
       weakPatterns = [plain ''stripe'']\<rparr>,
      \<lparr>detectorValue = ''PayPal'', strongPatterns = [escapedPlain ''paypal.com/sdk/js''],
       weakPatterns = [plain ''paypal'']\<rparr>,
      \<lparr>detectorValue = ''Adyen'',
       strongPatterns =
         [(''checkoutshopper-.*'' @ [backslash] @ ''.adyen'' @ [backslash] @ ''.com'',
           seqs [litI ''checkoutshopper-'', star dot1, litI ''.adyen.com'']),
          plain ''adyen-checkout''],
       weakPatterns = [plain ''adyen'']\<rparr>,
      \<lparr>detectorValue = ''Shopify Payments'', strongPatterns = [plain ''shopify_payments''],
       weakPatterns = [plain ''shopify payments'']\<rparr>,
      \<lparr>detectorValue = ''Square'',
       strongPatterns = [escapedPlain ''web.squarecdn.com'', escapedPlain ''squareup.com/v1/square''],
       weakPatterns = [plain ''square payments'']\<rparr>]"

definition corpus :: "FetchArtifact option \<Rightarrow> jstext" where
  "corpus fetched =
     (case fetched of
        None \<Rightarrow> []
      | Some f \<Rightarrow>
          joinText [10] (map (\<lambda>(key, written). u key @ u '':'' @ written) (fetchHeaders f))
            @ [10] @ upTo 524288 (fetchBody f))"

definition detect :: "jstext \<Rightarrow> Detector \<Rightarrow> FingerprintSignal option" where
  "detect input detector =
     (let strong = map fst (filter (\<lambda>(source, r). test r input) (strongPatterns detector));
          weak = map fst (filter (\<lambda>(source, r). test r input) (weakPatterns detector));
          count = length strong + length weak
      in if count = 0 then None
         else Some
           \<lparr>signalValue = detectorValue detector,
            signalConfidence =
              (if 2 \<le> count then High else if length strong = 1 then Medium else Low),
            signalTexts =
              upTo 5 (map (\<lambda>s. ''strong:'' @ s) strong @ map (\<lambda>s. ''weak:'' @ s) weak)\<rparr>)"

definition detectAll :: "jstext \<Rightarrow> Detector list \<Rightarrow> FingerprintSignal list" where
  "detectAll input detectors =
     concat (map (\<lambda>d. case detect input d of None \<Rightarrow> [] | Some s \<Rightarrow> [s]) detectors)"

definition confidenceRank :: "Confidence \<Rightarrow> int" where
  "confidenceRank c = (case c of High \<Rightarrow> 3 | Medium \<Rightarrow> 2 | Low \<Rightarrow> 1)"

record Fingerprint =
  detectorVersion :: string
  platformSignal :: FingerprintSignal
  wafCdn :: "FingerprintSignal list"
  pspMarkers :: "FingerprintSignal list"

definition fingerprint :: "FetchArtifact option \<Rightarrow> Fingerprint" where
  "fingerprint fetched =
     (let input = corpus fetched in
      \<lparr>detectorVersion = ''fingerprint-v1.0.0'',
       platformSignal =
         (case sortBy (\<lambda>s. [- confidenceRank (signalConfidence s)])
                 (detectAll input PLATFORM_DETECTORS) of
            [] \<Rightarrow> \<lparr>signalValue = ''custom/unknown'', signalConfidence = Low, signalTexts = []\<rparr>
          | s # _ \<Rightarrow> s),
       wafCdn = detectAll input WAF_DETECTORS,
       pspMarkers = detectAll input PSP_DETECTORS\<rparr>)"

section \<open>The evaluation\<close>

record ScanEvaluation =
  scanChecks :: "CheckResult list"
  scanResult :: ScanScore
  scanFingerprint :: Fingerprint
  scanFindings :: Findings

definition evaluateScan :: "Platform \<Rightarrow> ScanArtifacts \<Rightarrow> string + ScanEvaluation" where
  "evaluateScan p a =
     (case evaluateChecks p a of
        Inl e \<Rightarrow> Inl e
      | Inr checks \<Rightarrow>
          (case scoreChecks checks of
             Inl e \<Rightarrow> Inl e
           | Inr score \<Rightarrow>
               Inr \<lparr>scanChecks = checks, scanResult = score,
                    scanFingerprint = fingerprint (baseFetch a),
                    scanFindings = selectFindings (scanSegment a) checks\<rparr>))"

section \<open>A check's points agree with what it says\<close>

definition fair :: "CheckResult \<Rightarrow> bool" where
  "fair c \<longleftrightarrow>
     0 \<le> nominalWeight c
     \<and> applicableWeight c = (if checkStatus c = CheckNotApplicable then 0 else nominalWeight c)
     \<and> (case checkStatus c of
          CheckPass \<Rightarrow> earnedWeight c = nominalWeight c
        | CheckPartial \<Rightarrow> 0 \<le> earnedWeight c \<and> earnedWeight c < nominalWeight c
        | CheckFail \<Rightarrow> earnedWeight c = 0
        | CheckUnavailable \<Rightarrow> earnedWeight c = 0
        | CheckNotApplicable \<Rightarrow> earnedWeight c = 0)"

definition fairAt :: "nat \<Rightarrow> CheckResult \<Rightarrow> bool" where
  "fairAt i c \<longleftrightarrow> checkId c = i \<and> nominalWeight c = CHECK_WEIGHTS ! (i - 1) \<and> fair c"

lemma weights: "CHECK_WEIGHTS = [5, 8, 4, 6, 10, 12, 8, 2, 6, 6, 4, 10, 8, 4, 4, 0, 1, 2]"
  by (simp add: CHECK_WEIGHTS_def CHECK_DEFINITIONS_def)

lemmas result_defs = fairAt_def fair_def result_def says_def weights

text \<open>A check is fair when it is on every branch, whatever was computed on the way.\<close>

lemma fair_if: "(c \<Longrightarrow> fairAt i x) \<Longrightarrow> (\<not> c \<Longrightarrow> fairAt i y) \<Longrightarrow> fairAt i (if c then x else y)"
  by simp

lemma fair_Let: "(\<And>x. fairAt i (f x)) \<Longrightarrow> fairAt i (Let v f)"
  by simp

lemma fair_option:
  "fairAt i x \<Longrightarrow> (\<And>y. fairAt i (f y)) \<Longrightarrow> fairAt i (case v of None \<Rightarrow> x | Some y \<Rightarrow> f y)"
  by (cases v) simp_all

lemmas fair_intros = fair_if fair_Let fair_option

lemma robotsCheck_fair: "fairAt 1 (robotsCheck fetch r)"
  unfolding robotsCheck_def by (intro fair_intros; simp add: result_defs)

lemma policies_four: "length (explicitAiPolicies r) \<le> 4"
  unfolding explicitAiPolicies_def Let_def
  by (rule order_trans [OF length_filter_le]) (simp add: PROVIDERS_def)

lemma policyCheck_fair: "fairAt 2 (policyCheck fetch r robots)"
  using policies_four [of r] unfolding policyCheck_def Let_def
  by (intro fair_if) (auto simp: result_defs)

lemma signalCheck_fair: "fairAt 3 (signalCheck r robots)"
  unfolding signalCheck_def by (intro fair_intros; simp add: result_defs)

lemma sitemapCheck_fair: "fairAt 4 (sitemapCheck p a)"
  unfolding sitemapCheck_def by (intro fair_intros; simp add: result_defs)

lemma presenceCheck_fair: "fairAt 5 (presenceCheck pages results)"
  unfolding presenceCheck_def Let_def by (simp add: result_defs)

lemma verticalCheck_fair: "fairAt 6 (verticalCheck segment nodes)"
  unfolding verticalCheck_def Let_def
  by (intro fair_if fair_option) (auto simp: verticalPoints_def result_defs Let_def)

lemma jsonLdChecks_fair:
  "\<exists>c5 c6. jsonLdChecks a = [c5, c6] \<and> fairAt 5 c5 \<and> fairAt 6 c6"
proof (cases "readablePages a = []")
  case True
  then show ?thesis by (simp add: jsonLdChecks_def result_defs)
next
  case False
  then show ?thesis
    using presenceCheck_fair verticalCheck_fair by (simp add: jsonLdChecks_def Let_def)
qed

lemma markdownCheck_fair: "fairAt 7 (markdownCheck a)"
  unfolding markdownCheck_def by (intro fair_intros; simp add: result_defs)

lemma llmsCheck_fair: "fairAt 8 (llmsCheck fetched)"
  unfolding llmsCheck_def by (intro fair_intros; simp add: result_defs)

lemma mcpCheck_fair: "fairAt 9 (mcpCheck a)"
  unfolding mcpCheck_def by (intro fair_intros; simp add: result_defs)

lemma ucpCheck_fair: "fairAt 10 (ucpCheck a)"
  unfolding ucpCheck_def by (intro fair_intros; auto simp: result_defs)

lemma oauthCheck_fair: "fairAt 11 (oauthCheck p a)"
  unfolding oauthCheck_def by (intro fair_intros; simp add: result_defs)

lemma ssrCheck_fair: "fairAt 12 (ssrCheck a)"
  unfolding ssrCheck_def by (intro fair_intros; simp add: result_defs)

lemma agentUaCheck_fair: "fairAt 13 (agentUaCheck a)"
  unfolding agentUaCheck_def prod.case by (intro fair_intros; simp add: result_defs)

lemma performanceCheck_fair: "fairAt 14 (performanceCheck a)"
  unfolding performanceCheck_def by (intro fair_intros; simp add: result_defs)

lemma feedCheck_fair: "fairAt 15 (feedCheck a)"
  unfolding feedCheck_def by (intro fair_intros; simp add: result_defs)

lemma fingerprintCheck_fair: "fairAt 16 fingerprintCheck"
  by (simp add: fingerprintCheck_def result_defs)

lemma a2aCheck_fair: "fairAt 17 (a2aCheck a)"
  unfolding a2aCheck_def by (intro fair_intros; simp add: result_defs)

lemma hreflangCheck_fair: "fairAt 18 (hreflangCheck a)"
  unfolding hreflangCheck_def by (intro fair_intros; simp add: result_defs)

section \<open>All eighteen, in order\<close>

lemma fair_ids: "list_all2 fairAt is cs \<Longrightarrow> map checkId cs = is"
  by (induction rule: list_all2_induct) (auto simp: fairAt_def)

text \<open>The list \<open>evaluateChecks\<close> sorts, which is in order already.\<close>

definition checkList :: "Platform \<Rightarrow> ScanArtifacts \<Rightarrow> ScanArtifacts \<Rightarrow> CheckResult list" where
  "checkList p a effective =
     robotsChecks a @ [sitemapCheck p a] @ jsonLdChecks effective
     @ [markdownCheck effective, llmsCheck (llmsFetch a), mcpCheck a, ucpCheck a,
        oauthCheck p a, ssrCheck effective, agentUaCheck effective,
        performanceCheck effective, feedCheck effective, fingerprintCheck, a2aCheck a,
        hreflangCheck effective]"

lemma checkList_fair: "list_all2 fairAt [1..<19] (checkList p a effective)"
proof -
  obtain c5 c6 where six: "jsonLdChecks effective = [c5, c6]" "fairAt 5 c5" "fairAt 6 c6"
    using jsonLdChecks_fair by blast
  have ids: "[1..<19] = [1, 2, 3, 4, 5, 6, 7, 8, 9, 10, 11, 12, 13, 14, 15, 16, 17, 18 :: nat]"
    by (simp add: upt_rec)
  show ?thesis
    unfolding ids checkList_def robotsChecks_def Let_def six(1) append.simps list_all2_Cons list_all2_Nil
    by (intro conjI refl robotsCheck_fair policyCheck_fair signalCheck_fair sitemapCheck_fair six(2,3)
        markdownCheck_fair llmsCheck_fair mcpCheck_fair ucpCheck_fair oauthCheck_fair ssrCheck_fair
        agentUaCheck_fair performanceCheck_fair feedCheck_fair fingerprintCheck_fair a2aCheck_fair
        hreflangCheck_fair)
qed

lemma evaluateChecks_list:
  "evaluateChecks p a =
     (case pathnameOf p (canonicalTargetUrl a) of
        None \<Rightarrow> Inl ''Invalid URL''
      | Some path \<Rightarrow>
          Inr (checkList p a
                (if targetContentAllowed a (if path = [] then u ''/'' else path) then a
                 else withoutPages a)))"
proof -
  have "sort_key checkId (checkList p a effective) = checkList p a effective" for effective
    using fair_ids [OF checkList_fair] by (intro sort_key_id_if_sorted) simp
  then show ?thesis
    unfolding evaluateChecks_def Let_def checkList_def [symmetric] by (simp only:)
qed

lemma evaluateChecks_fair:
  "evaluateChecks p a = Inr checks \<Longrightarrow> list_all2 fairAt [1..<19] checks"
  by (auto simp: evaluateChecks_list checkList_fair simp del: One_nat_def split: option.splits)

lemma fair_checks:
  assumes "evaluateChecks p a = Inr checks" "c \<in> set checks"
  shows "fair c"
  using evaluateChecks_fair [OF assms(1)] assms(2)
  by (auto simp: list_all2_conv_all_nth in_set_conv_nth fairAt_def)

lemma evaluated_checks:
  assumes "evaluateChecks p a = Inr checks"
  shows "map checkId checks = [1..<19]" "map nominalWeight checks = CHECK_WEIGHTS"
proof -
  note fair = evaluateChecks_fair [OF assms]
  have "length checks = 18" using list_all2_lengthD [OF fair] by simp
  moreover have "length CHECK_WEIGHTS = 18" by (simp add: weights)
  ultimately show "map checkId checks = [1..<19]" "map nominalWeight checks = CHECK_WEIGHTS"
    using fair by (auto simp: list_all2_conv_all_nth fairAt_def intro!: nth_equalityI)
qed

text \<open>C38: Whatever was fetched, an evaluation has all eighteen checks, once each and in order,
  with the weight the rubric gives each; and the points of a check agree with its status: all of
  the weight for a pass, less than all for a partial, nothing for a failure or for what could
  not be assessed, and a check that does not apply counts for nothing.\<close>

theorem checks_are_complete_and_fair:
  assumes "evaluateChecks p a = Inr checks"
  shows "map checkId checks = [1..<19] \<and> map nominalWeight checks = CHECK_WEIGHTS
    \<and> (\<forall>c \<in> set checks. fair c)"
  using evaluated_checks [OF assms] fair_checks [OF assms] by blast

text \<open>A site of which nothing but its robots.txt was asked for, and that has none.\<close>

definition nothingFetched :: FetchArtifact where
  "nothingFetched =
     \<lparr>fetchUrl = [], fetchStatus = 404, fetchHeaders = [], fetchBody = [], decodedBytes = 0,
      truncated = False, durationMs = 5, ttfbMs = 5, fetchError = None\<rparr>"

definition bareSite :: ScanArtifacts where
  "bareSite =
     \<lparr>scanSegment = Owner, canonicalTargetUrl = u ''https://a.example/'', robotsFetch = nothingFetched,
      baseFetch = None, representativeFetch = None, markdownFetch = None, chatgptProbe = None,
      claudeProbe = None, sitemapFetches = [nothingFetched], llmsFetch = None, mcpFetches = [],
      ucpFetch = None, oauthFetches = [], a2aFetch = None, noncanonicalA2aHint = False\<rparr>"

definition samplePlatform :: Platform where
  "samplePlatform =
     \<lparr>nowMs = 0, dateParse = (\<lambda>_. None), pathnameOf = (\<lambda>_. Some (u ''/'')), numberText = (\<lambda>_. [])\<rparr>"

lemma bare_evaluation: "\<exists>checks. evaluateChecks samplePlatform bareSite = Inr checks"
  by (simp add: evaluateChecks_def samplePlatform_def Let_def)

theorem checks_are_complete_and_fair_witness:
  "\<exists>checks. evaluateChecks samplePlatform bareSite = Inr checks \<and> map checkId checks = [1..<19]"
  using bare_evaluation checks_are_complete_and_fair by blast

section \<open>The score needs no clamp\<close>

lemma fair_bounds:
  assumes "fair c"
  shows "0 \<le> earnedWeight c"
    "earnedWeight c \<le> (if checkStatus c \<in> set ASSESSED then applicableWeight c else 0)"
    "(if checkStatus c \<in> set ASSESSED then applicableWeight c else 0) \<le> applicableWeight c"
    "applicableWeight c \<le> nominalWeight c"
  using assms by (cases "checkStatus c"; simp add: fair_def ASSESSED_def)+

lemma sum_list_le:
  "(\<And>c. c \<in> set cs \<Longrightarrow> f c \<le> g c) \<Longrightarrow> sum_list (map f cs) \<le> (sum_list (map g cs) :: int)"
  by (rule sum_list_mono)

lemma mathRound_mono: "x \<le> y \<Longrightarrow> mathRound x \<le> mathRound y"
  by (simp add: mathRound_def floor_mono)

lemma mathRound_of_int [simp]: "mathRound (of_int n) = n"
  by (simp add: mathRound_def floor_eq_iff)

lemma rubric: "assertRubric = Inr ()"
  by (simp add: assertRubric_def weights)

text \<open>The totals of an evaluation are nested, earned within assessed within applicable within
  the hundred points of the rubric, so the coverage is a fraction of one and the share of the
  points earned a percentage: the bounds the score is clamped to are never reached past. A scan
  fails, without a score, exactly below three tenths of coverage, and is complete exactly when
  everything that applies was assessed.\<close>

theorem score_is_a_percentage:
  assumes "evaluateScan p a = Inr e"
  defines "s \<equiv> scanResult e"
  shows "0 \<le> scoreEarned s \<and> scoreEarned s \<le> scoreAssessed s
    \<and> scoreAssessed s \<le> scoreApplicable s \<and> scoreApplicable s \<le> 100 \<and> scoreNominal s = 100
    \<and> 0 \<le> scanCoverage s \<and> scanCoverage s \<le> 1
    \<and> scanScore s =
        (if scanCoverage s < 3 / 10 then None
         else Some (mathRound (of_int (100 * scoreEarned s) / of_int (scoreAssessed s))))
    \<and> (\<forall>n. scanScore s = Some n \<longrightarrow> 0 \<le> n \<and> n \<le> 100)
    \<and> (terminalStatus s = ScanFailed \<longleftrightarrow> scanScore s = None)
    \<and> (terminalStatus s = ScanCompleted \<longleftrightarrow>
         scoreApplicable s \<noteq> 0 \<and> scoreAssessed s = scoreApplicable s)"
proof -
  obtain checks where checks: "evaluateChecks p a = Inr checks" and score: "scoreChecks checks = Inr s"
    using assms by (auto simp: evaluateScan_def split: sum.splits)
  define E where "E = sum_list (map earnedWeight checks)"
  define A where "A = sum_list (map (\<lambda>c. if checkStatus c \<in> set ASSESSED then applicableWeight c
      else 0) checks)"
  define P where "P = sum_list (map applicableWeight checks)"
  note fair = fair_checks [OF checks]
  have nominal: "sum_list (map nominalWeight checks) = 100"
    using evaluated_checks(2) [OF checks] by (simp add: weights)
  have "0 \<le> E" unfolding E_def using fair_bounds(1) fair by (intro sum_list_nonneg) auto
  moreover have "E \<le> A" unfolding E_def A_def by (intro sum_list_le fair_bounds(2) fair)
  moreover have "A \<le> P" unfolding A_def P_def by (intro sum_list_le fair_bounds(3) fair)
  moreover have "P \<le> 100"
    unfolding P_def nominal [symmetric] by (intro sum_list_le fair_bounds(4) fair)
  ultimately have chain: "0 \<le> E" "E \<le> A" "A \<le> P" "P \<le> 100" .
  let ?coverage = "if P = 0 then 0 else of_int A / of_int P :: rat"
  let ?share = "mathRound (of_int (100 * E) / of_int A)"
  note record_is = score [unfolded scoreChecks_def rubric sum.case Let_def, folded E_def A_def P_def,
      THEN sum.inject(2) [THEN iffD1]]
  have fields: "scoreEarned s = E" "scoreAssessed s = A" "scoreApplicable s = P" "scoreNominal s = 100"
    "scanCoverage s = ?coverage"
    "scanScore s = (if ?coverage < 3 / 10 then None
       else Some (max 0 (min 100 (if A = 0 then 0 else ?share))))"
    "terminalStatus s = (if ?coverage < 3 / 10 then ScanFailed
       else if ?coverage < 1 then ScanPartial else ScanCompleted)"
    unfolding record_is [symmetric] by (simp_all add: weights)
  have coverage: "0 \<le> ?coverage" "?coverage \<le> 1" "?coverage < 1 \<longleftrightarrow> \<not> (P \<noteq> 0 \<and> A = P)"
    using chain by (auto simp: field_simps)
  have share: "0 \<le> ?share \<and> ?share \<le> 100" if "A \<noteq> 0"
  proof -
    have "0 < A" using that chain by simp
    then have "0 \<le> (of_int (100 * E) / of_int A :: rat)" "(of_int (100 * E) / of_int A :: rat) \<le> of_int 100"
      using chain(1,2) by (auto simp: field_simps)
    then show ?thesis using mathRound_mono mathRound_of_int [of 0] mathRound_of_int [of 100]
      by (metis of_int_0)
  qed
  have assessed: "\<not> ?coverage < 3 / 10 \<Longrightarrow> A \<noteq> 0" by (auto split: if_splits)
  show ?thesis
    unfolding fields using chain coverage share assessed by (auto split: if_splits)
qed

theorem score_is_a_percentage_witness:
  "\<exists>e. evaluateScan samplePlatform bareSite = Inr e \<and> scoreApplicable (scanResult e) \<le> 100"
proof -
  obtain checks where checks: "evaluateChecks samplePlatform bareSite = Inr checks"
    using bare_evaluation by blast
  obtain e where e: "evaluateScan samplePlatform bareSite = Inr e"
    by (simp add: evaluateScan_def checks scoreChecks_def rubric Let_def)
  then show ?thesis using score_is_a_percentage [OF e] by blast
qed

section \<open>A site that does not want to be read\<close>

text \<open>What the scanner holds of the pages of a site, put in place of another's.\<close>

definition withPages :: "ScanArtifacts \<Rightarrow> ScanArtifacts \<Rightarrow> ScanArtifacts" where
  "withPages a b =
     a\<lparr>baseFetch := baseFetch b, representativeFetch := representativeFetch b,
       markdownFetch := markdownFetch b, chatgptProbe := chatgptProbe b,
       claudeProbe := claudeProbe b\<rparr>"

definition PAGE_CHECKS :: "nat list" where
  "PAGE_CHECKS = [5, 6, 7, 12, 13, 14, 18]"

lemma pages_unread:
  "jsonLdChecks (withoutPages a) =
     [result ((says 5 CheckUnavailable 0 ''jsonld_unavailable'' ''structured_data_not_assessed'')
        \<lparr>inError := Some (u ''base_unavailable'')\<rparr>),
      result ((says 6 CheckUnavailable 0 ''vertical_jsonld_unavailable''
        ''structured_data_not_assessed'') \<lparr>inError := Some (u ''base_unavailable'')\<rparr>)]"
  by (simp add: jsonLdChecks_def readablePages_def withoutPages_def noPageError_def errorOf_def
      errorOr_def)

lemma page_checks_unavailable:
  "checkStatus (markdownCheck (withoutPages a)) = CheckUnavailable"
  "checkStatus (ssrCheck (withoutPages a)) = CheckUnavailable"
  "checkStatus (agentUaCheck (withoutPages a)) = CheckUnavailable"
  "checkStatus (performanceCheck (withoutPages a)) = CheckUnavailable"
  "checkStatus (hreflangCheck (withoutPages a)) = CheckUnavailable"
  by (simp_all add: markdownCheck_def ssrCheck_def agentUaCheck_def performanceCheck_def
      hreflangCheck_def withoutPages_def usable_def result_def says_def Let_def)

lemma fairAt_id: "fairAt i c \<Longrightarrow> checkId c = i"
  by (simp add: fairAt_def)

lemmas check_ids =
  robotsCheck_fair [THEN fairAt_id] policyCheck_fair [THEN fairAt_id] signalCheck_fair [THEN fairAt_id]
  sitemapCheck_fair [THEN fairAt_id] markdownCheck_fair [THEN fairAt_id] llmsCheck_fair [THEN fairAt_id]
  mcpCheck_fair [THEN fairAt_id] ucpCheck_fair [THEN fairAt_id] oauthCheck_fair [THEN fairAt_id]
  ssrCheck_fair [THEN fairAt_id] agentUaCheck_fair [THEN fairAt_id]
  performanceCheck_fair [THEN fairAt_id] feedCheck_fair [THEN fairAt_id]
  fingerprintCheck_fair [THEN fairAt_id] a2aCheck_fair [THEN fairAt_id] hreflangCheck_fair [THEN fairAt_id]

lemma withoutPages_withPages: "withoutPages (withPages a b) = withoutPages a"
  by (simp add: withoutPages_def withPages_def)

lemma withPages_fields:
  "scanSegment (withPages a b) = scanSegment a" "robotsFetch (withPages a b) = robotsFetch a"
  "sitemapFetches (withPages a b) = sitemapFetches a" "llmsFetch (withPages a b) = llmsFetch a"
  "mcpFetches (withPages a b) = mcpFetches a" "ucpFetch (withPages a b) = ucpFetch a"
  "a2aFetch (withPages a b) = a2aFetch a"
  "noncanonicalA2aHint (withPages a b) = noncanonicalA2aHint a"
  "canonicalTargetUrl (withPages a b) = canonicalTargetUrl a"
  by (simp_all add: withPages_def)

text \<open>When robots.txt does not let the scanner read the page, nothing of the pages is judged:
  the checks that read them are unavailable and earn nothing, and whatever had been fetched of
  them, every check comes out the same, but for the OAuth check, which still looks at the
  authentication header of the base page.\<close>

theorem disallowed_pages_are_not_judged:
  assumes "pathnameOf p (canonicalTargetUrl a) = Some path"
    and "\<not> targetContentAllowed a (if path = [] then u ''/'' else path)"
    and "evaluateChecks p a = Inr checks" and "evaluateChecks p (withPages a b) = Inr checks'"
  shows "(\<forall>c \<in> set checks. checkId c \<in> set PAGE_CHECKS \<longrightarrow>
            checkStatus c = CheckUnavailable \<and> earnedWeight c = 0)
    \<and> filter (\<lambda>c. checkId c \<noteq> 11) checks = filter (\<lambda>c. checkId c \<noteq> 11) checks'"
proof -
  let ?e = "withoutPages a"
  have checks: "checks = checkList p a ?e" using assms(1-3) by (simp add: evaluateChecks_list)
  have robots: "targetContentAllowed (withPages a b) = targetContentAllowed a"
    by (simp add: targetContentAllowed_def withPages_fields fun_eq_iff)
  have others: "checks' = checkList p (withPages a b) ?e"
    using assms(1,2,4) by (simp add: evaluateChecks_list robots withPages_fields withoutPages_withPages)
  have same: "robotsChecks (withPages a b) = robotsChecks a"
    "sitemapCheck p (withPages a b) = sitemapCheck p a"
    "llmsFetch (withPages a b) = llmsFetch a" "mcpCheck (withPages a b) = mcpCheck a"
    "ucpCheck (withPages a b) = ucpCheck a" "a2aCheck (withPages a b) = a2aCheck a"
    by (simp_all only: robotsChecks_def sitemapCheck_def mcpCheck_def ucpCheck_def a2aCheck_def
        withPages_fields)
  have "filter (\<lambda>c. checkId c \<noteq> 11) checks = filter (\<lambda>c. checkId c \<noteq> 11) checks'"
    by (simp add: checks others checkList_def same check_ids)
  moreover have "checkStatus c = CheckUnavailable \<and> earnedWeight c = 0"
    if "c \<in> set checks" "checkId c \<in> set PAGE_CHECKS" for c
  proof -
    have "list_all (\<lambda>c. checkId c \<in> set PAGE_CHECKS \<longrightarrow> checkStatus c = CheckUnavailable)
        (checkList p a ?e)"
      by (simp add: checkList_def robotsChecks_def Let_def pages_unread page_checks_unavailable
          check_ids PAGE_CHECKS_def) (simp add: result_def says_def)
    then have "checkStatus c = CheckUnavailable"
      using that unfolding checks list_all_iff by blast
    with fair_checks [OF assms(3) that(1)] show ?thesis by (simp add: fair_def)
  qed
  ultimately show ?thesis by blast
qed

definition closedSite :: ScanArtifacts where
  "closedSite = bareSite\<lparr>robotsFetch := nothingFetched\<lparr>fetchStatus := 200,
     fetchBody := u ''User-agent: *'' @ [10] @ u ''Disallow: /'' \<rparr>\<rparr>"

theorem disallowed_pages_are_not_judged_witness:
  "\<exists>checks. evaluateChecks samplePlatform closedSite = Inr checks
     \<and> (\<forall>c \<in> set checks. checkId c \<in> set PAGE_CHECKS \<longrightarrow> checkStatus c = CheckUnavailable)"
proof -
  let ?b = "closedSite\<lparr>baseFetch := Some nothingFetched\<rparr>"
  have path: "pathnameOf samplePlatform (canonicalTargetUrl closedSite) = Some (u ''/'')"
    by (simp add: samplePlatform_def)
  have closed: "\<not> targetContentAllowed closedSite (if u ''/'' = [] then u ''/'' else u ''/'')"
    by code_simp
  obtain checks checks' where "evaluateChecks samplePlatform closedSite = Inr checks"
    "evaluateChecks samplePlatform (withPages closedSite ?b) = Inr checks'"
    by (simp add: evaluateChecks_list samplePlatform_def)
  with disallowed_pages_are_not_judged [OF path closed] show ?thesis by blast
qed

end
