(* ===== verification/Scanner_Runner.thy ===== *)
theory Scanner_Runner
  imports Scanner_Fetch Scanner_Scoring
begin

text \<open>
  One scan, \<^verbatim>\<open>apps/scanner-worker/src/scan-runner.ts\<close>: what is fetched and under which rule,
  what is reported as it goes, and the evaluation at the end. A scan is a function on the
  world it leaves behind: the calls it made of the fetcher and the checks it reported. What a
  call comes back with, whether the deadline has passed by then and what the reporting
  callback does are the environment's, told apart by the number of the attempt. Fetches the
  code starts together are made here one after another, each to its end, and an error is
  thrown once all of them have run: no call the code makes is lost.
\<close>

section \<open>A scan as a function of its world\<close>

datatype ScanMetric =
    ScanDuration int
  | ScanRequests nat
  | ScanCoverageMetric rat
  | FetchErrorMetric jstext

record RunWorld =
  attempts :: nat
  callsMade :: "(FetchInput \<times> SafeFetchOptions) list"
  reported :: "CheckResult list list"
  metricsOut :: "ScanMetric list"

definition startOfRun :: RunWorld where
  "startOfRun = \<lparr>attempts = 0, callsMade = [], reported = [], metricsOut = []\<rparr>"

type_synonym 'a scan = "RunWorld \<Rightarrow> (string + 'a) \<times> RunWorld"

definition gives :: "'a \<Rightarrow> 'a scan" where "gives x w = (Inr x, w)"

definition fails :: "string \<Rightarrow> 'a scan" where "fails thrown w = (Inl thrown, w)"

definition thenDo :: "'a scan \<Rightarrow> ('a \<Rightarrow> 'b scan) \<Rightarrow> 'b scan" where
  "thenDo f g w = (case f w of (Inl thrown, w') \<Rightarrow> (Inl thrown, w') | (Inr x, w') \<Rightarrow> g x w')"

text \<open>\<open>Promise.all\<close>: every one runs, then the first error is thrown.\<close>

fun allOf :: "'a scan list \<Rightarrow> 'a list scan" where
  "allOf [] w = (Inr [], w)"
| "allOf (f # fs) w =
     (case f w of
        (came, w') \<Rightarrow>
          (case allOf fs w' of
             (rest, w'') \<Rightarrow>
               (case came of
                  Inl thrown \<Rightarrow> (Inl thrown, w'')
                | Inr x \<Rightarrow>
                    (case rest of Inl thrown \<Rightarrow> (Inl thrown, w'') | Inr xs \<Rightarrow> (Inr (x # xs), w'')))))"

definition metric :: "ScanMetric \<Rightarrow> unit scan" where
  "metric m w = (Inr (), w\<lparr>metricsOut := metricsOut w @ [m]\<rparr>)"

section \<open>The job and what it depends on\<close>

record ScanJob =
  jobTarget :: jstext
  submittedWithoutScheme :: bool
  jobSegment :: Segment
  jobDeadline :: jstext

text \<open>
  \<open>registrable\<close> is \<open>getDomain\<close> of the package \<open>tldts\<close>. \<open>replies\<close> is what a fetch over the
  budget of the run comes back with, \<open>requestsUsed\<close> how much of the budget is gone at the end.
\<close>

record ScanEnv =
  runUrls :: UrlPlatform
  runPlatform :: Platform
  registrable :: "jstext \<Rightarrow> jstext option"
  appBaseUrl :: jstext
  replies :: "nat \<Rightarrow> FetchInput \<Rightarrow> SafeFetchOptions \<Rightarrow> string + FetchArtifact"
  pastDeadline :: "nat \<Rightarrow> bool"
  onChecksComplete :: "(nat \<Rightarrow> string + unit) option"
  runStart :: int
  runEnd :: int
  requestsUsed :: nat

text \<open>The fetcher of a run: its budget, its slots and its name.\<close>

definition runFetching :: "ScanEnv \<Rightarrow> FetchConfig" where
  "runFetching env =
     \<lparr>fetchPlatform = runUrls env,
      defaultUserAgent =
        u ''agentify-scanner/1.0 (+'' @ replaceFirst (Seq (lit ''/'') AtEnd) [] (appBaseUrl env) @ u ''/scanner)'',
      maximumRequests = 18, perOriginConcurrency = 2\<rparr>"

section \<open>Addresses of a site\<close>

text \<open>
  \<open>new URL(path, target.origin)\<close> for the paths the code names, which are absolute and plain.
\<close>

definition discoveryUrl :: "Url \<Rightarrow> string \<Rightarrow> Url" where
  "discoveryUrl target path =
     target\<lparr>urlUsername := [], urlPassword := [], pathname := u path, searchParams := [], urlHash := []\<rparr>"

definition robotsUrl :: "Url \<Rightarrow> Url" where
  "robotsUrl target = discoveryUrl target ''/robots.txt''"

definition hostOf :: "Url \<Rightarrow> jstext" where
  "hostOf url = (if urlPort url = [] then hostname url else hostname url @ u '':'' @ urlPort url)"

definition registrableDomain :: "ScanEnv \<Rightarrow> Url \<Rightarrow> jstext option" where
  "registrableDomain env url = registrable env (hostname url)"

definition isSameSite :: "ScanEnv \<Rightarrow> Url \<Rightarrow> Url \<Rightarrow> bool" where
  "isSameSite env left right =
     (hostname left = hostname right
      \<or> registrableDomain env left \<noteq> None \<and> registrableDomain env left = registrableDomain env right)"

text \<open>The setters of a \<open>URL\<close> of a web scheme drop a port that is the scheme's own.\<close>

definition withOrigin :: "Url \<Rightarrow> Url \<Rightarrow> Url" where
  "withOrigin target url = url\<lparr>protocol := protocol target, urlPort := urlPort target\<rparr>"

definition canonicalSameSiteUrl :: "ScanEnv \<Rightarrow> jstext \<Rightarrow> Url \<Rightarrow> bool \<Rightarrow> Url option" where
  "canonicalSameSiteUrl env written target useFallbackOrigin =
     (case canonicalizeTarget (runUrls env) written of
        Inl _ \<Rightarrow> None
      | Inr candidate \<Rightarrow>
          if \<not> isSameSite env candidate target then None
          else if useFallbackOrigin \<and> hostname candidate = hostname target then
            Some (withOrigin target candidate)
          else Some candidate)"

definition productPath :: rx where
  "productPath =
     Alt (seqs [alts [AtStart, lit ''/''],
                alts [Seq (litI ''product'') (opt (litI ''s'')), litI ''shop'', Seq (litI ''item'') (opt (litI ''s'')),
                      litI ''sku''],
                alts [lit ''/'', AtEnd]])
         (litI ''/p/'')"

fun takeCandidates ::
  "ScanEnv \<Rightarrow> Url \<Rightarrow> bool \<Rightarrow> jstext list \<Rightarrow> jstext list \<Rightarrow> Url list \<Rightarrow> Url list" where
  "takeCandidates env target useFallbackOrigin [] seen found = found"
| "takeCandidates env target useFallbackOrigin (written # more') seen found =
     (case canonicalSameSiteUrl env written target useFallbackOrigin of
        None \<Rightarrow> takeCandidates env target useFallbackOrigin more' seen found
      | Some candidate \<Rightarrow>
          if \<not> test productPath (pathname candidate) \<or> urlToString (runUrls env) candidate \<in> set seen then
            takeCandidates env target useFallbackOrigin more' seen found
          else if length (found @ [candidate]) = 2 then found @ [candidate]
          else
            takeCandidates env target useFallbackOrigin more'
              (urlToString (runUrls env) candidate # seen) (found @ [candidate]))"

definition productCandidates :: "ScanEnv \<Rightarrow> Url \<Rightarrow> FetchArtifact list \<Rightarrow> bool \<Rightarrow> Url list" where
  "productCandidates env target sitemaps useFallbackOrigin =
     takeCandidates env target useFallbackOrigin
       (concat (map (\<lambda>artifact.
          let parsed' = parseSitemap (fetchBody artifact) in
          if sitemapValid parsed' \<and> \<not> isIndex parsed' then sitemapUrls parsed' else []) sitemaps))
       [] []"

definition authDeclared :: "ScanEnv \<Rightarrow> ScanArtifacts \<Rightarrow> bool" where
  "authDeclared env a =
     list_ex (\<lambda>artifact.
       case parseSafeJson MAX_JSON_BYTES (fetchBody artifact) of
         None \<Rightarrow> False
       | Some parsed' \<Rightarrow>
           test (alts (map litI [''oauth'', ''bearer'', ''authorization'']))
             (jsonStringify (numberText (runPlatform env)) parsed'))
       (mcpFetches a @ (case ucpFetch a of None \<Rightarrow> [] | Some f \<Rightarrow> [f]))"

definition unavailableArtifact :: "ScanEnv \<Rightarrow> Url \<Rightarrow> string \<Rightarrow> FetchArtifact" where
  "unavailableArtifact env url code =
     \<lparr>fetchUrl = urlToString (runUrls env) url, fetchStatus = 0, fetchHeaders = [], fetchBody = [],
      decodedBytes = 0, truncated = False, durationMs = 0, ttfbMs = 0, fetchError = Some (u code)\<rparr>"

definition skeletonArtifacts :: "ScanEnv \<Rightarrow> ScanJob \<Rightarrow> Url \<Rightarrow> FetchArtifact \<Rightarrow> ScanArtifacts" where
  "skeletonArtifacts env job target robots =
     \<lparr>scanSegment = jobSegment job, canonicalTargetUrl = urlToString (runUrls env) target,
      robotsFetch = robots, baseFetch = None, representativeFetch = None, markdownFetch = None,
      chatgptProbe = None, claudeProbe = None, sitemapFetches = [], llmsFetch = None, mcpFetches = [],
      ucpFetch = None, oauthFetches = [], a2aFetch = None, noncanonicalA2aHint = False\<rparr>"

section \<open>Fetching within a run\<close>

definition askWith :: "jstext option \<Rightarrow> jstext option \<Rightarrow> int \<Rightarrow> SafeFetchOptions" where
  "askWith accept agent most =
     \<lparr>askedMethod = None, askedAccept = accept, askedUserAgent = agent, askedBodyLimit = Some most,
      askedTimeoutMs = None\<rparr>"

definition runFetch :: "ScanEnv \<Rightarrow> FetchInput \<Rightarrow> SafeFetchOptions \<Rightarrow> FetchArtifact scan" where
  "runFetch env input options w =
     (case canonicalizeTarget (runUrls env) (inputText (runUrls env) input) of
        Inl code \<Rightarrow> (Inl code, w)
      | Inr canonical \<Rightarrow>
          (let n = attempts w; w' = w\<lparr>attempts := n + 1\<rparr> in
           if pastDeadline env n then (Inr (unavailableArtifact env canonical ''global_deadline''), w')
           else
             (let w'' = w'\<lparr>callsMade := callsMade w' @ [(input, options)]\<rparr> in
              case (case replies env n input options of
                      Inl thrown \<Rightarrow>
                        if thrown = ''AbortError'' then
                          Inr (unavailableArtifact env canonical ''global_deadline'')
                        else if thrown = ''request_budget_exhausted'' then
                          Inr (unavailableArtifact env canonical ''request_budget_exhausted'')
                        else Inl thrown
                    | Inr artifact \<Rightarrow> Inr artifact) of
                Inl thrown \<Rightarrow> (Inl thrown, w'')
              | Inr artifact \<Rightarrow>
                  (Inr artifact,
                   if hasError artifact then
                     w''\<lparr>metricsOut := metricsOut w'' @ [FetchErrorMetric (the (fetchError artifact))]\<rparr>
                   else w''))))"

text \<open>
  \<open>emitChecks\<close>: the checks named that were not reported yet go out as one batch; an answer of
  the callback that is an error ends the run.
\<close>

definition emitChecks :: "ScanEnv \<Rightarrow> ScanArtifacts \<Rightarrow> nat list \<Rightarrow> unit scan" where
  "emitChecks env a ids w =
     (case onChecksComplete env of
        None \<Rightarrow> (Inr (), w)
      | Some handler \<Rightarrow>
          (case evaluateChecks (runPlatform env) a of
             Inl thrown \<Rightarrow> (Inl thrown, w)
           | Inr checks \<Rightarrow>
               (let batch = filter (\<lambda>c. checkId c \<in> set ids
                                      \<and> checkId c \<notin> set (map checkId (concat (reported w)))) checks
                in if batch = [] then (Inr (), w)
                   else
                     (case handler (length (reported w)) of
                        Inl thrown \<Rightarrow> (Inl thrown, w)
                      | Inr _ \<Rightarrow> (Inr (), w\<lparr>reported := reported w @ [batch]\<rparr>)))))"

section \<open>What the robots.txt of the site lets be fetched\<close>

text \<open>What the rest of a run reads of its start.\<close>

record ScanContext =
  ctxJob :: ScanJob
  ctxTarget :: Url
  ctxRobots :: FetchArtifact
  ctxFallback :: bool

definition robotsDecisionKnown :: "FetchArtifact \<Rightarrow> bool" where
  "robotsDecisionKnown robots =
     (\<not> hasError robots
      \<and> (fetchStatus robots \<in> {404, 410}
         \<or> fetchStatus robots = 200 \<and> \<not> robotFatal (parseRobots (fetchBody robots))))"

definition robotsAllows :: "FetchArtifact \<Rightarrow> Url \<Rightarrow> bool" where
  "robotsAllows robots url =
     (fetchStatus robots = 404 \<or> fetchStatus robots = 410
      \<or> fetchStatus robots = 200 \<and> \<not> hasError robots \<and> \<not> robotFatal (parseRobots (fetchBody robots))
         \<and> isPathAllowed (parseRobots (fetchBody robots)) AGENT
             (if pathname url = [] then u ''/'' else pathname url))"

definition blockedCode :: "FetchArtifact \<Rightarrow> string" where
  "blockedCode robots = (if robotsDecisionKnown robots then ''robots_disallowed'' else ''robots_unavailable'')"

definition fetchIfRobotsAllowed ::
  "ScanEnv \<Rightarrow> FetchArtifact \<Rightarrow> Url \<Rightarrow> SafeFetchOptions \<Rightarrow> FetchArtifact scan" where
  "fetchIfRobotsAllowed env robots url options =
     (if robotsAllows robots url then runFetch env (FetchUrl url) options
      else gives (unavailableArtifact env url (blockedCode robots)))"

definition fetchExplicitDiscovery ::
  "ScanEnv \<Rightarrow> FetchArtifact \<Rightarrow> Url \<Rightarrow> SafeFetchOptions \<Rightarrow> FetchArtifact scan" where
  "fetchExplicitDiscovery env robots url options =
     (if robotsDecisionKnown robots then runFetch env (FetchUrl url) options
      else gives (unavailableArtifact env url ''robots_unavailable''))"

definition sitemapTargets :: "ScanEnv \<Rightarrow> ScanContext \<Rightarrow> Url list" where
  "sitemapTargets env ctx =
     (let declared =
            take 3 (concat (map (\<lambda>written.
              case canonicalSameSiteUrl env written (ctxTarget ctx) (ctxFallback ctx) of
                None \<Rightarrow> [] | Some url \<Rightarrow> [url]) (robotSitemaps (parseRobots (fetchBody (ctxRobots ctx))))))
      in if declared \<noteq> [] then declared else [discoveryUrl (ctxTarget ctx) ''/sitemap.xml''])"

section \<open>The parts of a run that go together\<close>

definition JSON_ASK :: SafeFetchOptions where
  "JSON_ASK = askWith (Some (u ''application/json,*/*;q=0.1'')) None (1024 * 1024)"

definition fetchContent :: "ScanEnv \<Rightarrow> ScanContext \<Rightarrow> FetchArtifact list scan" where
  "fetchContent env ctx =
     (let target = FetchUrl (ctxTarget ctx); most = 2 * 1024 * 1024 in
      if robotsAllows (ctxRobots ctx) (ctxTarget ctx) then
        allOf
          [runFetch env target (askWith None None most),
           runFetch env target (askWith (Some (u ''text/markdown'')) None most),
           runFetch env target (askWith None (Some (u ''ChatGPT-User/1.0'')) most),
           runFetch env target (askWith None (Some (u ''Claude-User'')) most)]
      else gives [])"

text \<open>The sitemaps a sitemap index names, where they were not seen yet.\<close>

definition childSitemaps :: "ScanEnv \<Rightarrow> ScanContext \<Rightarrow> jstext list \<Rightarrow> FetchArtifact \<Rightarrow> Url list" where
  "childSitemaps env ctx seen artifact =
     (if hasError artifact \<or> fetchStatus artifact < 200 \<or> 300 \<le> fetchStatus artifact then []
      else
        (let parsed' = parseSitemap (fetchBody artifact) in
         if \<not> sitemapValid parsed' \<or> \<not> isIndex parsed' then []
         else
           concat (map (\<lambda>written.
             case canonicalSameSiteUrl env written (ctxTarget ctx) (ctxFallback ctx) of
               None \<Rightarrow> []
             | Some url \<Rightarrow> if urlToString (runUrls env) url \<in> set seen then [] else [url])
             (sitemapUrls parsed'))))"

function (sequential) fetchSitemaps ::
  "ScanEnv \<Rightarrow> ScanContext \<Rightarrow> Url list \<Rightarrow> jstext list \<Rightarrow> FetchArtifact list \<Rightarrow> FetchArtifact list scan" where
  "fetchSitemaps env ctx [] seen got w = (Inr got, w)"
| "fetchSitemaps env ctx (url # pending) seen got w =
     (if 3 \<le> length got then (Inr got, w)
      else if urlToString (runUrls env) url \<in> set seen then fetchSitemaps env ctx pending seen got w
      else
        (case fetchIfRobotsAllowed env (ctxRobots ctx) url
                (askWith (Some (u ''application/xml,text/xml,*/*;q=0.1'')) None (5 * 1024 * 1024)) w of
           (Inl thrown, w') \<Rightarrow> (Inl thrown, w')
         | (Inr artifact, w') \<Rightarrow>
             (let seen' = urlToString (runUrls env) url # seen in
              fetchSitemaps env ctx (childSitemaps env ctx seen' artifact @ pending) seen'
                (got @ [artifact]) w')))"
  by pat_completeness auto
termination
  by (relation "measures [\<lambda>(env, ctx, pending, seen, got, w). 3 - length got,
                          \<lambda>(env, ctx, pending, seen, got, w). length pending]") auto

definition sitemapPart :: "ScanEnv \<Rightarrow> ScanContext \<Rightarrow> FetchArtifact list scan" where
  "sitemapPart env ctx =
     (if robotsAllows (ctxRobots ctx) (ctxTarget ctx) then
        fetchSitemaps env ctx (sitemapTargets env ctx) [] []
      else
        gives (map (\<lambda>url. unavailableArtifact env url ''robots_disallowed'') (sitemapTargets env ctx)))"

definition llmsPart :: "ScanEnv \<Rightarrow> ScanContext \<Rightarrow> FetchArtifact scan" where
  "llmsPart env ctx =
     (let llmsUrl = discoveryUrl (ctxTarget ctx) ''/llms.txt'' in
      if robotsAllows (ctxRobots ctx) (ctxTarget ctx) then
        fetchIfRobotsAllowed env (ctxRobots ctx) llmsUrl
          (askWith (Some (u ''text/plain,text/markdown,*/*;q=0.1'')) None (512 * 1024))
      else gives (unavailableArtifact env llmsUrl ''robots_disallowed''))"

definition discover :: "ScanEnv \<Rightarrow> ScanContext \<Rightarrow> string \<Rightarrow> FetchArtifact scan" where
  "discover env ctx path =
     fetchExplicitDiscovery env (ctxRobots ctx) (discoveryUrl (ctxTarget ctx) path) JSON_ASK"

definition wellKnownPart :: "ScanEnv \<Rightarrow> ScanContext \<Rightarrow> FetchArtifact list scan" where
  "wellKnownPart env ctx =
     allOf (map (discover env ctx)
       ([''/.well-known/mcp.json'', ''/.well-known/mcp/server-card.json'']
        @ (if jobSegment (ctxJob ctx) = Store then [''/.well-known/ucp''] else [])
        @ [''/.well-known/agent-card.json'']))"

definition oauthPart :: "ScanEnv \<Rightarrow> ScanContext \<Rightarrow> ScanArtifacts \<Rightarrow> FetchArtifact list scan" where
  "oauthPart env ctx phase =
     (if authDeclared env phase then
        allOf (map (discover env ctx)
          [''/.well-known/oauth-authorization-server'', ''/.well-known/oauth-protected-resource''])
      else gives [])"

text \<open>\<open>findIndex\<close>, with None for -1.\<close>

fun findIndex :: "('a \<Rightarrow> bool) \<Rightarrow> 'a list \<Rightarrow> nat option" where
  "findIndex P [] = None"
| "findIndex P (x # xs) = (if P x then Some 0 else map_option Suc (findIndex P xs))"

definition chosenHead :: "FetchArtifact list \<Rightarrow> nat option" where
  "chosenHead heads =
     (case findIndex (\<lambda>head. 200 \<le> fetchStatus head \<and> fetchStatus head < 400) heads of
        None \<Rightarrow> findIndex (\<lambda>head. fetchStatus head \<in> {405, 501}) heads
      | Some i \<Rightarrow> Some i)"

definition headAsk :: SafeFetchOptions where
  "headAsk = (askWith (Some (u ''text/html,*/*;q=0.1'')) None 0)\<lparr>askedMethod := Some ''HEAD''\<rparr>"

definition representativePart ::
  "ScanEnv \<Rightarrow> ScanContext \<Rightarrow> FetchArtifact list \<Rightarrow> FetchArtifact option scan" where
  "representativePart env ctx sitemaps =
     (if jobSegment (ctxJob ctx) = Store \<and> robotsDecisionKnown (ctxRobots ctx)
         \<and> robotsAllows (ctxRobots ctx) (ctxTarget ctx) then
        (let candidates =
               filter (robotsAllows (ctxRobots ctx))
                 (productCandidates env (ctxTarget ctx) sitemaps (ctxFallback ctx))
         in thenDo (allOf (map (\<lambda>candidate. runFetch env (FetchUrl candidate) headAsk) candidates)) (\<lambda>heads.
            case chosenHead heads of
              None \<Rightarrow> gives None
            | Some i \<Rightarrow>
                thenDo (runFetch env (FetchUrl (candidates ! i)) (askWith None None (2 * 1024 * 1024)))
                  (\<lambda>page. gives (Some page))))
      else gives None)"

text \<open>Two parts that run together.\<close>

definition both :: "'a scan \<Rightarrow> 'b scan \<Rightarrow> ('a \<times> 'b) scan" where
  "both f g w =
     (case f w of
        (came, w') \<Rightarrow>
          (case g w' of
             (other, w'') \<Rightarrow>
               (case came of
                  Inl thrown \<Rightarrow> (Inl thrown, w'')
                | Inr x \<Rightarrow>
                    (case other of Inl thrown \<Rightarrow> (Inl thrown, w'') | Inr y \<Rightarrow> (Inr (x, y), w'')))))"

section \<open>The run\<close>

text \<open>The robots.txt first, and what follows of it for the rest of the run.\<close>

definition openRun :: "ScanEnv \<Rightarrow> ScanJob \<Rightarrow> Url \<Rightarrow> ScanContext scan" where
  "openRun env job target =
     thenDo
       (runFetch env
          (if submittedWithoutScheme job then FetchText (hostOf target @ u ''/robots.txt'')
           else FetchUrl (robotsUrl target))
          (askWith (Some (u ''text/plain,*/*;q=0.1'')) None (512 * 1024))) (\<lambda>robots.
     if submittedWithoutScheme job then
       (case parseUrl (runUrls env) (fetchUrl robots) of
          None \<Rightarrow> fails ''Invalid URL''
        | Some url \<Rightarrow>
            (let fallback = (protocol url = u ''http:'') in
             gives \<lparr>ctxJob = job, ctxTarget = (if fallback then withHttp target else target),
                    ctxRobots = robots, ctxFallback = fallback\<rparr>))
     else gives \<lparr>ctxJob = job, ctxTarget = target, ctxRobots = robots, ctxFallback = False\<rparr>)"

definition phaseArtifacts ::
  "ScanEnv \<Rightarrow> ScanContext \<Rightarrow> FetchArtifact list \<Rightarrow> FetchArtifact list \<Rightarrow> FetchArtifact \<Rightarrow> FetchArtifact list
   \<Rightarrow> ScanArtifacts" where
  "phaseArtifacts env ctx contentResults sitemap llms known =
     (let store = (jobSegment (ctxJob ctx) = Store);
          nth' = (\<lambda>xs i. if i < length xs then Some (xs ! i) else None)
      in (skeletonArtifacts env (ctxJob ctx) (ctxTarget ctx) (ctxRobots ctx))
         \<lparr>baseFetch := nth' contentResults 0, markdownFetch := nth' contentResults 1,
          chatgptProbe := nth' contentResults 2, claudeProbe := nth' contentResults 3,
          sitemapFetches := sitemap, llmsFetch := Some llms, mcpFetches := take 2 known,
          ucpFetch := (if store then nth' known 2 else None),
          a2aFetch := nth' known (if store then 3 else 2)\<rparr>)"

definition PHASE_CHECKS :: "nat list" where
  "PHASE_CHECKS = [4, 7, 8, 9, 10, 13, 14, 16, 17, 18]"

definition finishRun :: "ScanEnv \<Rightarrow> ScanArtifacts \<Rightarrow> (ScanEvaluation \<times> nat) scan" where
  "finishRun env artifacts =
     (case evaluateScan (runPlatform env) artifacts of
        Inl thrown \<Rightarrow> fails thrown
      | Inr evaluation \<Rightarrow>
          thenDo (emitChecks env artifacts (map checkId (scanChecks evaluation))) (\<lambda>_.
          thenDo (metric (ScanRequests (requestsUsed env))) (\<lambda>_.
          thenDo (metric (ScanCoverageMetric (scanCoverage (scanResult evaluation)))) (\<lambda>_.
          thenDo (metric (ScanDuration (runEnd env - runStart env))) (\<lambda>_.
          gives (evaluation, requestsUsed env))))))"

text \<open>
  The rest of \<open>run\<close> in the order of its waits: the first report and what is fetched together,
  the second report, what is fetched last, the evaluation and the last report.
\<close>

definition lastPart ::
  "ScanEnv \<Rightarrow> ScanContext \<Rightarrow> FetchArtifact list \<Rightarrow> ScanArtifacts \<Rightarrow> (ScanEvaluation \<times> nat) scan" where
  "lastPart env ctx sitemap phase =
     thenDo (both (oauthPart env ctx phase) (representativePart env ctx sitemap)) (\<lambda>(oauth, representative).
     finishRun env (phase\<lparr>oauthFetches := oauth, representativeFetch := representative\<rparr>))"

definition secondPart ::
  "ScanEnv \<Rightarrow> ScanContext \<Rightarrow> FetchArtifact list \<times> FetchArtifact list \<times> FetchArtifact \<times> FetchArtifact list
   \<Rightarrow> (ScanEvaluation \<times> nat) scan" where
  "secondPart env ctx fetched =
     (case fetched of
        (contentResults, sitemap, llms, known) \<Rightarrow>
          (let phase = phaseArtifacts env ctx contentResults sitemap llms known in
           thenDo (emitChecks env phase PHASE_CHECKS) (\<lambda>_. lastPart env ctx sitemap phase)))"

definition fetchedTogether ::
  "ScanEnv \<Rightarrow> ScanContext
   \<Rightarrow> (FetchArtifact list \<times> FetchArtifact list \<times> FetchArtifact \<times> FetchArtifact list) scan" where
  "fetchedTogether env ctx =
     both (fetchContent env ctx)
       (both (sitemapPart env ctx) (both (llmsPart env ctx) (wellKnownPart env ctx)))"

definition afterRobots :: "ScanEnv \<Rightarrow> ScanContext \<Rightarrow> (ScanEvaluation \<times> nat) scan" where
  "afterRobots env ctx =
     thenDo (emitChecks env (skeletonArtifacts env (ctxJob ctx) (ctxTarget ctx) (ctxRobots ctx)) [1, 2, 3])
       (\<lambda>_. thenDo (fetchedTogether env ctx) (secondPart env ctx))"

text \<open>The deadline: \<open>Math.min\<close> of a date that is not one is not a number either.\<close>

definition runScan :: "ScanEnv \<Rightarrow> ScanJob \<Rightarrow> (ScanEvaluation \<times> nat) scan" where
  "runScan env job =
     (case canonicalizeTarget (runUrls env) (jobTarget job) of
        Inl code \<Rightarrow> fails code
      | Inr target \<Rightarrow>
          if (case dateParse (runPlatform env) (jobDeadline job) of
                None \<Rightarrow> True
              | Some t \<Rightarrow> min t (runStart env + 55000) \<le> runStart env) then
            fails ''scan_deadline_expired''
          else thenDo (openRun env job target) (afterRobots env))"

end
