(* ===== verification/Scanner_Runner_Laws.thy ===== *)
theory Scanner_Runner_Laws
  imports Scanner_Runner "HOL-Library.Multiset"
begin

text \<open>
  What a scan promises: robots.txt is asked for first and decides everything that is fetched
  afterwards, the calls fit the budget, and what is reported as the scan goes is what its
  evaluation says at the end.
\<close>

section \<open>What a part of a run adds to the calls\<close>

definition adds :: "(FetchInput \<times> SafeFetchOptions \<Rightarrow> bool) \<Rightarrow> nat \<Rightarrow> 'a scan \<Rightarrow> bool" where
  "adds P n f \<longleftrightarrow>
     (\<forall>w. reported (snd (f w)) = reported w
        \<and> (\<exists>rest. callsMade (snd (f w)) = callsMade w @ rest \<and> length rest \<le> n \<and> list_all P rest))"

named_theorems call_rules

lemma adds_gives [call_rules]: "adds P n (gives x)" "adds P n (fails thrown)" "adds P n (metric m)"
  by (simp_all add: adds_def gives_def fails_def metric_def)

lemma adds_more: "adds P m f \<Longrightarrow> m \<le> n \<Longrightarrow> adds P n f"
  unfolding adds_def by (meson order_trans)

lemma adds_trans:
  assumes "reported v = reported w" "reported x = reported v"
    and "\<exists>rest. callsMade v = callsMade w @ rest \<and> length rest \<le> m \<and> list_all P rest"
    and "\<exists>rest. callsMade x = callsMade v @ rest \<and> length rest \<le> n \<and> list_all P rest"
  shows "reported x = reported w
    \<and> (\<exists>rest. callsMade x = callsMade w @ rest \<and> length rest \<le> m + n \<and> list_all P rest)"
proof -
  obtain xs ys where "callsMade v = callsMade w @ xs" "length xs \<le> m" "list_all P xs"
    "callsMade x = callsMade v @ ys" "length ys \<le> n" "list_all P ys"
    using assms(3,4) by blast
  then show ?thesis using assms(1,2) by (intro conjI exI [of _ "xs @ ys"]) simp_all
qed

lemma adds_thenDo [call_rules]:
  assumes "adds P m f" and "\<And>x w v. f w = (Inr x, v) \<Longrightarrow> adds P n (g x)"
  shows "adds P (m + n) (thenDo f g)"
  unfolding adds_def
proof
  fix w
  obtain came v where f: "f w = (came, v)" by (cases "f w")
  note first = assms(1) [unfolded adds_def, rule_format, of w, unfolded f snd_conv]
  show "reported (snd (thenDo f g w)) = reported w
      \<and> (\<exists>rest. callsMade (snd (thenDo f g w)) = callsMade w @ rest \<and> length rest \<le> m + n \<and> list_all P rest)"
  proof (cases came)
    case (Inl thrown)
    then show ?thesis using first f by (auto simp: thenDo_def)
  next
    case (Inr x)
    then show ?thesis
      using adds_trans [of v w "snd (g x v)" m P n] first
        assms(2) [of w x v, unfolded adds_def, rule_format, of v] f Inr
      by (simp add: thenDo_def)
  qed
qed

lemma adds_both [call_rules]:
  assumes "adds P m f" and "adds P n g"
  shows "adds P (m + n) (both f g)"
  unfolding adds_def
proof
  fix w
  obtain came v where f: "f w = (came, v)" by (cases "f w")
  obtain other x where g: "g v = (other, x)" by (cases "g v")
  have "snd (both f g w) = x" using f g by (simp add: both_def split: sum.splits)
  then show "reported (snd (both f g w)) = reported w
      \<and> (\<exists>rest. callsMade (snd (both f g w)) = callsMade w @ rest \<and> length rest \<le> m + n \<and> list_all P rest)"
    using adds_trans [of v w x m P n] assms(1) [unfolded adds_def, rule_format, of w]
      assms(2) [unfolded adds_def, rule_format, of v] f g by simp
qed

lemma adds_allOf: "list_all (adds P n) fs \<Longrightarrow> adds P (n * length fs) (allOf fs)"
proof (induction fs)
  case Nil
  then show ?case by (simp add: adds_def)
next
  case (Cons f fs)
  then have f: "adds P n f" and fs: "adds P (n * length fs) (allOf fs)" by simp_all
  have "adds P (n + n * length fs) (allOf (f # fs))"
    unfolding adds_def
  proof
    fix w
    obtain came v where f': "f w = (came, v)" by (cases "f w")
    obtain rest x where fs': "allOf fs v = (rest, x)" by (cases "allOf fs v")
    have "snd (allOf (f # fs) w) = x" using f' fs' by (simp split: sum.splits)
    then show "reported (snd (allOf (f # fs) w)) = reported w
        \<and> (\<exists>rest. callsMade (snd (allOf (f # fs) w)) = callsMade w @ rest \<and> length rest \<le> n + n * length fs
             \<and> list_all P rest)"
      using adds_trans [of v w x n P "n * length fs"] f [unfolded adds_def, rule_format, of w]
        fs [unfolded adds_def, rule_format, of v] f' fs' by simp
  qed
  then show ?case by (simp del: allOf.simps)
qed

lemma adds_together:
  "list_all (adds P 1) fs \<Longrightarrow> length fs \<le> n \<Longrightarrow> adds P n (allOf fs)"
  using adds_more [OF adds_allOf, of P 1 fs n] by simp

lemma adds_runFetch: "P (input, options) \<Longrightarrow> 0 < n \<Longrightarrow> adds P n (runFetch env input options)"
  by (auto simp: adds_def runFetch_def Let_def split: sum.splits)

section \<open>What robots.txt lets be fetched\<close>

definition WELL_KNOWN :: "jstext list" where
  "WELL_KNOWN =
     map u [''/.well-known/mcp.json'', ''/.well-known/mcp/server-card.json'', ''/.well-known/ucp'',
       ''/.well-known/agent-card.json'', ''/.well-known/oauth-authorization-server'',
       ''/.well-known/oauth-protected-resource'']"

text \<open>
  A call that is in order once robots.txt is read: a page of the site it allows for the
  scanner, or one of the discovery documents where it could be read at all.
\<close>

definition inOrder :: "ScanEnv \<Rightarrow> ScanContext \<Rightarrow> FetchInput \<times> SafeFetchOptions \<Rightarrow> bool" where
  "inOrder env ctx call \<longleftrightarrow>
     (\<exists>url. fst call = FetchUrl url \<and> isSameSite env url (ctxTarget ctx)
        \<and> (robotsAllows (ctxRobots ctx) url
           \<or> robotsDecisionKnown (ctxRobots ctx) \<and> pathname url \<in> set WELL_KNOWN))"

lemma sameSite_here: "hostname url = hostname target \<Longrightarrow> isSameSite env url target"
  by (simp add: isSameSite_def)

lemma sameSite_canonical:
  "canonicalSameSiteUrl env written target fallback = Some url \<Longrightarrow> isSameSite env url target"
  by (auto simp: canonicalSameSiteUrl_def withOrigin_def isSameSite_def registrableDomain_def
      split: sum.splits if_splits)

lemma discoveryUrl_parts [simp]:
  "hostname (discoveryUrl target path) = hostname target" "pathname (discoveryUrl target path) = u path"
  by (simp_all add: discoveryUrl_def)

lemma adds_ifAllowed:
  "isSameSite env url (ctxTarget ctx) \<Longrightarrow>
   0 < n \<Longrightarrow> adds (inOrder env ctx) n (fetchIfRobotsAllowed env (ctxRobots ctx) url options)"
  by (auto simp: fetchIfRobotsAllowed_def inOrder_def intro: adds_runFetch adds_gives)

lemma adds_discover:
  "u path \<in> set WELL_KNOWN \<Longrightarrow> 0 < n \<Longrightarrow> adds (inOrder env ctx) n (discover env ctx path)"
  by (auto simp: discover_def fetchExplicitDiscovery_def inOrder_def sameSite_here
      intro!: adds_runFetch adds_gives)

lemma adds_content: "adds (inOrder env ctx) 4 (fetchContent env ctx)"
  by (auto simp: fetchContent_def Let_def inOrder_def sameSite_here simp del: allOf.simps u_simps
      intro!: adds_together adds_runFetch adds_gives)

lemma sitemaps_same_site:
  "url \<in> set (sitemapTargets env ctx) \<Longrightarrow> isSameSite env url (ctxTarget ctx)"
  by (auto simp: sitemapTargets_def Let_def sameSite_here dest!: in_set_takeD
      split: if_splits option.splits dest: sameSite_canonical [OF sym])

lemma children_same_site:
  "url \<in> set (childSitemaps env ctx seen artifact) \<Longrightarrow> isSameSite env url (ctxTarget ctx)"
  by (auto simp: childSitemaps_def Let_def split: if_splits option.splits dest: sameSite_canonical [OF sym])

lemma adds_fetchSitemaps:
  "\<forall>url \<in> set pending. isSameSite env url (ctxTarget ctx) \<Longrightarrow>
   reported (snd (fetchSitemaps env ctx pending seen got w)) = reported w
   \<and> (\<exists>rest. callsMade (snd (fetchSitemaps env ctx pending seen got w)) = callsMade w @ rest
        \<and> length rest \<le> 3 - length got \<and> list_all (inOrder env ctx) rest)"
proof (induction env ctx pending seen got w rule: fetchSitemaps.induct)
  case (2 env ctx url pending seen got w)
  let ?options = "askWith (Some (u ''application/xml,text/xml,*/*;q=0.1'')) None (5 * 1024 * 1024)"
  obtain came v where one: "fetchIfRobotsAllowed env (ctxRobots ctx) url ?options w = (came, v)"
    by (cases "fetchIfRobotsAllowed env (ctxRobots ctx) url ?options w")
  have same: "isSameSite env url (ctxTarget ctx)" using "2.prems" by simp
  note first = adds_ifAllowed [OF same, of 1 ?options, OF zero_less_one, unfolded adds_def, rule_format, of w, unfolded one snd_conv]
  show ?case
  proof (cases "3 \<le> length got \<or> urlToString (runUrls env) url \<in> set seen")
    case True
    then show ?thesis using 2 by auto
  next
    case False
    show ?thesis
    proof (cases came)
      case (Inl thrown)
      then show ?thesis using False one first by fastforce
    next
      case (Inr artifact)
      let ?seen = "urlToString (runUrls env) url # seen"
      let ?x = "snd (fetchSitemaps env ctx (childSitemaps env ctx ?seen artifact @ pending) ?seen (got @ [artifact]) v)"
      have "\<forall>url \<in> set (childSitemaps env ctx ?seen artifact @ pending). isSameSite env url (ctxTarget ctx)"
        using "2.prems" children_same_site by auto
      with False one Inr have "reported ?x = reported v
          \<and> (\<exists>rest. callsMade ?x = callsMade v @ rest \<and> length rest \<le> 3 - length (got @ [artifact])
               \<and> list_all (inOrder env ctx) rest)"
        using "2.IH"(2) by (simp del: u_simps)
      moreover have room: "1 + (3 - length (got @ [artifact])) = 3 - length got"
        using False by (simp only: length_append list.size) arith
      moreover have "snd (fetchSitemaps env ctx (url # pending) seen got w) = ?x"
        using False one Inr by (simp add: Let_def)
      ultimately show ?thesis
        using adds_trans [of v w ?x 1 "inOrder env ctx" "3 - length (got @ [artifact])", unfolded room] first
        by simp
    qed
  qed
qed simp

lemma adds_sitemaps: "adds (inOrder env ctx) 3 (sitemapPart env ctx)"
proof -
  have "adds (inOrder env ctx) 3 (fetchSitemaps env ctx (sitemapTargets env ctx) [] [])"
    using adds_fetchSitemaps [of "sitemapTargets env ctx" env ctx "[]" "[]"] sitemaps_same_site
    by (simp add: adds_def)
  then show ?thesis by (simp add: sitemapPart_def adds_gives)
qed

lemma adds_llms: "adds (inOrder env ctx) 1 (llmsPart env ctx)"
  by (simp add: llmsPart_def Let_def adds_gives adds_ifAllowed sameSite_here del: u_simps)

lemma adds_wellKnown: "adds (inOrder env ctx) 4 (wellKnownPart env ctx)"
  unfolding wellKnownPart_def
  by (intro adds_together) (auto simp: WELL_KNOWN_def simp del: u_simps intro: adds_discover)

lemma adds_oauth: "adds (inOrder env ctx) 2 (oauthPart env ctx phase)"
proof -
  have "adds (inOrder env ctx) 2 (allOf (map (discover env ctx)
      [''/.well-known/oauth-authorization-server'', ''/.well-known/oauth-protected-resource'']))"
    by (intro adds_together) (auto simp: WELL_KNOWN_def simp del: u_simps intro: adds_discover)
  then show ?thesis by (simp add: oauthPart_def adds_gives del: list.map allOf.simps)
qed

lemma candidates_right:
  assumes "\<forall>url \<in> set found. isSameSite env url target" "length found < 2"
  shows "(\<forall>url \<in> set (takeCandidates env target fallback written seen found). isSameSite env url target)
    \<and> length (takeCandidates env target fallback written seen found) \<le> 2"
  using assms
proof (induction env target fallback written seen found rule: takeCandidates.induct)
  case (2 env target fallback one written seen found)
  show ?case
  proof (cases "canonicalSameSiteUrl env one target fallback")
    case None
    with 2 show ?thesis by simp
  next
    case (Some url)
    with 2 sameSite_canonical [OF Some] show ?thesis by (cases "length found") auto
  qed
qed simp

lemma allOf_length: "allOf fs w = (Inr xs, v) \<Longrightarrow> length xs = length fs"
  by (induction fs arbitrary: w xs v) (auto split: prod.splits sum.splits)

lemma findIndex_less: "findIndex P xs = Some i \<Longrightarrow> i < length xs"
  by (induction xs arbitrary: i) (auto split: if_splits)

lemma chosenHead_less: "chosenHead heads = Some i \<Longrightarrow> i < length heads"
  by (auto simp: chosenHead_def findIndex_less split: option.splits)

lemma adds_representative: "adds (inOrder env ctx) 3 (representativePart env ctx sitemaps)"
proof -
  let ?cs = "filter (robotsAllows (ctxRobots ctx)) (productCandidates env (ctxTarget ctx) sitemaps (ctxFallback ctx))"
  have right: "\<forall>url \<in> set ?cs. isSameSite env url (ctxTarget ctx) \<and> robotsAllows (ctxRobots ctx) url"
    "length ?cs \<le> 2"
    using candidates_right [of "[]"] unfolding productCandidates_def
    by (auto intro: order_trans [OF length_filter_le])
  have heads: "adds (inOrder env ctx) 2 (allOf (map (\<lambda>candidate. runFetch env (FetchUrl candidate) headAsk) ?cs))"
    using right by (intro adds_together) (auto simp: list_all_iff inOrder_def intro!: adds_runFetch)
  have page: "adds (inOrder env ctx) 1 (case chosenHead hs of None \<Rightarrow> gives None
      | Some i \<Rightarrow> thenDo (runFetch env (FetchUrl (?cs ! i)) (askWith None None (2 * 1024 * 1024))) (\<lambda>page. gives (Some page)))"
    if came: "allOf (map (\<lambda>candidate. runFetch env (FetchUrl candidate) headAsk) ?cs) w = (Inr hs, v)" for hs w v
  proof (cases "chosenHead hs")
    case None
    then show ?thesis by (simp add: adds_gives)
  next
    case (Some i)
    have "i < length ?cs" using chosenHead_less [OF Some] allOf_length [OF came] by simp
    then have "?cs ! i \<in> set ?cs" by (rule nth_mem)
    with right have "inOrder env ctx (FetchUrl (?cs ! i), askWith None None (2 * 1024 * 1024))"
      by (auto simp: inOrder_def)
    then have "adds (inOrder env ctx) (1 + 0)
        (thenDo (runFetch env (FetchUrl (?cs ! i)) (askWith None None (2 * 1024 * 1024))) (\<lambda>page. gives (Some page)))"
      by (intro adds_thenDo adds_runFetch adds_gives) simp_all
    then show ?thesis using Some by simp
  qed
  have "adds (inOrder env ctx) (2 + 1)
      (thenDo (allOf (map (\<lambda>candidate. runFetch env (FetchUrl candidate) headAsk) ?cs)) (\<lambda>hs.
        case chosenHead hs of None \<Rightarrow> gives None
        | Some i \<Rightarrow> thenDo (runFetch env (FetchUrl (?cs ! i)) (askWith None None (2 * 1024 * 1024)))
            (\<lambda>page. gives (Some page))))"
    by (rule adds_thenDo [OF heads page])
  then show ?thesis unfolding representativePart_def Let_def by (simp add: adds_gives)
qed

section \<open>A run, from robots.txt on\<close>

lemma emitChecks_calls: "callsMade (snd (emitChecks env a ids w)) = callsMade w"
  by (auto simp: emitChecks_def Let_def split: option.splits sum.splits)

text \<open>The calls of a scan that is put together from parts, without their reports.\<close>

definition callsAfter :: "(FetchInput \<times> SafeFetchOptions \<Rightarrow> bool) \<Rightarrow> nat \<Rightarrow> 'a scan \<Rightarrow> bool" where
  "callsAfter P n f \<longleftrightarrow>
     (\<forall>w. \<exists>rest. callsMade (snd (f w)) = callsMade w @ rest \<and> length rest \<le> n \<and> list_all P rest)"

lemma callsAfter_adds: "adds P n f \<Longrightarrow> callsAfter P n f"
  by (auto simp: adds_def callsAfter_def)

lemma callsAfter_quiet: "callsAfter P 0 (emitChecks env a ids)" "callsAfter P 0 (gives x)"
  "callsAfter P 0 (fails thrown)" "callsAfter P 0 (metric m)"
  by (simp_all add: callsAfter_def emitChecks_calls gives_def fails_def metric_def)

lemma callsAfter_thenDo:
  assumes "callsAfter P m f" and "\<And>x. callsAfter P n (g x)"
  shows "callsAfter P (m + n) (thenDo f g)"
  unfolding callsAfter_def
proof
  fix w
  obtain came v where f: "f w = (came, v)" by (cases "f w")
  obtain xs where xs: "callsMade v = callsMade w @ xs" "length xs \<le> m" "list_all P xs"
    using assms(1) [unfolded callsAfter_def, rule_format, of w] f by auto
  show "\<exists>rest. callsMade (snd (thenDo f g w)) = callsMade w @ rest \<and> length rest \<le> m + n \<and> list_all P rest"
  proof (cases came)
    case (Inl thrown)
    then show ?thesis using f xs by (intro exI [of _ xs]) (simp add: thenDo_def)
  next
    case (Inr x)
    obtain ys where "callsMade (snd (g x v)) = callsMade v @ ys" "length ys \<le> n" "list_all P ys"
      using assms(2) [of x, unfolded callsAfter_def, rule_format, of v] by blast
    then show ?thesis using f Inr xs by (intro exI [of _ "xs @ ys"]) (simp add: thenDo_def)
  qed
qed

lemma callsAfter_finish: "callsAfter P 0 (finishRun env artifacts)"
proof -
  have "callsAfter P (0 + (0 + (0 + (0 + 0))))
      (thenDo (emitChecks env artifacts ids) (\<lambda>_. thenDo (metric m1) (\<lambda>_. thenDo (metric m2) (\<lambda>_.
       thenDo (metric m3) (\<lambda>_. gives x)))))" for ids m1 m2 m3 and x :: "ScanEvaluation \<times> nat"
    by (intro callsAfter_thenDo callsAfter_quiet)
  then show ?thesis by (auto simp: finishRun_def callsAfter_quiet split: sum.split)
qed

lemma adds_together_parts: "adds (inOrder env ctx) 12 (fetchedTogether env ctx)"
proof -
  have "adds (inOrder env ctx) (4 + (3 + (1 + 4))) (fetchedTogether env ctx)"
    unfolding fetchedTogether_def
    by (intro adds_both adds_content adds_sitemaps adds_llms adds_wellKnown)
  then show ?thesis by simp
qed

lemma adds_last_parts:
  "adds (inOrder env ctx) 5 (both (oauthPart env ctx phase) (representativePart env ctx sitemap))"
proof -
  have "adds (inOrder env ctx) (2 + 3) (both (oauthPart env ctx phase) (representativePart env ctx sitemap))"
    by (intro adds_both adds_oauth adds_representative)
  then show ?thesis by simp
qed

lemma afterRobots_calls: "callsAfter (inOrder env ctx) 17 (afterRobots env ctx)"
proof -
  have "callsAfter (inOrder env ctx) (0 + (12 + (0 + (5 + 0)))) (afterRobots env ctx)"
    unfolding afterRobots_def secondPart_def lastPart_def Let_def case_prod_beta
    by (intro callsAfter_thenDo callsAfter_quiet callsAfter_finish
        callsAfter_adds [OF adds_together_parts] callsAfter_adds [OF adds_last_parts])
  then show ?thesis by simp
qed

text \<open>C13: Robots.txt is asked for first and decides what a scan fetches: every call after it is
  for the target's own site, and either robots.txt lets the scanner's agent read that path or
  the call is for one of six discovery documents and robots.txt could be read at all. And the
  calls of a scan are at most eighteen, which is the budget they share.\<close>

theorem robots_decide_what_is_fetched:
  assumes "canonicalizeTarget (runUrls env) (jobTarget job) = Inr target"
    and "openRun env job target startOfRun = (Inr ctx, w)"
  shows "\<exists>rest. (callsMade (snd (runScan env job startOfRun)) = []
          \<or> callsMade (snd (runScan env job startOfRun)) = callsMade w @ rest)
    \<and> list_all (\<lambda>call. fst call =
        (if submittedWithoutScheme job then FetchText (hostOf target @ u ''/robots.txt'')
         else FetchUrl (robotsUrl target))) (callsMade w)
    \<and> list_all (inOrder env ctx) rest
    \<and> length (callsMade w) \<le> 1 \<and> length (callsMade w @ rest) \<le> maximumRequests (runFetching env)"
proof -
  let ?P = "\<lambda>call. fst call =
        (if submittedWithoutScheme job then FetchText (hostOf target @ u ''/robots.txt'')
         else FetchUrl (robotsUrl target))"
  have "callsAfter ?P (1 + 0) (openRun env job target)"
    unfolding openRun_def
    by (intro callsAfter_thenDo callsAfter_adds [OF adds_runFetch])
      (auto simp: callsAfter_quiet Let_def split: option.split)
  from this [unfolded callsAfter_def, rule_format, of startOfRun]
  have first: "length (callsMade w) \<le> 1" "list_all ?P (callsMade w)"
    using assms(2) by (auto simp: startOfRun_def)
  obtain rest where rest: "callsMade (snd (afterRobots env ctx w)) = callsMade w @ rest" "length rest \<le> 17"
    "list_all (inOrder env ctx) rest"
    using afterRobots_calls [of env ctx] by (auto simp: callsAfter_def)
  have "callsMade (snd (runScan env job startOfRun)) = []
      \<or> callsMade (snd (runScan env job startOfRun)) = callsMade w @ rest"
    using assms rest(1) by (auto simp: runScan_def fails_def thenDo_def startOfRun_def Let_def)
  with rest first show ?thesis by (intro exI [of _ rest]) (simp add: runFetching_def)
qed

section \<open>What is reported as the scan goes\<close>

lemma early_robots:
  "filter (\<lambda>c. checkId c \<in> set [1, 2, 3]) (checkList p a e) = robotsChecks a"
proof -
  obtain c5 c6 where six: "jsonLdChecks e = [c5, c6]" "checkId c5 = 5" "checkId c6 = 6"
    using jsonLdChecks_fair [of e] fairAt_id by blast
  show ?thesis by (simp add: checkList_def robotsChecks_def Let_def six check_ids)
qed

lemma early_phase:
  "filter (\<lambda>c. checkId c \<in> set PHASE_CHECKS) (checkList p a e) =
     [sitemapCheck p a, markdownCheck e, llmsCheck (llmsFetch a), mcpCheck a, ucpCheck a, agentUaCheck e,
      performanceCheck e, fingerprintCheck, a2aCheck a, hreflangCheck e]"
proof -
  obtain c5 c6 where six: "jsonLdChecks e = [c5, c6]" "checkId c5 = 5" "checkId c6 = 6"
    using jsonLdChecks_fair [of e] fairAt_id by blast
  show ?thesis by (simp add: checkList_def robotsChecks_def Let_def six check_ids PHASE_CHECKS_def)
qed

lemma settled_fields:
  "scanSegment (a\<lparr>oauthFetches := os, representativeFetch := r\<rparr>) = scanSegment a"
  "canonicalTargetUrl (a\<lparr>oauthFetches := os, representativeFetch := r\<rparr>) = canonicalTargetUrl a"
  "robotsFetch (a\<lparr>oauthFetches := os, representativeFetch := r\<rparr>) = robotsFetch a"
  "baseFetch (a\<lparr>oauthFetches := os, representativeFetch := r\<rparr>) = baseFetch a"
  "markdownFetch (a\<lparr>oauthFetches := os, representativeFetch := r\<rparr>) = markdownFetch a"
  "chatgptProbe (a\<lparr>oauthFetches := os, representativeFetch := r\<rparr>) = chatgptProbe a"
  "claudeProbe (a\<lparr>oauthFetches := os, representativeFetch := r\<rparr>) = claudeProbe a"
  "sitemapFetches (a\<lparr>oauthFetches := os, representativeFetch := r\<rparr>) = sitemapFetches a"
  "llmsFetch (a\<lparr>oauthFetches := os, representativeFetch := r\<rparr>) = llmsFetch a"
  "mcpFetches (a\<lparr>oauthFetches := os, representativeFetch := r\<rparr>) = mcpFetches a"
  "ucpFetch (a\<lparr>oauthFetches := os, representativeFetch := r\<rparr>) = ucpFetch a"
  "a2aFetch (a\<lparr>oauthFetches := os, representativeFetch := r\<rparr>) = a2aFetch a"
  "noncanonicalA2aHint (a\<lparr>oauthFetches := os, representativeFetch := r\<rparr>) = noncanonicalA2aHint a"
  by simp_all

text \<open>The checks reported early do not look at what is fetched last.\<close>

lemma phase_checks_settled:
  "sitemapCheck p (a\<lparr>oauthFetches := os, representativeFetch := r\<rparr>) = sitemapCheck p a"
  "markdownCheck (a\<lparr>oauthFetches := os, representativeFetch := r\<rparr>) = markdownCheck a"
  "mcpCheck (a\<lparr>oauthFetches := os, representativeFetch := r\<rparr>) = mcpCheck a"
  "ucpCheck (a\<lparr>oauthFetches := os, representativeFetch := r\<rparr>) = ucpCheck a"
  "agentUaCheck (a\<lparr>oauthFetches := os, representativeFetch := r\<rparr>) = agentUaCheck a"
  "performanceCheck (a\<lparr>oauthFetches := os, representativeFetch := r\<rparr>) = performanceCheck a"
  "a2aCheck (a\<lparr>oauthFetches := os, representativeFetch := r\<rparr>) = a2aCheck a"
  "hreflangCheck (a\<lparr>oauthFetches := os, representativeFetch := r\<rparr>) = hreflangCheck a"
  by (simp_all only: sitemapCheck_def markdownCheck_def mcpCheck_def ucpCheck_def agentUaCheck_def
      performanceCheck_def a2aCheck_def hreflangCheck_def settled_fields)

lemma settled_withoutPages:
  "withoutPages (a\<lparr>oauthFetches := os, representativeFetch := r\<rparr>)
   = (withoutPages a)\<lparr>oauthFetches := os, representativeFetch := None\<rparr>"
  by (simp add: withoutPages_def)

lemma robots_checks_agree:
  assumes "evaluateChecks p a = Inr cs" "evaluateChecks p b = Inr ds" "robotsFetch a = robotsFetch b"
  shows "filter (\<lambda>c. checkId c \<in> set [1, 2, 3]) cs = filter (\<lambda>c. checkId c \<in> set [1, 2, 3]) ds"
proof -
  obtain e f where "cs = checkList p a e" "ds = checkList p b f"
    using assms(1,2) by (auto simp: evaluateChecks_list split: option.splits)
  moreover have "robotsChecks a = robotsChecks b" using assms(3) by (simp add: robotsChecks_def)
  ultimately show ?thesis by (simp only: early_robots)
qed

lemma phase_checks_agree:
  assumes "evaluateChecks p a = Inr cs"
    and "evaluateChecks p (a\<lparr>oauthFetches := os, representativeFetch := r\<rparr>) = Inr ds"
  shows "filter (\<lambda>c. checkId c \<in> set PHASE_CHECKS) cs = filter (\<lambda>c. checkId c \<in> set PHASE_CHECKS) ds"
proof -
  let ?b = "a\<lparr>oauthFetches := os, representativeFetch := r\<rparr>"
  obtain path where path: "pathnameOf p (canonicalTargetUrl a) = Some path"
    using assms(1) by (auto simp: evaluateChecks_list split: option.splits)
  have robots: "targetContentAllowed ?b = targetContentAllowed a"
    by (simp add: targetContentAllowed_def fun_eq_iff)
  let ?path = "if path = [] then u ''/'' else path"
  define e where "e = (if targetContentAllowed a ?path then a else withoutPages a)"
  define f where "f = (if targetContentAllowed a ?path then ?b
      else (withoutPages a)\<lparr>oauthFetches := os, representativeFetch := None\<rparr>)"
  have "cs = checkList p a e" "ds = checkList p ?b f"
    using assms path unfolding e_def f_def evaluateChecks_list robots settled_withoutPages settled_fields
    by (auto split: if_splits)
  moreover have "f = e\<lparr>oauthFetches := os, representativeFetch := representativeFetch f\<rparr>"
    by (simp add: e_def f_def)
  ultimately show ?thesis
    by (metis early_phase phase_checks_settled settled_fields(9))
qed

lemma thenDo_Inr:
  assumes "thenDo f g w = (Inr y, v)"
  obtains x u where "f w = (Inr x, u)" "g x u = (Inr y, v)"
  using assms by (auto simp: thenDo_def split: prod.splits sum.splits)

lemma adds_reported: "adds P n f \<Longrightarrow> f w = (x, v) \<Longrightarrow> reported v = reported w"
  unfolding adds_def by (metis snd_conv)

text \<open>One batch: the checks named, less those that went out before.\<close>

lemma emitChecks_reports:
  assumes "onChecksComplete env \<noteq> None" "emitChecks env a ids w = (Inr x, v)"
  obtains checks where "evaluateChecks (runPlatform env) a = Inr checks"
    "concat (reported v) = concat (reported w)
      @ filter (\<lambda>c. checkId c \<in> set ids \<and> checkId c \<notin> set (map checkId (concat (reported w)))) checks"
  using assms by (auto simp: emitChecks_def Let_def split: option.splits sum.splits if_splits)

lemma openRun_reports:
  assumes "openRun env job target w = (Inr ctx, v)"
  shows "reported v = reported w"
proof -
  have "adds (\<lambda>_. True) (1 + 0) (openRun env job target)"
    unfolding openRun_def
    by (intro adds_thenDo adds_runFetch) (auto simp: adds_gives Let_def split: option.split)
  then show ?thesis using assms by (rule adds_reported)
qed

lemma filter_split:
  "mset (filter P xs @ filter Q xs @ filter (\<lambda>x. \<not> P x \<and> \<not> Q x) xs) = mset xs"
  if "\<And>x. x \<in> set xs \<Longrightarrow> \<not> (P x \<and> Q x)"
  using that by (induction xs) auto

lemma finishRun_reports:
  assumes handler: "onChecksComplete env \<noteq> None" and run: "finishRun env a w = (Inr (evaluation, n), v)"
  shows "evaluateChecks (runPlatform env) a = Inr (scanChecks evaluation)
    \<and> concat (reported v) = concat (reported w)
        @ filter (\<lambda>c. checkId c \<notin> set (map checkId (concat (reported w)))) (scanChecks evaluation)"
proof -
  have "evaluateScan (runPlatform env) a = Inr evaluation"
    using run by (auto simp: finishRun_def fails_def gives_def elim!: thenDo_Inr split: sum.splits)
  then have checks: "evaluateChecks (runPlatform env) a = Inr (scanChecks evaluation)"
    and scan: "evaluateScan (runPlatform env) a = Inr evaluation"
    by (auto simp: evaluateScan_def split: sum.splits)
  obtain u where out: "emitChecks env a (map checkId (scanChecks evaluation)) w = (Inr (), u)"
    and same: "reported v = reported u"
    using run scan by (auto simp: finishRun_def metric_def gives_def elim!: thenDo_Inr)
  have "filter (\<lambda>c. checkId c \<in> set (map checkId (scanChecks evaluation)) \<and> P c) (scanChecks evaluation)
      = filter P (scanChecks evaluation)" for P
    by (intro filter_cong) auto
  moreover obtain cs where "evaluateChecks (runPlatform env) a = Inr cs"
    "concat (reported u) = concat (reported w)
      @ filter (\<lambda>c. checkId c \<in> set (map checkId (scanChecks evaluation))
          \<and> checkId c \<notin> set (map checkId (concat (reported w)))) cs"
    using handler out by (rule emitChecks_reports)
  ultimately show ?thesis using checks same by simp
qed

lemma lastPart_reports:
  assumes handler: "onChecksComplete env \<noteq> None" and run: "lastPart env ctx sitemap phase w = (Inr (evaluation, n), v)"
  obtains os r where "evaluateChecks (runPlatform env) (phase\<lparr>oauthFetches := os, representativeFetch := r\<rparr>)
      = Inr (scanChecks evaluation)"
    "concat (reported v) = concat (reported w)
        @ filter (\<lambda>c. checkId c \<notin> set (map checkId (concat (reported w)))) (scanChecks evaluation)"
proof -
  obtain came u where fetched: "both (oauthPart env ctx phase) (representativePart env ctx sitemap) w = (Inr came, u)"
    and fin: "(case came of (oauth, representative) \<Rightarrow>
      finishRun env (phase\<lparr>oauthFetches := oauth, representativeFetch := representative\<rparr>)) u = (Inr (evaluation, n), v)"
    using run unfolding lastPart_def by (rule thenDo_Inr)
  obtain os r where came: "came = (os, r)" by (cases came)
  have "reported u = reported w" by (rule adds_reported [OF adds_last_parts fetched])
  with finishRun_reports [OF handler fin [unfolded came prod.case]] show ?thesis
    by (intro that [of r os]) simp_all
qed

lemma secondPart_reports:
  assumes handler: "onChecksComplete env \<noteq> None" and run: "secondPart env ctx fetched w = (Inr (evaluation, n), v)"
    and before: "concat (reported w) = filter (\<lambda>c. checkId c \<in> set [1, 2, 3]) cs"
    and early: "\<And>a. robotsFetch a = ctxRobots ctx \<Longrightarrow> evaluateChecks (runPlatform env) a = Inr (scanChecks evaluation)
      \<Longrightarrow> filter (\<lambda>c. checkId c \<in> set [1, 2, 3]) cs = filter (\<lambda>c. checkId c \<in> set [1, 2, 3]) (scanChecks evaluation)"
  shows "mset (concat (reported v)) = mset (scanChecks evaluation) \<and> length (scanChecks evaluation) = 18"
proof -
  let ?ds = "scanChecks evaluation" and ?A = "\<lambda>c. checkId c \<in> set [1, 2, 3]"
    and ?B = "\<lambda>c. checkId c \<in> set PHASE_CHECKS"
  obtain contentResults sitemap llms known where fetched: "fetched = (contentResults, sitemap, llms, known)"
    by (cases fetched)
  let ?phase = "phaseArtifacts env ctx contentResults sitemap llms known"
  obtain x u where out: "emitChecks env ?phase PHASE_CHECKS w = (Inr x, u)"
    and later: "lastPart env ctx sitemap ?phase u = (Inr (evaluation, n), v)"
    using run unfolding secondPart_def fetched prod.case Let_def by (rule thenDo_Inr)
  obtain os r where checks: "evaluateChecks (runPlatform env) (?phase\<lparr>oauthFetches := os, representativeFetch := r\<rparr>) = Inr ?ds"
    and fin: "concat (reported v) = concat (reported u)
        @ filter (\<lambda>c. checkId c \<notin> set (map checkId (concat (reported u)))) ?ds"
    using handler later by (rule lastPart_reports)
  have first: "concat (reported w) = filter ?A ?ds"
    using early [OF _ checks] before by (simp add: phaseArtifacts_def skeletonArtifacts_def Let_def)
  have disjoint: "set [1, 2, 3] \<inter> set PHASE_CHECKS = {}" by (simp add: PHASE_CHECKS_def)
  obtain es where es: "evaluateChecks (runPlatform env) ?phase = Inr es"
    and new: "concat (reported u) = concat (reported w) @ filter (\<lambda>c. checkId c \<in> set PHASE_CHECKS
        \<and> checkId c \<notin> set (map checkId (concat (reported w)))) es"
    using handler out by (rule emitChecks_reports)
  have "filter (\<lambda>c. checkId c \<in> set PHASE_CHECKS \<and> checkId c \<notin> set (map checkId (filter ?A ?ds))) es = filter ?B es"
    using disjoint by (intro filter_cong) auto
  then have second: "concat (reported u) = filter ?A ?ds @ filter ?B ?ds"
    using new unfolding first by (simp only: phase_checks_agree [OF es checks])
  have "filter (\<lambda>c. checkId c \<notin> set (map checkId (filter ?A ?ds @ filter ?B ?ds))) ?ds
      = filter (\<lambda>c. \<not> ?A c \<and> \<not> ?B c) ?ds"
    by (intro filter_cong) auto
  with fin have "concat (reported v) = filter ?A ?ds @ filter ?B ?ds @ filter (\<lambda>c. \<not> ?A c \<and> \<not> ?B c) ?ds"
    unfolding second by simp
  moreover have "mset (filter ?A ?ds @ filter ?B ?ds @ filter (\<lambda>c. \<not> ?A c \<and> \<not> ?B c) ?ds) = mset ?ds"
    by (rule filter_split) (use disjoint in blast)
  moreover have "length ?ds = length [1..<19]" using evaluated_checks(1) [OF checks] by (metis length_map)
  ultimately show ?thesis by simp
qed


text \<open>A shop that has no robots.txt and nothing else either, on a platform that knows its name.\<close>

definition sampleJob :: ScanJob where
  "sampleJob = \<lparr>jobTarget = u ''shop.example'', submittedWithoutScheme = False, jobSegment = Store,
                jobDeadline = []\<rparr>"

definition sampleEnv :: ScanEnv where
  "sampleEnv =
     \<lparr>runUrls = shopPlatform, runPlatform = samplePlatform\<lparr>dateParse := (\<lambda>_. Some 100)\<rparr>,
      registrable = (\<lambda>_. None), appBaseUrl = u ''https://a.example/'',
      replies = (\<lambda>_ _ _. Inr nothingFetched), pastDeadline = (\<lambda>_. False),
      onChecksComplete = Some (\<lambda>_. Inr ()), runStart = 0, runEnd = 90, requestsUsed = 10\<rparr>"

text \<open>Nothing in this run throws.\<close>

definition endsWell :: "'a scan \<Rightarrow> bool" where
  "endsWell f \<longleftrightarrow> (\<forall>w. \<exists>x v. f w = (Inr x, v))"

lemma endsWell_rules:
  "endsWell (gives x)" "endsWell (metric m)"
  "endsWell f \<Longrightarrow> (\<And>x. endsWell (g x)) \<Longrightarrow> endsWell (thenDo f g)"
  "endsWell f \<Longrightarrow> endsWell h \<Longrightarrow> endsWell (both f h)"
  unfolding endsWell_def gives_def metric_def thenDo_def both_def
  by (simp_all, metis (mono_tags, lifting) prod.case sum.case(2), metis (mono_tags, lifting) prod.case sum.case(2))

lemma endsWell_allOf: "list_all endsWell fs \<Longrightarrow> endsWell (allOf fs)"
proof (induction fs)
  case (Cons f fs)
  then have "endsWell f" "endsWell (allOf fs)" by simp_all
  then show ?case
    unfolding endsWell_def allOf.simps by (metis (mono_tags, lifting) prod.case sum.case(2))
qed (simp add: endsWell_def)

lemma sample_canonical: "\<exists>url. canonicalizeTarget shopPlatform (u ''https://shop.example/a'') = Inr url"
proof -
  have "isl (canonicalizeTarget shopPlatform (u ''https://shop.example/a'')) = False" by code_simp
  then show ?thesis by (cases "canonicalizeTarget shopPlatform (u ''https://shop.example/a'')") auto
qed

lemma endsWell_runFetch: "endsWell (runFetch sampleEnv (FetchUrl url) options)"
  using sample_canonical
  by (auto simp: endsWell_def runFetch_def sampleEnv_def inputText_def shopPlatform_def Let_def simp del: u_simps)

lemma endsWell_emit: "endsWell (emitChecks sampleEnv a ids)"
  by (auto simp: endsWell_def emitChecks_def sampleEnv_def evaluateChecks_list samplePlatform_def Let_def)

lemma endsWell_discover: "endsWell (discover sampleEnv ctx path)"
  by (simp add: discover_def fetchExplicitDiscovery_def endsWell_runFetch endsWell_rules)

lemma endsWell_ifAllowed: "endsWell (fetchIfRobotsAllowed sampleEnv robots url options)"
  by (simp add: fetchIfRobotsAllowed_def endsWell_runFetch endsWell_rules)

lemma endsWell_fetchSitemaps:
  "env = sampleEnv \<Longrightarrow> \<exists>x v. fetchSitemaps env ctx pending seen got w = (Inr x, v)"
proof (induction env ctx pending seen got w rule: fetchSitemaps.induct)
  case (2 env ctx url pending seen got w)
  let ?options = "askWith (Some (u ''application/xml,text/xml,*/*;q=0.1'')) None (5 * 1024 * 1024)"
  obtain artifact v where one: "fetchIfRobotsAllowed env (ctxRobots ctx) url ?options w = (Inr artifact, v)"
    using endsWell_ifAllowed "2.prems" unfolding endsWell_def by blast
  show ?case
  proof (cases "3 \<le> length got \<or> urlToString (runUrls env) url \<in> set seen")
    case True
    then show ?thesis using 2 by auto
  next
    case False
    with one show ?thesis using "2.IH"(2) "2.prems" by (simp add: Let_def del: u_simps)
  qed
qed simp

lemma endsWell_parts:
  "endsWell (fetchedTogether sampleEnv ctx)"
  "endsWell (both (oauthPart sampleEnv ctx phase) (representativePart sampleEnv ctx sitemap))"
proof -
  have "endsWell (fetchContent sampleEnv ctx)"
    unfolding fetchContent_def Let_def
    by (simp add: endsWell_rules, intro impI endsWell_allOf, simp add: endsWell_runFetch)
  moreover have "endsWell (sitemapPart sampleEnv ctx)"
    using endsWell_fetchSitemaps [OF refl] by (simp add: sitemapPart_def endsWell_rules, simp add: endsWell_def)
  moreover have "endsWell (llmsPart sampleEnv ctx)"
    by (simp add: llmsPart_def Let_def endsWell_rules endsWell_ifAllowed)
  moreover have "endsWell (wellKnownPart sampleEnv ctx)"
    unfolding wellKnownPart_def by (intro endsWell_allOf) (simp add: list_all_iff endsWell_discover)
  ultimately show "endsWell (fetchedTogether sampleEnv ctx)"
    unfolding fetchedTogether_def by (intro endsWell_rules)
  have "endsWell (allOf (map (discover sampleEnv ctx)
      [''/.well-known/oauth-authorization-server'', ''/.well-known/oauth-protected-resource'']))"
    by (intro endsWell_allOf) (simp add: list_all_iff endsWell_discover)
  then have "endsWell (oauthPart sampleEnv ctx phase)"
    by (simp add: oauthPart_def endsWell_rules del: list.map allOf.simps)
  moreover have "endsWell (representativePart sampleEnv ctx sitemap)"
  proof -
    have "endsWell (allOf (map (\<lambda>candidate. runFetch sampleEnv (FetchUrl candidate) headAsk) cs))" for cs
      by (intro endsWell_allOf) (simp add: list_all_iff endsWell_runFetch)
    then show ?thesis
      unfolding representativePart_def Let_def
      by (auto intro!: endsWell_rules endsWell_runFetch split: option.split)
  qed
  ultimately show "endsWell (both (oauthPart sampleEnv ctx phase) (representativePart sampleEnv ctx sitemap))"
    by (rule endsWell_rules)
qed

lemma endsWell_finish: "endsWell (finishRun sampleEnv a)"
proof -
  obtain checks where checks: "evaluateChecks (runPlatform sampleEnv) a = Inr checks"
    by (auto simp: sampleEnv_def samplePlatform_def evaluateChecks_list)
  obtain evaluation where "evaluateScan (runPlatform sampleEnv) a = Inr evaluation"
    by (auto simp: evaluateScan_def checks scoreChecks_def rubric Let_def)
  then show ?thesis by (simp add: finishRun_def endsWell_rules endsWell_emit)
qed

lemma sample_opens:
  obtains target ctx w where "canonicalizeTarget (runUrls sampleEnv) (jobTarget sampleJob) = Inr target"
    "openRun sampleEnv sampleJob target startOfRun = (Inr ctx, w)"
proof -
  have "isl (canonicalizeTarget (runUrls sampleEnv) (jobTarget sampleJob)) = False" by code_simp
  then obtain target where target: "canonicalizeTarget (runUrls sampleEnv) (jobTarget sampleJob) = Inr target"
    by (cases "canonicalizeTarget (runUrls sampleEnv) (jobTarget sampleJob)") auto
  have "endsWell (openRun sampleEnv sampleJob target)"
    unfolding openRun_def
    by (intro endsWell_rules) (auto simp: sampleJob_def intro: endsWell_runFetch endsWell_rules)
  with target that show thesis unfolding endsWell_def by blast
qed

theorem robots_decide_what_is_fetched_witness:
  "\<exists>target ctx w rest. openRun sampleEnv sampleJob target startOfRun = (Inr ctx, w)
     \<and> (callsMade (snd (runScan sampleEnv sampleJob startOfRun)) = []
        \<or> callsMade (snd (runScan sampleEnv sampleJob startOfRun)) = callsMade w @ rest)
     \<and> list_all (inOrder sampleEnv ctx) rest \<and> length (callsMade w @ rest) \<le> 18"
proof (rule sample_opens)
  fix target ctx w
  assume opened: "canonicalizeTarget (runUrls sampleEnv) (jobTarget sampleJob) = Inr target"
    "openRun sampleEnv sampleJob target startOfRun = (Inr ctx, w)"
  from robots_decide_what_is_fetched [OF this] opened(2) show ?thesis
    by (simp add: runFetching_def) blast
qed


end
