(* ===== verification/Scanner_Findings.thy ===== *)
theory Scanner_Findings
  imports Scanner_Scoring
begin

text \<open>
  What \<open>selectFindings\<close> shows: the sort of \<open>Scanner_Scoring\<close> puts its input in order, and the
  loop takes the first finding of each cluster until it has three. The order of two findings
  is the lexicographic order of their keys, so what is shown is never beaten by what is not.
\<close>

section \<open>The sort\<close>

lemma keyLess_total:
  "length a = length b \<Longrightarrow> \<not> keyLess a b \<Longrightarrow> \<not> keyLess b a \<Longrightarrow> a = b"
  by (induction a b rule: list_induct2) auto

lemma keyLess_trans:
  "length a = length b \<Longrightarrow> length b = length c \<Longrightarrow> keyLess a b \<Longrightarrow> keyLess b c \<Longrightarrow> keyLess a c"
  by (induction a b c rule: list_induct3) auto

lemma keyLess_irrefl [simp]: "\<not> keyLess a a"
  by (induction a) auto

text \<open>\<open>x\<close> does not come after \<open>y\<close>.\<close>

definition notAfter :: "('a \<Rightarrow> int list) \<Rightarrow> 'a \<Rightarrow> 'a \<Rightarrow> bool" where
  "notAfter key x y \<longleftrightarrow> \<not> keyLess (key y) (key x)"

locale sort_key_lists =
  fixes key :: "'a \<Rightarrow> int list" and width :: nat
  assumes width: "length (key x) = width"
begin

lemma same_length: "length (key x) = length (key y)"
  by (simp add: width)

lemma notAfter_trans: "notAfter key x y \<Longrightarrow> notAfter key y z \<Longrightarrow> notAfter key x z"
  unfolding notAfter_def
  by (metis keyLess_total keyLess_trans same_length)

lemma notAfter_less: "keyLess (key x) (key y) \<Longrightarrow> notAfter key x y"
  unfolding notAfter_def by (metis keyLess_irrefl keyLess_trans same_length)

lemma set_insertBy [simp]: "set (insertBy key x ys) = insert x (set ys)"
  by (induction ys) auto

lemma sorted_insertBy:
  "sorted_wrt (notAfter key) ys \<Longrightarrow> sorted_wrt (notAfter key) (insertBy key x ys)"
proof (induction ys)
  case (Cons y ys)
  show ?case
  proof (cases "keyLess (key x) (key y)")
    case True
    then have "notAfter key x y" by (rule notAfter_less)
    with Cons True show ?thesis by (auto intro: notAfter_trans)
  next
    case False
    with Cons show ?thesis by (auto simp: notAfter_def)
  qed
qed simp

lemma sortBy_sorted: "sorted_wrt (notAfter key) (sortBy key xs) \<and> set (sortBy key xs) = set xs"
proof -
  have "sorted_wrt (notAfter key) ys \<Longrightarrow>
      sorted_wrt (notAfter key) (foldl (\<lambda>sorted x. insertBy key x sorted) ys xs)
      \<and> set (foldl (\<lambda>sorted x. insertBy key x sorted) ys xs) = set ys \<union> set xs" for ys
    by (induction xs arbitrary: ys) (auto simp: sorted_insertBy)
  from this [of "[]"] show ?thesis by (simp add: sortBy_def)
qed

text \<open>The head of the sorted list is beaten by none.\<close>

lemma sortBy_head:
  assumes "sortBy key xs = x # ys" "y \<in> set xs"
  shows "notAfter key x y"
proof -
  have "sorted_wrt (notAfter key) (x # ys)" "set (x # ys) = set xs"
    using sortBy_sorted [of xs] unfolding assms(1) by auto
  then have "y = x \<or> notAfter key x y" using assms(2) by auto
  then show ?thesis by (auto simp: notAfter_def)
qed

end

interpretation finding: sort_key_lists "findingKey segment" 4 for segment
  by unfold_locales (simp add: findingKey_def)

interpretation positive: sort_key_lists "\<lambda>c. [- earnedWeight c, int (checkId c)]" 2
  by unfold_locales simp

interpretation platform: sort_key_lists "\<lambda>s. [- confidenceRank (signalConfidence s)]" 1
  by unfold_locales simp

section \<open>The loop\<close>

text \<open>
  The findings chosen, as checks: one of a cluster, three at most, and whatever is left out
  is of the cluster of one chosen before it or stands behind three.
\<close>

lemma takeFindings_chosen:
  assumes "length negatives < 3" "sorted_wrt (notAfter key) cs"
  shows "\<exists>ds. takeFindings clusters negatives cs = negatives @ map checkId ds
    \<and> length negatives + length ds \<le> 3 \<and> set ds \<subseteq> set cs \<and> distinct (map clusterOf ds)
    \<and> clusterOf ` set ds \<inter> set clusters = {}
    \<and> (\<forall>c \<in> set cs. c \<in> set ds \<or> clusterOf c \<in> set clusters
         \<or> (\<exists>d \<in> set ds. clusterOf d = clusterOf c \<and> notAfter key d c)
         \<or> (length negatives + length ds = 3 \<and> (\<forall>d \<in> set ds. notAfter key d c)))"
  using assms
proof (induction cs arbitrary: clusters negatives)
  case Nil
  then show ?case by (intro exI [of _ "[]"]) simp
next
  case (Cons c cs)
  have before: "\<forall>d \<in> set cs. notAfter key c d" and sorted: "sorted_wrt (notAfter key) cs"
    using Cons.prems(2) by simp_all
  show ?case
  proof (cases "clusterOf c \<in> set clusters")
    case True
    obtain ds where ds: "takeFindings clusters negatives cs = negatives @ map checkId ds"
      "length negatives + length ds \<le> 3" "set ds \<subseteq> set cs" "distinct (map clusterOf ds)"
      "clusterOf ` set ds \<inter> set clusters = {}"
      "\<forall>c \<in> set cs. c \<in> set ds \<or> clusterOf c \<in> set clusters
         \<or> (\<exists>d \<in> set ds. clusterOf d = clusterOf c \<and> notAfter key d c)
         \<or> (length negatives + length ds = 3 \<and> (\<forall>d \<in> set ds. notAfter key d c))"
      using Cons.IH [OF Cons.prems(1) sorted] by blast
    with True show ?thesis by (intro exI [of _ ds]) auto
  next
    case new: False
    show ?thesis
    proof (cases "length (negatives @ [checkId c]) = 3")
      case True
      with new before show ?thesis by (intro exI [of _ "[c]"]) auto
    next
      case False
      with Cons.prems(1) have "length (negatives @ [checkId c]) < 3" by simp
      from Cons.IH [OF this sorted, of "clusterOf c # clusters"] obtain ds where ds:
        "takeFindings (clusterOf c # clusters) (negatives @ [checkId c]) cs =
           (negatives @ [checkId c]) @ map checkId ds"
        "length (negatives @ [checkId c]) + length ds \<le> 3" "set ds \<subseteq> set cs"
        "distinct (map clusterOf ds)" "clusterOf ` set ds \<inter> set (clusterOf c # clusters) = {}"
        "\<forall>e \<in> set cs. e \<in> set ds \<or> clusterOf e \<in> set (clusterOf c # clusters)
           \<or> (\<exists>d \<in> set ds. clusterOf d = clusterOf e \<and> notAfter key d e)
           \<or> (length (negatives @ [checkId c]) + length ds = 3 \<and> (\<forall>d \<in> set ds. notAfter key d e))"
        by blast
      have "takeFindings clusters negatives (c # cs) = negatives @ map checkId (c # ds)"
        using new False ds(1) by (simp add: Let_def)
      moreover have "\<forall>e \<in> set (c # cs). e \<in> set (c # ds) \<or> clusterOf e \<in> set clusters
           \<or> (\<exists>d \<in> set (c # ds). clusterOf d = clusterOf e \<and> notAfter key d e)
           \<or> (length negatives + length (c # ds) = 3 \<and> (\<forall>d \<in> set (c # ds). notAfter key d e))"
        using ds(6) before by auto
      ultimately show ?thesis
        using new ds(2-5) by (intro exI [of _ "c # ds"] conjI) auto
    qed
  qed
qed

text \<open>C40: What is shown of a scan is the best choice there is. The findings against a site are
  three at most, all failed or partial, no two about the same cluster, and one left out is
  either of a cluster one shown stands for and does not come before it, or comes before none
  of three shown: failures come first, then what matters most to the segment, then what cost
  the most. The finding for the site is a passed check that none earned more than.\<close>

theorem findings_are_the_worst:
  "(\<exists>ds. negativeCheckIds (selectFindings segment checks) = map checkId ds \<and> length ds \<le> 3
      \<and> set ds \<subseteq> set (filter isNegative checks) \<and> distinct (map clusterOf ds)
      \<and> (\<forall>c \<in> set (filter isNegative checks). c \<in> set ds
           \<or> (\<exists>d \<in> set ds. clusterOf d = clusterOf c \<and> notAfter (findingKey segment) d c)
           \<or> (length ds = 3 \<and> (\<forall>d \<in> set ds. notAfter (findingKey segment) d c))))
   \<and> (case positiveCheckId (selectFindings segment checks) of
        None \<Rightarrow> \<forall>c \<in> set checks. \<not> (checkStatus c = CheckPass \<and> 0 < earnedWeight c)
      | Some i \<Rightarrow> \<exists>c \<in> set checks. checkId c = i \<and> checkStatus c = CheckPass
          \<and> (\<forall>d \<in> set checks. checkStatus d = CheckPass \<longrightarrow> earnedWeight d \<le> earnedWeight c))"
    (is "?negative \<and> ?positive")
proof
  let ?sorted = "sortBy (findingKey segment) (filter isNegative checks)"
  have sorted: "sorted_wrt (notAfter (findingKey segment)) ?sorted"
    "set ?sorted = set (filter isNegative checks)"
    using finding.sortBy_sorted by blast+
  show ?negative
    using takeFindings_chosen [OF _ sorted(1), of "[]" "[]"] unfolding sorted(2)
    by (simp add: selectFindings_def)
next
  let ?key = "\<lambda>c. [- earnedWeight c, int (checkId c)]"
  let ?passed = "filter (\<lambda>c. checkStatus c = CheckPass \<and> 0 < earnedWeight c) checks"
  have same: "set (sortBy ?key ?passed) = set ?passed" using positive.sortBy_sorted by blast
  show ?positive
  proof (cases "sortBy ?key ?passed")
    case Nil
    with same have "set ?passed = {}" by simp
    with Nil show ?thesis by (simp add: selectFindings_def filter_empty_conv)
  next
    case (Cons c others)
    with same have "c \<in> set ?passed" by (metis list.set_intros(1))
    moreover have "earnedWeight d \<le> earnedWeight c"
      if "d \<in> set checks" "checkStatus d = CheckPass" for d
    proof (cases "0 < earnedWeight d")
      case True
      with that positive.sortBy_head [OF Cons, of d] show ?thesis by (auto simp: notAfter_def)
    next
      case False
      with \<open>c \<in> set ?passed\<close> show ?thesis by simp
    qed
    ultimately show ?thesis using Cons by (auto simp: selectFindings_def)
  qed
qed

text \<open>Three checks of one site: two of one cluster, and a pass.\<close>

definition sampleChecks :: "CheckResult list" where
  "sampleChecks =
     [result (says 5 CheckPartial 4 ''a'' ''b''), result (says 6 CheckFail 0 ''a'' ''b''),
      result (says 14 CheckPass 4 ''a'' ''b'')]"

theorem findings_are_the_worst_witness:
  "negativeCheckIds (selectFindings Store sampleChecks) = [6]
   \<and> positiveCheckId (selectFindings Store sampleChecks) = Some 14
   \<and> (\<exists>c \<in> set sampleChecks. checkId c = 14 \<and> checkStatus c = CheckPass)"
proof -
  have "selectFindings Store sampleChecks = \<lparr>negativeCheckIds = [6], positiveCheckId = Some 14\<rparr>"
    by code_simp
  with findings_are_the_worst [of Store sampleChecks] show ?thesis by auto
qed

end
