(* ===== verification/Contract_Schema.thy ===== *)
theory Contract_Schema
  imports Js_Json Js_Regex
begin

text \<open>
  The schemas the contract is written in. \<^verbatim>\<open>packages/contracts/src\<close> declares every document with
  the combinators of zod, a package the repository only calls; here a declaration is a value
  of \<open>schema\<close>, one constructor per combinator the contract uses, so that the documents of
  \<open>Contract_Documents\<close> and \<open>Contract_Card\<close> read as they are declared. What zod does with a
  declaration is not defined but passed in: \<open>safeParse\<close>, an argument of every definition that
  parses. What is relied upon is \<open>documentedZod\<close>, the documented behaviour combinator by
  combinator, and \<open>zodParse\<close> is a function that has it.

  A value is a JSON value; the absent one (\<open>undefined\<close>) is \<open>None\<close>, both for what is parsed and
  for what comes out, and a refusal is \<open>None\<close> outside of that. An object is read in the order of
  the schema's fields. A member named \<open>__proto__\<close> is dropped before anything is checked, as
  \<^verbatim>\<open>param-spec.ts\<close> notes and its test holds zod to. What zod says of a refused value is the
  list of issues, a parameter of its own where the code quotes it.
\<close>

datatype schema =
    ZString "(jstext \<Rightarrow> bool) list" \<comment> \<open>\<open>z.string()\<close> with its \<open>regex\<close>, \<open>min\<close>, \<open>max\<close> and \<open>refine\<close> checks\<close>
  | ZIsoDatetime \<comment> \<open>\<open>z.iso.datetime({ offset: true })\<close>\<close>
  | ZUrl "(jstext \<Rightarrow> bool) list" \<comment> \<open>\<open>z.url()\<close> with its \<open>regex\<close> checks\<close>
  | ZNumber \<comment> \<open>\<open>z.number()\<close>\<close>
  | ZInt "int option" \<comment> \<open>\<open>z.int()\<close>, \<open>z.int().min(n)\<close>; \<open>positive()\<close> is \<open>Some 1\<close>\<close>
  | ZBoolean
  | ZLiteral json
  | ZEnum "string list"
  | ZStrictObject "(jstext \<times> schema) list"
  | ZLooseObject "(jstext \<times> schema) list"
  | ZOptional schema
  | ZNullable schema
  | ZDefault json schema
  | ZArray schema nat "nat option" \<comment> \<open>\<open>z.array(s).min(lo).max(hi)\<close>\<close>
  | ZRecord schema schema
  | ZUnion "schema list"
  | ZDiscriminatedUnion jstext "schema list"
  | ZUnknown
  | ZRefine "json \<Rightarrow> bool" schema
  | ZPreprocess "json \<Rightarrow> json option" schema
  | ZPipe schema schema

text \<open>The combinators whose names are literals of the code.\<close>

definition literalNames :: "(string \<times> schema) list \<Rightarrow> (jstext \<times> schema) list" where
  "literalNames fs = map (\<lambda>(n, s). (u n, s)) fs"

definition strictObject :: "(string \<times> schema) list \<Rightarrow> schema" where
  "strictObject fs = ZStrictObject (literalNames fs)"

definition looseObject :: "(string \<times> schema) list \<Rightarrow> schema" where
  "looseObject fs = ZLooseObject (literalNames fs)"

definition discriminatedUnion :: "string \<Rightarrow> schema list \<Rightarrow> schema" where
  "discriminatedUnion field ss = ZDiscriminatedUnion (u field) ss"

type_synonym reading = "json option \<Rightarrow> json option option"

text \<open>The formats zod carries with it, as predicates on a string.\<close>

record formats =
  isIsoDatetime :: "jstext \<Rightarrow> bool"
  isUrl :: "jstext \<Rightarrow> bool"

definition PROTOTYPE_KEY_IS_DROPPED :: jstext where
  "PROTOTYPE_KEY_IS_DROPPED = u ''__proto__''"

definition ownMembers :: "(jstext \<times> json) list \<Rightarrow> (jstext \<times> json) list" where
  "ownMembers m = filter (\<lambda>(k, v). k \<noteq> PROTOTYPE_KEY_IS_DROPPED) m"

section \<open>Reading, combinator by combinator\<close>

fun readString :: "(jstext \<Rightarrow> bool) list \<Rightarrow> reading" where
  "readString checks (Some (JStr s)) =
     (if list_all (\<lambda>c. c s) checks then Some (Some (JStr s)) else None)"
| "readString checks j = None"

fun readNumber :: reading where
  "readNumber (Some (JNum r)) = Some (Some (JNum r))"
| "readNumber j = None"

text \<open>A whole number JavaScript holds exactly.\<close>

definition isSafeInteger :: "rat \<Rightarrow> bool" where
  "isSafeInteger r \<longleftrightarrow> r = of_int \<lfloor>r\<rfloor> \<and> \<bar>r\<bar> \<le> 2 ^ 53 - 1"

fun readInt :: "int option \<Rightarrow> reading" where
  "readInt least (Some (JNum r)) =
     (if isSafeInteger r \<and> (case least of None \<Rightarrow> True | Some n \<Rightarrow> of_int n \<le> r)
      then Some (Some (JNum r)) else None)"
| "readInt least j = None"

fun readBoolean :: reading where
  "readBoolean (Some (JBool b)) = Some (Some (JBool b))"
| "readBoolean j = None"

definition readLiteral :: "json \<Rightarrow> reading" where
  "readLiteral v j = (if j = Some v then Some j else None)"

definition readEnum :: "string list \<Rightarrow> reading" where
  "readEnum words j = (if j \<in> set (map (\<lambda>w. Some (JStr (u w))) words) then Some j else None)"

text \<open>The fields of an object in their order; an absent result leaves no field.\<close>

fun readFields :: "(jstext \<times> reading) list \<Rightarrow> (jstext \<times> json) list \<Rightarrow> (jstext \<times> json) list option" where
  "readFields [] m = Some []"
| "readFields ((name, r) # fs) m =
     (case r (map_of m name) of
        None \<Rightarrow> None
      | Some read \<Rightarrow>
          (case readFields fs m of
             None \<Rightarrow> None
           | Some rest \<Rightarrow>
               Some (case read of None \<Rightarrow> rest | Some v \<Rightarrow> (name, v) # rest)))"

definition unrecognised :: "(jstext \<times> 'a) list \<Rightarrow> (jstext \<times> json) list \<Rightarrow> (jstext \<times> json) list" where
  "unrecognised fs m = filter (\<lambda>(k, v). k \<notin> set (map fst fs)) m"

fun readObject :: "bool \<Rightarrow> (jstext \<times> reading) list \<Rightarrow> reading" where
  "readObject strict fs (Some (JObj m)) =
     (let own = ownMembers m; others = unrecognised fs own in
      if strict \<and> others \<noteq> [] then None
      else map_option (\<lambda>known. Some (JObj (known @ (if strict then [] else others))))
             (readFields fs own))"
| "readObject strict fs j = None"

fun readEach :: "reading \<Rightarrow> json list \<Rightarrow> json list option" where
  "readEach r [] = Some []"
| "readEach r (j # js) =
     (case (r (Some j), readEach r js) of
        (Some (Some v), Some vs) \<Rightarrow> Some (v # vs)
      | _ \<Rightarrow> None)"

fun readArray :: "reading \<Rightarrow> nat \<Rightarrow> nat option \<Rightarrow> reading" where
  "readArray r lo hi (Some (JArr js)) =
     (if lo \<le> length js \<and> (case hi of None \<Rightarrow> True | Some n \<Rightarrow> length js \<le> n)
      then map_option (Some \<circ> JArr) (readEach r js) else None)"
| "readArray r lo hi j = None"

text \<open>A record of free names: each name is read as a string, and each value under it.\<close>

fun readMembers :: "reading \<Rightarrow> reading \<Rightarrow> (jstext \<times> json) list \<Rightarrow> (jstext \<times> json) list option" where
  "readMembers rk rv [] = Some []"
| "readMembers rk rv ((k, j) # m) =
     (case (rk (Some (JStr k)), rv (Some j), readMembers rk rv m) of
        (Some (Some (JStr n)), Some (Some v), Some rest) \<Rightarrow> Some ((n, v) # rest)
      | _ \<Rightarrow> None)"

fun readRecord :: "reading \<Rightarrow> reading \<Rightarrow> reading" where
  "readRecord rk rv (Some (JObj m)) = map_option (Some \<circ> JObj) (readMembers rk rv (ownMembers m))"
| "readRecord rk rv j = None"

fun readUnion :: "reading list \<Rightarrow> reading" where
  "readUnion [] j = None"
| "readUnion (r # rs) j = (case r j of None \<Rightarrow> readUnion rs j | Some k \<Rightarrow> Some k)"

text \<open>The branch a discriminated union takes: the one whose literal the field holds.\<close>

definition isBranch :: "jstext \<Rightarrow> json option \<Rightarrow> schema \<Rightarrow> bool" where
  "isBranch field j s =
     (case (j, s) of
        (Some (JObj m), ZStrictObject fs) \<Rightarrow>
          (case map_of fs field of
             Some (ZLiteral v) \<Rightarrow> map_of (ownMembers m) field = Some v
           | _ \<Rightarrow> False)
      | _ \<Rightarrow> False)"

definition readBranch :: "(schema \<Rightarrow> reading) \<Rightarrow> jstext \<Rightarrow> schema list \<Rightarrow> reading" where
  "readBranch read field ss j =
     (case find (isBranch field j) ss of None \<Rightarrow> None | Some s \<Rightarrow> read s j)"

fun zodReads :: "formats \<Rightarrow> (schema \<Rightarrow> reading) \<Rightarrow> schema \<Rightarrow> reading" where
  "zodReads F sp (ZString checks) j = readString checks j"
| "zodReads F sp ZIsoDatetime j = readString [isIsoDatetime F] j"
| "zodReads F sp (ZUrl checks) j = readString (isUrl F # checks) j"
| "zodReads F sp ZNumber j = readNumber j"
| "zodReads F sp (ZInt least) j = readInt least j"
| "zodReads F sp ZBoolean j = readBoolean j"
| "zodReads F sp (ZLiteral v) j = readLiteral v j"
| "zodReads F sp (ZEnum words) j = readEnum words j"
| "zodReads F sp (ZStrictObject fs) j = readObject True (map (\<lambda>(n, s). (n, sp s)) fs) j"
| "zodReads F sp (ZLooseObject fs) j = readObject False (map (\<lambda>(n, s). (n, sp s)) fs) j"
| "zodReads F sp (ZOptional s) j = (if j = None then Some None else sp s j)"
| "zodReads F sp (ZNullable s) j = (if j = Some JNull then Some j else sp s j)"
| "zodReads F sp (ZDefault v s) j = (if j = None then Some (Some v) else sp s j)"
| "zodReads F sp (ZArray s lo hi) j = readArray (sp s) lo hi j"
| "zodReads F sp (ZRecord k v) j = readRecord (sp k) (sp v) j"
| "zodReads F sp (ZUnion ss) j = readUnion (map sp ss) j"
| "zodReads F sp (ZDiscriminatedUnion field ss) j = readBranch sp field ss j"
| "zodReads F sp ZUnknown j = Some j"
| "zodReads F sp (ZRefine p s) j =
     (case sp s j of Some (Some v) \<Rightarrow> if p v then Some (Some v) else None | r \<Rightarrow> r)"
| "zodReads F sp (ZPreprocess f s) j =
     (case j of None \<Rightarrow> sp s None
      | Some v \<Rightarrow> (case f v of None \<Rightarrow> None | Some w \<Rightarrow> sp s (Some w)))"
| "zodReads F sp (ZPipe s t) j = (case sp s j of None \<Rightarrow> None | Some k \<Rightarrow> sp t k)"

definition documentedZod :: "formats \<Rightarrow> (schema \<Rightarrow> reading) \<Rightarrow> bool" where
  "documentedZod F sp \<longleftrightarrow> (\<forall>s j. sp s j = zodReads F sp s j)"

lemma zod_reads: "documentedZod F sp \<Longrightarrow> sp s j = zodReads F sp s j"
  by (simp add: documentedZod_def)

section \<open>A function with that behaviour\<close>

lemma readBranch_cong [fundef_cong]:
  assumes "ss = ss'" "field = field'" "j = j'" "\<And>s i. s \<in> set ss' \<Longrightarrow> r s i = r' s i"
  shows "readBranch r field ss j = readBranch r' field' ss' j'"
proof (cases "find (isBranch field' j') ss'")
  case (Some s)
  then have "s \<in> set ss'" by (auto simp: find_Some_iff)
  with Some assms show ?thesis by (simp add: readBranch_def)
qed (use assms in \<open>simp add: readBranch_def\<close>)

function zodParse :: "formats \<Rightarrow> schema \<Rightarrow> reading" where
  "zodParse F (ZString checks) j = readString checks j"
| "zodParse F ZIsoDatetime j = readString [isIsoDatetime F] j"
| "zodParse F (ZUrl checks) j = readString (isUrl F # checks) j"
| "zodParse F ZNumber j = readNumber j"
| "zodParse F (ZInt least) j = readInt least j"
| "zodParse F ZBoolean j = readBoolean j"
| "zodParse F (ZLiteral v) j = readLiteral v j"
| "zodParse F (ZEnum words) j = readEnum words j"
| "zodParse F (ZStrictObject fs) j = readObject True (map (\<lambda>(n, s). (n, zodParse F s)) fs) j"
| "zodParse F (ZLooseObject fs) j = readObject False (map (\<lambda>(n, s). (n, zodParse F s)) fs) j"
| "zodParse F (ZOptional s) j = (if j = None then Some None else zodParse F s j)"
| "zodParse F (ZNullable s) j = (if j = Some JNull then Some j else zodParse F s j)"
| "zodParse F (ZDefault v s) j = (if j = None then Some (Some v) else zodParse F s j)"
| "zodParse F (ZArray s lo hi) j = readArray (zodParse F s) lo hi j"
| "zodParse F (ZRecord k v) j = readRecord (zodParse F k) (zodParse F v) j"
| "zodParse F (ZUnion ss) j = readUnion (map (zodParse F) ss) j"
| "zodParse F (ZDiscriminatedUnion field ss) j = readBranch (zodParse F) field ss j"
| "zodParse F ZUnknown j = Some j"
| "zodParse F (ZRefine p s) j =
     (case zodParse F s j of Some (Some v) \<Rightarrow> if p v then Some (Some v) else None | r \<Rightarrow> r)"
| "zodParse F (ZPreprocess f s) j =
     (case j of None \<Rightarrow> zodParse F s None
      | Some v \<Rightarrow> (case f v of None \<Rightarrow> None | Some w \<Rightarrow> zodParse F s (Some w)))"
| "zodParse F (ZPipe s t) j =
     (case zodParse F s j of None \<Rightarrow> None | Some k \<Rightarrow> zodParse F t k)"
  by pat_completeness auto

lemma size_field: "(n, s) \<in> set fs \<Longrightarrow> size s < Suc (size_list (size_prod (\<lambda>_. 0) size) fs)"
  by (induction fs) auto

termination zodParse
proof (relation "measure (\<lambda>(F, s, j). size s)", goal_cases)
qed (auto simp: size_field less_Suc_eq_le size_list_estimation' elim: size_field)

lemma zodParse_documented: "documentedZod F (zodParse F)"
  unfolding documentedZod_def
proof (intro allI)
  fix s j
  show "zodParse F s j = zodReads F (zodParse F) s j" by (cases s) simp_all
qed

end
