(* ===== verification/Contract_Documents.thy ===== *)
theory Contract_Documents
  imports Contract_Schema Evm_Address
begin

text \<open>
  The documents of \<^verbatim>\<open>packages/contracts/src\<close>, declared as the files declare them: the values of
  \<^verbatim>\<open>primitives.ts\<close>, the small words of \<^verbatim>\<open>selling.ts\<close>, \<^verbatim>\<open>order-status.ts\<close> and \<^verbatim>\<open>results.ts\<close>, the
  declared parameters of \<^verbatim>\<open>param-spec.ts\<close>, and the orders, prices, events, answers, receipts and
  keys that travel. A pattern is written as a pattern of \<open>Js_Regex\<close>. The descriptions and the
  sentences of the refusals are left out: no program branches on them.
\<close>

section \<open>Patterns\<close>

definition between :: "nat \<Rightarrow> nat \<Rightarrow> rx \<Rightarrow> rx" where
  "between lo hi r = seqs (replicate lo r @ replicate (hi - lo) (opt r))"

definition visible1 :: rx where
  "visible1 = One (\<lambda>c. \<not> isSpace c)"

text \<open>\<open>/\S/\<close>.\<close>

definition notBlank :: "jstext \<Rightarrow> bool" where
  "notBlank = test visible1"

text \<open>\<open>/^\S(?:[\s\S]*\S)?$/\<close>.\<close>

definition notPadded :: "jstext \<Rightarrow> bool" where
  "notPadded = test (seqs [AtStart, visible1, opt (seqs [star any1, visible1]), AtEnd])"

section \<open>Primitives\<close>

definition amountPattern :: rx where
  "amountPattern =
     seqs [AtStart,
       alts [unit1 48, seqs [One (\<lambda>c. 49 \<le> c \<and> c \<le> 57), between 0 17 digit1]],
       opt (seqs [unit1 46, between 1 18 digit1]), AtEnd]"

definition AmountSchema :: schema where
  "AmountSchema = ZString [test amountPattern]"

definition currencyPattern :: rx where
  "currencyPattern =
     seqs [AtStart, One isUpper, between 2 7 (One (\<lambda>c. isUpper c \<or> isDigit c)), AtEnd]"

definition CurrencyCodeSchema :: schema where
  "CurrencyCodeSchema = ZString [test currencyPattern]"

definition MoneySchema :: schema where
  "MoneySchema = strictObject [(''amount'', AmountSchema), (''currency'', CurrencyCodeSchema)]"

definition TimestampSchema :: schema where
  "TimestampSchema = ZIsoDatetime"

definition UNPRINTABLE :: "int \<Rightarrow> bool" where
  "UNPRINTABLE c \<longleftrightarrow>
     (0 \<le> c \<and> c \<le> 31) \<or> c = 127 \<or> (8203 \<le> c \<and> c \<le> 8207) \<or> (8288 \<le> c \<and> c \<le> 8292) \<or> c = 65279"

definition identifierPattern :: rx where
  "identifierPattern =
     seqs [AtStart, One (\<lambda>c. \<not> isSpace c \<and> \<not> UNPRINTABLE c),
       opt (seqs [star (One (\<lambda>c. \<not> UNPRINTABLE c)), One (\<lambda>c. \<not> isSpace c \<and> \<not> UNPRINTABLE c)]),
       AtEnd]"

definition IdentifierSchema :: schema where
  "IdentifierSchema = ZString [test identifierPattern]"

definition SalePriceSchema :: schema where
  "SalePriceSchema =
     strictObject [(''amount'', AmountSchema), (''currency'', CurrencyCodeSchema),
       (''at'', TimestampSchema), (''as_of'', TimestampSchema)]"

section \<open>Words\<close>

definition SELLING_STATES :: "string list" where
  "SELLING_STATES = [''open'', ''paused'', ''departed'']"

definition SellingStateSchema :: schema where
  "SellingStateSchema = ZEnum SELLING_STATES"

definition ORDER_STATUSES :: "string list" where
  "ORDER_STATUSES =
     [''in_progress'', ''delivered'', ''rejected'', ''payment_unresolved'', ''declined'', ''expired'',
      ''cancelled'', ''refund_due'', ''refunded'', ''delivered_unpaid'']"

definition OrderStatusSchema :: schema where
  "OrderStatusSchema = ZEnum ORDER_STATUSES"

definition ORDER_CALL_RESULTS :: "string list" where
  "ORDER_CALL_RESULTS =
     [''accepted'', ''delivered'', ''already_delivered'', ''debt_closed_by_delivery'', ''refused'',
      ''purchase_already_closed'']"

definition OrderCallResultSchema :: schema where
  "OrderCallResultSchema = ZEnum ORDER_CALL_RESULTS"

section \<open>Declared parameters\<close>

definition ParamTypeSchema :: schema where
  "ParamTypeSchema = ZEnum [''string'', ''number'', ''integer'', ''boolean'']"

definition isLetter :: "int \<Rightarrow> bool" where
  "isLetter c \<longleftrightarrow> isUpper c \<or> isLower c"

definition paramNamePattern :: rx where
  "paramNamePattern = seqs [AtStart, One isLetter, star (One isWord), AtEnd]"

definition ParamNameSchema :: schema where
  "ParamNameSchema = ZString [test paramNamePattern]"

definition FieldSpecSchema :: schema where
  "FieldSpecSchema =
     strictObject [(''type'', ParamTypeSchema), (''required'', ZOptional ZBoolean),
       (''title'', ZOptional (ZString [notBlank]))]"

definition ParamSpecSchema :: schema where
  "ParamSpecSchema = ZRecord ParamNameSchema FieldSpecSchema"

section \<open>Orders and prices\<close>

definition paramsSchema :: schema where
  "paramsSchema = ZRecord ParamNameSchema ZUnknown"

definition OrderSchema :: schema where
  "OrderSchema =
     strictObject [(''id'', IdentifierSchema), (''merchant_item_id'', IdentifierSchema),
       (''params'', paramsSchema), (''price'', SalePriceSchema),
       (''price_id'', ZOptional IdentifierSchema), (''test'', ZBoolean)]"

definition QuotePurposeSchema :: schema where
  "QuotePurposeSchema = ZEnum [''purchase'', ''poll'']"

definition QuoteRequestSchema :: schema where
  "QuoteRequestSchema =
     strictObject [(''merchant_item_id'', IdentifierSchema), (''params'', ZOptional paramsSchema),
       (''price_id'', IdentifierSchema), (''purpose'', QuotePurposeSchema),
       (''expires_at'', TimestampSchema)]"

definition QuoteResponseSchema :: schema where
  "QuoteResponseSchema =
     discriminatedUnion ''available''
       [strictObject [(''available'', ZLiteral (JBool True)), (''price'', MoneySchema),
          (''as_of'', TimestampSchema)],
        strictObject [(''available'', ZLiteral (JBool False)), (''as_of'', TimestampSchema)]]"

section \<open>Events and envelopes\<close>

definition RefundDueReasonSchema :: schema where
  "RefundDueReasonSchema = ZEnum [''refused'', ''deadline_passed'', ''merchant_left'']"

definition OrderEventSchema :: schema where
  "OrderEventSchema =
     discriminatedUnion ''type''
       [strictObject [(''type'', ZLiteral (JStr (u ''order.refund_due''))),
          (''order_id'', IdentifierSchema), (''at'', TimestampSchema), (''price'', MoneySchema),
          (''reason'', RefundDueReasonSchema)],
        strictObject [(''type'', ZLiteral (JStr (u ''order.unpaid_after_confirmation''))),
          (''order_id'', IdentifierSchema), (''at'', TimestampSchema)],
        strictObject [(''type'', ZLiteral (JStr (u ''order.payment_failed_after_delivery''))),
          (''order_id'', IdentifierSchema), (''at'', TimestampSchema)]]"

definition WORKER_ENVELOPE_PAYLOADS :: "(string \<times> schema) list" where
  "WORKER_ENVELOPE_PAYLOADS =
     [(''order'', OrderSchema), (''quote_request'', QuoteRequestSchema),
      (''order_event'', OrderEventSchema)]"

definition envelopeOf :: "string \<Rightarrow> schema \<Rightarrow> schema" where
  "envelopeOf kind payload =
     strictObject [(''kind'', ZLiteral (JStr (u kind))), (''id'', IdentifierSchema),
       (''sent_at'', TimestampSchema), (''payload'', payload)]"

definition WorkerEnvelopeSchema :: schema where
  "WorkerEnvelopeSchema =
     discriminatedUnion ''kind''
       [envelopeOf ''order'' OrderSchema, envelopeOf ''quote_request'' QuoteRequestSchema,
        envelopeOf ''order_event'' OrderEventSchema]"

section \<open>What a handler answers\<close>

definition RefusalCodeSchema :: schema where
  "RefusalCodeSchema = ZString [notBlank]"

definition RefusalSchema :: schema where
  "RefusalSchema = strictObject [(''code'', RefusalCodeSchema), (''message'', ZString [notBlank])]"

definition DeliverySchema :: schema where
  "DeliverySchema = ZRecord ParamNameSchema ZUnknown"

definition AcceptanceSchema :: schema where
  "AcceptanceSchema = strictObject [(''eta_seconds'', ZOptional (ZInt (Some 1)))]"

definition HandlerAnswerSchema :: schema where
  "HandlerAnswerSchema =
     ZUnion [strictObject [(''delivered'', DeliverySchema)],
       strictObject [(''refused'', RefusalSchema)],
       strictObject [(''accepted'', AcceptanceSchema)]]"

section \<open>Answers of the calls\<close>

definition ProblemSchema :: schema where
  "ProblemSchema =
     strictObject [(''path'', ZArray (ZString []) 0 None), (''code'', ZString [notBlank]),
       (''message'', ZString [notBlank])]"

definition callErrorFields :: "(string \<times> schema) list" where
  "callErrorFields =
     [(''code'', ZString [notBlank]), (''message'', ZString [notBlank]), (''retryable'', ZBoolean)]"

definition CallErrorSchema :: schema where
  "CallErrorSchema =
     strictObject (callErrorFields @ [(''problems'', ZOptional (ZArray ProblemSchema 1 None))])"

definition PublishRefusalSchema :: schema where
  "PublishRefusalSchema =
     strictObject (callErrorFields @ [(''problems'', ZArray ProblemSchema 1 None)])"

definition PublishResultSchema :: schema where
  "PublishResultSchema =
     discriminatedUnion ''ok''
       [strictObject [(''ok'', ZLiteral (JBool True)), (''id'', IdentifierSchema)],
        strictObject [(''ok'', ZLiteral (JBool False)), (''error'', PublishRefusalSchema)]]"

definition ReceiptOutcomeSchema :: schema where
  "ReceiptOutcomeSchema = ZEnum [''in_progress'', ''delivered'', ''refund_due'', ''refunded'']"

definition ReceiptSchema :: schema where
  "ReceiptSchema =
     strictObject [(''id'', IdentifierSchema), (''order_id'', IdentifierSchema),
       (''item_id'', IdentifierSchema), (''price'', SalePriceSchema),
       (''price_id'', ZOptional IdentifierSchema), (''paid_at'', TimestampSchema),
       (''outcome'', ReceiptOutcomeSchema), (''test'', ZBoolean)]"

section \<open>Merchants and keys\<close>

definition listedTextLimit :: nat where
  "listedTextLimit = 32"

text \<open>
  \<open>listedText(what)\<close> of \<^verbatim>\<open>card.ts\<close>, whose word is only for its sentences: a word the discovery
  channel can render.
\<close>

definition listedTextSchema :: schema where
  "listedTextSchema =
     ZString
       [\<lambda>s. 1 \<le> length s, \<lambda>s. length s \<le> listedTextLimit,
        test (seqs [AtStart, star (One (\<lambda>c. 32 \<le> c \<and> c \<le> 126)), AtEnd]), notPadded]"

definition ListedNameSchema :: schema where
  "ListedNameSchema = listedTextSchema"

text \<open>The text of an address as the functions of \<open>Evm_Address\<close> take it, where it is ASCII.\<close>

definition isAddressText :: "jstext \<Rightarrow> bool" where
  "isAddressText s \<longleftrightarrow>
     list_all (\<lambda>c. 0 \<le> c \<and> c < 128) s \<and> Evm_Address.EvmAddressSchema (map (char_of \<circ> nat) s)"

definition addressSchema :: schema where
  "addressSchema = ZString [isAddressText]"

definition KeyLabelSchema :: schema where
  "KeyLabelSchema = ZString [notPadded]"

definition KeySecretSchema :: schema where
  "KeySecretSchema = ZString [test (seqs [AtStart, plus1 visible1, AtEnd])]"

definition InvitationSchema :: schema where
  "InvitationSchema = ZString [notBlank]"

definition MerchantKeySchema :: schema where
  "MerchantKeySchema =
     strictObject [(''id'', IdentifierSchema), (''label'', KeyLabelSchema),
       (''created_at'', TimestampSchema), (''last_used_at'', ZNullable TimestampSchema),
       (''disabled_at'', ZNullable TimestampSchema)]"

definition MerchantKeyListSchema :: schema where
  "MerchantKeyListSchema =
     strictObject [(''keys'', ZArray MerchantKeySchema 0 None), (''this_call'', IdentifierSchema)]"

definition IssueKeyRequestSchema :: schema where
  "IssueKeyRequestSchema = strictObject [(''label'', KeyLabelSchema)]"

definition IssuedKeySchema :: schema where
  "IssuedKeySchema = strictObject [(''key'', MerchantKeySchema), (''secret'', KeySecretSchema)]"

definition DisabledKeySchema :: schema where
  "DisabledKeySchema = strictObject [(''key'', MerchantKeySchema)]"

definition CabinetKeySchema :: schema where
  "CabinetKeySchema = strictObject [(''secret'', KeySecretSchema)]"

definition ForgottenCabinetKeySchema :: schema where
  "ForgottenCabinetKeySchema = strictObject [(''forgotten'', ZLiteral (JBool True))]"

definition SellerNameSchema :: schema where
  "SellerNameSchema = strictObject [(''seller_name'', ZNullable ListedNameSchema)]"

definition SellerNameRequestSchema :: schema where
  "SellerNameRequestSchema =
     strictObject [(''seller_name'', ZPipe (ZString []) ListedNameSchema)]"

definition PayoutWalletSchema :: schema where
  "PayoutWalletSchema = strictObject [(''payout_wallet'', ZNullable addressSchema)]"

definition PayoutWalletRequestSchema :: schema where
  "PayoutWalletRequestSchema =
     strictObject [(''payout_wallet'', ZPipe (ZString []) addressSchema)]"

definition RegistrationRequestSchema :: schema where
  "RegistrationRequestSchema = strictObject [(''invitation'', InvitationSchema)]"

definition RegisteredMerchantSchema :: schema where
  "RegisteredMerchantSchema =
     strictObject [(''merchant_id'', IdentifierSchema), (''secret'', KeySecretSchema)]"

end
