(* ===== verification/Contract_Card.thy ===== *)
theory Contract_Card
  imports Contract_Documents
begin

text \<open>
  One product, \<^verbatim>\<open>packages/contracts/src/card.ts\<close>: the card a merchant publishes with its short
  forms and its rules, the checks a purchase and a delivery are held to (compiled by
  \<open>paramSpecToValidator\<close> of \<^verbatim>\<open>param-spec.ts\<close>), and the three shapes a card is read back in: by
  an agent, by a discovery catalog and by its merchant. A parsed card is the JSON object the
  schema gives out, and a field of it is read with \<open>field\<close>. \<open>z.toJSONSchema\<close> is zod's and a
  parameter.
\<close>

definition field :: "json \<Rightarrow> string \<Rightarrow> json option" where
  "field j name = property j (u name)"

text \<open>An object written with the fields that have a value.\<close>

definition present :: "(string \<times> json option) list \<Rightarrow> json" where
  "present fs = JObj (concat (map (\<lambda>(n, v). case v of None \<Rightarrow> [] | Some w \<Rightarrow> [(u n, w)]) fs))"

section \<open>The fields of a card\<close>

definition FulfillmentSchema :: schema where
  "FulfillmentSchema = ZEnum [''sync'', ''async'', ''confirm'']"

definition isHttps :: "jstext \<Rightarrow> bool" where
  "isHttps = test (seqs [AtStart, litI ''https://''])"

definition PriceCheckSchema :: schema where
  "PriceCheckSchema =
     ZUnion [ZLiteral (JStr (u ''handler'')), strictObject [(''url'', ZUrl [isHttps])]]"

definition TitleSchema :: schema where
  "TitleSchema = ZString [notBlank]"

definition LISTED_TAGS_MAX :: nat where
  "LISTED_TAGS_MAX = 5"

fun tagText :: "json \<Rightarrow> jstext" where
  "tagText (JStr s) = s"
| "tagText j = []"

fun noTwoAlike :: "json \<Rightarrow> bool" where
  "noTwoAlike (JArr tags) =
     (length (unique (map (\<lambda>tag. lower (tagText tag)) tags)) = length tags)"
| "noTwoAlike j = True"

definition TagsSchema :: schema where
  "TagsSchema = ZRefine noTwoAlike (ZArray listedTextSchema 1 (Some LISTED_TAGS_MAX))"

definition LISTED_DESCRIPTION_MAX :: nat where
  "LISTED_DESCRIPTION_MAX = 500"

definition DescriptionSchema :: schema where
  "DescriptionSchema = ZString [notBlank, \<lambda>s. length s \<le> LISTED_DESCRIPTION_MAX]"

text \<open>A result that promises something: a field that is not marked as one that may be missing.\<close>

fun someFieldArrives :: "json \<Rightarrow> bool" where
  "someFieldArrives (JObj spec) =
     list_ex (\<lambda>(name, declared). field declared ''required'' \<noteq> Some (JBool False)) spec"
| "someFieldArrives j = False"

definition DeclaredResultSchema :: schema where
  "DeclaredResultSchema = ZRefine someFieldArrives ParamSpecSchema"

section \<open>The short forms\<close>

text \<open>\<open>/^(\S+) (\S+)$/\<close> and its two groups.\<close>

definition PRICE_WRITTEN_SHORT :: "jstext \<Rightarrow> (jstext \<times> jstext) option" where
  "PRICE_WRITTEN_SHORT s =
     (case (takeWhile (\<lambda>c. \<not> isSpace c) s, dropWhile (\<lambda>c. \<not> isSpace c) s) of
        (amount, c # code) \<Rightarrow>
          (if amount \<noteq> [] \<and> c = 32 \<and> code \<noteq> [] \<and> list_all (\<lambda>c. \<not> isSpace c) code
           then Some (amount, code) else None)
      | (amount, []) \<Rightarrow> None)"

fun priceWrittenOut :: "json \<Rightarrow> json option" where
  "priceWrittenOut (JStr s) =
     (case PRICE_WRITTEN_SHORT s of
        None \<Rightarrow> None
      | Some (amount, code) \<Rightarrow>
          Some (JObj [(u ''amount'', JStr amount), (u ''currency'', JStr code)]))"
| "priceWrittenOut j = Some j"

definition CardPriceSchema :: schema where
  "CardPriceSchema = ZPreprocess priceWrittenOut MoneySchema"

fun fieldWrittenOut :: "json \<Rightarrow> json" where
  "fieldWrittenOut (JStr word) = JObj [(u ''type'', JStr word)]"
| "fieldWrittenOut j = j"

fun declarationWrittenOut :: "json \<Rightarrow> json" where
  "declarationWrittenOut (JObj m) = JObj (map (\<lambda>(name, declared). (name, fieldWrittenOut declared)) m)"
| "declarationWrittenOut j = j"

definition writtenShort :: "schema \<Rightarrow> schema" where
  "writtenShort declaration = ZPreprocess (\<lambda>j. Some (declarationWrittenOut j)) declaration"

section \<open>The card\<close>

definition cardFields :: "(string \<times> schema) list" where
  "cardFields =
     [(''merchant_item_id'', IdentifierSchema), (''title'', TitleSchema),
      (''description'', DescriptionSchema), (''price'', CardPriceSchema),
      (''params'', ZOptional (writtenShort ParamSpecSchema)),
      (''result'', writtenShort DeclaredResultSchema), (''tags'', ZOptional TagsSchema),
      (''fulfillment'', ZDefault (JStr (u ''sync'')) FulfillmentSchema),
      (''price_check'', ZOptional PriceCheckSchema),
      (''confirm_deadline_seconds'', ZOptional (ZInt (Some 1))),
      (''fulfill_deadline_seconds'', ZOptional (ZInt (Some 1)))]"

definition CardFieldsSchema :: schema where
  "CardFieldsSchema = strictObject cardFields"

definition modeIs :: "string \<Rightarrow> json \<Rightarrow> bool" where
  "modeIs mode' product \<longleftrightarrow> field product ''fulfillment'' = Some (JStr (u mode'))"

definition deadlinesFit :: "json \<Rightarrow> bool" where
  "deadlinesFit product =
     (if modeIs ''confirm'' product then False
      else field product ''confirm_deadline_seconds'' = None
           \<and> \<not> (modeIs ''sync'' product \<and> field product ''fulfill_deadline_seconds'' \<noteq> None))"

definition CardSchema :: schema where
  "CardSchema = ZRefine deadlinesFit CardFieldsSchema"

section \<open>The checks a card is compiled to\<close>

datatype ParamSpecDirection = ForPurchase | ForDelivery

text \<open>A parsed declaration names one of four types; the last of them is what is left.\<close>

definition checkFor :: "json option \<Rightarrow> ParamSpecDirection \<Rightarrow> schema" where
  "checkFor type direction =
     (if type = Some (JStr (u ''string''))
      then (case direction of ForDelivery \<Rightarrow> ZString [notBlank] | ForPurchase \<Rightarrow> ZString [])
      else if type = Some (JStr (u ''number'')) then ZNumber
      else if type = Some (JStr (u ''integer'')) then ZInt None
      else ZBoolean)"

definition isRequired :: "json \<Rightarrow> ParamSpecDirection \<Rightarrow> bool" where
  "isRequired declared direction =
     (case field declared ''required'' of
        Some (JBool b) \<Rightarrow> b
      | _ \<Rightarrow> direction = ForDelivery)"

definition fieldCheck :: "ParamSpecDirection \<Rightarrow> json \<Rightarrow> schema" where
  "fieldCheck direction declared =
     (let check = checkFor (field declared ''type'') direction
      in if isRequired declared direction then check else ZOptional check)"

fun paramSpecToValidator :: "json \<Rightarrow> ParamSpecDirection \<Rightarrow> schema" where
  "paramSpecToValidator (JObj spec) direction =
     ZStrictObject (map (\<lambda>(name, declared). (name, fieldCheck direction declared)) spec)"
| "paramSpecToValidator j direction = ZStrictObject []"

definition declaredParams :: "json \<Rightarrow> json" where
  "declaredParams product = (case field product ''params'' of None \<Rightarrow> JObj [] | Some spec \<Rightarrow> spec)"

definition declaredResult :: "json \<Rightarrow> json" where
  "declaredResult product = (case field product ''result'' of None \<Rightarrow> JObj [] | Some spec \<Rightarrow> spec)"

definition purchaseCheckFor :: "json \<Rightarrow> schema" where
  "purchaseCheckFor product = paramSpecToValidator (declaredParams product) ForPurchase"

definition deliveryCheckFor :: "json \<Rightarrow> schema" where
  "deliveryCheckFor product = paramSpecToValidator (declaredResult product) ForDelivery"

section \<open>The card as an agent reads it\<close>

definition publicCardFields :: "(string \<times> schema) list" where
  "publicCardFields =
     [(''id'', IdentifierSchema), (''title'', TitleSchema), (''description'', DescriptionSchema),
      (''price'', MoneySchema), (''as_of'', TimestampSchema),
      (''params'', ZOptional ParamSpecSchema), (''result'', DeclaredResultSchema),
      (''price_checked_at_purchase'', ZBoolean)]"

definition PublicCardSchema :: schema where
  "PublicCardSchema =
     discriminatedUnion ''fulfillment''
       [strictObject (publicCardFields @ [(''fulfillment'', ZLiteral (JStr (u ''sync'')))]),
        strictObject (publicCardFields @
          [(''fulfillment'', ZLiteral (JStr (u ''async''))),
           (''fulfill_deadline_seconds'', ZOptional (ZInt (Some 1)))]),
        strictObject (publicCardFields @
          [(''fulfillment'', ZLiteral (JStr (u ''confirm''))),
           (''confirm_deadline_seconds'', ZOptional (ZInt (Some 1))),
           (''fulfill_deadline_seconds'', ZOptional (ZInt (Some 1)))])]"

definition publicCardDocument :: "json \<Rightarrow> jstext \<Rightarrow> jstext \<Rightarrow> json" where
  "publicCardDocument product issuedId issuedAsOf =
     (let common =
            [(''id'', Some (JStr issuedId)), (''title'', field product ''title''),
             (''description'', field product ''description''), (''price'', field product ''price''),
             (''as_of'', Some (JStr issuedAsOf)), (''params'', field product ''params''),
             (''result'', field product ''result''),
             (''price_checked_at_purchase'', Some (JBool (field product ''price_check'' \<noteq> None)))]
      in if modeIs ''sync'' product
         then present (common @ [(''fulfillment'', Some (JStr (u ''sync'')))])
         else if modeIs ''async'' product
         then present (common @
                [(''fulfillment'', Some (JStr (u ''async''))),
                 (''fulfill_deadline_seconds'', field product ''fulfill_deadline_seconds'')])
         else present (common @
                [(''fulfillment'', Some (JStr (u ''confirm''))),
                 (''confirm_deadline_seconds'', field product ''confirm_deadline_seconds''),
                 (''fulfill_deadline_seconds'', field product ''fulfill_deadline_seconds'')]))"

section \<open>The card as a discovery catalog reads it\<close>

record BazaarDeclaration =
  bazaarResource :: json
  bazaarInput :: json
  bazaarInputSchema :: json
  bazaarOutputExample :: json

definition standInFor :: "json option \<Rightarrow> json" where
  "standInFor type =
     (if type = Some (JStr (u ''string'')) then JStr (u ''string'')
      else if type = Some (JStr (u ''number'')) \<or> type = Some (JStr (u ''integer'')) then JNum 0
      else JBool False)"

fun exampleOf :: "json \<Rightarrow> json" where
  "exampleOf (JObj spec) =
     JObj (map (\<lambda>(name, declared). (name, standInFor (field declared ''type''))) spec)"
| "exampleOf j = JObj []"

text \<open>The body's own schema, without the line that names its dialect.\<close>

fun withoutDialect :: "json \<Rightarrow> json" where
  "withoutDialect (JObj m) = JObj (filter (\<lambda>(k, v). k \<noteq> u ''$schema'') m)"
| "withoutDialect j = j"

definition purchaseBodySchemaOf :: "(schema \<Rightarrow> json) \<Rightarrow> json \<Rightarrow> json" where
  "purchaseBodySchemaOf toJSONSchema product =
     withoutDialect (toJSONSchema (strictObject [(''params'', purchaseCheckFor product)]))"

definition bazaarDeclarationOf ::
  "(schema \<Rightarrow> json) \<Rightarrow> json \<Rightarrow> jstext \<Rightarrow> jstext option \<Rightarrow> BazaarDeclaration" where
  "bazaarDeclarationOf toJSONSchema product url serviceName =
     \<lparr>bazaarResource =
        present
          [(''url'', Some (JStr url)), (''description'', field product ''description''),
           (''mimeType'', Some (JStr (u ''application/json''))),
           (''serviceName'', map_option JStr serviceName), (''tags'', field product ''tags'')],
      bazaarInput = JObj [(u ''params'', exampleOf (declaredParams product))],
      bazaarInputSchema = purchaseBodySchemaOf toJSONSchema product,
      bazaarOutputExample = exampleOf (declaredResult product)\<rparr>"

section \<open>The card as its merchant reads it back\<close>

definition MerchantCardSchema :: schema where
  "MerchantCardSchema =
     strictObject
       [(''id'', IdentifierSchema), (''as_of'', TimestampSchema), (''card'', CardSchema),
        (''selling'', SellingStateSchema), (''paused'', ZBoolean)]"

end
