(* ===== verification/Contract_Api.thy ===== *)
theory Contract_Api
  imports Contract_Card
begin

text \<open>
  The HTTP surface, \<^verbatim>\<open>packages/contracts/src/api.ts\<close>: the documents its calls exchange, the table
  of calls both programs read, the address of one call with its parameters filled in, the
  header the merchant's key travels in, and the one envelope every refusal arrives in. The
  sentences of the descriptions are left out of the table. \<open>encodeURIComponent\<close> is the standard
  library's, a thrown error is \<open>Inl\<close>.
\<close>

section \<open>Documents\<close>

definition OrderWithStatusSchema :: schema where
  "OrderWithStatusSchema =
     strictObject [(''id'', IdentifierSchema), (''merchant_item_id'', IdentifierSchema),
       (''params'', paramsSchema), (''price'', SalePriceSchema),
       (''price_id'', ZOptional IdentifierSchema), (''test'', ZBoolean),
       (''status'', OrderStatusSchema)]"

definition OrderListSchema :: schema where
  "OrderListSchema = strictObject [(''orders'', ZArray OrderWithStatusSchema 0 None)]"

definition MerchantCardListSchema :: schema where
  "MerchantCardListSchema =
     strictObject [(''selling'', SellingStateSchema), (''cards'', ZArray MerchantCardSchema 0 None)]"

definition ReceiptListSchema :: schema where
  "ReceiptListSchema = strictObject [(''receipts'', ZArray ReceiptSchema 0 None)]"

definition OrderListQuerySchema :: schema where
  "OrderListQuerySchema = strictObject [(''open'', ZOptional (ZEnum [''true'', ''false'']))]"

definition WorkerPollRequestSchema :: schema where
  "WorkerPollRequestSchema =
     strictObject [(''wait_seconds'', ZOptional (ZInt (Some 0))), (''max'', ZOptional (ZInt (Some 1)))]"

definition WorkerPollResponseSchema :: schema where
  "WorkerPollResponseSchema =
     strictObject [(''contract_version'', ZString [notBlank]),
       (''envelopes'', ZArray WorkerEnvelopeSchema 0 None)]"

definition OrderCallFailedSchema :: schema where
  "OrderCallFailedSchema =
     strictObject [(''ok'', ZLiteral (JBool False)), (''error'', CallErrorSchema)]"

definition OrderCallResponseSchema :: schema where
  "OrderCallResponseSchema =
     discriminatedUnion ''ok''
       [strictObject [(''ok'', ZLiteral (JBool True)), (''result'', OrderCallResultSchema)],
        OrderCallFailedSchema]"

definition OrderAcceptResponseSchema :: schema where
  "OrderAcceptResponseSchema =
     discriminatedUnion ''ok''
       [strictObject [(''ok'', ZLiteral (JBool True))], OrderCallFailedSchema]"

definition QuoteAnswerAckSchema :: schema where
  "QuoteAnswerAckSchema = strictObject [(''used'', ZBoolean)]"

definition PurchaseRequestSchema :: schema where
  "PurchaseRequestSchema = strictObject [(''params'', paramsSchema)]"

definition AgentOrderStatusSchema :: schema where
  "AgentOrderStatusSchema =
     strictObject [(''order_id'', IdentifierSchema), (''status'', OrderStatusSchema),
       (''price'', ZNullable SalePriceSchema), (''delivered'', ZNullable DeliverySchema),
       (''test'', ZBoolean), (''refusal'', ZOptional RefusalSchema)]"

definition CatalogPageSchema :: schema where
  "CatalogPageSchema = strictObject [(''items'', ZArray PublicCardSchema 0 None)]"

definition ErrorEnvelopeSchema :: schema where
  "ErrorEnvelopeSchema =
     strictObject
       [(''error'',
         looseObject
           [(''code'', ZString [notBlank]), (''message'', ZString [notBlank]),
            (''retryable'', ZBoolean)])]"

section \<open>The table of calls\<close>

datatype HttpMethod = GET | POST | DELETE

datatype AuthMode = BehindMerchantKey | BehindNothing | BehindOrderId | Undecided

record RouteDefinition =
  routeMethod :: HttpMethod
  routePath :: jstext
  routeAuth :: AuthMode
  routeQuery :: "schema option"
  routeRequest :: "schema option"
  routeDocument :: schema
  routeAlso :: "HttpMethod list"

definition route ::
  "HttpMethod \<Rightarrow> string \<Rightarrow> AuthMode \<Rightarrow> schema option \<Rightarrow> schema option \<Rightarrow> schema \<Rightarrow> HttpMethod list
     \<Rightarrow> RouteDefinition" where
  "route method path auth query request document also_answers_on =
     \<lparr>routeMethod = method, routePath = u path, routeAuth = auth, routeQuery = query,
      routeRequest = request, routeDocument = document, routeAlso = also_answers_on\<rparr>"

definition shopRoutes :: "(string \<times> RouteDefinition) list" where
  "shopRoutes =
     [
      (''publish_card'',
        route POST ''/v0/catalog/publish'' BehindMerchantKey None (Some CardSchema)
          PublishResultSchema []),
      (''list_merchant_cards'',
        route GET ''/v0/cards'' BehindMerchantKey None None
          MerchantCardListSchema []),
      (''pause_card'',
        route POST ''/v0/cards/:item_id/pause'' BehindMerchantKey None None
          MerchantCardSchema []),
      (''resume_card'',
        route POST ''/v0/cards/:item_id/resume'' BehindMerchantKey None None
          MerchantCardSchema []),
      (''pause_selling'',
        route POST ''/v0/selling/pause'' BehindMerchantKey None None
          MerchantCardListSchema []),
      (''resume_selling'',
        route POST ''/v0/selling/resume'' BehindMerchantKey None None
          MerchantCardListSchema []),
      (''register_merchant'',
        route POST ''/v0/merchants'' BehindNothing None (Some RegistrationRequestSchema)
          RegisteredMerchantSchema []),
      (''get_seller_name'',
        route GET ''/v0/seller-name'' BehindMerchantKey None None
          SellerNameSchema []),
      (''set_seller_name'',
        route POST ''/v0/seller-name'' BehindMerchantKey None (Some SellerNameRequestSchema)
          SellerNameSchema []),
      (''get_payout_wallet'',
        route GET ''/v0/payout-wallet'' BehindMerchantKey None None
          PayoutWalletSchema []),
      (''set_payout_wallet'',
        route POST ''/v0/payout-wallet'' BehindMerchantKey None (Some PayoutWalletRequestSchema)
          PayoutWalletSchema []),
      (''list_keys'',
        route GET ''/v0/keys'' BehindMerchantKey None None
          MerchantKeyListSchema []),
      (''issue_key'',
        route POST ''/v0/keys'' BehindMerchantKey None (Some IssueKeyRequestSchema)
          IssuedKeySchema []),
      (''disable_key'',
        route POST ''/v0/keys/:key_id/disable'' BehindMerchantKey None None
          DisabledKeySchema []),
      (''issue_cabinet_key'',
        route POST ''/v0/keys/cabinet'' BehindMerchantKey None None
          CabinetKeySchema []),
      (''forget_cabinet_key'',
        route DELETE ''/v0/keys/cabinet'' BehindMerchantKey None None
          ForgottenCabinetKeySchema [])]"

definition tradeRoutes :: "(string \<times> RouteDefinition) list" where
  "tradeRoutes =
     [
      (''get_order'',
        route GET ''/v0/orders/:order_id'' BehindMerchantKey None None
          OrderWithStatusSchema []),
      (''list_orders'',
        route GET ''/v0/orders'' BehindMerchantKey (Some OrderListQuerySchema) None
          OrderListSchema []),
      (''list_receipts'',
        route GET ''/v0/receipts'' BehindMerchantKey None None
          ReceiptListSchema []),
      (''poll_worker'',
        route POST ''/v0/worker/poll'' BehindMerchantKey None (Some WorkerPollRequestSchema)
          WorkerPollResponseSchema []),
      (''answer_order'',
        route POST ''/v0/orders/:order_id/answer'' BehindMerchantKey None (Some HandlerAnswerSchema)
          OrderCallResponseSchema []),
      (''deliver_order'',
        route POST ''/v0/orders/:order_id/deliver'' BehindMerchantKey None (Some DeliverySchema)
          OrderCallResponseSchema []),
      (''refuse_order'',
        route POST ''/v0/orders/:order_id/refuse'' BehindMerchantKey None (Some RefusalSchema)
          OrderCallResponseSchema []),
      (''accept_order'',
        route POST ''/v0/orders/:order_id/accept'' BehindMerchantKey None (Some AcceptanceSchema)
          OrderAcceptResponseSchema []),
      (''answer_quote'',
        route POST ''/v0/quotes/:price_id/answer'' BehindMerchantKey None (Some QuoteResponseSchema)
          QuoteAnswerAckSchema []),
      (''list_catalog'',
        route GET ''/x402/catalog'' BehindNothing None None
          CatalogPageSchema []),
      (''purchase_item'',
        route POST ''/x402/:item_id/purchase'' BehindNothing None (Some PurchaseRequestSchema)
          AgentOrderStatusSchema [GET]),
      (''get_order_status'',
        route GET ''/x402/orders/:order_id/status'' BehindOrderId None None
          AgentOrderStatusSchema [])]"

definition API_ROUTES :: "(string \<times> RouteDefinition) list" where
  "API_ROUTES = shopRoutes @ tradeRoutes"

definition mountableRoutes :: "(string \<times> RouteDefinition) list" where
  "mountableRoutes = filter (\<lambda>(name, r). routeAuth r \<noteq> Undecided) API_ROUTES"

section \<open>The address of one call\<close>

text \<open>
  A template read as the pattern \<open>/:([a-z][a-z0-9_]*)/g\<close> reads it: at a colon before a lower-case
  letter stands a parameter, whose name runs on as far as it can.
\<close>

datatype PathPiece = PathUnit int | PathParam jstext

definition isNameUnit :: "int \<Rightarrow> bool" where
  "isNameUnit c \<longleftrightarrow> isLower c \<or> isDigit c \<or> c = 95"

fun startsName :: "jstext \<Rightarrow> bool" where
  "startsName [] = False"
| "startsName (c # s) = isLower c"

function pathPieces :: "jstext \<Rightarrow> PathPiece list" where
  "pathPieces [] = []"
| "pathPieces (c # s) =
     (if c = 58 \<and> startsName s
      then PathParam (takeWhile isNameUnit s) # pathPieces (dropWhile isNameUnit s)
      else PathUnit c # pathPieces s)"
  by pat_completeness auto
termination
  by (relation "measure length") (auto simp: less_Suc_eq_le length_dropWhile_le)

fun paramName :: "PathPiece \<Rightarrow> jstext list" where
  "paramName (PathParam name) = [name]"
| "paramName (PathUnit c) = []"

definition pathParamsOf :: "jstext \<Rightarrow> jstext list" where
  "pathParamsOf path = concat (map paramName (pathPieces path))"

text \<open>\<open>encodeURIComponent\<close>: what it leaves alone, and the bytes of everything else.\<close>

definition isUnreserved :: "int \<Rightarrow> bool" where
  "isUnreserved c \<longleftrightarrow>
     isDigit c \<or> isUpper c \<or> isLower c \<or> c \<in> {33, 39, 40, 41, 42, 45, 46, 95, 126}"

definition upperHexUnit :: "int \<Rightarrow> int" where
  "upperHexUnit d = (if d < 10 then d + 48 else d + 55)"

definition percentByte :: "int \<Rightarrow> jstext" where
  "percentByte b = [37, upperHexUnit (b div 16), upperHexUnit (b mod 16)]"

definition utf8Bytes :: "int \<Rightarrow> int list" where
  "utf8Bytes point =
     (if point < 128 then [point]
      else if point < 2048 then [192 + point div 64, 128 + point mod 64]
      else if point < 65536 then
        [224 + point div 4096, 128 + point div 64 mod 64, 128 + point mod 64]
      else
        [240 + point div 262144, 128 + point div 4096 mod 64, 128 + point div 64 mod 64,
         128 + point mod 64])"

definition pairPoint :: "int \<Rightarrow> int \<Rightarrow> int" where
  "pairPoint high low = 65536 + (high - 55296) * 1024 + (low - 56320)"

definition encodedPoint :: "int \<Rightarrow> jstext" where
  "encodedPoint point = concat (map percentByte (utf8Bytes point))"

definition URI_MALFORMED :: jstext where
  "URI_MALFORMED = u ''URI malformed''"

fun encodeURIComponent :: "jstext \<Rightarrow> jstext + jstext" where
  "encodeURIComponent [] = Inr []"
| "encodeURIComponent (c # s) =
     (if isUnreserved c then map_sum id (\<lambda>r. c # r) (encodeURIComponent s)
      else if isLowSurrogate c then Inl URI_MALFORMED
      else if isHighSurrogate c then
        (case s of
           [] \<Rightarrow> Inl URI_MALFORMED
         | d # t \<Rightarrow>
             (if isLowSurrogate d
              then map_sum id (\<lambda>r. encodedPoint (pairPoint c d) @ r) (encodeURIComponent t)
              else Inl URI_MALFORMED))
      else map_sum id (\<lambda>r. encodedPoint c @ r) (encodeURIComponent s))"

text \<open>The value put in for one parameter.\<close>

definition quoted :: "jstext \<Rightarrow> jstext" where
  "quoted path = [34] @ path @ [34]"

definition neededValue :: "jstext \<Rightarrow> jstext" where
  "neededValue name = u '' needs a value for '' @ quoted (u '':'' @ name) @ u '' and was given none''"

definition pathValue :: "jstext \<Rightarrow> (jstext \<times> json) list \<Rightarrow> jstext \<Rightarrow> jstext + jstext" where
  "pathValue path values' name =
     (case map_of values' name of
        Some (JStr v) \<Rightarrow>
          (if v = [] then
             Inl (quoted path @ neededValue name)
           else if v = u ''.'' \<or> v = u ''..'' then
             Inl (quoted path @ u '' was given '' @ writeString v @ u '' for '' @ quoted (u '':'' @ name)
                  @ u '', which is a step through the path rather than a value in it'')
           else encodeURIComponent v)
      | _ \<Rightarrow> Inl (quoted path @ neededValue name))"

fun fillPieces :: "(jstext \<Rightarrow> jstext + jstext) \<Rightarrow> PathPiece list \<Rightarrow> jstext + jstext" where
  "fillPieces f [] = Inr []"
| "fillPieces f (PathUnit c # ps) = map_sum id (\<lambda>r. c # r) (fillPieces f ps)"
| "fillPieces f (PathParam name # ps) =
     (case f name of
        Inl e \<Rightarrow> Inl e
      | Inr v \<Rightarrow> map_sum id (\<lambda>r. v @ r) (fillPieces f ps))"

definition expandPath :: "jstext \<Rightarrow> (jstext \<times> json) list \<Rightarrow> jstext + jstext" where
  "expandPath path values' =
     (let wanted = pathParamsOf path;
          unwanted = filter (\<lambda>name. name \<notin> set wanted) (map fst values')
      in if unwanted \<noteq> [] then
           Inl (quoted path @ u '' takes ''
                @ (if wanted = [] then u ''no path parameters'' else joinText (u '', '') wanted)
                @ u '', so there is nowhere to put '' @ joinText (u '', '') unwanted)
         else fillPieces (pathValue path values') (pathPieces path))"

section \<open>The merchant's key in its header\<close>

definition MERCHANT_KEY_HEADER :: jstext where
  "MERCHANT_KEY_HEADER = u ''authorization''"

definition merchantKeyHeaderValue :: "jstext \<Rightarrow> jstext" where
  "merchantKeyHeaderValue key = u ''Bearer'' @ u '' '' @ key"

text \<open>\<open>/^Bearer[ \t]+(\S+)$/i\<close> on the trimmed value: the scheme in either case, blanks, the key.\<close>

definition merchantKeyFrom :: "jstext option \<Rightarrow> jstext option" where
  "merchantKeyFrom headerValue =
     (case headerValue of
        None \<Rightarrow> None
      | Some presented \<Rightarrow>
          (let t = trim presented; after = drop 6 t;
               key = dropWhile (\<lambda>c. c = 32 \<or> c = 9) after
           in if list_all2 (\<lambda>c d. c = d \<or> (isUpper c \<and> c + 32 = d)) (take 6 t) (u ''bearer'')
                 \<and> takeWhile (\<lambda>c. c = 32 \<or> c = 9) after \<noteq> []
                 \<and> key \<noteq> [] \<and> list_all (\<lambda>c. \<not> isSpace c) key
              then Some key else None))"

end
