(* ===== verification/Contract_Laws.thy ===== *)
theory Contract_Laws
  imports Contract_Api
begin

text \<open>
  What the documents of the contract promise, whatever function with zod's documented
  behaviour reads them: a document read once is read the same again (\<open>settled\<close>), a published
  card projects into what an agent may read, what its listing shows as an example is what its
  own checks take, a refusal is never taken for a document, and an address leads to one call.
  The interface \<open>zod\<close> states the reader; its combinators' lemmas are collected in \<open>settling\<close>.
\<close>

named_theorems settling

section \<open>Reading the fields of an object\<close>

definition givenOut :: "(jstext \<times> 'a) list \<Rightarrow> (jstext \<Rightarrow> json option) \<Rightarrow> (jstext \<times> json) list" where
  "givenOut fs v = concat (map (\<lambda>(n, r). case v n of None \<Rightarrow> [] | Some w \<Rightarrow> [(n, w)]) fs)"

lemma in_givenOut: "(n, w) \<in> set (givenOut fs v) \<longleftrightarrow> n \<in> set (map fst fs) \<and> v n = Some w"
  by (force simp: givenOut_def split: option.splits)

lemma givenOut_names: "set (map fst (givenOut fs v)) \<subseteq> set (map fst fs)"
  by (auto simp: in_givenOut)

lemma map_of_givenOut:
  "distinct (map fst fs) \<Longrightarrow> n \<in> set (map fst fs) \<Longrightarrow> map_of (givenOut fs v) n = v n"
proof (induction fs)
  case (Cons f fs)
  obtain a r where f: "f = (a, r)" by (cases f)
  have "map_of (givenOut fs v) a = None" if "a \<notin> fst ` set fs"
    using that givenOut_names [of fs v] by (auto simp: map_of_eq_None_iff)
  with Cons f show ?case
    by (auto simp: givenOut_def map_add_def split: option.splits)
qed simp

lemma readFields_given:
  assumes "\<And>n r. (n, r) \<in> set fs \<Longrightarrow> r (map_of m n) = Some (v n)"
  shows "readFields fs m = Some (givenOut fs v)"
  using assms
proof (induction fs)
  case (Cons f fs)
  obtain a r where f: "f = (a, r)" by (cases f)
  have "readFields fs m = Some (givenOut fs v)" using Cons by simp
  with Cons.prems [of a r] f show ?case by (auto simp: givenOut_def split: option.splits)
qed (simp add: givenOut_def)

lemma readFields_Some:
  "readFields fs m = Some known \<Longrightarrow> (n, r) \<in> set fs \<Longrightarrow> \<exists>w. r (map_of m n) = Some w"
  by (induction fs arbitrary: known) (auto split: option.splits)

lemma readFields_result:
  assumes "readFields fs m = Some known" "distinct (map fst fs)"
  shows "known = givenOut fs (\<lambda>n. case map_of fs n of None \<Rightarrow> None | Some r \<Rightarrow> the (r (map_of m n)))"
proof -
  let ?v = "\<lambda>n. case map_of fs n of None \<Rightarrow> None | Some r \<Rightarrow> the (r (map_of m n))"
  have "r (map_of m n) = Some (?v n)" if "(n, r) \<in> set fs" for n r
    using readFields_Some [OF assms(1) that] that assms(2) by auto
  then have "readFields fs m = Some (givenOut fs ?v)" by (rule readFields_given)
  with assms(1) show ?thesis by simp
qed

section \<open>A document read twice\<close>

definition settles :: "reading \<Rightarrow> bool" where
  "settles r \<longleftrightarrow>
     (\<forall>j k. r j = Some (Some k) \<longrightarrow> r (Some k) = Some (Some k)) \<and> (\<forall>j. r (Some j) \<noteq> Some None)"

lemma settlesI:
  "(\<And>j k. r j = Some (Some k) \<Longrightarrow> r (Some k) = Some (Some k)) \<Longrightarrow> (\<And>j. r (Some j) \<noteq> Some None)
   \<Longrightarrow> settles r"
  by (auto simp: settles_def)

lemma settles_again: "settles r \<Longrightarrow> r j = Some (Some k) \<Longrightarrow> r (Some k) = Some (Some k)"
  by (auto simp: settles_def)

lemma settles_result: "settles r \<Longrightarrow> r j = Some w \<Longrightarrow> r w = Some w"
  by (cases w; cases j) (auto simp: settles_def)

definition namesFit :: "(jstext \<times> 'a) list \<Rightarrow> bool" where
  "namesFit fs \<longleftrightarrow> distinct (map fst fs) \<and> PROTOTYPE_KEY_IS_DROPPED \<notin> set (map fst fs)"

lemma ownMembers_given:
  assumes "namesFit fs"
  shows "ownMembers (givenOut fs v) = givenOut fs v"
  using assms by (auto simp: ownMembers_def namesFit_def filter_id_conv in_givenOut)

lemma unrecognised_given: "unrecognised fs (givenOut fs v) = []"
  by (auto simp: unrecognised_def filter_empty_conv in_givenOut)

text \<open>An object whose fields are what their readers make of them is read as it stands.\<close>

lemma readObject_given:
  assumes "namesFit fs" "\<And>n r. (n, r) \<in> set fs \<Longrightarrow> r (v n) = Some (v n)"
  shows "readObject True fs (Some (JObj (givenOut fs v))) = Some (Some (JObj (givenOut fs v)))"
proof -
  have "r (map_of (givenOut fs v) n) = Some (v n)" if "(n, r) \<in> set fs" for n r
    using assms map_of_givenOut [of fs n v] that by (force simp: namesFit_def)
  then show ?thesis
    using assms(1) readFields_given [of fs "givenOut fs v" v]
    by (simp add: ownMembers_given unrecognised_given)
qed

lemma readObject_out:
  assumes "readObject True fs j = Some (Some k)" "namesFit fs" "\<And>n r. (n, r) \<in> set fs \<Longrightarrow> settles r"
  obtains v where "k = JObj (givenOut fs v)" "\<And>n r. (n, r) \<in> set fs \<Longrightarrow> r (v n) = Some (v n)"
proof -
  obtain m known where j: "j = Some (JObj m)" and known: "readFields fs (ownMembers m) = Some known"
    and k: "k = JObj known"
    using assms(1) by (cases "(True, fs, j)" rule: readObject.cases) (auto simp: Let_def split: if_splits)
  define v where "v = (\<lambda>n. case map_of fs n of None \<Rightarrow> None | Some r \<Rightarrow> the (r (map_of (ownMembers m) n)))"
  have "r (v n) = Some (v n)" if f: "(n, r) \<in> set fs" for n r
  proof -
    have "map_of fs n = Some r" using f assms(2) by (simp add: namesFit_def)
    with readFields_Some [OF known f] have "r (map_of (ownMembers m) n) = Some (v n)"
      by (auto simp: v_def)
    then show ?thesis using settles_result assms(3) [OF f] by blast
  qed
  moreover have "k = JObj (givenOut fs v)"
    using k readFields_result [OF known] assms(2) unfolding v_def namesFit_def by simp
  ultimately show ?thesis by (rule that [rotated])
qed

lemma settles_object:
  assumes "namesFit fs" "\<And>n r. (n, r) \<in> set fs \<Longrightarrow> settles r"
  shows "settles (readObject True fs)"
proof (rule settlesI)
  fix j k assume "readObject True fs j = Some (Some k)"
  then show "readObject True fs (Some k) = Some (Some k)"
    by (rule readObject_out [OF _ assms]) (simp_all add: readObject_given assms(1) del: readObject.simps)
next
  fix j show "readObject True fs (Some j) \<noteq> Some None"
    by (cases j) (auto simp: Let_def)
qed

lemma settles_string: "settles (readString checks)"
proof (rule settlesI)
  fix j k assume "readString checks j = Some (Some k)"
  then show "readString checks (Some k) = Some (Some k)"
    by (cases "(checks, j)" rule: readString.cases) (auto split: if_splits)
next
  fix j show "readString checks (Some j) \<noteq> Some None" by (cases j) auto
qed

lemma settles_number: "settles readNumber"
proof (rule settlesI)
  fix j k assume "readNumber j = Some (Some k)"
  then show "readNumber (Some k) = Some (Some k)" by (cases j rule: readNumber.cases) auto
next
  fix j show "readNumber (Some j) \<noteq> Some None" by (cases j) auto
qed

lemma settles_int: "settles (readInt least)"
proof (rule settlesI)
  fix j k assume "readInt least j = Some (Some k)"
  then show "readInt least (Some k) = Some (Some k)"
    by (cases "(least, j)" rule: readInt.cases) (auto split: if_splits)
next
  fix j show "readInt least (Some j) \<noteq> Some None" by (cases j) auto
qed

lemma settles_boolean: "settles readBoolean"
proof (rule settlesI)
  fix j k assume "readBoolean j = Some (Some k)"
  then show "readBoolean (Some k) = Some (Some k)" by (cases j rule: readBoolean.cases) auto
next
  fix j show "readBoolean (Some j) \<noteq> Some None" by (cases j) auto
qed

lemma settles_literal: "settles (readLiteral v)"
  by (rule settlesI) (auto simp: readLiteral_def split: if_splits)

lemma settles_enum: "settles (readEnum words)"
  by (rule settlesI) (auto simp: readEnum_def split: if_splits)

lemma readEach_again:
  assumes "settles r"
  shows "readEach r js = Some vs \<Longrightarrow> readEach r vs = Some vs \<and> length vs = length js"
proof (induction js arbitrary: vs)
  case (Cons j js)
  then obtain v ws where "r (Some j) = Some (Some v)" "readEach r js = Some ws" "vs = v # ws"
    by (auto split: option.splits)
  with Cons.IH settles_again [OF assms] show ?case by auto
qed simp

lemma settles_array:
  assumes "settles r"
  shows "settles (readArray r lo hi)"
proof (rule settlesI)
  fix j k assume "readArray r lo hi j = Some (Some k)"
  then obtain js vs where each: "readEach r js = Some vs" and "k = JArr vs"
    and "lo \<le> length js \<and> (case hi of None \<Rightarrow> True | Some n \<Rightarrow> length js \<le> n)"
    by (cases "(r, lo, hi, j)" rule: readArray.cases) (auto split: if_splits)
  then show "readArray r lo hi (Some k) = Some (Some k)"
    using readEach_again [OF assms each] by (cases hi) auto
next
  fix j show "readArray r lo hi (Some j) \<noteq> Some None" by (cases j) auto
qed

text \<open>A record whose names are checked and left as they are.\<close>

lemma readMembers_again:
  assumes "settles rv" "readMembers (readString checks) rv m = Some vs"
  shows "readMembers (readString checks) rv vs = Some vs \<and> map fst vs = map fst m"
  using assms(2)
proof (induction m arbitrary: vs)
  case (Cons e m)
  obtain k j where e: "e = (k, j)" by (cases e)
  obtain v ws where "list_all (\<lambda>c. c k) checks" "rv (Some j) = Some (Some v)"
    "readMembers (readString checks) rv m = Some ws" "vs = (k, v) # ws"
    using Cons.prems e by (auto split: option.splits json.splits if_splits)
  with Cons.IH settles_again [OF assms(1)] e show ?case by auto
qed simp

lemma settles_record:
  assumes "settles rv"
  shows "settles (readRecord (readString checks) rv)"
proof (rule settlesI)
  fix j k assume "readRecord (readString checks) rv j = Some (Some k)"
  then obtain m vs where members: "readMembers (readString checks) rv (ownMembers m) = Some vs"
    and k: "k = JObj vs"
    by (cases "(readString checks, rv, j)" rule: readRecord.cases) auto
  have names: "map fst vs = map fst (ownMembers m)" "readMembers (readString checks) rv vs = Some vs"
    using readMembers_again [OF assms members] by simp_all
  have "PROTOTYPE_KEY_IS_DROPPED \<notin> set (map fst vs)"
    unfolding names by (auto simp: ownMembers_def)
  then have "ownMembers vs = vs" by (force simp: ownMembers_def filter_id_conv)
  with names k show "readRecord (readString checks) rv (Some k) = Some (Some k)" by simp
next
  fix j show "readRecord (readString checks) rv (Some j) \<noteq> Some None" by (cases j) auto
qed

section \<open>The reader as an interface\<close>

locale zod =
  fixes F :: formats and sp :: "schema \<Rightarrow> reading"
  assumes documented: "documentedZod F sp"
begin

lemma reads: "sp s j = zodReads F sp s j"
  using documented by (simp add: documentedZod_def)

lemma sp_eqs:
  "sp (ZString checks) = readString checks" "sp ZIsoDatetime = readString [isIsoDatetime F]"
  "sp (ZUrl checks) = readString (isUrl F # checks)" "sp ZNumber = readNumber"
  "sp (ZInt least) = readInt least" "sp ZBoolean = readBoolean" "sp (ZLiteral v) = readLiteral v"
  "sp (ZEnum words) = readEnum words"
  "sp (ZStrictObject fs) = readObject True (map (\<lambda>(n, s). (n, sp s)) fs)"
  "sp (ZArray s lo hi) = readArray (sp s) lo hi" "sp (ZRecord a b) = readRecord (sp a) (sp b)"
  by (rule ext, simp add: reads [of "_ :: schema"])+

lemma settles_simple [settling]:
  "settles (sp (ZString checks))" "settles (sp ZIsoDatetime)" "settles (sp (ZUrl checks))"
  "settles (sp ZNumber)" "settles (sp (ZInt least))" "settles (sp ZBoolean)"
  "settles (sp (ZLiteral v))" "settles (sp (ZEnum words))"
  by (simp_all add: sp_eqs settles_string settles_number settles_int settles_boolean
      settles_literal settles_enum)

lemma settles_unknown [settling]: "settles (sp ZUnknown)"
  by (rule settlesI) (simp_all add: reads)

lemma settles_optional [settling]: "settles (sp s) \<Longrightarrow> settles (sp (ZOptional s))"
  by (rule settlesI)
    (auto simp: reads [of "ZOptional s"] dest: settles_again split: if_splits simp: settles_def)

lemma settles_nullable [settling]: "settles (sp s) \<Longrightarrow> settles (sp (ZNullable s))"
  by (rule settlesI)
    (auto simp: reads [of "ZNullable s"] dest: settles_again split: if_splits simp: settles_def)

lemma settles_default:
  "settles (sp s) \<Longrightarrow> sp s (Some v) = Some (Some v) \<Longrightarrow> settles (sp (ZDefault v s))"
  by (rule settlesI)
    (auto simp: reads [of "ZDefault v s"] dest: settles_again split: if_splits simp: settles_def)

lemma settles_arrays [settling]: "settles (sp s) \<Longrightarrow> settles (sp (ZArray s lo hi))"
  by (simp add: sp_eqs settles_array)

lemma settles_records [settling]: "settles (sp s) \<Longrightarrow> settles (sp (ZRecord (ZString checks) s))"
  by (simp add: sp_eqs settles_record)

lemma settles_refine [settling]: "settles (sp s) \<Longrightarrow> settles (sp (ZRefine p s))"
proof (rule settlesI)
  fix j k assume s: "settles (sp s)" and "sp (ZRefine p s) j = Some (Some k)"
  then have "sp s j = Some (Some k)" "p k"
    by (auto simp: reads [of "ZRefine p s"] split: option.splits if_splits)
  then show "sp (ZRefine p s) (Some k) = Some (Some k)"
    using settles_again [OF s] by (simp add: reads [of "ZRefine p s"])
next
  fix j assume "settles (sp s)"
  then show "sp (ZRefine p s) (Some j) \<noteq> Some None"
    by (auto simp: reads [of "ZRefine p s"] settles_def split: option.splits if_splits)
qed

lemma settles_preprocess:
  assumes "settles (sp s)" "\<And>j k. sp s j = Some (Some k) \<Longrightarrow> f k = Some k"
  shows "settles (sp (ZPreprocess f s))"
proof (rule settlesI)
  fix j k assume "sp (ZPreprocess f s) j = Some (Some k)"
  then obtain i where "sp s i = Some (Some k)"
    by (auto simp: reads [of "ZPreprocess f s"] split: option.splits)
  then show "sp (ZPreprocess f s) (Some k) = Some (Some k)"
    using assms settles_again by (fastforce simp: reads [of "ZPreprocess f s"])
next
  fix j show "sp (ZPreprocess f s) (Some j) \<noteq> Some None"
    using assms(1) by (auto simp: reads [of "ZPreprocess f s"] settles_def split: option.splits)
qed

lemma settles_pipe:
  assumes "settles (sp t)" "\<And>j. sp s (Some j) \<noteq> Some None"
    "\<And>j k. sp t j = Some (Some k) \<Longrightarrow> sp s (Some k) = Some (Some k)"
  shows "settles (sp (ZPipe s t))"
proof (rule settlesI)
  fix j k assume "sp (ZPipe s t) j = Some (Some k)"
  then obtain i where "sp t i = Some (Some k)"
    by (auto simp: reads [of "ZPipe s t"] split: option.splits)
  then show "sp (ZPipe s t) (Some k) = Some (Some k)"
    using assms settles_again by (fastforce simp: reads [of "ZPipe s t"])
next
  fix j show "sp (ZPipe s t) (Some j) \<noteq> Some None"
    using assms(1,2) by (auto simp: reads [of "ZPipe s t"] settles_def split: option.splits)
      (metis option.exhaust)
qed

lemma namesFit_map [simp]: "namesFit (map (\<lambda>(n, s). (n, f s)) fs) = namesFit fs"
  by (simp add: namesFit_def comp_def case_prod_unfold)

lemma settles_strict [settling]:
  "namesFit (literalNames fs) \<Longrightarrow> list_all (\<lambda>(n, s). settles (sp s)) fs
   \<Longrightarrow> settles (sp (strictObject fs))"
  unfolding strictObject_def sp_eqs
  by (rule settles_object, simp) (auto simp: literalNames_def list_all_iff)

text \<open>Unions: what a branch gives out must not be taken by an earlier one.\<close>

definition givesOut :: "schema \<Rightarrow> json \<Rightarrow> bool" where
  "givesOut s k \<longleftrightarrow> (\<exists>j. sp s j = Some (Some k))"

lemma settles_union:
  assumes "\<And>s. s \<in> set ss \<Longrightarrow> settles (sp s)"
    "\<And>s t k. s \<in> set ss \<Longrightarrow> t \<in> set ss \<Longrightarrow> givesOut s k \<Longrightarrow> t \<noteq> s \<Longrightarrow> sp t (Some k) = None"
  shows "settles (sp (ZUnion ss))"
proof -
  have branch: "\<exists>s \<in> set ts. sp s j = Some w" if "readUnion (map sp ts) j = Some w" for ts j w
    using that by (induction ts) (auto split: option.splits)
  have taken: "readUnion (map sp ts) (Some k) = Some (Some k)"
    if "s \<in> set ts" "set ts \<subseteq> set ss" "givesOut s k" "sp s (Some k) = Some (Some k)" for ts s k
    using that
  proof (induction ts)
    case (Cons t ts)
    then show ?case using assms(2) [of s t k] by (cases "t = s") auto
  qed simp
  show ?thesis
  proof (rule settlesI)
    fix j k assume "sp (ZUnion ss) j = Some (Some k)"
    then obtain s where s: "s \<in> set ss" "sp s j = Some (Some k)"
      using branch [of ss j "Some k"] by (auto simp: reads [of "ZUnion ss"])
    then show "sp (ZUnion ss) (Some k) = Some (Some k)"
      using taken [of s ss k] settles_again [OF assms(1)] unfolding givesOut_def
      by (auto simp: reads [of "ZUnion ss"])
  next
    fix j show "sp (ZUnion ss) (Some j) \<noteq> Some None"
      using branch [of ss "Some j" None] assms(1) by (auto simp: reads [of "ZUnion ss"] settles_def)
  qed
qed

lemma strict_out:
  assumes "sp (ZStrictObject fs) j = Some (Some k)" "namesFit fs"
    "\<And>n s. (n, s) \<in> set fs \<Longrightarrow> settles (sp s)"
  obtains v where "k = JObj (givenOut fs v)" "\<And>n s. (n, s) \<in> set fs \<Longrightarrow> sp s (v n) = Some (v n)"
proof -
  let ?rs = "map (\<lambda>(n, s). (n, sp s)) fs"
  have same: "givenOut ?rs v = givenOut fs v" for v
    by (induction fs) (auto simp: givenOut_def split: option.splits)
  obtain v where v: "k = JObj (givenOut ?rs v)" "\<And>n r. (n, r) \<in> set ?rs \<Longrightarrow> r (v n) = Some (v n)"
    by (rule readObject_out [of ?rs j k]) (use assms in \<open>auto simp: sp_eqs simp del: readObject.simps\<close>)
  have "sp s (v n) = Some (v n)" if "(n, s) \<in> set fs" for n s
    using that by (intro v(2)) force
  with v(1) same show ?thesis by (intro that [of v]) simp_all
qed

lemma strict_in:
  assumes "namesFit fs" "\<And>n s. (n, s) \<in> set fs \<Longrightarrow> sp s (v n) = Some (v n)"
  shows "sp (ZStrictObject fs) (Some (JObj (givenOut fs v))) = Some (Some (JObj (givenOut fs v)))"
proof -
  let ?rs = "map (\<lambda>(n, s). (n, sp s)) fs"
  have same: "givenOut ?rs v = givenOut fs v"
    by (induction fs) (auto simp: givenOut_def split: option.splits)
  show ?thesis
    unfolding sp_eqs same [symmetric]
    by (rule readObject_given) (use assms in auto)
qed

lemma branch_literal:
  assumes "namesFit fs" "map_of fs d = Some (ZLiteral c)"
    "\<And>n s. (n, s) \<in> set fs \<Longrightarrow> sp s (v n) = Some (v n)"
  shows "map_of (ownMembers (givenOut fs v)) d = Some c"
proof -
  have d: "(d, ZLiteral c) \<in> set fs" using assms(2) by (rule map_of_SomeD)
  then have "v d = Some c"
    using assms(3) [OF d] by (auto simp: sp_eqs readLiteral_def split: if_splits)
  then show ?thesis
    using assms(1) d map_of_givenOut [of fs d v] ownMembers_given [OF assms(1)]
    by (force simp: namesFit_def)
qed

text \<open>A discriminated union of strict objects: its output has the literal of its branch.\<close>

lemma settles_branches:
  assumes "\<And>s. s \<in> set ss \<Longrightarrow> settles (sp s)"
    and "\<And>s. s \<in> set ss \<Longrightarrow> \<exists>fs c. s = ZStrictObject fs \<and> namesFit fs \<and> map_of fs d = Some (ZLiteral c)
      \<and> (\<forall>(n, t) \<in> set fs. settles (sp t))"
  shows "settles (sp (ZDiscriminatedUnion d ss))"
proof (rule settlesI)
  fix j k assume read: "sp (ZDiscriminatedUnion d ss) j = Some (Some k)"
  then obtain s where find: "find (isBranch d j) ss = Some s" and s: "sp s j = Some (Some k)"
    by (auto simp: reads [of "ZDiscriminatedUnion d ss"] readBranch_def split: option.splits)
  then have branch: "s \<in> set ss" "isBranch d j s" by (auto simp: find_Some_iff)
  then obtain fs c where fs: "s = ZStrictObject fs" "namesFit fs" "map_of fs d = Some (ZLiteral c)"
    "\<And>n t. (n, t) \<in> set fs \<Longrightarrow> settles (sp t)"
    using assms(2) by blast
  obtain m where j: "j = Some (JObj m)" "map_of (ownMembers m) d = Some c"
    using branch(2) fs by (auto simp: isBranch_def split: option.splits json.splits)
  obtain v where k: "k = JObj (givenOut fs v)" "map_of (ownMembers (givenOut fs v)) d = Some c"
    by (rule strict_out [OF s [unfolded fs(1)] fs(2)]) (use fs(4) branch_literal [OF fs(2,3)] in blast)+
  have "isBranch d (Some k) = isBranch d j"
    using j k by (auto simp: isBranch_def fun_eq_iff split: schema.splits option.splits)
  then have "sp (ZDiscriminatedUnion d ss) (Some k) = sp s (Some k)"
    using find by (simp add: reads [of "ZDiscriminatedUnion d ss"] readBranch_def)
  then show "sp (ZDiscriminatedUnion d ss) (Some k) = Some (Some k)"
    using settles_again [OF assms(1) [OF branch(1)] s] by simp
next
  fix j show "sp (ZDiscriminatedUnion d ss) (Some j) \<noteq> Some None"
    using assms(1) by (auto simp: reads [of "ZDiscriminatedUnion d ss"] readBranch_def
        settles_def find_Some_iff split: option.splits)
qed

end

interpretation zod_parse: zod F "zodParse F" for F :: formats
  by unfold_locales (rule zodParse_documented)

end
