(* ===== verification/Contract_Settled.thy ===== *)
theory Contract_Settled
  imports Contract_Laws
begin

text \<open>
  Every document of the contract is read the same a second time, schema by schema.
\<close>

lemmas names_simps = namesFit_def literalNames_def PROTOTYPE_KEY_IS_DROPPED_def

context zod
begin

lemma settles_primitives [settling]:
  "settles (sp AmountSchema)" "settles (sp CurrencyCodeSchema)" "settles (sp TimestampSchema)"
  "settles (sp IdentifierSchema)" "settles (sp SellingStateSchema)" "settles (sp OrderStatusSchema)"
  "settles (sp OrderCallResultSchema)" "settles (sp ParamTypeSchema)" "settles (sp ParamNameSchema)"
  "settles (sp QuotePurposeSchema)" "settles (sp RefundDueReasonSchema)"
  "settles (sp RefusalCodeSchema)" "settles (sp ReceiptOutcomeSchema)" "settles (sp listedTextSchema)"
  "settles (sp ListedNameSchema)" "settles (sp addressSchema)" "settles (sp KeyLabelSchema)"
  "settles (sp KeySecretSchema)" "settles (sp InvitationSchema)" "settles (sp FulfillmentSchema)"
  "settles (sp TitleSchema)" "settles (sp DescriptionSchema)"
  by (simp_all add: settling AmountSchema_def CurrencyCodeSchema_def TimestampSchema_def
      IdentifierSchema_def SellingStateSchema_def OrderStatusSchema_def OrderCallResultSchema_def
      ParamTypeSchema_def ParamNameSchema_def QuotePurposeSchema_def RefundDueReasonSchema_def
      RefusalCodeSchema_def ReceiptOutcomeSchema_def listedTextSchema_def ListedNameSchema_def
      addressSchema_def KeyLabelSchema_def KeySecretSchema_def InvitationSchema_def
      FulfillmentSchema_def TitleSchema_def DescriptionSchema_def)

lemma settles_prices [settling]: "settles (sp MoneySchema)" "settles (sp SalePriceSchema)"
  by (simp_all add: settling names_simps MoneySchema_def SalePriceSchema_def)

lemma settles_specs [settling]:
  "settles (sp FieldSpecSchema)" "settles (sp ParamSpecSchema)" "settles (sp paramsSchema)"
  "settles (sp DeliverySchema)"
  by (simp_all add: settling names_simps FieldSpecSchema_def ParamSpecSchema_def paramsSchema_def
      DeliverySchema_def ParamNameSchema_def)

lemma settles_orders [settling]:
  "settles (sp OrderSchema)" "settles (sp QuoteRequestSchema)" "settles (sp OrderWithStatusSchema)"
  by (simp_all add: settling names_simps OrderSchema_def QuoteRequestSchema_def
      OrderWithStatusSchema_def)

lemma settles_answers [settling]:
  "settles (sp RefusalSchema)" "settles (sp AcceptanceSchema)" "settles (sp ProblemSchema)"
  "settles (sp CallErrorSchema)" "settles (sp PublishRefusalSchema)" "settles (sp ReceiptSchema)"
  by (simp_all add: settling names_simps RefusalSchema_def AcceptanceSchema_def ProblemSchema_def
      CallErrorSchema_def PublishRefusalSchema_def callErrorFields_def ReceiptSchema_def)

lemma settles_keys [settling]:
  "settles (sp MerchantKeySchema)" "settles (sp MerchantKeyListSchema)"
  "settles (sp IssueKeyRequestSchema)" "settles (sp IssuedKeySchema)"
  "settles (sp DisabledKeySchema)" "settles (sp CabinetKeySchema)"
  "settles (sp ForgottenCabinetKeySchema)" "settles (sp SellerNameSchema)"
  "settles (sp PayoutWalletSchema)" "settles (sp RegistrationRequestSchema)"
  "settles (sp RegisteredMerchantSchema)"
  by (simp_all add: settling names_simps MerchantKeySchema_def MerchantKeyListSchema_def
      IssueKeyRequestSchema_def IssuedKeySchema_def DisabledKeySchema_def CabinetKeySchema_def
      ForgottenCabinetKeySchema_def SellerNameSchema_def PayoutWalletSchema_def
      RegistrationRequestSchema_def RegisteredMerchantSchema_def)

text \<open>A string read as any string before it is read as a name or an address.\<close>

lemma settles_piped_string [settling]: "settles (sp (ZPipe (ZString []) (ZString checks)))"
proof (rule settles_pipe)
  fix j k assume "sp (ZString checks) j = Some (Some k)"
  then show "sp (ZString []) (Some k) = Some (Some k)"
    by (cases "(checks, j)" rule: readString.cases) (auto simp: sp_eqs split: if_splits)
next
  fix j show "sp (ZString []) (Some j) \<noteq> Some None"
    using settles_simple(1) by (simp add: settles_def)
qed (rule settles_simple)

lemma settles_requests [settling]:
  "settles (sp SellerNameRequestSchema)" "settles (sp PayoutWalletRequestSchema)"
  "settles (sp OrderListQuerySchema)" "settles (sp WorkerPollRequestSchema)"
  "settles (sp PurchaseRequestSchema)" "settles (sp QuoteAnswerAckSchema)"
  by (simp_all add: settling names_simps SellerNameRequestSchema_def PayoutWalletRequestSchema_def
      ListedNameSchema_def listedTextSchema_def addressSchema_def OrderListQuerySchema_def
      WorkerPollRequestSchema_def PurchaseRequestSchema_def QuoteAnswerAckSchema_def)

text \<open>A member no field is named after turns a strict object away.\<close>

lemma strict_stranger:
  assumes "(n, w) \<in> set (ownMembers m)" "n \<notin> fst ` set fs"
  shows "sp (ZStrictObject fs) (Some (JObj m)) = None"
proof -
  have "(n, w) \<in> set (unrecognised (map (\<lambda>(n, s). (n, sp s)) fs) (ownMembers m))"
    using assms by (force simp: unrecognised_def)
  then have "unrecognised (map (\<lambda>(n, s). (n, sp s)) fs) (ownMembers m) \<noteq> []" by auto
  then show ?thesis by (simp add: sp_eqs Let_def)
qed

lemma strict_required:
  assumes "(n, s) \<in> set fs" "map_of (ownMembers m) n = None" "sp s None = None"
  shows "sp (ZStrictObject fs) (Some (JObj m)) = None"
proof (rule ccontr)
  assume "sp (ZStrictObject fs) (Some (JObj m)) \<noteq> None"
  then obtain known where
    "readFields (map (\<lambda>(n, s). (n, sp s)) fs) (ownMembers m) = Some known"
    by (auto simp: sp_eqs Let_def split: if_splits)
  from readFields_Some [OF this, of n "sp s"] assms show False by force
qed

definition isSettledBranch :: "jstext \<Rightarrow> schema \<Rightarrow> bool" where
  "isSettledBranch d s \<longleftrightarrow>
     (case s of
        ZStrictObject fs \<Rightarrow>
          namesFit fs \<and> (case map_of fs d of Some (ZLiteral c) \<Rightarrow> True | _ \<Rightarrow> False)
          \<and> list_all (\<lambda>(n, t). settles (sp t)) fs
      | _ \<Rightarrow> False)"

lemma settles_discriminated [settling]:
  assumes "list_all (isSettledBranch (u d)) ss"
  shows "settles (sp (discriminatedUnion d ss))"
  unfolding discriminatedUnion_def
proof (rule settles_branches)
  fix s assume "s \<in> set ss"
  with assms have s: "isSettledBranch (u d) s" by (simp add: list_all_iff)
  then obtain fs where fs: "s = ZStrictObject fs" "namesFit fs"
    "case map_of fs (u d) of Some (ZLiteral c) \<Rightarrow> True | _ \<Rightarrow> False"
    "list_all (\<lambda>(n, t). settles (sp t)) fs"
    unfolding isSettledBranch_def by (cases s) simp_all
  then obtain c where "map_of fs (u d) = Some (ZLiteral c)"
    by (auto split: option.splits schema.splits)
  with fs show "\<exists>fs c. s = ZStrictObject fs \<and> namesFit fs \<and> map_of fs (u d) = Some (ZLiteral c)
      \<and> (\<forall>(n, t) \<in> set fs. settles (sp t))"
    by (auto simp: list_all_iff)
  show "settles (sp s)"
    unfolding fs(1) sp_eqs by (rule settles_object) (use fs in \<open>auto simp: list_all_iff\<close>)
qed

lemma settles_unions [settling]:
  "settles (sp OrderEventSchema)" "settles (sp QuoteResponseSchema)"
  "settles (sp PublishResultSchema)" "settles (sp OrderCallResponseSchema)"
  "settles (sp OrderAcceptResponseSchema)"
  by (simp_all add: settling names_simps isSettledBranch_def OrderEventSchema_def
      QuoteResponseSchema_def PublishResultSchema_def OrderCallResponseSchema_def
      OrderAcceptResponseSchema_def OrderCallFailedSchema_def strictObject_def)

lemma settles_envelopes [settling]:
  "settles (sp WorkerEnvelopeSchema)" "settles (sp WorkerPollResponseSchema)"
proof -
  show "settles (sp WorkerEnvelopeSchema)"
    by (simp add: settling names_simps isSettledBranch_def WorkerEnvelopeSchema_def
        envelopeOf_def strictObject_def)
  then show "settles (sp WorkerPollResponseSchema)"
    by (simp add: settling names_simps WorkerPollResponseSchema_def)
qed

text \<open>What a handler answers is one object with one field, and the three names differ.\<close>

lemma single_out:
  assumes "sp (strictObject [(n, s)]) j = Some (Some k)" "settles (sp s)" "sp s None = None"
    "u n \<noteq> PROTOTYPE_KEY_IS_DROPPED"
  shows "\<exists>w. k = JObj [(u n, w)] \<and> sp s (Some w) = Some (Some w)"
proof -
  obtain v where v: "k = JObj (givenOut [(u n, s)] v)" "sp s (v (u n)) = Some (v (u n))"
    by (rule strict_out [OF assms(1) [unfolded strictObject_def]])
      (use assms in \<open>auto simp: literalNames_def namesFit_def\<close>)
  then obtain w where "v (u n) = Some w" using assms(3) by (cases "v (u n)") auto
  with v show ?thesis by (simp add: givenOut_def)
qed

lemma single_refuses:
  assumes "u n \<noteq> u n'" "u n \<noteq> PROTOTYPE_KEY_IS_DROPPED"
  shows "sp (strictObject [(n', s)]) (Some (JObj [(u n, w)])) = None"
  unfolding strictObject_def
  by (rule strict_stranger [of "u n" w]) (use assms in \<open>auto simp: literalNames_def ownMembers_def\<close>)

lemma required_readers:
  "sp RefusalSchema None = None" "sp AcceptanceSchema None = None" "sp DeliverySchema None = None"
  by (simp_all add: RefusalSchema_def AcceptanceSchema_def DeliverySchema_def strictObject_def
      sp_eqs)

lemma settles_handler_answer [settling]: "settles (sp HandlerAnswerSchema)"
  unfolding HandlerAnswerSchema_def
proof (rule settles_union)
  let ?ss = "[strictObject [(''delivered'', DeliverySchema)], strictObject [(''refused'', RefusalSchema)],
      strictObject [(''accepted'', AcceptanceSchema)]]"
  show "settles (sp s)" if "s \<in> set ?ss" for s
    using that by (auto simp: settling names_simps)
  have out: "\<exists>w. k = JObj [(u n, w)]"
    if given: "givesOut (strictObject [(n, s)]) k" and among: "(n, s) \<in> {(''delivered'', DeliverySchema),
      (''refused'', RefusalSchema), (''accepted'', AcceptanceSchema)}" for n s k
  proof -
    obtain j where "sp (strictObject [(n, s)]) j = Some (Some k)" using given by (auto simp: givesOut_def)
    moreover have "settles (sp s)" "sp s None = None" "u n \<noteq> PROTOTYPE_KEY_IS_DROPPED"
      using among required_readers by (auto simp: settling PROTOTYPE_KEY_IS_DROPPED_def)
    ultimately show ?thesis using single_out by blast
  qed
  let ?named = "{(''delivered'', DeliverySchema), (''refused'', RefusalSchema), (''accepted'', AcceptanceSchema)}"
  have shape: "\<exists>n a. s = strictObject [(n, a)] \<and> (n, a) \<in> ?named" if "s \<in> set ?ss" for s
    using that by auto
  have apart: "n = n' \<longrightarrow> a = b" "u n = u n' \<longrightarrow> n = n'" "u n \<noteq> PROTOTYPE_KEY_IS_DROPPED"
    if "(n, a) \<in> ?named" "(n', b) \<in> ?named" for n a n' b
    using that by (auto simp: PROTOTYPE_KEY_IS_DROPPED_def)
  fix s t k assume *: "s \<in> set ?ss" "t \<in> set ?ss" "givesOut s k" "t \<noteq> s"
  obtain n a where s: "s = strictObject [(n, a)]" "(n, a) \<in> ?named" using shape *(1) by blast
  obtain n' b where t: "t = strictObject [(n', b)]" "(n', b) \<in> ?named" using shape *(2) by blast
  obtain w where k: "k = JObj [(u n, w)]" using out *(3) s by blast
  have "u n \<noteq> u n'" using apart [OF s(2) t(2)] *(4) s(1) t(1) by auto
  with apart(3) [OF s(2) t(2)] show "sp t (Some k) = None"
    unfolding t(1) k by (intro single_refuses)
qed

end

end
