(* ===== verification/Contract_Card_Laws.thy ===== *)
theory Contract_Card_Laws
  imports Contract_Settled
begin

text \<open>
  What holds of a card once it is read: the short forms are gone and the card is read the same
  again, its projection is a document an agent may read, and the examples its listing shows
  are taken by the checks it compiles to.
\<close>

section \<open>The card read again\<close>

context zod
begin

lemma strict_is_object:
  assumes "sp (strictObject fs) j = Some (Some k)"
  shows "\<exists>m. k = JObj m"
proof -
  have "readObject True gs i = Some (Some k) \<Longrightarrow> \<exists>m. k = JObj m" for gs i
    by (cases "(True, gs, i)" rule: readObject.cases) (auto simp: Let_def split: if_splits)
  then show ?thesis using assms unfolding strictObject_def sp_eqs by blast
qed

lemma members_out:
  "readMembers (readString checks) rv m = Some vs \<Longrightarrow> settles rv \<Longrightarrow> (n, v) \<in> set vs \<Longrightarrow>
     rv (Some v) = Some (Some v) \<and> list_all (\<lambda>c. c n) checks"
proof (induction m arbitrary: vs)
  case (Cons e m)
  then show ?case
    by (cases e) (auto split: option.splits json.splits if_splits dest: settles_again)
qed auto

text \<open>A declaration read: an object of declared fields, each an object that is read as it stands.\<close>

lemma spec_out:
  assumes "sp ParamSpecSchema j = Some (Some k)"
  obtains m where "k = JObj m" "PROTOTYPE_KEY_IS_DROPPED \<notin> set (map fst m)"
    "\<And>n d. (n, d) \<in> set m \<Longrightarrow> sp FieldSpecSchema (Some d) = Some (Some d)"
proof -
  let ?names = "[test paramNamePattern]"
  obtain m vs where vs: "readMembers (readString ?names) (sp FieldSpecSchema) (ownMembers m) = Some vs"
    "k = JObj vs"
    using assms unfolding ParamSpecSchema_def ParamNameSchema_def sp_eqs
    by (cases "(readString ?names, sp FieldSpecSchema, j)" rule: readRecord.cases) auto
  have "map fst vs = map fst (ownMembers m)"
    using readMembers_again [OF settles_specs(1) vs(1)] by simp
  then have "PROTOTYPE_KEY_IS_DROPPED \<notin> set (map fst vs)" by (auto simp: ownMembers_def)
  with vs members_out [OF vs(1) settles_specs(1)] show ?thesis by (intro that) auto
qed

lemma spec_written_out:
  assumes "sp ParamSpecSchema j = Some (Some k)"
  shows "declarationWrittenOut k = k"
proof -
  obtain m where m: "k = JObj m" "\<And>n d. (n, d) \<in> set m \<Longrightarrow> sp FieldSpecSchema (Some d) = Some (Some d)"
    by (rule spec_out [OF assms]) blast
  have "fieldWrittenOut d = d" if "(n, d) \<in> set m" for n d
    using strict_is_object [OF m(2) [OF that, unfolded FieldSpecSchema_def]] by auto
  with m(1) show ?thesis by (auto intro!: map_idI)
qed

lemma result_is_spec:
  "sp DeclaredResultSchema j = Some (Some k) \<Longrightarrow> sp ParamSpecSchema j = Some (Some k) \<and> someFieldArrives k"
  unfolding DeclaredResultSchema_def reads [of "ZRefine _ _"]
  by (auto split: option.splits if_splits)

lemma settles_card_fields [settling]:
  "settles (sp TagsSchema)" "settles (sp DeclaredResultSchema)" "settles (sp CardPriceSchema)"
  "settles (sp (writtenShort ParamSpecSchema))" "settles (sp (writtenShort DeclaredResultSchema))"
proof -
  show "settles (sp TagsSchema)" by (simp add: TagsSchema_def settling)
  show result: "settles (sp DeclaredResultSchema)" by (simp add: DeclaredResultSchema_def settling)
  show "settles (sp CardPriceSchema)"
    unfolding CardPriceSchema_def
    by (rule settles_preprocess)
      (use strict_is_object settling MoneySchema_def in \<open>auto simp: settling\<close>, metis strict_is_object MoneySchema_def priceWrittenOut.simps(6))
  show "settles (sp (writtenShort ParamSpecSchema))"
    unfolding writtenShort_def
    by (rule settles_preprocess) (simp_all add: settling spec_written_out)
  show "settles (sp (writtenShort DeclaredResultSchema))"
    unfolding writtenShort_def
    by (rule settles_preprocess) (use result result_is_spec spec_written_out in auto)
qed

lemma settles_price_check [settling]: "settles (sp PriceCheckSchema)"
  unfolding PriceCheckSchema_def
proof (rule settles_union)
  let ?ss = "[ZLiteral (JStr (u ''handler'')), strictObject [(''url'', ZUrl [isHttps])]]"
  show "settles (sp s)" if "s \<in> set ?ss" for s
    using that by (auto simp: settling names_simps)
  show "sp t (Some k) = None" if "s \<in> set ?ss" "t \<in> set ?ss" "givesOut s k" "t \<noteq> s" for s t k
    using that strict_is_object [of "[(''url'', ZUrl [isHttps])]" _ k]
    by (auto simp: givesOut_def sp_eqs readLiteral_def strictObject_def split: if_splits)
qed

lemma settles_fulfillment [settling]:
  "settles (sp (ZDefault (JStr (u ''sync'')) FulfillmentSchema))"
  by (rule settles_default)
    (simp_all add: settling settles_enum FulfillmentSchema_def sp_eqs readEnum_def)

lemma settles_card [settling]:
  "settles (sp CardFieldsSchema)" "settles (sp CardSchema)" "settles (sp MerchantCardSchema)"
proof -
  show fs: "settles (sp CardFieldsSchema)"
    by (simp add: settling names_simps CardFieldsSchema_def cardFields_def settles_fulfillment [simplified])
  then show "settles (sp CardSchema)" by (simp add: settling CardSchema_def)
  then show "settles (sp MerchantCardSchema)" by (simp add: settling names_simps MerchantCardSchema_def)
qed

lemma settles_public_card [settling]: "settles (sp PublicCardSchema)"
  by (simp add: settling names_simps isSettledBranch_def PublicCardSchema_def publicCardFields_def
      strictObject_def)

lemma settles_lists [settling]:
  "settles (sp OrderListSchema)" "settles (sp MerchantCardListSchema)"
  "settles (sp ReceiptListSchema)" "settles (sp CatalogPageSchema)"
  "settles (sp AgentOrderStatusSchema)"
  by (simp_all add: settling names_simps OrderListSchema_def MerchantCardListSchema_def
      ReceiptListSchema_def CatalogPageSchema_def AgentOrderStatusSchema_def)

text \<open>The fields of a card that was read.\<close>

lemma card_out:
  assumes "sp CardSchema j = Some (Some product)"
  obtains v where "product = JObj (givenOut (literalNames cardFields) v)" "deadlinesFit product"
    "\<And>n s. (n, s) \<in> set cardFields \<Longrightarrow> sp s (v (u n)) = Some (v (u n))"
proof -
  have fits: "namesFit (literalNames cardFields)" by (simp add: names_simps cardFields_def)
  have settled: "settles (sp s)" if "(n, s) \<in> set (literalNames cardFields)" for n s
    using that by (auto simp: literalNames_def cardFields_def settling settles_fulfillment [simplified])
  have read: "sp (ZStrictObject (literalNames cardFields)) j = Some (Some product)" "deadlinesFit product"
    using assms unfolding CardSchema_def CardFieldsSchema_def strictObject_def reads [of "ZRefine _ _"]
    by (auto split: option.splits if_splits)
  obtain v where v: "product = JObj (givenOut (literalNames cardFields) v)"
    "\<And>n s. (n, s) \<in> set (literalNames cardFields) \<Longrightarrow> sp s (v n) = Some (v n)"
    by (rule strict_out [OF read(1) fits settled]) blast+
  have "sp s (v (u n)) = Some (v (u n))" if "(n, s) \<in> set cardFields" for n s
    by (rule v(2)) (use that in \<open>force simp: literalNames_def\<close>)
  then show ?thesis by (rule that [OF v(1) read(2)])
qed

lemma card_field:
  "(n, s) \<in> set cardFields \<Longrightarrow> field (JObj (givenOut (literalNames cardFields) v)) n = v (u n)"
  unfolding field_def property.simps
  by (rule map_of_givenOut) (auto simp: cardFields_def literalNames_def)

lemma field_absent: "u n \<notin> u ` fst ` set ps \<Longrightarrow> field (present ps) n = None"
  by (force simp: field_def present_def map_of_eq_None_iff split: option.splits)

lemma public_card_hides:
  assumes "n \<in> {''merchant_item_id'', ''price_check'', ''tags''}"
  shows "field (publicCardDocument product i t) n = None"
  unfolding publicCardDocument_def Let_def using assms by (auto intro!: field_absent)

text \<open>A value a field with a short form gives out is read by its long form.\<close>

lemma preprocess_inner:
  assumes "settles (sp s)" "sp (ZPreprocess f s) i = Some (Some k)"
  shows "sp s (Some k) = Some (Some k)"
proof -
  obtain w where "sp s w = Some (Some k)"
    using assms(2) by (auto simp: reads [of "ZPreprocess f s"] split: option.splits)
  then show ?thesis by (rule settles_again [OF assms(1)])
qed

lemma short_inner:
  assumes "settles (sp s)" "sp (ZPreprocess f s) i = Some i" "sp s None = None"
  shows "sp s i = Some i"
proof (cases i)
  case None
  then show ?thesis using assms(2,3) by (simp add: reads [of "ZPreprocess f s"])
next
  case (Some k)
  then show ?thesis using preprocess_inner [OF assms(1)] assms(2) by simp
qed

lemma short_optional_inner:
  assumes "settles (sp s)" "sp (ZOptional (ZPreprocess f s)) i = Some i"
  shows "sp (ZOptional s) i = Some i"
  using assms preprocess_inner by (cases i) (auto simp: reads [of "ZOptional _"])

lemma given_present:
  "list_all2 (\<lambda>(n, s) (n', x). n = n' \<and> v (u n') = x) fs ps \<Longrightarrow>
     present ps = JObj (givenOut (literalNames fs) v)"
proof (induction rule: list_all2_induct)
  case (Cons f fs p ps)
  then show ?case
    by (cases f; cases p) (auto simp: present_def givenOut_def literalNames_def split: option.splits)
qed (simp add: present_def givenOut_def literalNames_def)

lemma union_given:
  assumes "namesFit fs" "map_of fs (u d) = Some (ZLiteral c)"
    "\<And>n s. (n, s) \<in> set fs \<Longrightarrow> sp s (v n) = Some (v n)"
    "find (\<lambda>t. case t of ZStrictObject gs \<Rightarrow> map_of gs (u d) = Some (ZLiteral c) | _ \<Rightarrow> False) ss
       = Some (ZStrictObject fs)"
  shows "sp (discriminatedUnion d ss) (Some (JObj (givenOut fs v)))
    = Some (Some (JObj (givenOut fs v)))"
proof -
  have "isBranch (u d) (Some (JObj (givenOut fs v)))
      = (\<lambda>t. case t of ZStrictObject gs \<Rightarrow> map_of gs (u d) = Some (ZLiteral c) | _ \<Rightarrow> False)"
    using branch_literal [OF assms(1-3)]
    by (auto simp: isBranch_def fun_eq_iff split: schema.splits option.splits)
  then show ?thesis
    using assms(4) strict_in [OF assms(1,3)]
    by (simp add: discriminatedUnion_def reads [of "ZDiscriminatedUnion _ _"] readBranch_def)
qed

lemma mode_out:
  assumes "sp (ZDefault (JStr (u ''sync'')) FulfillmentSchema) i = Some i"
  obtains w where "i = Some (JStr (u w))" "w \<in> {''sync'', ''async'', ''confirm''}"
proof -
  have "i \<in> (\<lambda>w. Some (JStr (u w))) ` {''sync'', ''async'', ''confirm''}"
    using assms by (cases i) (auto simp: reads [of "ZDefault _ _"] FulfillmentSchema_def sp_eqs
        readEnum_def split: if_splits)
  then show ?thesis using that by blast
qed

lemma string_itself: "sp (ZString checks) (Some (JStr s)) \<noteq> None \<Longrightarrow>
    sp (ZString checks) (Some (JStr s)) = Some (Some (JStr s))"
  by (auto simp: sp_eqs split: if_splits)

text \<open>The values of a public card, under the names of its schema.\<close>

definition publicValues :: "(jstext \<Rightarrow> json option) \<Rightarrow> jstext \<Rightarrow> jstext \<Rightarrow> jstext \<Rightarrow> json option" where
  "publicValues v i t n =
     (if n = u ''id'' then Some (JStr i) else if n = u ''as_of'' then Some (JStr t)
      else if n = u ''price_checked_at_purchase'' then Some (JBool (v (u ''price_check'') \<noteq> None))
      else v n)"

lemma public_fields:
  assumes "\<And>n s. (n, s) \<in> set cardFields \<Longrightarrow> sp s (v (u n)) = Some (v (u n))"
    and "sp IdentifierSchema (Some (JStr i)) \<noteq> None" "sp TimestampSchema (Some (JStr t)) \<noteq> None"
  shows "list_all (\<lambda>(n, s). sp s (publicValues v i t (u n)) = Some (publicValues v i t (u n)))
    (publicCardFields @ [(''fulfill_deadline_seconds'', ZOptional (ZInt (Some 1)))])"
proof -
  have card: "sp TitleSchema (v (u ''title'')) = Some (v (u ''title''))"
    "sp DescriptionSchema (v (u ''description'')) = Some (v (u ''description''))"
    "sp CardPriceSchema (v (u ''price'')) = Some (v (u ''price''))"
    "sp (ZOptional (writtenShort ParamSpecSchema)) (v (u ''params'')) = Some (v (u ''params''))"
    "sp (writtenShort DeclaredResultSchema) (v (u ''result'')) = Some (v (u ''result''))"
    "sp (ZOptional (ZInt (Some 1))) (v (u ''fulfill_deadline_seconds''))
      = Some (v (u ''fulfill_deadline_seconds''))"
    by (rule assms(1); simp add: cardFields_def)+
  have absent: "sp MoneySchema None = None" "sp DeclaredResultSchema None = None"
    by (simp_all add: MoneySchema_def strictObject_def sp_eqs DeclaredResultSchema_def
        ParamSpecSchema_def reads [of "ZRefine _ _"])
  have "sp MoneySchema (v (u ''price'')) = Some (v (u ''price''))"
    by (rule short_inner [OF settles_prices(1) card(3) [unfolded CardPriceSchema_def] absent(1)])
  moreover have "sp (ZOptional ParamSpecSchema) (v (u ''params'')) = Some (v (u ''params''))"
    by (rule short_optional_inner [OF settles_specs(2) card(4) [unfolded writtenShort_def]])
  moreover have "sp DeclaredResultSchema (v (u ''result'')) = Some (v (u ''result''))"
    by (rule short_inner [OF settles_card_fields(2) card(5) [unfolded writtenShort_def] absent(2)])
  moreover have "sp IdentifierSchema (Some (JStr i)) = Some (Some (JStr i))"
    using assms(2) unfolding IdentifierSchema_def by (rule string_itself)
  moreover have "sp TimestampSchema (Some (JStr t)) = Some (Some (JStr t))"
    using assms(3) by (auto simp: TimestampSchema_def sp_eqs split: if_splits)
  ultimately show ?thesis
    using card by (simp add: publicCardFields_def publicValues_def sp_eqs)
qed

lemma public_branch:
  assumes "p = JObj (givenOut (literalNames fs) v)"
    "list_all (\<lambda>(n, s). sp s (v (u n)) = Some (v (u n))) fs"
    "namesFit (literalNames fs)" "map_of (literalNames fs) (u ''fulfillment'') = Some (ZLiteral (JStr (u w)))"
    "PublicCardSchema = discriminatedUnion ''fulfillment'' ss"
    "find (\<lambda>t. case t of ZStrictObject gs \<Rightarrow> map_of gs (u ''fulfillment'') = Some (ZLiteral (JStr (u w)))
         | _ \<Rightarrow> False) ss = Some (ZStrictObject (literalNames fs))"
  shows "sp PublicCardSchema (Some p) = Some (Some p)"
proof -
  have "sp s (v n) = Some (v n)" if "(n, s) \<in> set (literalNames fs)" for n s
    using that assms(2) by (force simp: literalNames_def list_all_iff)
  then show ?thesis unfolding assms(1,5) by (rule union_given [OF assms(3,4) _ assms(6)])
qed

lemma public_card_reads:
  assumes "sp CardSchema j = Some (Some product)"
    and "sp IdentifierSchema (Some (JStr i)) \<noteq> None" "sp TimestampSchema (Some (JStr t)) \<noteq> None"
  shows "sp PublicCardSchema (Some (publicCardDocument product i t)) = Some (Some (publicCardDocument product i t))"
proof -
  obtain v where v: "product = JObj (givenOut (literalNames cardFields) v)" "deadlinesFit product"
    "\<And>n s. (n, s) \<in> set cardFields \<Longrightarrow> sp s (v (u n)) = Some (v (u n))"
    by (rule card_out [OF assms(1)]) blast+
  have fields: "field product n = v (u n)" if "n \<in> fst ` set cardFields" for n
    using that card_field v(1) by force
  obtain w where w: "v (u ''fulfillment'') = Some (JStr (u w))" "w \<in> {''sync'', ''async'', ''confirm''}"
    by (rule mode_out [OF v(3) [of "''fulfillment''"]]) (simp_all add: cardFields_def)
  have mode: "modeIs m product \<longleftrightarrow> u m = u w" for m
    using fields [of "''fulfillment''"] w(1) by (auto simp: modeIs_def cardFields_def)
  have known: "w = ''sync'' \<or> w = ''async''"
  proof -
    have "\<not> modeIs ''confirm'' product" using v(2) by (simp add: deadlinesFit_def split: if_splits)
    then have "w \<noteq> ''confirm''" using mode by blast
    with w(2) show ?thesis by blast
  qed
  let ?w = "publicValues v i t"
  let ?mode = "(''fulfillment'', ZLiteral (JStr (u w)))"
  let ?wait = "(''fulfill_deadline_seconds'', ZOptional (ZInt (Some 1)))"
  have facts: "list_all (\<lambda>(n, s). sp s (?w (u n)) = Some (?w (u n))) (publicCardFields @ [?wait])"
    by (rule public_fields [of v i t, OF _ assms(2,3)]) (rule v(3))
  have lit: "sp (ZLiteral (JStr (u w))) (?w (u ''fulfillment'')) = Some (?w (u ''fulfillment''))"
    using w(1) by (simp add: publicValues_def sp_eqs readLiteral_def)
  note values' = publicCardFields_def publicValues_def cardFields_def
  from known show ?thesis
  proof
    assume w': "w = ''sync''"
    then have m: "modeIs ''sync'' product" using mode by blast
    have "publicCardDocument product i t = JObj (givenOut (literalNames (publicCardFields @ [?mode])) ?w)"
      unfolding publicCardDocument_def Let_def if_P [OF m]
      by (rule given_present) (use w' w(1) fields in \<open>simp add: values'\<close>)
    moreover have "list_all (\<lambda>(n, s). sp s (?w (u n)) = Some (?w (u n))) (publicCardFields @ [?mode])"
      using facts lit by (simp del: u_simps)
    ultimately show ?thesis
      by (rule public_branch [where w = w, OF _ _ _ _ PublicCardSchema_def])
        (simp_all add: w' publicCardFields_def names_simps strictObject_def)
  next
    assume w': "w = ''async''"
    then have m: "\<not> modeIs ''sync'' product" "modeIs ''async'' product" using mode by auto
    have "publicCardDocument product i t
        = JObj (givenOut (literalNames (publicCardFields @ [?mode, ?wait])) ?w)"
      unfolding publicCardDocument_def Let_def if_not_P [OF m(1)] if_P [OF m(2)]
      by (rule given_present) (use w' w(1) fields in \<open>simp add: values'\<close>)
    moreover have
      "list_all (\<lambda>(n, s). sp s (?w (u n)) = Some (?w (u n))) (publicCardFields @ [?mode, ?wait])"
      using facts lit by (simp del: u_simps)
    ultimately show ?thesis
      by (rule public_branch [where w = w, OF _ _ _ _ PublicCardSchema_def])
        (simp_all add: w' publicCardFields_def names_simps strictObject_def)
  qed
qed

text \<open>A declared field has one of the four types, and its example is what the check takes.\<close>

lemma field_spec_type:
  assumes "sp FieldSpecSchema (Some d) = Some (Some d)"
  shows "field d ''type'' \<in> (\<lambda>w. Some (JStr (u w))) ` {''string'', ''number'', ''integer'', ''boolean''}"
proof -
  let ?fs = "literalNames [(''type'', ParamTypeSchema), (''required'', ZOptional ZBoolean),
      (''title'', ZOptional (ZString [notBlank]))]"
  have settled: "settles (sp s)" if "(n, s) \<in> set ?fs" for n s
    using that by (auto simp: literalNames_def settling)
  obtain v where v: "d = JObj (givenOut ?fs v)" "\<And>n s. (n, s) \<in> set ?fs \<Longrightarrow> sp s (v n) = Some (v n)"
    by (rule strict_out [OF assms [unfolded FieldSpecSchema_def strictObject_def] _ settled])
      (simp_all add: names_simps)
  have "sp ParamTypeSchema (v (u ''type'')) = Some (v (u ''type''))"
    by (rule v(2)) (simp add: literalNames_def)
  then have "v (u ''type'') \<in> (\<lambda>w. Some (JStr (u w))) ` {''string'', ''number'', ''integer'', ''boolean''}"
    by (auto simp: ParamTypeSchema_def sp_eqs readEnum_def split: if_splits)
  moreover have "field d ''type'' = v (u ''type'')"
    unfolding v(1) field_def property.simps by (rule map_of_givenOut) (simp_all add: literalNames_def)
  ultimately show ?thesis by simp
qed

lemma notBlank_string: "notBlank (u ''string'')"
  by code_simp

lemma stand_in_taken:
  assumes "sp FieldSpecSchema (Some d) = Some (Some d)"
  shows "sp (fieldCheck direction d) (Some (standInFor (field d ''type'')))
    = Some (Some (standInFor (field d ''type'')))"
proof -
  have "sp (checkFor (field d ''type'') direction) (Some (standInFor (field d ''type'')))
      = Some (Some (standInFor (field d ''type'')))"
    using field_spec_type [OF assms] notBlank_string
    by (cases direction) (auto simp: checkFor_def standInFor_def sp_eqs isSafeInteger_def)
  then show ?thesis by (simp add: fieldCheck_def Let_def reads [of "ZOptional _"])
qed

lemma givenOut_self:
  "map fst es = map fst fs \<Longrightarrow> distinct (map fst fs) \<Longrightarrow> givenOut fs (map_of es) = es"
proof (induction fs arbitrary: es)
  case (Cons f fs)
  then obtain n r w es' where f: "f = (n, r)" and es: "es = (n, w) # es'" "map fst es' = map fst fs"
    by (cases f; cases es) auto
  have "givenOut fs (map_of es) = givenOut fs (map_of es')"
    unfolding givenOut_def using Cons.prems(2) f es(1)
    by (intro arg_cong [where f = concat] map_cong) (force split: prod.split)+
  moreover have "givenOut fs (map_of es') = es'" using Cons f es by simp
  ultimately show ?case using f es by (simp add: givenOut_def)
qed (simp add: givenOut_def)

lemma example_taken:
  assumes "sp ParamSpecSchema i = Some (Some spec)" "spec = JObj m" "distinct (map fst m)"
  shows "sp (paramSpecToValidator spec direction) (Some (exampleOf spec)) = Some (Some (exampleOf spec))"
proof -
  obtain m' where m': "spec = JObj m'" "PROTOTYPE_KEY_IS_DROPPED \<notin> set (map fst m')"
    "\<And>n d. (n, d) \<in> set m' \<Longrightarrow> sp FieldSpecSchema (Some d) = Some (Some d)"
    by (rule spec_out [OF assms(1)]) blast+
  then have m: "m' = m" using assms(2) by simp
  let ?fs = "map (\<lambda>(n, d). (n, fieldCheck direction d)) m"
  let ?es = "map (\<lambda>(n, d). (n, standInFor (field d ''type''))) m"
  have names: "map fst ?es = map fst ?fs" "distinct (map fst ?fs)" "map fst ?fs = map fst m"
    using assms(3) by (simp_all add: comp_def case_prod_unfold)
  have "sp s (map_of ?es n) = Some (map_of ?es n)" if given: "(n, s) \<in> set ?fs" for n s
  proof -
    obtain d where d: "(n, d) \<in> set m" "s = fieldCheck direction d" using given by auto
    have "distinct (map fst ?es)" using names by (simp only:)
    then have "map_of ?es n = Some (standInFor (field d ''type''))"
      by (rule map_of_is_SomeI) (use d in force)
    with stand_in_taken m' m d show ?thesis by simp
  qed
  then have "sp (ZStrictObject ?fs) (Some (JObj (givenOut ?fs (map_of ?es))))
      = Some (Some (JObj (givenOut ?fs (map_of ?es))))"
    using names m' m by (intro strict_in) (simp_all add: namesFit_def)
  then show ?thesis using givenOut_self [OF names(1,2)] assms(2) by simp
qed

lemma declared_out:
  assumes "sp CardSchema j = Some (Some product)"
  shows "sp ParamSpecSchema (Some (declaredParams product)) = Some (Some (declaredParams product))"
    "sp ParamSpecSchema (Some (declaredResult product)) = Some (Some (declaredResult product))"
proof -
  obtain v where v: "product = JObj (givenOut (literalNames cardFields) v)" "deadlinesFit product"
    "\<And>n s. (n, s) \<in> set cardFields \<Longrightarrow> sp s (v (u n)) = Some (v (u n))"
    by (rule card_out [OF assms]) blast+
  have fields: "field product n = v (u n)" if "n \<in> fst ` set cardFields" for n
    using that card_field v(1) by force
  have "sp (ZOptional (writtenShort ParamSpecSchema)) (v (u ''params'')) = Some (v (u ''params''))"
    by (rule v(3)) (simp add: cardFields_def)
  then have params: "sp (ZOptional ParamSpecSchema) (v (u ''params'')) = Some (v (u ''params''))"
    unfolding writtenShort_def by (rule short_optional_inner [OF settles_specs(2)])
  have "sp ParamSpecSchema (Some (JObj [])) = Some (Some (JObj []))"
    by (simp add: ParamSpecSchema_def sp_eqs ownMembers_def)
  with params fields [of "''params''"] show "sp ParamSpecSchema (Some (declaredParams product))
      = Some (Some (declaredParams product))"
    by (cases "v (u ''params'')")
      (auto simp: declaredParams_def cardFields_def reads [of "ZOptional _"])
  have "sp (writtenShort DeclaredResultSchema) (v (u ''result'')) = Some (v (u ''result''))"
    by (rule v(3)) (simp add: cardFields_def)
  moreover have "sp DeclaredResultSchema None = None"
    by (simp add: DeclaredResultSchema_def ParamSpecSchema_def reads [of "ZRefine _ _"] sp_eqs)
  ultimately have result: "sp DeclaredResultSchema (v (u ''result'')) = Some (v (u ''result''))"
    unfolding writtenShort_def by (intro short_inner [OF settles_card_fields(2)])
  with \<open>sp DeclaredResultSchema None = None\<close> obtain k where k: "v (u ''result'') = Some k"
    by (cases "v (u ''result'')") auto
  then show "sp ParamSpecSchema (Some (declaredResult product)) = Some (Some (declaredResult product))"
    using result_is_spec [of "Some k" k] result fields [of "''result''"]
    by (simp add: declaredResult_def cardFields_def)
qed

end

end
