(* ===== verification/Contract_Properties.thy ===== *)
theory Contract_Properties
  imports Contract_Card_Laws
begin

text \<open>
  The properties of the contract, for every reader with zod's documented behaviour, each with a
  witness that applies it to \<open>zodParse\<close> under two sample formats.
\<close>

definition sampleFormats :: formats where
  "sampleFormats = \<lparr>isIsoDatetime = (\<lambda>s. s \<noteq> []), isUrl = (\<lambda>s. startsWith s (u ''https://''))\<rparr>"

section \<open>A refusal is no document\<close>

definition turnsBodyAway :: "schema \<Rightarrow> bool" where
  "turnsBodyAway s \<longleftrightarrow>
     (case s of
        ZStrictObject fs \<Rightarrow> u ''error'' \<notin> fst ` set fs
      | ZDiscriminatedUnion d ss \<Rightarrow> d \<noteq> u ''error''
      | _ \<Rightarrow> False)"

lemma documents_turn_away: "list_all (\<lambda>(name, r). turnsBodyAway (routeDocument r)) API_ROUTES"
  by (simp add: API_ROUTES_def shopRoutes_def tradeRoutes_def route_def turnsBodyAway_def
      literalNames_def strictObject_def discriminatedUnion_def PublishResultSchema_def
      MerchantCardListSchema_def MerchantCardSchema_def RegisteredMerchantSchema_def
      SellerNameSchema_def PayoutWalletSchema_def MerchantKeyListSchema_def IssuedKeySchema_def
      DisabledKeySchema_def CabinetKeySchema_def ForgottenCabinetKeySchema_def
      OrderWithStatusSchema_def OrderListSchema_def ReceiptListSchema_def
      WorkerPollResponseSchema_def OrderCallResponseSchema_def OrderAcceptResponseSchema_def
      QuoteAnswerAckSchema_def CatalogPageSchema_def AgentOrderStatusSchema_def)

context zod
begin

lemma envelope_body:
  assumes "sp ErrorEnvelopeSchema (Some body) \<noteq> None"
  obtains m w where "body = JObj m" "(u ''error'', w) \<in> set (ownMembers m)"
    "set (map fst (ownMembers m)) \<subseteq> {u ''error''}"
proof -
  let ?inner = "looseObject [(''code'', ZString [notBlank]), (''message'', ZString [notBlank]),
      (''retryable'', ZBoolean)]"
  have strict: "sp (ZStrictObject [(u ''error'', ?inner)]) (Some body) \<noteq> None"
    using assms by (simp add: ErrorEnvelopeSchema_def strictObject_def literalNames_def)
  then obtain m where m: "body = JObj m" by (cases body) (auto simp: sp_eqs)
  have "sp ?inner None = None"
    by (simp add: looseObject_def reads [of "ZLooseObject _"])
  then have "map_of (ownMembers m) (u ''error'') \<noteq> None"
    using strict strict_required [of "u ''error''" ?inner "[(u ''error'', ?inner)]" m]
    unfolding m by (metis list.set_intros(1))
  then obtain w where "(u ''error'', w) \<in> set (ownMembers m)" by (metis map_of_SomeD not_None_eq)
  moreover have "n = u ''error''" if "(n, v) \<in> set (ownMembers m)" for n v
  proof (rule ccontr)
    assume "n \<noteq> u ''error''"
    then have "sp (ZStrictObject [(u ''error'', ?inner)]) (Some (JObj m)) = None"
      by (intro strict_stranger [OF that]) simp
    with strict m show False by simp
  qed
  then have "set (map fst (ownMembers m)) \<subseteq> {u ''error''}" by force
  ultimately show ?thesis using m that by blast
qed

lemma turned_away:
  assumes "turnsBodyAway s" "sp ErrorEnvelopeSchema (Some body) \<noteq> None"
  shows "sp s (Some body) = None"
proof -
  obtain m w where m: "body = JObj m" "(u ''error'', w) \<in> set (ownMembers m)"
    "set (map fst (ownMembers m)) \<subseteq> {u ''error''}"
    by (rule envelope_body [OF assms(2)])
  show ?thesis
  proof (cases s)
    case (ZStrictObject fs)
    then show ?thesis using assms(1) strict_stranger [OF m(2)] m(1) by (simp add: turnsBodyAway_def)
  next
    case (ZDiscriminatedUnion d ss)
    then have "d \<notin> set (map fst (ownMembers m))" using assms(1) m(3) by (auto simp: turnsBodyAway_def)
    then have "map_of (ownMembers m) d = None" by (simp add: map_of_eq_None_iff)
    then have "\<not> isBranch d (Some body) t" for t
      using m(1) by (auto simp: isBranch_def split: schema.splits option.splits)
    then show ?thesis
      using ZDiscriminatedUnion find_None_iff [of "isBranch d (Some body)" ss]
      by (simp add: reads [of "ZDiscriminatedUnion d ss"] readBranch_def)
  qed (use assms(1) in \<open>simp_all add: turnsBodyAway_def\<close>)
qed

end

text \<open>C26: No refusal is taken for an answer: a body that reads as the error envelope is turned
  away by the document of every call of the surface, whatever else the refusal carries. The
  SDK reads the document first and the envelope second, so a refusal is always reported as
  one.\<close>

theorem refusals_are_never_documents:
  assumes "documentedZod F sp" "(name, r) \<in> set API_ROUTES"
    and "sp ErrorEnvelopeSchema (Some body) \<noteq> None"
  shows "sp (routeDocument r) (Some body) = None"
proof -
  have "turnsBodyAway (routeDocument r)" using documents_turn_away assms(2) by (auto simp: list_all_iff)
  then show ?thesis using zod.turned_away [OF zod.intro] assms(1,3) by blast
qed

definition sampleRefusal :: json where
  "sampleRefusal =
     JObj [(u ''error'',
       JObj [(u ''code'', JStr (u ''no_such_order'')), (u ''message'', JStr (u ''no such order'')),
         (u ''retryable'', JBool False)])]"

lemma sample_route: "(''get_order'',
    route GET ''/v0/orders/:order_id'' BehindMerchantKey None None OrderWithStatusSchema [])
    \<in> set API_ROUTES"
  by (simp add: API_ROUTES_def tradeRoutes_def)

lemma sample_refusal: "zodParse sampleFormats ErrorEnvelopeSchema (Some sampleRefusal) \<noteq> None"
  by code_simp

theorem refusals_are_never_documents_witness:
  "zodParse sampleFormats OrderWithStatusSchema (Some sampleRefusal) = None"
  using refusals_are_never_documents [OF zodParse_documented sample_route sample_refusal]
  by (simp add: route_def)

section \<open>Documents and cards read back\<close>

definition routeSchemas :: "RouteDefinition \<Rightarrow> schema list" where
  "routeSchemas r =
     routeDocument r # (case routeRequest r of None \<Rightarrow> [] | Some s \<Rightarrow> [s])
       @ (case routeQuery r of None \<Rightarrow> [] | Some s \<Rightarrow> [s])"

context zod
begin

lemma routes_settle: "list_all (\<lambda>(name, r). list_all (\<lambda>s. settles (sp s)) (routeSchemas r)) API_ROUTES"
  by (simp add: API_ROUTES_def shopRoutes_def tradeRoutes_def route_def routeSchemas_def settling)

end

text \<open>C27: Every document of the surface survives being read: what the schema of a call's request,
  query or answer gives out is read by the same schema again, unchanged. So what the SDK has
  checked and posts is the very document the gateway reads, and a card read back in its
  canonical form is accepted unchanged.\<close>

theorem documents_read_back:
  assumes "documentedZod F sp" "(name, r) \<in> set API_ROUTES" "s \<in> set (routeSchemas r)"
    and "sp s j = Some (Some k)"
  shows "sp s (Some k) = Some (Some k)"
proof -
  have "settles (sp s)"
    using zod.routes_settle [OF zod.intro [OF assms(1)]] assms(2,3) by (auto simp: list_all_iff)
  then show ?thesis using settles_again assms(4) by blast
qed

text \<open>A card in its short forms, and what it is read as.\<close>

definition shortCard :: json where
  "shortCard =
     JObj [(u ''merchant_item_id'', JStr (u ''sku-1'')), (u ''title'', JStr (u ''Pass'')),
       (u ''description'', JStr (u ''One day'')), (u ''price'', JStr (u ''5.00 USD'')),
       (u ''params'', JObj [(u ''email'', JStr (u ''string''))]),
       (u ''result'', JObj [(u ''access_url'', JStr (u ''string''))])]"

definition typed :: "string \<Rightarrow> json" where
  "typed word = JObj [(u ''type'', JStr (u word))]"

definition longCard :: json where
  "longCard =
     JObj [(u ''merchant_item_id'', JStr (u ''sku-1'')), (u ''title'', JStr (u ''Pass'')),
       (u ''description'', JStr (u ''One day'')),
       (u ''price'', JObj [(u ''amount'', JStr (u ''5.00'')), (u ''currency'', JStr (u ''USD''))]),
       (u ''params'', JObj [(u ''email'', typed ''string'')]),
       (u ''result'', JObj [(u ''access_url'', typed ''string'')]),
       (u ''fulfillment'', JStr (u ''sync''))]"

lemma short_card_read: "zodParse sampleFormats CardSchema (Some shortCard) = Some (Some longCard)"
  by code_simp

lemma publish_route: "(''publish_card'',
    route POST ''/v0/catalog/publish'' BehindMerchantKey None (Some CardSchema) PublishResultSchema [])
    \<in> set API_ROUTES"
  by (simp add: API_ROUTES_def shopRoutes_def)

theorem documents_read_back_witness:
  "zodParse sampleFormats CardSchema (Some longCard) = Some (Some longCard)"
  by (rule documents_read_back [OF zodParse_documented publish_route _ short_card_read])
    (simp add: routeSchemas_def route_def)

text \<open>C28: Anything a merchant may publish can be shown to an agent: the projection of a card that
  was read, under an identifier and an instant of the right shape, is read by the public card's
  schema as it stands; and the merchant's own key, the way the price is asked and the search
  words of the listing are not in it.\<close>

theorem published_cards_project:
  assumes "documentedZod F sp" "sp CardSchema j = Some (Some product)"
    and "sp IdentifierSchema (Some (JStr i)) \<noteq> None" "sp TimestampSchema (Some (JStr t)) \<noteq> None"
  shows "sp PublicCardSchema (Some (publicCardDocument product i t)) = Some (Some (publicCardDocument product i t))
    \<and> (\<forall>n. n \<in> {''merchant_item_id'', ''price_check'', ''tags''} \<longrightarrow>
          field (publicCardDocument product i t) n = None)"
proof (intro conjI allI impI)
  note zod = zod.intro [OF assms(1)]
  show "sp PublicCardSchema (Some (publicCardDocument product i t)) = Some (Some (publicCardDocument product i t))"
    by (rule zod.public_card_reads [OF zod assms(2-4)])
  show "field (publicCardDocument product i t) n = None"
    if "n \<in> {''merchant_item_id'', ''price_check'', ''tags''}" for n
    by (rule zod.public_card_hides [OF zod that])
qed

lemma sample_identifier:
  "zodParse sampleFormats IdentifierSchema (Some (JStr (u ''item-1''))) \<noteq> None"
  "zodParse sampleFormats TimestampSchema (Some (JStr (u ''2026-01-01T00:00:00Z''))) \<noteq> None"
  by code_simp+

theorem published_cards_project_witness:
  "zodParse sampleFormats PublicCardSchema
      (Some (publicCardDocument longCard (u ''item-1'') (u ''2026-01-01T00:00:00Z'')))
    = Some (Some (publicCardDocument longCard (u ''item-1'') (u ''2026-01-01T00:00:00Z'')))"
  using published_cards_project [OF zodParse_documented short_card_read sample_identifier] by simp

fun keysOnce :: "json \<Rightarrow> bool" where
  "keysOnce (JObj m) = distinct (map fst m)"
| "keysOnce j = True"

text \<open>C29: The examples a listing shows are ones our own doors take: the purchase body's example is
  what the card's purchase check accepts, and the delivery's example what its delivery check
  accepts, each unchanged. An object of JavaScript has each of its keys once.\<close>

theorem advertised_examples_are_taken:
  assumes "documentedZod F sp" "sp CardSchema j = Some (Some product)"
    and "keysOnce (declaredParams product)" "keysOnce (declaredResult product)"
  shows "property (bazaarInput (bazaarDeclarationOf toJSONSchema product url name)) (u ''params'')
      = Some (exampleOf (declaredParams product))
    \<and> sp (purchaseCheckFor product) (Some (exampleOf (declaredParams product)))
      = Some (Some (exampleOf (declaredParams product)))
    \<and> sp (deliveryCheckFor product)
        (Some (bazaarOutputExample (bazaarDeclarationOf toJSONSchema product url name)))
      = Some (Some (bazaarOutputExample (bazaarDeclarationOf toJSONSchema product url name)))"
proof -
  note zod = zod.intro [OF assms(1)]
  note declared = zod.declared_out [OF zod assms(2)]
  have taken: "sp (paramSpecToValidator spec direction) (Some (exampleOf spec)) = Some (Some (exampleOf spec))"
    if read: "sp ParamSpecSchema (Some spec) = Some (Some spec)" and once: "keysOnce spec"
    for spec direction
  proof -
    obtain m where "spec = JObj m" by (rule zod.spec_out [OF zod read]) blast
    with zod.example_taken [OF zod read] once show ?thesis by simp
  qed
  show ?thesis
    using taken [OF declared(1) assms(3)] taken [OF declared(2) assms(4)]
    by (simp add: bazaarDeclarationOf_def purchaseCheckFor_def deliveryCheckFor_def)
qed

theorem advertised_examples_are_taken_witness:
  "zodParse sampleFormats (deliveryCheckFor longCard)
      (Some (JObj [(u ''access_url'', JStr (u ''string''))]))
    = Some (Some (JObj [(u ''access_url'', JStr (u ''string''))]))"
proof -
  have once: "keysOnce (declaredParams longCard)" "keysOnce (declaredResult longCard)"
    and example: "exampleOf (declaredResult longCard) = JObj [(u ''access_url'', JStr (u ''string''))]"
    by code_simp+
  show ?thesis
    using advertised_examples_are_taken [OF zodParse_documented short_card_read once,
        where toJSONSchema = "\<lambda>_. JNull" and url = "[]" and name = None] example
    by (simp add: bazaarDeclarationOf_def)
qed

end
