(* ===== verification/Contract_Addresses.thy ===== *)
theory Contract_Addresses
  imports Contract_Api
begin

text \<open>
  Where an address leads. The reference is a router that takes an address apart at its slashes,
  holds each piece to the template's and reads a parameter's piece back as percent-encoded
  UTF-8: what \<open>expandPath\<close> builds for one call is read back by it as the values put in, and no
  other call of the table answers there.
\<close>

section \<open>Percent-encoded UTF-8 read back\<close>

fun unescape :: "jstext \<Rightarrow> int list" where
  "unescape [] = []"
| "unescape (c # s) =
     (if c = 37 then
        (case s of h # l # t \<Rightarrow> (16 * unitValue h + unitValue l) # unescape t | _ \<Rightarrow> [37])
      else c # unescape s)"

definition pointUnits :: "int \<Rightarrow> jstext" where
  "pointUnits point =
     (if point < 65536 then [point]
      else [55296 + (point - 65536) div 1024, 56320 + (point - 65536) mod 1024])"

fun fromUtf8 :: "int list \<Rightarrow> jstext option" where
  "fromUtf8 [] = Some []"
| "fromUtf8 (b # bs) =
     (if b < 128 then map_option (\<lambda>r. b # r) (fromUtf8 bs)
      else if b < 224 then
        (case bs of c # t \<Rightarrow> map_option (\<lambda>r. pointUnits ((b - 192) * 64 + (c - 128)) @ r) (fromUtf8 t)
         | [] \<Rightarrow> None)
      else if b < 240 then
        (case bs of c # d # t \<Rightarrow>
           map_option (\<lambda>r. pointUnits ((b - 224) * 4096 + (c - 128) * 64 + (d - 128)) @ r) (fromUtf8 t)
         | _ \<Rightarrow> None)
      else
        (case bs of c # d # e # t \<Rightarrow>
           map_option (\<lambda>r. pointUnits ((b - 240) * 262144 + (c - 128) * 4096 + (d - 128) * 64 + (e - 128)) @ r)
             (fromUtf8 t)
         | _ \<Rightarrow> None))"

definition pathPieceRead :: "jstext \<Rightarrow> jstext option" where
  "pathPieceRead s = fromUtf8 (unescape s)"

definition isJsString :: "jstext \<Rightarrow> bool" where
  "isJsString s \<longleftrightarrow> list_all (\<lambda>c. 0 \<le> c \<and> c < 65536) s"

lemma hex_read: "0 \<le> d \<Longrightarrow> d < 16 \<Longrightarrow> unitValue (upperHexUnit d) = d"
  by (auto simp: unitValue_def upperHexUnit_def isDigit_def isLower_def isUpper_def)

lemma unescape_byte: "0 \<le> b \<Longrightarrow> b < 256 \<Longrightarrow> unescape (percentByte b @ s) = b # unescape s"
  by (simp add: percentByte_def hex_read)

lemma unescape_bytes:
  "list_all (\<lambda>b. 0 \<le> b \<and> b < 256) bs \<Longrightarrow> unescape (concat (map percentByte bs) @ s) = bs @ unescape s"
  by (induction bs) (simp_all add: unescape_byte)

lemma quotients:
  "p div 4096 = p div 64 div 64" "p div 262144 = p div 64 div 64 div 64" for p :: int
proof -
  have "p div (64 * 64) = p div 64 div 64" "p div (64 * 4096) = p div 64 div 4096"
    "p div 64 div (64 * 64) = p div 64 div 64 div 64"
    by (rule zdiv_zmult2_eq; simp only: zero_le_numeral)+
  moreover have "(64 :: int) * 64 = 4096" "(64 :: int) * 4096 = 262144" by simp_all
  ultimately show "p div 4096 = p div 64 div 64" "p div 262144 = p div 64 div 64 div 64"
    by (simp_all only:)
qed

lemma digits64:
  "64 * (p div 64) + p mod 64 = p" "4096 * (p div 4096) + 64 * (p div 64 mod 64) + p mod 64 = p"
  "262144 * (p div 262144) + 4096 * (p div 4096 mod 64) + 64 * (p div 64 mod 64) + p mod 64 = p"
  for p :: int
  using mult_div_mod_eq [of 64 p] mult_div_mod_eq [of 64 "p div 64"]
    mult_div_mod_eq [of 64 "p div 64 div 64"]
  unfolding quotients by linarith+

lemma remainder64: "0 \<le> a mod 64" "a mod 64 < 64" for a :: int
  by simp_all

lemma quotient_bounds:
  fixes p :: int
  assumes "0 \<le> p"
  shows "0 \<le> p div 64" "0 \<le> p div 4096" "0 \<le> p div 262144"
    "p < 2048 \<Longrightarrow> p div 64 < 32" "p < 65536 \<Longrightarrow> p div 4096 < 16" "p < 1114112 \<Longrightarrow> p div 262144 < 8"
  using assms zdiv_mono1 [of p 2047 64] zdiv_mono1 [of p 65535 4096] zdiv_mono1 [of p 1114111 262144]
  by (simp_all add: pos_imp_zdiv_nonneg_iff)

lemma points_cases:
  fixes p :: int
  obtains "p < 128" | "128 \<le> p" "p < 2048" | "2048 \<le> p" "p < 65536" | "65536 \<le> p"
  by linarith

lemma bytes_fit:
  fixes a b c d :: int
  shows "0 \<le> a \<Longrightarrow> a < 32 \<Longrightarrow> 0 \<le> b \<Longrightarrow> b < 64 \<Longrightarrow> list_all (\<lambda>b. 0 \<le> b \<and> b < 256) [192 + a, 128 + b]"
    "0 \<le> a \<Longrightarrow> a < 16 \<Longrightarrow> 0 \<le> b \<Longrightarrow> b < 64 \<Longrightarrow> 0 \<le> c \<Longrightarrow> c < 64
      \<Longrightarrow> list_all (\<lambda>b. 0 \<le> b \<and> b < 256) [224 + a, 128 + b, 128 + c]"
    "0 \<le> a \<Longrightarrow> a < 8 \<Longrightarrow> 0 \<le> b \<Longrightarrow> b < 64 \<Longrightarrow> 0 \<le> c \<Longrightarrow> c < 64 \<Longrightarrow> 0 \<le> d \<Longrightarrow> d < 64
      \<Longrightarrow> list_all (\<lambda>b. 0 \<le> b \<and> b < 256) [240 + a, 128 + b, 128 + c, 128 + d]"
  by simp_all

lemma utf8_bytes_fit:
  assumes "0 \<le> p" "p < 1114112"
  shows "list_all (\<lambda>b. 0 \<le> b \<and> b < 256) (utf8Bytes p)"
proof -
  note bounds = quotient_bounds [OF assms(1)] remainder64 [of p] remainder64 [of "p div 64"]
    remainder64 [of "p div 4096"]
  show ?thesis
  proof (cases p rule: points_cases)
    case 1
    then show ?thesis using assms by (simp add: utf8Bytes_def)
  next
    case 2
    then have "utf8Bytes p = [192 + p div 64, 128 + p mod 64]" by (simp only: utf8Bytes_def) simp
    then show ?thesis using bytes_fit(1) [OF bounds(1,4) bounds(7,8)] 2 by (simp only:)
  next
    case 3
    then have "utf8Bytes p = [224 + p div 4096, 128 + p div 64 mod 64, 128 + p mod 64]"
      by (simp only: utf8Bytes_def) simp
    then show ?thesis using bytes_fit(2) [OF bounds(2,5) bounds(9,10,7,8)] 3 by (simp only:)
  next
    case 4
    then have "utf8Bytes p =
        [240 + p div 262144, 128 + p div 4096 mod 64, 128 + p div 64 mod 64, 128 + p mod 64]"
      by (simp only: utf8Bytes_def) simp
    then show ?thesis
      using bytes_fit(3) [OF bounds(3,6) bounds(11,12,9,10,7,8)] assms(2) by (simp only:)
  qed
qed

lemma from_utf8_bytes:
  "0 \<le> a \<Longrightarrow> a < 32 \<Longrightarrow> fromUtf8 ((192 + a) # (128 + b) # s)
     = map_option (\<lambda>r. pointUnits (64 * a + b) @ r) (fromUtf8 s)"
  "0 \<le> a \<Longrightarrow> a < 16 \<Longrightarrow> fromUtf8 ((224 + a) # (128 + b) # (128 + c) # s)
     = map_option (\<lambda>r. pointUnits (4096 * a + 64 * b + c) @ r) (fromUtf8 s)"
  "0 \<le> a \<Longrightarrow> fromUtf8 ((240 + a) # (128 + b) # (128 + c) # (128 + d) # s)
     = map_option (\<lambda>r. pointUnits (262144 * a + 4096 * b + 64 * c + d) @ r) (fromUtf8 s)"
  by (simp_all add: mult.commute add.assoc)

lemma from_utf8_point:
  assumes "0 \<le> p" "p < 1114112"
  shows "fromUtf8 (utf8Bytes p @ s) = map_option (\<lambda>r. pointUnits p @ r) (fromUtf8 s)"
proof (cases p rule: points_cases)
  case 1
  then show ?thesis by (simp add: utf8Bytes_def pointUnits_def)
next
  case 2
  then have "utf8Bytes p @ s = (192 + p div 64) # (128 + p mod 64) # s"
    by (simp only: utf8Bytes_def) simp
  then show ?thesis
    using from_utf8_bytes(1) [of "p div 64" "p mod 64" s] quotient_bounds(1,4) [OF assms(1)] 2
    by (simp only: digits64)
next
  case 3
  then have "utf8Bytes p @ s = (224 + p div 4096) # (128 + p div 64 mod 64) # (128 + p mod 64) # s"
    by (simp only: utf8Bytes_def) simp
  then show ?thesis
    using from_utf8_bytes(2) [of "p div 4096" "p div 64 mod 64" "p mod 64" s]
      quotient_bounds(2,5) [OF assms(1)] 3
    by (simp only: digits64)
next
  case 4
  then have "utf8Bytes p @ s = (240 + p div 262144) # (128 + p div 4096 mod 64)
      # (128 + p div 64 mod 64) # (128 + p mod 64) # s"
    by (simp only: utf8Bytes_def) simp
  then show ?thesis
    using from_utf8_bytes(3) [of "p div 262144" "p div 4096 mod 64" "p div 64 mod 64" "p mod 64" s]
      quotient_bounds(3) [OF assms(1)]
    by (simp only: digits64)
qed

lemma pair_read:
  assumes "isHighSurrogate c" "isLowSurrogate d"
  shows "pointUnits (pairPoint c d) = [c, d]" "65536 \<le> pairPoint c d" "pairPoint c d < 1114112"
proof -
  have c: "55296 \<le> c" "c \<le> 56319" and d: "56320 \<le> d" "d \<le> 57343"
    using assms by (simp_all add: isHighSurrogate_def isLowSurrogate_def)
  then show "65536 \<le> pairPoint c d" "pairPoint c d < 1114112" by (simp_all add: pairPoint_def)
  have "((d - 56320) + (c - 55296) * 1024) div 1024 = c - 55296"
    "((d - 56320) + (c - 55296) * 1024) mod 1024 = d - 56320"
    using d unfolding mod_mult_self1 by simp_all
  moreover have "pairPoint c d - 65536 = (d - 56320) + (c - 55296) * 1024"
    by (simp add: pairPoint_def)
  ultimately show "pointUnits (pairPoint c d) = [c, d]"
    using \<open>65536 \<le> pairPoint c d\<close> by (simp only: pointUnits_def) simp
qed

text \<open>Each point of a string, put in front of what is read after it.\<close>

lemma point_read:
  assumes "0 \<le> p" "p < 1114112" "pathPieceRead e = Some v"
  shows "pathPieceRead (encodedPoint p @ e) = Some (pointUnits p @ v)"
  using assms from_utf8_point [of p] utf8_bytes_fit [of p]
  by (simp add: pathPieceRead_def encodedPoint_def unescape_bytes)

lemma unreserved_read:
  assumes "isUnreserved c" "pathPieceRead e = Some v"
  shows "pathPieceRead (c # e) = Some (c # v)"
  using assms
  by (auto simp: pathPieceRead_def isUnreserved_def isDigit_def isUpper_def isLower_def)

lemma encoded_read:
  "isJsString v \<Longrightarrow> encodeURIComponent v = Inr e \<Longrightarrow> pathPieceRead e = Some v"
proof (induction v arbitrary: e rule: encodeURIComponent.induct)
  case (2 c s)
  have c: "0 \<le> c" "c < 65536" "isJsString s" using "2.prems"(1) by (simp_all add: isJsString_def)
  consider (plain) "isUnreserved c" | (pair) "\<not> isUnreserved c" "isHighSurrogate c" "\<not> isLowSurrogate c"
    | (single) "\<not> isUnreserved c" "\<not> isLowSurrogate c" "\<not> isHighSurrogate c"
    using "2.prems"(2) by (auto split: if_splits)
  then show ?case
  proof cases
    case plain
    then obtain r where "e = c # r" "encodeURIComponent s = Inr r"
      using "2.prems"(2) by (cases "encodeURIComponent s") auto
    then show ?thesis using "2.IH"(1) [OF plain c(3)] unreserved_read [OF plain] by simp
  next
    case pair
    then obtain d t r where s: "s = d # t" "isLowSurrogate d" "encodeURIComponent t = Inr r"
      and e: "e = encodedPoint (pairPoint c d) @ r"
      using "2.prems"(2) by (cases s; cases "encodeURIComponent (tl s)") (auto split: if_splits)
    have "pathPieceRead r = Some t"
      by (rule "2.IH"(2) [OF pair(1,3,2) s(1,2) _ s(3)]) (use c s in \<open>simp add: isJsString_def\<close>)
    then show ?thesis
      unfolding e s(1) using pair_read [OF pair(2) s(2)] point_read [of "pairPoint c d" r t] by simp
  next
    case single
    then obtain r where "e = encodedPoint c @ r" "encodeURIComponent s = Inr r"
      using "2.prems"(2) by (cases "encodeURIComponent s") auto
    then show ?thesis
      using "2.IH"(3) [OF single c(3)] point_read [of c r s] c by (simp add: pointUnits_def)
  qed
qed (simp add: pathPieceRead_def)

text \<open>What is put in holds no slash.\<close>

lemma bytes_no_slash: "list_all (\<lambda>b. 0 \<le> b \<and> b < 256) bs \<Longrightarrow> 47 \<notin> set (concat (map percentByte bs))"
proof (induction bs)
  case (Cons b bs)
  have "upperHexUnit d \<noteq> 47" if "0 \<le> d" for d using that by (simp add: upperHexUnit_def)
  then have "upperHexUnit (b div 16) \<noteq> 47" "upperHexUnit (b mod 16) \<noteq> 47"
    using Cons.prems by (simp_all add: pos_imp_zdiv_nonneg_iff)
  with Cons show ?case by (auto simp: percentByte_def)
qed simp

lemma point_no_slash: "0 \<le> p \<Longrightarrow> p < 1114112 \<Longrightarrow> 47 \<notin> set (encodedPoint p)"
  unfolding encodedPoint_def by (rule bytes_no_slash) (rule utf8_bytes_fit)

lemma no_slash: "isJsString v \<Longrightarrow> encodeURIComponent v = Inr e \<Longrightarrow> 47 \<notin> set e"
proof (induction v arbitrary: e rule: encodeURIComponent.induct)
  case (2 c s)
  have c: "0 \<le> c" "c < 65536" "isJsString s" using "2.prems"(1) by (simp_all add: isJsString_def)
  consider (plain) "isUnreserved c" | (pair) "\<not> isUnreserved c" "isHighSurrogate c" "\<not> isLowSurrogate c"
    | (single) "\<not> isUnreserved c" "\<not> isLowSurrogate c" "\<not> isHighSurrogate c"
    using "2.prems"(2) by (auto split: if_splits)
  then show ?case
  proof cases
    case plain
    then obtain r where "e = c # r" "encodeURIComponent s = Inr r"
      using "2.prems"(2) by (cases "encodeURIComponent s") auto
    then show ?thesis
      using "2.IH"(1) [OF plain c(3)] plain
      by (auto simp: isUnreserved_def isDigit_def isUpper_def isLower_def)
  next
    case pair
    then obtain d t r where s: "s = d # t" "isLowSurrogate d" "encodeURIComponent t = Inr r"
      and e: "e = encodedPoint (pairPoint c d) @ r"
      using "2.prems"(2) by (cases s; cases "encodeURIComponent (tl s)") (auto split: if_splits)
    have "47 \<notin> set r"
      by (rule "2.IH"(2) [OF pair(1,3,2) s(1,2) _ s(3)]) (use c s in \<open>simp add: isJsString_def\<close>)
    then show ?thesis
      unfolding e using pair_read [OF pair(2) s(2)] point_no_slash [of "pairPoint c d"] by simp
  next
    case single
    then obtain r where "e = encodedPoint c @ r" "encodeURIComponent s = Inr r"
      using "2.prems"(2) by (cases "encodeURIComponent s") auto
    then show ?thesis using "2.IH"(3) [OF single c(3)] point_no_slash [of c] c by simp
  qed
qed simp

section \<open>Taking an address apart\<close>

definition pathSegments :: "jstext \<Rightarrow> jstext list" where
  "pathSegments path = splitText path [47]"

definition isParamSegment :: "jstext \<Rightarrow> bool" where
  "isParamSegment t \<longleftrightarrow> startsWith t [58]"

fun matchSegments :: "jstext list \<Rightarrow> jstext list \<Rightarrow> (jstext \<times> jstext) list option" where
  "matchSegments [] [] = Some []"
| "matchSegments (t # ts) (a # bs) =
     (if isParamSegment t then
        (case (pathPieceRead a, matchSegments ts bs) of
           (Some v, Some vs) \<Rightarrow> Some ((tl t, v) # vs)
         | _ \<Rightarrow> None)
      else if t = a then matchSegments ts bs else None)"
| "matchSegments ts bs = None"

definition pathParameters :: "jstext \<Rightarrow> jstext \<Rightarrow> (jstext \<times> jstext) list option" where
  "pathParameters template address = matchSegments (pathSegments template) (pathSegments address)"

text \<open>A template as the table writes them: each piece a word or one parameter.\<close>

definition isPlainSegment :: "jstext \<Rightarrow> bool" where
  "isPlainSegment t \<longleftrightarrow>
     47 \<notin> set t
     \<and> (if isParamSegment t then startsName (tl t) \<and> list_all isNameUnit (tl t) else 58 \<notin> set t)"

definition isPlainTemplate :: "jstext \<Rightarrow> bool" where
  "isPlainTemplate path \<longleftrightarrow>
     list_all isPlainSegment (pathSegments path) \<and> pathSegments path \<noteq> []
     \<and> joinText [47] (pathSegments path) = path"

definition fillSegment :: "(jstext \<Rightarrow> jstext + jstext) \<Rightarrow> jstext \<Rightarrow> jstext + jstext" where
  "fillSegment f t = (if isParamSegment t then f (tl t) else Inr t)"

lemma isParamSegment_Cons: "isParamSegment t \<longleftrightarrow> (\<exists>n. t = 58 # n)"
  by (cases t) (auto simp: isParamSegment_def)

lemma pathPieces_word: "58 \<notin> set t \<Longrightarrow> pathPieces (t @ s) = map PathUnit t @ pathPieces s"
  by (induction t) auto

lemma takeWhile_name:
  "list_all isNameUnit n \<Longrightarrow> s = [] \<or> hd s = 47 \<Longrightarrow>
     takeWhile isNameUnit (n @ s) = n \<and> dropWhile isNameUnit (n @ s) = s"
  by (induction n) (cases s; auto simp: isNameUnit_def isLower_def isDigit_def)+

lemma pathPieces_param:
  assumes "startsName n" "list_all isNameUnit n" "s = [] \<or> hd s = 47"
  shows "pathPieces (58 # n @ s) = PathParam n # pathPieces s"
proof -
  have "startsName (n @ s)" using assms(1) by (cases n) auto
  with takeWhile_name [OF assms(2,3)] show ?thesis by simp
qed

definition segmentPieces :: "jstext \<Rightarrow> PathPiece list" where
  "segmentPieces t = (if isParamSegment t then [PathParam (tl t)] else map PathUnit t)"

lemma pathPieces_segment:
  assumes "isPlainSegment t" "s = [] \<or> hd s = 47"
  shows "pathPieces (t @ s) = segmentPieces t @ pathPieces s"
proof (cases "isParamSegment t")
  case True
  then obtain n where "t = 58 # n" using isParamSegment_Cons by blast
  with assms True pathPieces_param [of n s] show ?thesis
    by (simp add: isPlainSegment_def segmentPieces_def del: pathPieces.simps)
next
  case False
  with assms pathPieces_word show ?thesis by (simp add: isPlainSegment_def segmentPieces_def)
qed

lemma fillPieces_append:
  "fillPieces f (ps @ qs) =
     (case fillPieces f ps of Inl e \<Rightarrow> Inl e | Inr a \<Rightarrow> map_sum id (\<lambda>r. a @ r) (fillPieces f qs))"
proof (induction ps)
  case Nil
  then show ?case by (cases "fillPieces f qs") auto
next
  case (Cons p ps)
  then show ?case
    by (cases p; cases "fillPieces f ps"; cases "fillPieces f qs") (auto split: sum.splits)
qed

lemma fillPieces_segment: "fillPieces f (segmentPieces t) = fillSegment f t"
proof -
  have "fillPieces f (map PathUnit t) = Inr t" for t by (induction t) auto
  then show ?thesis
    by (cases "f (tl t)") (auto simp: segmentPieces_def fillSegment_def)
qed

lemma filled_segments:
  assumes "list_all isPlainSegment ts" "ts \<noteq> []"
    "fillPieces f (pathPieces (joinText [47] ts)) = Inr e"
  shows "\<exists>bs. e = joinText [47] bs \<and> list_all2 (\<lambda>t a. fillSegment f t = Inr a) ts bs"
  using assms
proof (induction ts arbitrary: e rule: induct_list012)
  case (2 t)
  then have "fillSegment f t = Inr e"
    using pathPieces_segment [of t "[]"] fillPieces_segment [of f t] by simp
  then show ?case by (intro exI [of _ "[e]"]) simp
next
  case (3 t t' ts)
  let ?r = "joinText [47] (t' # ts)"
  have "pathPieces (t @ 47 # ?r) = segmentPieces t @ PathUnit 47 # pathPieces ?r"
    using 3 pathPieces_segment [of t "47 # ?r"] by simp
  then obtain a r where a: "fillSegment f t = Inr a" and r: "fillPieces f (pathPieces ?r) = Inr r"
    and e: "e = a @ 47 # r"
    using "3.prems"(3) by (auto simp: fillPieces_append fillPieces_segment split: sum.splits)
      (cases "fillPieces f (pathPieces ?r)"; auto)
  obtain bs where bs: "r = joinText [47] bs" "list_all2 (\<lambda>t a. fillSegment f t = Inr a) (t' # ts) bs"
    using "3.IH"(2) [OF _ _ r] "3.prems"(1) by auto
  then obtain b bs' where "bs = b # bs'" by (cases bs) auto
  with a e bs show ?case by (intro exI [of _ "a # bs"]) simp
qed simp

section \<open>Which call an address leads to\<close>

definition answersOn :: "RouteDefinition \<Rightarrow> HttpMethod set" where
  "answersOn r = insert (routeMethod r) (set (routeAlso r))"

text \<open>Two templates no address fits both of.\<close>

definition templatesApart :: "jstext list \<Rightarrow> jstext list \<Rightarrow> bool" where
  "templatesApart ts ts' \<longleftrightarrow>
     length ts \<noteq> length ts'
     \<or> list_ex (\<lambda>(t, t'). \<not> isParamSegment t \<and> \<not> isParamSegment t' \<and> t \<noteq> t') (zip ts ts')"

lemma templates_plain: "list_all (\<lambda>(name, r). isPlainTemplate (routePath r)) API_ROUTES"
  by code_simp

text \<open>The methods and the segments of every call, in the order of the table.\<close>

definition routingTable :: "(HttpMethod list \<times> jstext list) list" where
  "routingTable =
     [
      ([POST], [[], u ''v0'', u ''catalog'', u ''publish'']),
      ([GET], [[], u ''v0'', u ''cards'']),
      ([POST], [[], u ''v0'', u ''cards'', u '':item_id'', u ''pause'']),
      ([POST], [[], u ''v0'', u ''cards'', u '':item_id'', u ''resume'']),
      ([POST], [[], u ''v0'', u ''selling'', u ''pause'']),
      ([POST], [[], u ''v0'', u ''selling'', u ''resume'']),
      ([POST], [[], u ''v0'', u ''merchants'']),
      ([GET], [[], u ''v0'', u ''seller-name'']),
      ([POST], [[], u ''v0'', u ''seller-name'']),
      ([GET], [[], u ''v0'', u ''payout-wallet'']),
      ([POST], [[], u ''v0'', u ''payout-wallet'']),
      ([GET], [[], u ''v0'', u ''keys'']),
      ([POST], [[], u ''v0'', u ''keys'']),
      ([POST], [[], u ''v0'', u ''keys'', u '':key_id'', u ''disable'']),
      ([POST], [[], u ''v0'', u ''keys'', u ''cabinet'']),
      ([DELETE], [[], u ''v0'', u ''keys'', u ''cabinet'']),
      ([GET], [[], u ''v0'', u ''orders'', u '':order_id'']),
      ([GET], [[], u ''v0'', u ''orders'']),
      ([GET], [[], u ''v0'', u ''receipts'']),
      ([POST], [[], u ''v0'', u ''worker'', u ''poll'']),
      ([POST], [[], u ''v0'', u ''orders'', u '':order_id'', u ''answer'']),
      ([POST], [[], u ''v0'', u ''orders'', u '':order_id'', u ''deliver'']),
      ([POST], [[], u ''v0'', u ''orders'', u '':order_id'', u ''refuse'']),
      ([POST], [[], u ''v0'', u ''orders'', u '':order_id'', u ''accept'']),
      ([POST], [[], u ''v0'', u ''quotes'', u '':price_id'', u ''answer'']),
      ([GET], [[], u ''x402'', u ''catalog'']),
      ([POST, GET], [[], u ''x402'', u '':item_id'', u ''purchase'']),
      ([GET], [[], u ''x402'', u ''orders'', u '':order_id'', u ''status''])]"

lemma routing_table:
  "map (\<lambda>(name, r). (routeMethod r # routeAlso r, pathSegments (routePath r))) API_ROUTES = routingTable"
  by code_simp

definition entriesApart :: "HttpMethod list \<times> jstext list \<Rightarrow> HttpMethod list \<times> jstext list \<Rightarrow> bool" where
  "entriesApart e e' \<longleftrightarrow>
     templatesApart (snd e) (snd e') \<or> \<not> list_ex (\<lambda>m. m \<in> set (fst e')) (fst e)"

fun eachApart :: "(HttpMethod list \<times> jstext list) list \<Rightarrow> bool" where
  "eachApart [] = True"
| "eachApart (e # es) = (list_all (entriesApart e) es \<and> eachApart es)"

lemma routing_apart: "eachApart routingTable"
  by code_simp

lemma entriesApart_sym: "entriesApart e e' = entriesApart e' e"
proof -
  have "list_ex (\<lambda>(t, t'). \<not> isParamSegment t \<and> \<not> isParamSegment t' \<and> t \<noteq> t') (zip ts ts')
      \<longleftrightarrow> list_ex (\<lambda>(t, t'). \<not> isParamSegment t \<and> \<not> isParamSegment t' \<and> t \<noteq> t') (zip ts' ts)"
    for ts ts'
    by (induction ts ts' rule: list_induct2') auto
  then show ?thesis
    unfolding entriesApart_def templatesApart_def by (auto simp: list_ex_iff)
qed

lemma eachApart_nth:
  "eachApart es \<Longrightarrow> i < length es \<Longrightarrow> j < length es \<Longrightarrow> i \<noteq> j \<Longrightarrow> entriesApart (es ! i) (es ! j)"
proof (induction es arbitrary: i j)
  case (Cons e es)
  then show ?case
    by (cases i; cases j) (auto simp: list_all_iff entriesApart_sym [of _ e])
qed simp

lemma routes_apart:
  assumes "(name, r) \<in> set API_ROUTES" "(name', r') \<in> set API_ROUTES" "name \<noteq> name'"
    and "answersOn r \<inter> answersOn r' \<noteq> {}"
  shows "templatesApart (pathSegments (routePath r)) (pathSegments (routePath r'))"
proof -
  obtain i j where i: "i < length API_ROUTES" "API_ROUTES ! i = (name, r)"
    and j: "j < length API_ROUTES" "API_ROUTES ! j = (name', r')"
    using assms(1,2) by (auto simp: in_set_conv_nth)
  let ?e = "\<lambda>(name, r). (routeMethod r # routeAlso r, pathSegments (routePath r))"
  have "eachApart (map ?e API_ROUTES)" using routing_apart by (simp only: routing_table)
  moreover have "i \<noteq> j" using i j assms(3) by auto
  ultimately have "entriesApart (map ?e API_ROUTES ! i) (map ?e API_ROUTES ! j)"
    using eachApart_nth [of "map ?e API_ROUTES" i j] i(1) j(1) by simp
  then show ?thesis
    using i j assms(4) by (auto simp: entriesApart_def answersOn_def list_ex_iff)
qed

lemma pathValue_out:
  assumes "pathValue path values' n = Inr a"
  obtains v where "map_of values' n = Some (JStr v)" "encodeURIComponent v = Inr a"
  using assms by (auto simp: pathValue_def split: option.splits json.splits if_splits)

lemma filled_read:
  assumes "list_all2 (\<lambda>t a. fillSegment (pathValue path values') t = Inr a) ts bs"
    and "\<And>n v. (n, JStr v) \<in> set values' \<Longrightarrow> isJsString v"
  shows "\<exists>vs. matchSegments ts bs = Some vs \<and> map fst vs = map tl (filter isParamSegment ts)
    \<and> (\<forall>(n, v) \<in> set vs. map_of values' n = Some (JStr v))"
  using assms(1)
proof (induction rule: list_all2_induct)
  case (Cons t ts a bs)
  obtain vs where vs: "matchSegments ts bs = Some vs" "map fst vs = map tl (filter isParamSegment ts)"
    "\<forall>(n, v) \<in> set vs. map_of values' n = Some (JStr v)"
    using Cons.IH by blast
  show ?case
  proof (cases "isParamSegment t")
    case True
    then have "pathValue path values' (tl t) = Inr a" using Cons.hyps(1) by (simp add: fillSegment_def)
    then obtain v where v: "map_of values' (tl t) = Some (JStr v)" "encodeURIComponent v = Inr a"
      by (rule pathValue_out)
    then have "pathPieceRead a = Some v" using encoded_read assms(2) map_of_SomeD by fast
    with True v vs show ?thesis by (intro exI [of _ "(tl t, v) # vs"]) auto
  next
    case False
    then have "a = t" using Cons.hyps(1) by (simp add: fillSegment_def)
    with False vs show ?thesis by simp
  qed
qed simp

lemma filled_no_slash:
  assumes "list_all2 (\<lambda>t a. fillSegment (pathValue path values') t = Inr a) ts bs"
    and "list_all isPlainSegment ts" "\<And>n v. (n, JStr v) \<in> set values' \<Longrightarrow> isJsString v"
  shows "\<forall>a \<in> set bs. 47 \<notin> set a"
  using assms(1,2)
proof (induction rule: list_all2_induct)
  case (Cons t ts a bs)
  have "47 \<notin> set a"
  proof (cases "isParamSegment t")
    case True
    then have "pathValue path values' (tl t) = Inr a" using Cons.hyps(1) by (simp add: fillSegment_def)
    then obtain v where "map_of values' (tl t) = Some (JStr v)" "encodeURIComponent v = Inr a"
      by (rule pathValue_out)
    then show ?thesis using no_slash assms(3) map_of_SomeD by fast
  next
    case False
    then have "a = t" using Cons.hyps(1) by (simp add: fillSegment_def)
    then show ?thesis using Cons.prems by (simp add: isPlainSegment_def)
  qed
  then show ?case using Cons.IH Cons.prems by simp
qed simp

text \<open>What one template fills, a template apart from it does not fit.\<close>

lemma apart_no_match:
  assumes "list_all2 (\<lambda>t a. fillSegment f t = Inr a) ts bs" "templatesApart ts ts'"
  shows "matchSegments ts' bs = None"
proof -
  have other: "templatesApart ts ts' \<Longrightarrow> matchSegments ts' bs = None" for ts'
    using assms(1)
  proof (induction arbitrary: ts' rule: list_all2_induct)
    case Nil
    then show ?case by (cases ts') (auto simp: templatesApart_def)
  next
    case (Cons t ts a bs)
    show ?case
    proof (cases ts')
      case (Cons t' rest)
      have "\<not> isParamSegment t' \<and> t' \<noteq> a \<or> templatesApart ts rest"
        using Cons.prems Cons.hyps(1) Cons by (auto simp: templatesApart_def fillSegment_def)
      then show ?thesis using Cons.IH [of rest] Cons by (auto split: option.splits)
    qed simp
  qed
  then show ?thesis using assms(2) by blast
qed

lemma pathParamsOf_template:
  assumes "list_all isPlainSegment ts" "ts \<noteq> []"
  shows "pathParamsOf (joinText [47] ts) = map tl (filter isParamSegment ts)"
  using assms
proof (induction ts rule: induct_list012)
  case (2 t)
  then show ?case
    using pathPieces_segment [of t "[]"]
    by (auto simp: pathParamsOf_def segmentPieces_def comp_def)
next
  case (3 t t' ts)
  then show ?case
    using pathPieces_segment [of t "47 # joinText [47] (t' # ts)"]
    by (auto simp: pathParamsOf_def segmentPieces_def comp_def)
qed simp

text \<open>C30: An address leads to the call it was built for and carries what was put in. Where
  \<open>expandPath\<close> builds an address of a call, taking it apart along the call's own template gives
  back the parameters in their order with the values they were given, slashes, spaces and all;
  and no other call of the table that answers on one of its methods fits that address.\<close>

theorem expanded_addresses_read_back:
  assumes "(name, r) \<in> set API_ROUTES" "expandPath (routePath r) values' = Inr address"
    and "\<And>n v. (n, JStr v) \<in> set values' \<Longrightarrow> isJsString v"
  shows "(\<exists>vs. pathParameters (routePath r) address = Some vs
      \<and> map fst vs = pathParamsOf (routePath r)
      \<and> (\<forall>(n, v) \<in> set vs. map_of values' n = Some (JStr v)))
    \<and> (\<forall>(name', r') \<in> set API_ROUTES. answersOn r \<inter> answersOn r' \<noteq> {} \<longrightarrow>
          pathParameters (routePath r') address \<noteq> None \<longrightarrow> name' = name)"
proof -
  let ?ts = "pathSegments (routePath r)"
  have plain: "list_all isPlainSegment ?ts" "?ts \<noteq> []" "joinText [47] ?ts = routePath r"
    using templates_plain assms(1) by (auto simp: list_all_iff isPlainTemplate_def)
  have "fillPieces (pathValue (routePath r) values') (pathPieces (joinText [47] ?ts)) = Inr address"
    using assms(2) plain(3) by (simp add: expandPath_def Let_def split: if_splits)
  then obtain bs where bs: "address = joinText [47] bs"
    "list_all2 (\<lambda>t a. fillSegment (pathValue (routePath r) values') t = Inr a) ?ts bs"
    using filled_segments [OF plain(1,2)] by blast
  have "bs \<noteq> []" using bs(2) plain(2) by auto
  then have split: "pathSegments address = bs"
    unfolding bs(1) pathSegments_def
    by (rule split_join_unit) (rule filled_no_slash [OF bs(2) plain(1)], rule assms(3))
  have "name' = name" if r': "(name', r') \<in> set API_ROUTES" "answersOn r \<inter> answersOn r' \<noteq> {}"
    "pathParameters (routePath r') address \<noteq> None" for name' r'
  proof (rule ccontr)
    assume "name' \<noteq> name"
    then have "templatesApart ?ts (pathSegments (routePath r'))"
      using routes_apart [OF assms(1) r'(1) _ r'(2)] by simp
    from apart_no_match [OF bs(2) this] r'(3) show False by (simp add: pathParameters_def split)
  qed
  moreover have "map tl (filter isParamSegment ?ts) = pathParamsOf (routePath r)"
    using pathParamsOf_template [OF plain(1,2)] plain(3) by simp
  ultimately show ?thesis
    using filled_read [OF bs(2) assms(3)] by (auto simp: pathParameters_def split)
qed

lemma spaced_address:
  "expandPath (u ''/v0/cards/:item_id/pause'') [(u ''item_id'', JStr (u ''SKU 100/1''))]
    = Inr (u ''/v0/cards/SKU%20100%2F1/pause'')"
  by code_simp

theorem expanded_addresses_read_back_witness:
  "\<exists>vs. pathParameters (u ''/v0/cards/:item_id/pause'') (u ''/v0/cards/SKU%20100%2F1/pause'') = Some vs
    \<and> map fst vs = [u ''item_id'']"
proof -
  have r: "(''pause_card'', route POST ''/v0/cards/:item_id/pause'' BehindMerchantKey None None
      MerchantCardSchema []) \<in> set API_ROUTES"
    by (simp add: API_ROUTES_def shopRoutes_def)
  have "pathParamsOf (u ''/v0/cards/:item_id/pause'') = [u ''item_id'']" by code_simp
  moreover have "isJsString v" if "(n, JStr v) \<in> set [(u ''item_id'', JStr (u ''SKU 100/1''))]" for n v
    using that by (auto simp: isJsString_def)
  ultimately show ?thesis
    using expanded_addresses_read_back [OF r, of "[(u ''item_id'', JStr (u ''SKU 100/1''))]"]
      spaced_address by (force simp: route_def simp del: u_simps)
qed

section \<open>The key in its header\<close>

lemma trim_id:
  assumes "s \<noteq> []" "\<not> isSpace (hd s)" "\<not> isSpace (last s)"
  shows "trim s = s"
proof -
  have "dropWhile isSpace s = s" using assms(1,2) by (cases s) auto
  moreover have "dropWhile isSpace (rev s) = rev s"
    using assms(1,3) by (cases s rule: rev_cases) auto
  ultimately show ?thesis by (simp add: trim_def)
qed

text \<open>The key the SDK puts into the header is the key the gateway reads out of it: for every
  key of the shape the contract issues, not empty and without white space.\<close>

theorem merchant_key_travels:
  assumes "key \<noteq> []" "list_all (\<lambda>c. \<not> isSpace c) key"
  shows "merchantKeyFrom (Some (merchantKeyHeaderValue key)) = Some key"
proof -
  have sent: "merchantKeyHeaderValue key = u ''Bearer'' @ 32 # key"
    by (simp add: merchantKeyHeaderValue_def)
  have "last key \<in> set key" using assms(1) by simp
  then have "trim (u ''Bearer'' @ 32 # key) = u ''Bearer'' @ 32 # key"
    using assms by (intro trim_id) (auto simp: list_all_iff isSpace_def)
  moreover have "drop 6 (u ''Bearer'' @ 32 # key) = 32 # key" "take 6 (u ''Bearer'' @ 32 # key) = u ''Bearer''"
    by simp_all
  moreover have "list_all2 (\<lambda>c d. c = d \<or> (isUpper c \<and> c + 32 = d)) (u ''Bearer'') (u ''bearer'')"
    by (simp add: isUpper_def)
  moreover obtain c k where "key = c # k" "c \<noteq> 32" "c \<noteq> 9"
    using assms by (cases key) (auto simp: isSpace_def)
  ultimately show ?thesis
    unfolding merchantKeyFrom_def sent option.case Let_def using assms(2) by simp
qed

theorem merchant_key_travels_witness:
  "merchantKeyFrom (Some (merchantKeyHeaderValue (u ''csk_test_1''))) = Some (u ''csk_test_1'')"
  by (rule merchant_key_travels) (simp_all add: isSpace_def)

end
